(* ===== verification/Prelude.thy ===== *)
theory Prelude
  imports Main "HOL-Library.Multiset" "HOL-Library.AList" "HOL-Library.Char_ord" "HOL-Library.List_Lexorder"
    "HOL-Library.Product_Lexorder"
begin

text \<open>
  What every theory of the development shares: the result type of a repository function that may
  raise, Python dictionaries as association lists in insertion order (with the
  \<open>defaultdict(int)\<close> tally and the SQL \<open>GROUP BY ... SUM\<close> that fill most of them), and database
  tables as lists of rows keyed by an id. The collections \<open>result_simps\<close>, \<open>tally_simps\<close> and
  \<open>table_simps\<close> hold the facts the component proofs rewrite with.
\<close>

named_theorems result_simps \<open>inversion of results built with \<open>bindr\<close> and \<open>ensure\<close>\<close>
named_theorems tally_simps \<open>reading and writing dictionaries of quantities\<close>
named_theorems table_simps \<open>reading and writing tables keyed by an id\<close>

section \<open>Results of functions that may raise\<close>

text \<open>
  A function that raises returns \<open>Inl\<close> of the exception. The session of a raising call is rolled
  back by its caller, so an \<open>Inl\<close> carries no state.
\<close>

definition bindr :: "'e + 'a \<Rightarrow> ('a \<Rightarrow> 'e + 'b) \<Rightarrow> 'e + 'b" where
  "bindr m k = (case m of Inl e \<Rightarrow> Inl e | Inr x \<Rightarrow> k x)"

definition ensure :: "bool \<Rightarrow> 'e \<Rightarrow> 'e + 'b \<Rightarrow> 'e + 'b" where
  "ensure ok e k = (if ok then k else Inl e)"

definition raised :: "'e + 'a \<Rightarrow> bool" where
  "raised m = (case m of Inl _ \<Rightarrow> True | Inr _ \<Rightarrow> False)"

lemma bindr_Inl [simp]: "bindr (Inl e) k = Inl e"
  and bindr_Inr [simp]: "bindr (Inr x) k = k x"
  by (simp_all add: bindr_def)

lemma bindr_eq_Inr [result_simps]: "bindr m k = Inr y \<longleftrightarrow> (\<exists>x. m = Inr x \<and> k x = Inr y)"
  by (cases m) auto

lemma bindr_eq_Inl [result_simps]:
  "bindr m k = Inl e \<longleftrightarrow> m = Inl e \<or> (\<exists>x. m = Inr x \<and> k x = Inl e)"
  by (cases m) auto

lemma ensure_True [simp]: "ensure True e k = k"
  and ensure_False [simp]: "ensure False e k = Inl e"
  by (simp_all add: ensure_def)

lemma ensure_eq_Inr [result_simps]: "ensure ok e k = Inr y \<longleftrightarrow> ok \<and> k = Inr y"
  by (simp add: ensure_def)

lemma ensure_eq_Inl [result_simps]:
  "ensure ok e k = Inl e' \<longleftrightarrow> (\<not> ok \<and> e' = e) \<or> (ok \<and> k = Inl e')"
  by (auto simp: ensure_def)

lemma raised_simps [simp]: "raised (Inl e)" "\<not> raised (Inr x)"
  by (simp_all add: raised_def)

section \<open>Dictionaries of quantities\<close>

text \<open>
  A Python dictionary keeps its keys in insertion order and an update of a present key leaves the
  order alone, which is what \<^const>\<open>AList.update\<close> does. \<open>dict_get d k\<close> is \<open>d.get(k, 0)\<close> and
  \<open>dict_add k v d\<close> is \<open>d[k] += v\<close> on a \<open>defaultdict(int)\<close>.
\<close>

definition dict_get :: "('k \<times> int) list \<Rightarrow> 'k \<Rightarrow> int" where
  "dict_get d k = (case map_of d k of None \<Rightarrow> 0 | Some v \<Rightarrow> v)"

definition dict_add :: "'k \<Rightarrow> int \<Rightarrow> ('k \<times> int) list \<Rightarrow> ('k \<times> int) list" where
  "dict_add k v d = AList.update k (dict_get d k + v) d"

definition dict_keys :: "('k \<times> 'v) list \<Rightarrow> 'k list" where
  "dict_keys d = map fst d"

text \<open>\<open>tally\<close>: the accumulation loop \<open>for k, v in xs: d[k] += v\<close> from an empty dictionary.\<close>

definition tally_from :: "('k \<times> int) list \<Rightarrow> ('k \<times> int) list \<Rightarrow> ('k \<times> int) list" where
  "tally_from d xs = foldl (\<lambda>d kv. dict_add (fst kv) (snd kv) d) d xs"

definition tally :: "('k \<times> int) list \<Rightarrow> ('k \<times> int) list" where
  "tally xs = tally_from [] xs"

text \<open>\<open>sum_by key val rows\<close>: \<open>SELECT key, SUM(val) FROM rows GROUP BY key\<close>.\<close>

definition sum_by :: "('r \<Rightarrow> 'k) \<Rightarrow> ('r \<Rightarrow> int) \<Rightarrow> 'r list \<Rightarrow> ('k \<times> int) list" where
  "sum_by key val rows = tally (map (\<lambda>r. (key r, val r)) rows)"

text \<open>The specification the three are measured against: the sum of the values paired with a key.\<close>

definition qty_of :: "('k \<times> int) list \<Rightarrow> 'k \<Rightarrow> int" where
  "qty_of xs k = sum_list (map snd (filter (\<lambda>kv. fst kv = k) xs))"

lemma qty_of_Nil [simp]: "qty_of [] k = 0"
  and qty_of_Cons [simp]: "qty_of (kv # xs) k = (if fst kv = k then snd kv else 0) + qty_of xs k"
  and qty_of_append [simp]: "qty_of (xs @ ys) k = qty_of xs k + qty_of ys k"
  by (simp_all add: qty_of_def)

lemma qty_of_notin: "k \<notin> fst ` set xs \<Longrightarrow> qty_of xs k = 0"
  by (induction xs) auto

lemma qty_of_nonneg: "\<forall>kv \<in> set xs. 0 \<le> snd kv \<Longrightarrow> 0 \<le> qty_of xs k"
  by (induction xs) auto

lemma dict_get_Nil [simp]: "dict_get [] k = 0"
  by (simp add: dict_get_def)

lemma dict_get_Cons [simp]: "dict_get (kv # d) k = (if fst kv = k then snd kv else dict_get d k)"
  by (cases kv) (simp add: dict_get_def)

lemma dict_get_notin [tally_simps]: "k \<notin> fst ` set d \<Longrightarrow> dict_get d k = 0"
  by (induction d) auto

lemma dict_get_distinct: "distinct (map fst d) \<Longrightarrow> dict_get d k = qty_of d k"
  by (induction d) (auto simp: qty_of_notin image_image)

lemma dict_get_add [tally_simps]: "dict_get (dict_add k v d) k' = dict_get d k' + (if k' = k then v else 0)"
  by (auto simp: dict_add_def dict_get_def update_conv')

lemma keys_dict_add [tally_simps]: "fst ` set (dict_add k v d) = insert k (fst ` set d)"
  by (simp add: dict_add_def dom_update)

lemma distinct_dict_add: "distinct (map fst d) \<Longrightarrow> distinct (map fst (dict_add k v d))"
  by (simp add: dict_add_def distinct_update)

lemma tally_from_Cons [simp]: "tally_from d (kv # xs) = tally_from (dict_add (fst kv) (snd kv) d) xs"
  and tally_from_Nil [simp]: "tally_from d [] = d"
  by (simp_all add: tally_from_def)

lemma dict_get_tally_from: "dict_get (tally_from d xs) k = dict_get d k + qty_of xs k"
  by (induction xs arbitrary: d) (auto simp: dict_get_add)

lemma dict_get_tally [tally_simps]: "dict_get (tally xs) k = qty_of xs k"
  by (simp add: tally_def dict_get_tally_from)

lemma keys_tally_from: "fst ` set (tally_from d xs) = fst ` set d \<union> fst ` set xs"
  by (induction xs arbitrary: d) (auto simp: keys_dict_add)

lemma keys_tally [tally_simps]: "fst ` set (tally xs) = fst ` set xs"
  by (simp add: tally_def keys_tally_from)

lemma distinct_tally_from: "distinct (map fst d) \<Longrightarrow> distinct (map fst (tally_from d xs))"
  by (induction xs arbitrary: d) (simp_all add: distinct_dict_add)

lemma distinct_tally [simp]: "distinct (map fst (tally xs))"
  by (simp add: tally_def distinct_tally_from)

lemma tally_Nil [simp]: "tally [] = []"
  by (simp add: tally_def)

lemma tally_eq_Nil [simp]: "tally xs = [] \<longleftrightarrow> xs = []"
  using keys_tally [of xs] by (metis image_is_empty set_empty tally_Nil)

lemma tally_mem: "(k, v) \<in> set (tally xs) \<longleftrightarrow> k \<in> fst ` set xs \<and> v = qty_of xs k"
proof -
  have "(k, v) \<in> set (tally xs) \<longleftrightarrow> k \<in> fst ` set (tally xs) \<and> v = dict_get (tally xs) k"
    by (auto simp: dict_get_def image_iff dest: map_of_is_SomeI [OF distinct_tally] split: option.splits)
      (metis distinct_tally eq_fst_iff map_of_eq_Some_iff option.sel option.distinct(1))+
  then show ?thesis by (simp add: tally_simps)
qed

lemma qty_of_dict_filter_pos:
  "distinct (map fst d) \<Longrightarrow> qty_of (filter (\<lambda>kv. 0 < snd kv) d) k = max 0 (dict_get d k)"
  by (induction d) (auto simp: qty_of_notin dict_get_notin image_image)

lemma dict_get_filter_pos:
  "distinct (map fst d) \<Longrightarrow> dict_get (filter (\<lambda>kv. 0 < snd kv) d) k = max 0 (dict_get d k)"
  using qty_of_dict_filter_pos [of d k] by (simp add: dict_get_distinct distinct_map_filter)

lemma sum_list_mset: "mset xs = mset ys \<Longrightarrow> sum_list xs = sum_list (ys :: int list)"
  by (simp flip: sum_mset_sum_list)

lemma qty_of_mset: "mset xs = mset ys \<Longrightarrow> qty_of xs k = qty_of ys k"
  unfolding qty_of_def by (rule sum_list_mset) simp

lemma qty_of_sort_key [simp]: "qty_of (sort_key f xs) k = qty_of xs k"
  by (rule qty_of_mset) simp

lemma dict_get_sum_by [tally_simps]:
  "dict_get (sum_by key val rows) k = sum_list (map val (filter (\<lambda>r. key r = k) rows))"
  unfolding sum_by_def by (induction rows) (simp_all add: tally_simps)

lemma keys_sum_by [tally_simps]: "fst ` set (sum_by key val rows) = key ` set rows"
  by (simp add: sum_by_def tally_simps image_image)

lemma distinct_sum_by [simp]: "distinct (map fst (sum_by key val rows))"
  by (simp add: sum_by_def)

section \<open>Tables\<close>

text \<open>
  A table is the list of its rows. \<open>find_row\<close> is a lookup by primary key (\<open>session.get\<close>),
  \<open>update_row\<close> an assignment to the row of that key, \<open>delete_rows\<close> a bulk \<open>DELETE ... WHERE\<close>.
\<close>

definition find_row :: "('r \<Rightarrow> nat) \<Rightarrow> nat \<Rightarrow> 'r list \<Rightarrow> 'r option" where
  "find_row key i rows = List.find (\<lambda>r. key r = i) rows"

definition update_row :: "('r \<Rightarrow> nat) \<Rightarrow> nat \<Rightarrow> ('r \<Rightarrow> 'r) \<Rightarrow> 'r list \<Rightarrow> 'r list" where
  "update_row key i f rows = map (\<lambda>r. if key r = i then f r else r) rows"

definition delete_rows :: "('r \<Rightarrow> bool) \<Rightarrow> 'r list \<Rightarrow> 'r list" where
  "delete_rows P rows = filter (\<lambda>r. \<not> P r) rows"

lemma find_row_Some: "find_row key i rows = Some r \<Longrightarrow> r \<in> set rows \<and> key r = i"
  by (auto simp: find_row_def find_Some_iff)

lemma find_row_None [table_simps]: "find_row key i rows = None \<longleftrightarrow> i \<notin> key ` set rows"
  by (auto simp: find_row_def find_None_iff)

lemma find_row_eq_Some [table_simps]:
  "distinct (map key rows) \<Longrightarrow> find_row key i rows = Some r \<longleftrightarrow> r \<in> set rows \<and> key r = i"
  unfolding find_row_def
  by (induction rows) (auto simp: image_iff)

lemma find_row_append:
  "find_row key i (rows @ rows') = (case find_row key i rows of None \<Rightarrow> find_row key i rows' | Some r \<Rightarrow> Some r)"
  unfolding find_row_def by (induction rows) auto

lemma find_row_single [simp]: "find_row key i [r] = (if key r = i then Some r else None)"
  by (simp add: find_row_def)

lemma find_row_update [table_simps]:
  "(\<And>r. key (f r) = key r) \<Longrightarrow>
   find_row key j (update_row key i f rows) =
     (if j = i then map_option f (find_row key j rows) else find_row key j rows)"
  unfolding find_row_def update_row_def by (induction rows) auto

lemma keys_update_row [table_simps]:
  "(\<And>r. key (f r) = key r) \<Longrightarrow> map key (update_row key i f rows) = map key rows"
  by (induction rows) (auto simp: update_row_def)

lemma set_update_row:
  "set (update_row key i f rows) = {if key r = i then f r else r | r. r \<in> set rows}"
  by (auto simp: update_row_def)

lemma update_row_notin: "i \<notin> key ` set rows \<Longrightarrow> update_row key i f rows = rows"
  unfolding update_row_def by (induction rows) auto

lemma update_row_append: "update_row key i f (rows @ rows') = update_row key i f rows @ update_row key i f rows'"
  by (simp add: update_row_def)

lemma sum_rewritten_row:
  fixes g :: "'a \<Rightarrow> int"
  assumes "distinct (map k xs)" and "d \<in> set xs" and "k d = i"
  shows "sum_list (map g (filter P (update_row k i f xs))) =
    sum_list (map g (filter P xs)) - (if P d then g d else 0) + (if P (f d) then g (f d) else 0)"
  using assms
proof (induction xs)
  case (Cons a xs)
  show ?case
  proof (cases "k a = i")
    case True
    then have here: "a = d" "i \<notin> k ` set xs" using Cons.prems by (auto simp: image_iff)
    have "update_row k i f (a # xs) = f d # xs" using here True update_row_notin [OF here(2)] by (simp add: update_row_def)
    then show ?thesis using here by simp
  next
    case False
    then have "d \<in> set xs" using Cons.prems by auto
    then show ?thesis using False Cons by (simp add: update_row_def)
  qed
qed simp

lemma sum_update_row:
  fixes val :: "'r \<Rightarrow> int"
  assumes "distinct (map key rows)" and "find_row key i rows = Some r" and "\<And>r. P (f r) = P r"
  shows "sum_list (map val (filter P (update_row key i f rows))) =
    sum_list (map val (filter P rows)) + (if P r then val (f r) - val r else 0)"
  using sum_rewritten_row [of key rows r i val P f] find_row_Some [OF assms(2)] assms(1,3) by simp

lemma set_delete_rows [table_simps]: "set (delete_rows P rows) = {r \<in> set rows. \<not> P r}"
  by (auto simp: delete_rows_def)

lemma distinct_delete_rows [table_simps]:
  "distinct (map key rows) \<Longrightarrow> distinct (map key (delete_rows P rows))"
  by (simp add: delete_rows_def distinct_map_filter)

text \<open>Python truth of an optional string: \<open>if not s\<close> is true of None and of the empty string.\<close>

definition blank :: "string option \<Rightarrow> bool" where
  "blank s = (case s of None \<Rightarrow> True | Some t \<Rightarrow> t = [])"

text \<open>
  \<open>str.strip\<close> on the ASCII whitespace characters, and the idiom \<open>(s or "").strip() or None\<close> the
  repositories clean optional text with.
\<close>

definition is_space :: "char \<Rightarrow> bool" where
  "is_space c \<longleftrightarrow> c \<in> {CHR '' '', CHR 0x09, CHR 0x0A, CHR 0x0B, CHR 0x0C, CHR 0x0D, CHR 0x1C, CHR 0x1D, CHR 0x1E, CHR 0x1F}"

definition strip :: "string \<Rightarrow> string" where
  "strip s = rev (dropWhile is_space (rev (dropWhile is_space s)))"

definition strip_or_none :: "string option \<Rightarrow> string option" where
  "strip_or_none s =
     (let t = strip (case s of None \<Rightarrow> [] | Some t \<Rightarrow> t) in if t = [] then None else Some t)"

lemma strip_or_none_not_blank: "strip_or_none s = Some t \<Longrightarrow> t \<noteq> []"
  by (auto simp: strip_or_none_def Let_def split: if_splits)

section \<open>Text\<close>

text \<open>
  \<open>str.upper\<close> on ASCII letters, \<open>str.split()\<close> on runs of whitespace, \<open>" ".join\<close>, and the decimal
  rendering of an integer, plain and zero-padded to a width (\<open>f"{n:03d}"\<close>, \<open>f"{n:05d}"\<close>).
\<close>

definition upper_char :: "char \<Rightarrow> char" where
  "upper_char c = (if CHR ''a'' \<le> c \<and> c \<le> CHR ''z'' then char_of (of_char c - 32 :: nat) else c)"

definition upper :: "string \<Rightarrow> string" where
  "upper s = map upper_char s"

fun split_words :: "string \<Rightarrow> string \<Rightarrow> string list" where
  "split_words word [] = (if word = [] then [] else [word])"
| "split_words word (c # cs) =
     (if is_space c then (if word = [] then split_words [] cs else word # split_words [] cs)
      else split_words (word @ [c]) cs)"

fun join_words :: "string list \<Rightarrow> string" where
  "join_words [] = []"
| "join_words [w] = w"
| "join_words (w # ws) = w @ '' '' @ join_words ws"

definition digit :: "nat \<Rightarrow> char" where
  "digit n = char_of (48 + n)"

fun digits :: "nat \<Rightarrow> string" where
  "digits n = (if n < 10 then [digit n] else digits (n div 10) @ [digit (n mod 10)])"

declare digits.simps [simp del]

definition int_str :: "int \<Rightarrow> string" where
  "int_str i = (if i < 0 then ''-'' @ digits (nat (- i)) else digits (nat i))"

definition zero_pad :: "nat \<Rightarrow> int \<Rightarrow> string" where
  "zero_pad w i =
     (if i < 0 then ''-'' @ replicate (w - 1 - length (digits (nat (- i)))) (CHR ''0'') @ digits (nat (- i))
      else replicate (w - length (digits (nat i))) (CHR ''0'') @ digits (nat i))"

text \<open>The value of a decimal numeral; reading back what \<open>digits\<close> and \<open>zero_pad\<close> render.\<close>

definition digit_value :: "char \<Rightarrow> nat" where
  "digit_value c = of_char c - 48"

definition numeral_value :: "string \<Rightarrow> nat" where
  "numeral_value s = foldl (\<lambda>n c. 10 * n + digit_value c) 0 s"

lemma digit_value_digit: "n < 10 \<Longrightarrow> digit_value (digit n) = n"
  by (simp add: digit_value_def digit_def of_char_of)

lemma numeral_value_digits: "numeral_value (digits n) = n"
proof (induction n rule: digits.induct)
  case (1 n)
  then show ?case
    by (cases "n < 10") (simp_all add: digits.simps [of n] numeral_value_def digit_value_digit)
qed

lemma numeral_value_zeros: "numeral_value (replicate k (CHR ''0'') @ s) = numeral_value s"
  by (induction k) (simp_all add: numeral_value_def digit_value_def)

lemma numeral_value_zero_pad: "0 \<le> i \<Longrightarrow> int (numeral_value (zero_pad w i)) = i"
  by (simp add: zero_pad_def numeral_value_zeros numeral_value_digits)

lemma zero_pad_inj: "0 \<le> i \<Longrightarrow> 0 \<le> j \<Longrightarrow> zero_pad w i = zero_pad w j \<longleftrightarrow> i = j"
  by (metis numeral_value_zero_pad)

text \<open>A numeral is one or more decimal digits.\<close>

definition is_numeral :: "string \<Rightarrow> bool" where
  "is_numeral s \<longleftrightarrow> s \<noteq> [] \<and> list_all (\<lambda>c. CHR ''0'' \<le> c \<and> c \<le> CHR ''9'') s"

lemma digit_range: "n < 10 \<Longrightarrow> CHR ''0'' \<le> digit n \<and> digit n \<le> CHR ''9''"
  by (simp add: digit_def less_eq_char_def of_char_of)

lemma digits_not_Nil [simp]: "digits n \<noteq> []"
  by (simp add: digits.simps [of n])

lemma is_numeral_digits: "is_numeral (digits n)"
proof (induction n rule: digits.induct)
  case (1 n)
  then show ?case
    using digit_range [of n] digit_range [of "n mod 10"]
    by (cases "n < 10") (simp_all add: digits.simps [of n] is_numeral_def)
qed

lemma is_numeral_zero_pad: "0 \<le> i \<Longrightarrow> is_numeral (zero_pad w i)"
  using is_numeral_digits [of "nat i"] by (auto simp: zero_pad_def is_numeral_def list_all_iff less_eq_char_def)

lemma upper_char_upper [simp]: "upper_char (upper_char c) = upper_char c"
proof (cases "CHR ''a'' \<le> c \<and> c \<le> CHR ''z''")
  case True
  then have "97 \<le> (of_char c :: nat)" "(of_char c :: nat) \<le> 122" by (simp_all add: less_eq_char_def)
  then have "\<not> 97 \<le> (of_char c - 32 :: nat)" "(of_char c - 32 :: nat) < 256" by linarith+
  with True show ?thesis by (simp add: upper_char_def less_eq_char_def of_char_of)
next
  case False
  then have "upper_char c = c" unfolding upper_char_def by (rule if_not_P)
  then show ?thesis by simp
qed

lemma upper_upper [simp]: "upper (upper s) = upper s"
  by (simp add: upper_def comp_def)

definition word_ok :: "string \<Rightarrow> bool" where
  "word_ok w \<longleftrightarrow> w \<noteq> [] \<and> (\<forall>c \<in> set w. \<not> is_space c)"

lemma split_words_ok:
  "\<forall>c \<in> set word. \<not> is_space c \<Longrightarrow> w \<in> set (split_words word s) \<Longrightarrow> word_ok w"
proof (induction word s rule: split_words.induct)
  case (2 word c cs)
  then show ?case
    by (cases "is_space c"; cases "word = []") (auto simp: word_ok_def)
qed (simp add: word_ok_def split: if_splits)

lemma split_words_chars:
  "w \<in> set (split_words word s) \<Longrightarrow> set w \<subseteq> set word \<union> set s"
  by (induction word s rule: split_words.induct) (auto split: if_splits)

lemma split_words_word:
  "\<forall>c \<in> set w. \<not> is_space c \<Longrightarrow> split_words acc (w @ rest) = split_words (acc @ w) rest"
  by (induction w arbitrary: acc) simp_all

lemma split_join: "\<forall>w \<in> set ws. word_ok w \<Longrightarrow> split_words [] (join_words ws) = ws"
proof (induction ws rule: join_words.induct)
  case (2 w)
  then show ?case using split_words_word [of w "[]" "[]"] by (auto simp: word_ok_def)
next
  case (3 w v ws)
  then have "split_words [] (w @ '' '' @ join_words (v # ws)) = split_words w ('' '' @ join_words (v # ws))"
    using split_words_word [of w "[]"] by (simp add: word_ok_def)
  with 3 show ?case by (simp add: word_ok_def is_space_def)
qed simp

lemma join_words_ends:
  assumes "ws \<noteq> []" and "\<forall>w \<in> set ws. word_ok w"
  shows "join_words ws \<noteq> []" and "\<not> is_space (hd (join_words ws))" and "\<not> is_space (last (join_words ws))"
  using assms by (induction ws rule: join_words.induct) (auto simp: word_ok_def hd_append)

lemma strip_id: "s = [] \<or> (\<not> is_space (hd s) \<and> \<not> is_space (last s)) \<Longrightarrow> strip s = s"
proof -
  assume ends: "s = [] \<or> (\<not> is_space (hd s) \<and> \<not> is_space (last s))"
  then have "dropWhile is_space s = s" and "dropWhile is_space (rev s) = rev s"
    by (auto simp: dropWhile_eq_self_iff hd_rev)
  then show ?thesis by (simp add: strip_def)
qed

lemma join_words_chars: "set (join_words ws) \<subseteq> insert (CHR '' '') (\<Union>(set ` set ws))"
  by (induction ws rule: join_words.induct) auto

end
