(* ===== verification/Tables.thy ===== *)
theory Tables
  imports Prelude
begin

text \<open>
  The data model of \<open>backend/app/models\<close> that the modelled repositories read and write: the enums as
  datatypes with the source's members, each ORM class as a record (a one-to-many collection that is
  only ever reached through its parent is a list field of the parent), and the database as the record
  of its tables. A column that no modelled operation reads or writes is left out. Ids (UUIDs) are
  naturals handed out by a counter, timestamps are naturals passed in by the caller.
\<close>

type_synonym uuid = nat
type_synonym datetime = nat
type_synonym combo = "string \<times> string"

text \<open>A calendar day as year, month and day, which Python compares in that order.\<close>

type_synonym date = "nat \<times> nat \<times> nat"

section \<open>Enums\<close>

datatype classification = SITE_HARDWARE | SHOP_HARDWARE

datatype pull_request_source = PULL_SHOP_ASSEMBLY | PULL_SHIPPING_OUT

datatype pull_request_status = PULL_PENDING | PULL_IN_PROGRESS | PULL_COMPLETED | PULL_CANCELLED

datatype pull_pick_line_state = DRAFT | APPLIED

datatype shop_assembly_request_status = SAR_PENDING | SAR_APPROVED | SAR_REJECTED

datatype shop_assembly_opening_status = OPENING_PENDING | OPENING_BATCHED | OPENING_DISMISSED

datatype shop_assembly_batch_status = BATCH_ACTIVE | BATCH_CANCELLED

datatype shipping_out_request_status = SOR_PENDING | SOR_APPROVED | SOR_REJECTED

datatype shipment_status = SCHEDULED | PICKED_UP | DELIVERED | SHIPMENT_CANCELLED

datatype shipment_container_type = SKID | DOOR_CART | BOX | ENVELOPE | BUNDLE

datatype reservation_source = SHOP_ASSEMBLY_BATCH | SHIPPING_OUT_REQUEST

datatype notification_type =
    PULL_REQUEST_CANCELLED | PULL_REQUEST_COMPLETED | SHIPMENT_COMPLETED | INVENTORY_SHORTFALL
  | GP_WRITE_FAILED | RECEIVE_DRAFT_SUBMITTED | RECEIVE_DRAFT_REJECTED | SHIPPING_REQUEST_REJECTED
  | CLASSIFICATION_CHANGED | SHOP_ASSEMBLY_REQUEST_REJECTED | PULL_REQUEST_CREATED

datatype audit_entity_type = INVENTORY_LOCATION | OPENING_ITEM | STOCK_ITEM | SHOP_ASSEMBLY_OPENING | PULL_REQUEST

datatype audit_action =
    ADJUSTMENT | MOVE | UNLOCATE | RECEIVE | PULL_DEDUCTION | SPOT_CHECK | PUT_AWAY | DESTOCK
  | ALLOCATE_FROM_STOCK | RECLASSIFY | REPORT_DEFICIENT | RESOLVE_DEFICIENT | TRANSFER | RETURN
  | INSTALL_PROGRESS | ASSEMBLY_COMPLETE | REPLACEMENT_RECEIVED | REPLACEMENT_INSTALL | PULL_STAGED
  | PULL_RESTOCK | PULL_CANCELLED_ACTION | POOL_KIND_CHANGE

datatype inventory_entry_source = STOCK_ALLOCATION | LEGACY_MIGRATION | PULL_RESTOCK_ENTRY

datatype pool_kind = STOCK | OVERHEAD

datatype destock_source = CANCELLATION | DEFICIENT_SWAP | OVERAGE | OTHER_SOURCE

datatype destock_cost = ZERO | KEEP

datatype po_status = PO_DRAFT | GP_REGISTERED | VENDOR_CONFIRMED | PARTIALLY_RECEIVED | PO_CLOSED | PO_CANCELLED

datatype gp_job_state = JOB_ACTIVE | JOB_INACTIVE | JOB_CLOSED | NOT_IN_GP

datatype po_document_type = PO_DOCUMENT | VENDOR_ACKNOWLEDGEMENT | MISCELLANEOUS | GENERATED_PO | PACKING_SLIP

datatype receive_draft_status = PENDING_APPROVAL | APPROVING | DRAFT_APPROVED | DRAFT_REJECTED

datatype gp_write_status = QUEUED | IN_FLIGHT | SUCCEEDED | WRITE_FAILED | WRITE_CANCELLED

datatype deficiency_resolution = SEND_TO_STOCK | SCRAP | REPAIR | RETURN_TO_VENDOR | LEAVE_AS_DEFICIENT

datatype return_disposition = RETURN_TO_PROJECT | NON_STOCK | RMA_DEFECTIVE

section \<open>Errors\<close>

text \<open>
  The exceptions of \<open>app/errors.py\<close> the modelled code raises. A message is presentation and is left
  out; the offending field and the shortfalls a gate refuses with are data a caller reads and are
  kept. \<open>IntegrityError\<close> is a database constraint refusing a flush, \<open>PyValueError\<close> and
  \<open>PyAttributeError\<close> (a field read off None) are the builtins, \<open>DataError\<close> is a value a column cannot hold.
\<close>

record shortfall =
  sf_hardware_category :: string
  sf_product_code :: string
  sf_requested :: int
  sf_available :: int
  sf_short :: int
  sf_reserved :: int

datatype app_error =
    ValidationError "string option"
  | NotFoundError
  | ConflictError "string option"
  | InvalidStateTransitionError
  | InventoryShortfallError "shortfall list" uuid "string option" string
  | GpSetupInvalidError
  | GpJobNotOpenError
  | IntegrityError
  | PyValueError
  | PyAttributeError
  | DataError

section \<open>Rows\<close>

record inventory_location =
  il_id :: uuid
  il_project_id :: uuid
  il_warehouse_id :: uuid
  il_hardware_category :: string
  il_product_code :: string
  il_quantity :: int
  il_deficient_quantity :: int
  il_aisle :: "string option"
  il_row :: "string option"
  il_bay :: "string option"
  il_po_line_item_id :: "uuid option"
  il_receive_line_item_id :: "uuid option"
  il_stock_item_id :: "uuid option"
  il_shipment_return_item_id :: "uuid option"
  il_entry_source :: "inventory_entry_source option"
  il_unit_cost :: "int option"
  il_cost_currency :: "string option"
  il_received_at :: datetime

definition il_combo :: "inventory_location \<Rightarrow> combo" where
  "il_combo il = (il_hardware_category il, il_product_code il)"

text \<open>Units of a row that are not condemned: \<open>quantity - deficient_quantity\<close>.\<close>

definition il_free :: "inventory_location \<Rightarrow> int" where
  "il_free il = il_quantity il - il_deficient_quantity il"

record reservation =
  rs_id :: uuid
  rs_project_id :: uuid
  rs_hardware_category :: string
  rs_product_code :: string
  rs_quantity :: int
  rs_source :: reservation_source
  rs_shop_assembly_batch_id :: "uuid option"
  rs_shipping_out_request_id :: "uuid option"

definition rs_combo :: "reservation \<Rightarrow> combo" where
  "rs_combo r = (rs_hardware_category r, rs_product_code r)"

record pull_request_item =
  pi_opening_number :: "string option"
  pi_hardware_category :: string
  pi_product_code :: string
  pi_requested_quantity :: int

definition pi_combo :: "pull_request_item \<Rightarrow> combo" where
  "pi_combo i = (pi_hardware_category i, pi_product_code i)"

record pull_request =
  pr_id :: uuid
  pr_request_number :: string
  pr_project_id :: uuid
  pr_source :: pull_request_source
  pr_status :: pull_request_status
  pr_requested_by :: string
  pr_assigned_to :: "string option"
  pr_assigned_to_user_id :: "string option"
  pr_approved_at :: "datetime option"
  pr_picked_at :: "datetime option"
  pr_picked_by :: "string option"
  pr_completed_at :: "datetime option"
  pr_cancelled_at :: "datetime option"
  pr_cancelled_by :: "string option"
  pr_cancellation_reason :: "string option"
  pr_deleted_at :: "datetime option"
  pr_items :: "pull_request_item list"

record pull_pick_line =
  pk_id :: uuid
  pk_pull_request_id :: uuid
  pk_hardware_category :: string
  pk_product_code :: string
  pk_inventory_location_id :: "uuid option"
  pk_quantity :: int
  pk_state :: pull_pick_line_state
  pk_entered_by :: string
  pk_entered_at :: datetime
  pk_applied_at :: "datetime option"

definition pk_combo :: "pull_pick_line \<Rightarrow> combo" where
  "pk_combo l = (pk_hardware_category l, pk_product_code l)"

record shop_assembly_request_item =
  si_opening_number :: string
  si_hardware_category :: string
  si_product_code :: string
  si_requested_quantity :: int

record shop_assembly_request_opening =
  so_opening_number :: string
  so_status :: shop_assembly_opening_status
  so_batch_id :: "uuid option"
  so_dismissed_by :: "string option"
  so_dismissed_at :: "datetime option"
  so_dismissal_reason :: "string option"

record shop_assembly_request =
  sar_id :: uuid
  sar_request_number :: string
  sar_project_id :: uuid
  sar_status :: shop_assembly_request_status
  sar_created_by :: string
  sar_approved_by :: "string option"
  sar_approved_at :: "datetime option"
  sar_rejected_by :: "string option"
  sar_rejection_reason :: "string option"
  sar_rejected_at :: "datetime option"
  sar_integrity_note :: "string option"
  sar_items :: "shop_assembly_request_item list"
  sar_openings :: "shop_assembly_request_opening list"

record shop_assembly_batch_item =
  bi_opening_number :: string
  bi_hardware_category :: string
  bi_product_code :: string
  bi_allocated_quantity :: int

record shop_assembly_batch =
  sb_id :: uuid
  sb_shop_assembly_request_id :: uuid
  sb_sequence :: int
  sb_batch_number :: string
  sb_status :: shop_assembly_batch_status
  sb_created_by :: string
  sb_pull_request_id :: "uuid option"
  sb_items :: "shop_assembly_batch_item list"

record shipping_out_request_item =
  sri_opening_number :: "string option"
  sri_hardware_category :: string
  sri_product_code :: string
  sri_requested_quantity :: int

record shipping_out_request =
  sor_id :: uuid
  sor_request_number :: string
  sor_project_id :: uuid
  sor_status :: shipping_out_request_status
  sor_created_by :: string
  sor_created_by_user_id :: "string option"
  sor_create_idempotency_key :: "string option"
  sor_approved_by :: "string option"
  sor_approved_at :: "datetime option"
  sor_rejected_by :: "string option"
  sor_rejection_reason :: "string option"
  sor_rejected_at :: "datetime option"
  sor_integrity_note :: "string option"
  sor_pull_request_id :: "uuid option"
  sor_items :: "shipping_out_request_item list"

text \<open>
  The Shipment Site Form header: the two dates and the weight have their own fields, the remaining
  free-text boxes of \<open>SITE_FORM_FIELDS\<close> are an association list from the box's name.
\<close>

record packing_slip_item =
  psi_id :: uuid
  psi_opening_number :: "string option"
  psi_building :: "string option"
  psi_floor :: "string option"
  psi_location :: "string option"
  psi_hardware_category :: string
  psi_product_code :: string
  psi_quantity :: int
  psi_is_manual :: bool

record packing_slip =
  ps_id :: uuid
  ps_packing_slip_number :: string
  ps_project_id :: uuid
  ps_load_id :: "uuid option"
  ps_shipped_by :: string
  ps_shipped_at :: datetime
  ps_status :: shipment_status
  ps_pickup_date :: "date option"
  ps_delivery_date :: "date option"
  ps_weight_lbs :: "int option"
  ps_form :: "(string \<times> string option) list"
  ps_driver_user_id :: "string option"
  ps_driver_name :: "string option"
  ps_picked_up_at :: "datetime option"
  ps_picked_up_by :: "string option"
  ps_delivered_at :: "datetime option"
  ps_delivered_by :: "string option"
  ps_items :: "packing_slip_item list"

text \<open>A truck trip, the things loaded onto it, and the photos of both.\<close>

record shipment_load =
  ld_id :: uuid
  ld_load_number :: string
  ld_company :: string
  ld_lead_project_id :: uuid
  ld_ship_date :: date
  ld_created_by :: string

record shipment_container_item =
  ci_id :: uuid
  ci_opening_number :: "string option"
  ci_hardware_category :: string
  ci_product_code :: string
  ci_quantity :: int
  ci_position :: nat
  ci_is_manual :: bool

record shipment_container =
  sc_id :: uuid
  sc_project_id :: uuid
  sc_container_type :: shipment_container_type
  sc_name :: string
  sc_packing_slip_id :: "uuid option"
  sc_created_by :: string
  sc_created_at :: datetime
  sc_items :: "shipment_container_item list"

record shipment_photo =
  ph_id :: uuid
  ph_container_id :: "uuid option"
  ph_packing_slip_id :: "uuid option"
  ph_s3_key :: string

record shipment_return_item =
  ri_id :: uuid
  ri_packing_slip_item_id :: uuid
  ri_disposition :: return_disposition
  ri_quantity :: int
  ri_hardware_category :: string
  ri_product_code :: string
  ri_opening_number :: "string option"
  ri_rma_reference :: "string option"
  ri_reason_text :: "string option"
  ri_resulting_inventory_location_id :: "uuid option"
  ri_resulting_stock_item_id :: "uuid option"

record shipment_return =
  sr_id :: uuid
  sr_packing_slip_id :: uuid
  sr_warehouse_id :: uuid
  sr_returned_by :: string
  sr_returned_at :: datetime
  sr_reference :: "string option"
  sr_create_idempotency_key :: "string option"
  sr_items :: "shipment_return_item list"

record stock_item =
  st_id :: uuid
  st_warehouse_id :: uuid
  st_hardware_category :: string
  st_product_code :: string
  st_quantity :: int
  st_deficient_quantity :: int
  st_kind :: pool_kind
  st_aisle :: "string option"
  st_row :: "string option"
  st_bay :: "string option"
  st_unit_cost :: "int option"
  st_cost_currency :: "string option"
  st_received_at :: datetime

text \<open>A put-away location defined in a building, and a reviewed outcome for condemned units.\<close>

record warehouse_location =
  wl_id :: uuid
  wl_warehouse_id :: uuid
  wl_aisle :: string
  wl_row :: string
  wl_bay :: string
  wl_active :: bool

record deficiency_review =
  dr_id :: uuid
  dr_inventory_location_id :: "uuid option"
  dr_stock_item_id :: "uuid option"
  dr_resolution :: deficiency_resolution
  dr_quantity :: int
  dr_reason_text :: "string option"
  dr_rma_reference :: "string option"
  dr_reviewed_by :: string
  dr_reviewed_at :: datetime
  dr_resulting_stock_item_id :: "uuid option"

record project =
  pj_id :: uuid
  pj_number :: string
  pj_company :: "string option"
  pj_gp_setup_ok :: "bool option"
  pj_gp_job_state :: "gp_job_state option"

record warehouse =
  wh_id :: uuid
  wh_code :: string
  wh_company :: string
  wh_is_active :: bool
  wh_is_primary :: bool
  wh_created_at :: datetime

text \<open>A PO line with its order's currency (the joins always take the two together).\<close>

record po_line =
  po_line_id :: uuid
  po_line_unit_cost :: "int option"
  po_line_currency :: "string option"
  po_line_order_as :: "string option"
  po_line_po_number :: "string option"
  po_line_po_id :: uuid
  po_line_hardware_category :: string
  po_line_product_code :: string
  po_line_ordered_quantity :: int
  po_line_received_quantity :: int
  po_line_gp_line_ord :: "int option"

record purchase_order =
  po_id :: uuid
  po_company :: string
  po_po_number :: "string option"
  po_project_id :: "uuid option"
  po_pool_kind :: pool_kind
  po_status :: po_status
  po_gp_company :: "string option"
  po_deleted_at :: "datetime option"

record po_document =
  pd_id :: uuid
  pd_po_id :: uuid
  pd_document_type :: po_document_type
  pd_s3_key :: string

text \<open>What was counted of a PO line, and the bins it is meant for.\<close>

record bin_count =
  bc_aisle :: string
  bc_row :: string
  bc_bay :: string
  bc_quantity :: int
  bc_deficient_quantity :: int

record counted_line =
  ct_po_line_item_id :: uuid
  ct_quantity_received :: int
  ct_locations :: "bin_count list"

record receive_draft =
  rd_id :: uuid
  rd_po_id :: uuid
  rd_warehouse_id :: "uuid option"
  rd_packing_slip_document_id :: "uuid option"
  rd_status :: receive_draft_status
  rd_created_by_user_id :: string
  rd_created_by_name :: string
  rd_reviewed_by_user_id :: "string option"
  rd_reviewed_by_name :: "string option"
  rd_reviewed_at :: "datetime option"
  rd_rejection_reason :: "string option"
  rd_notes :: "string option"
  rd_create_idempotency_key :: "string option"
  rd_approval_idempotency_key :: "string option"
  rd_approved_outbox_entry_id :: "uuid option"
  rd_receive_record_id :: "uuid option"
  rd_created_at :: datetime
  rd_updated_at :: datetime
  rd_line_items :: "counted_line list"

record receive_line_item =
  rv_id :: uuid
  rv_po_line_item_id :: uuid
  rv_product :: combo
  rv_quantity_received :: int

record receive_record =
  rr_id :: uuid
  rr_po_id :: uuid
  rr_received_at :: datetime
  rr_received_by :: string
  rr_receipt_number :: "string option"
  rr_batch_number :: "string option"
  rr_notes :: "string option"
  rr_line_items :: "receive_line_item list"

text \<open>
  A queued receipt, with what its drain books; and the ledger of a key: the receipt GP answered with (its
  number and batch), and the record it was booked as.
\<close>

record gp_write =
  gw_id :: uuid
  gw_idempotency_key :: string
  gw_company :: string
  gw_payload_keyed :: bool
  gw_po_id :: uuid
  gw_received_by :: string
  gw_warehouse_id :: "uuid option"
  gw_line_items :: "counted_line list"
  gw_receive_draft_id :: "uuid option"
  gw_project_id :: "uuid option"
  gw_status :: gp_write_status
  gw_attempts :: nat
  gw_next_attempt_at :: datetime
  gw_last_error :: "string option"
  gw_failure_kind :: "string option"
  gw_maybe_in_gp :: bool
  gw_created_at :: datetime
  gw_updated_at :: datetime
  gw_succeeded_at :: "datetime option"

type_synonym gp_receipt = "string option \<times> string option"

datatype ledger_result = BOOKED_AS uuid | LET_GO

record gp_ledger =
  gl_key :: string
  gl_relay_result :: "gp_receipt option"
  gl_result_id :: "ledger_result option"

text \<open>A schedule row, with the number of the opening it hangs off.\<close>

record hardware_item =
  hw_project_id :: uuid
  hw_opening_number :: string
  hw_hardware_category :: string
  hw_product_code :: string
  hw_classification :: "classification option"
  hw_item_quantity :: int
  hw_beyond_schedule_quantity :: int
  hw_unit_cost :: "int option"

text \<open>The JSON detail of an audit row.\<close>

datatype json =
    JNull | JInt int | JBool bool | JStr string | JId uuid
  | JList "json list" | JObj "(string \<times> json) list"

record audit_row =
  au_project_id :: "uuid option"
  au_entity_type :: audit_entity_type
  au_entity_id :: uuid
  au_action :: audit_action
  au_performed_by :: string
  au_detail :: json

record notification =
  no_id :: uuid
  no_project_id :: uuid
  no_recipient_role :: "string option"
  no_recipient_user_id :: "string option"
  no_type :: notification_type
  no_pull_request_id :: "uuid option"
  no_packing_slip_id :: "uuid option"
  no_receive_draft_id :: "uuid option"
  no_is_read :: bool
  no_created_at :: datetime

section \<open>The database\<close>

record db =
  next_id :: nat
  inventory_locations :: "inventory_location list"
  inventory_reservations :: "reservation list"
  pull_requests :: "pull_request list"
  pull_pick_lines :: "pull_pick_line list"
  shop_assembly_requests :: "shop_assembly_request list"
  shop_assembly_batches :: "shop_assembly_batch list"
  shipping_out_requests :: "shipping_out_request list"
  packing_slips :: "packing_slip list"
  shipment_loads :: "shipment_load list"
  shipment_containers :: "shipment_container list"
  shipment_photos :: "shipment_photo list"
  shipment_returns :: "shipment_return list"
  stock_items :: "stock_item list"
  projects :: "project list"
  warehouses :: "warehouse list"
  warehouse_locations :: "warehouse_location list"
  deficiency_reviews :: "deficiency_review list"
  inventory_item_types :: "(string \<times> string) list"
  purchase_orders :: "purchase_order list"
  po_lines :: "po_line list"
  po_documents :: "po_document list"
  receive_drafts :: "receive_draft list"
  receive_records :: "receive_record list"
  gp_write_outbox :: "gp_write list"
  gp_write_idempotency :: "gp_ledger list"
  openings :: "(uuid \<times> string) list"
  hardware_items :: "hardware_item list"
  project_excluded_items :: "(uuid \<times> combo) list"
  request_counters :: "(uuid \<times> int) list"
  packing_slip_counter :: "int option"
  inventory_audit_log :: "audit_row list"
  notifications :: "notification list"

definition empty_db :: db where
  "empty_db = \<lparr>next_id = 0, inventory_locations = [], inventory_reservations = [], pull_requests = [],
     pull_pick_lines = [], shop_assembly_requests = [], shop_assembly_batches = [],
     shipping_out_requests = [], packing_slips = [], shipment_loads = [], shipment_containers = [],
     shipment_photos = [], shipment_returns = [], stock_items = [],
     projects = [], warehouses = [], warehouse_locations = [], deficiency_reviews = [],
     inventory_item_types = [], purchase_orders = [], po_lines = [], po_documents = [], receive_drafts = [],
     receive_records = [], gp_write_outbox = [], gp_write_idempotency = [], openings = [], hardware_items = [],
     project_excluded_items = [], request_counters = [], packing_slip_counter = None,
     inventory_audit_log = [], notifications = []\<rparr>"

type_synonym 'a result = "app_error + 'a"

section \<open>Quantities of a project\<close>

text \<open>
  The three aggregates everything is measured in: what a project holds of a product net of condemned
  units, what is claimed of it in all, and what one holder claims of it.
\<close>

definition on_hand :: "db \<Rightarrow> uuid \<Rightarrow> combo \<Rightarrow> int" where
  "on_hand db p c =
     sum_list (map il_free (filter (\<lambda>il. il_project_id il = p \<and> il_combo il = c) (inventory_locations db)))"

definition claimed :: "db \<Rightarrow> uuid \<Rightarrow> combo \<Rightarrow> int" where
  "claimed db p c =
     sum_list (map rs_quantity (filter (\<lambda>r. rs_project_id r = p \<and> rs_combo r = c) (inventory_reservations db)))"

text \<open>
  The CHECK constraints of the two tables: a row never holds a negative or an over-condemned
  quantity, a claim is for at least one unit and names exactly the holder its source calls for.
\<close>

definition inventory_row_ok :: "inventory_location \<Rightarrow> bool" where
  "inventory_row_ok il \<longleftrightarrow>
     0 \<le> il_quantity il \<and> 0 \<le> il_deficient_quantity il \<and> il_deficient_quantity il \<le> il_quantity il"

definition reservation_row_ok :: "reservation \<Rightarrow> bool" where
  "reservation_row_ok r \<longleftrightarrow> 1 \<le> rs_quantity r \<and>
     (case rs_source r of
        SHOP_ASSEMBLY_BATCH \<Rightarrow> rs_shop_assembly_batch_id r \<noteq> None \<and> rs_shipping_out_request_id r = None
      | SHIPPING_OUT_REQUEST \<Rightarrow> rs_shipping_out_request_id r \<noteq> None \<and> rs_shop_assembly_batch_id r = None)"

lemma on_hand_nonneg: "list_all inventory_row_ok (inventory_locations db) \<Longrightarrow> 0 \<le> on_hand db p c"
  unfolding on_hand_def
  by (rule sum_list_nonneg) (auto simp: list_all_iff inventory_row_ok_def il_free_def)

lemma claimed_nonneg: "list_all reservation_row_ok (inventory_reservations db) \<Longrightarrow> 0 \<le> claimed db p c"
  unfolding claimed_def
  by (rule sum_list_nonneg) (auto simp: list_all_iff reservation_row_ok_def)

end
