(* ===== verification/Notices.thy ===== *)
theory Notices
  imports Tables
begin

text \<open>
  The two append-only records every operation leaves behind: notifications
  (\<open>app/services/notification_service.py\<close>) and the inventory audit log
  (\<open>app/repositories/warehouse/audit.py\<close>). A notification is for an audience or for one person,
  never both; the withdrawals delete exactly the notice they name. The message text is left out.
\<close>

definition PO_RECIPIENT_ROLE :: string where "PO_RECIPIENT_ROLE = ''PO''"
definition SHIPPING_RECIPIENT_ROLE :: string where "SHIPPING_RECIPIENT_ROLE = ''SHIPPING''"
definition SHOP_ASSEMBLY_MANAGER_RECIPIENT_ROLE :: string where
  "SHOP_ASSEMBLY_MANAGER_RECIPIENT_ROLE = ''SHOP_ASSEMBLY_MANAGER''"
definition WAREHOUSE_RECIPIENT_ROLE :: string where "WAREHOUSE_RECIPIENT_ROLE = ''WAREHOUSE''"
definition WAREHOUSE_MANAGER_RECIPIENT_ROLE :: string where
  "WAREHOUSE_MANAGER_RECIPIENT_ROLE = ''WAREHOUSE_MANAGER''"
definition SHOP_ASSEMBLY_RECIPIENT_ROLE :: string where
  "SHOP_ASSEMBLY_RECIPIENT_ROLE = ''SHOP_ASSEMBLY''"

lemmas role_defs = PO_RECIPIENT_ROLE_def SHIPPING_RECIPIENT_ROLE_def WAREHOUSE_RECIPIENT_ROLE_def
  SHOP_ASSEMBLY_MANAGER_RECIPIENT_ROLE_def WAREHOUSE_MANAGER_RECIPIENT_ROLE_def
  SHOP_ASSEMBLY_RECIPIENT_ROLE_def

definition AUDIENCE_ROLES :: "(string \<times> string list) list" where
  "AUDIENCE_ROLES =
    [(PO_RECIPIENT_ROLE, [''PO User'', ''PO Manager'']),
     (SHIPPING_RECIPIENT_ROLE, [''Shipping Out'', ''Shipping Manager'']),
     (SHOP_ASSEMBLY_RECIPIENT_ROLE, [''Shop Assembly User'', ''Shop Assembly Manager'']),
     (SHOP_ASSEMBLY_MANAGER_RECIPIENT_ROLE, [''Shop Assembly Manager'']),
     (WAREHOUSE_RECIPIENT_ROLE, [''Warehouse Staff'', ''Warehouse Manager'']),
     (WAREHOUSE_MANAGER_RECIPIENT_ROLE, [''Warehouse Manager''])]"

definition ALL_AUDIENCE_ROLES :: "string list" where
  "ALL_AUDIENCE_ROLES = [''UC Nexus Admin'', ''Tenant Owner'']"

text \<open>\<open>fresh\<close>: a new UUID.\<close>

definition fresh :: "db \<Rightarrow> uuid \<times> db" where
  "fresh db = (next_id db, db\<lparr>next_id := Suc (next_id db)\<rparr>)"

definition create_notification ::
  "datetime \<Rightarrow> uuid \<Rightarrow> string option \<Rightarrow> notification_type \<Rightarrow> uuid option \<Rightarrow> string option \<Rightarrow>
   uuid option \<Rightarrow> db \<Rightarrow> db result" where
  "create_notification now project_id recipient_role notification_type pull_request_id recipient_user_id
      packing_slip_id db =
     (if (recipient_role = None) = (recipient_user_id = None) then Inl PyValueError
      else if (case recipient_role of None \<Rightarrow> False | Some role \<Rightarrow> role \<notin> set (map fst AUDIENCE_ROLES))
        then Inl PyValueError
      else
        (let (i, db) = fresh db;
             row = \<lparr>no_id = i, no_project_id = project_id, no_recipient_role = recipient_role,
                    no_recipient_user_id = recipient_user_id, no_type = notification_type,
                    no_pull_request_id = pull_request_id, no_packing_slip_id = packing_slip_id, no_receive_draft_id = None,
                    no_is_read = False, no_created_at = now\<rparr>
         in Inr (db\<lparr>notifications := notifications db @ [row]\<rparr>)))"

definition pull_audience :: "pull_request_source \<Rightarrow> string" where
  "pull_audience source =
     (if source = PULL_SHIPPING_OUT then SHIPPING_RECIPIENT_ROLE else SHOP_ASSEMBLY_RECIPIENT_ROLE)"

definition notify_pull_created :: "datetime \<Rightarrow> pull_request \<Rightarrow> db \<Rightarrow> db result" where
  "notify_pull_created now pull db =
     create_notification now (pr_project_id pull) (Some WAREHOUSE_RECIPIENT_ROLE) PULL_REQUEST_CREATED
       (Some (pr_id pull)) None None db"

definition withdraw_pull_created :: "uuid \<Rightarrow> db \<Rightarrow> db" where
  "withdraw_pull_created pull_request_id db =
     db\<lparr>notifications := delete_rows
          (\<lambda>n. no_pull_request_id n = Some pull_request_id \<and> no_type n = PULL_REQUEST_CREATED)
          (notifications db)\<rparr>"

definition withdraw_shipment_scheduled :: "uuid \<Rightarrow> db \<Rightarrow> db" where
  "withdraw_shipment_scheduled packing_slip_id db =
     db\<lparr>notifications := delete_rows
          (\<lambda>n. no_packing_slip_id n = Some packing_slip_id \<and> no_type n = SHIPMENT_COMPLETED)
          (notifications db)\<rparr>"

text \<open>\<open>None\<close> is every audience; the sorted audience names otherwise.\<close>

definition audiences_for :: "string list \<Rightarrow> string list option" where
  "audiences_for roles =
     (if list_ex (\<lambda>r. r \<in> set ALL_AUDIENCE_ROLES) roles then None
      else Some (sort (map fst (filter (\<lambda>a. list_ex (\<lambda>r. r \<in> set (snd a)) roles) AUDIENCE_ROLES))))"

definition has_unread_notification_for_pull ::
  "db \<Rightarrow> uuid \<Rightarrow> notification_type \<Rightarrow> string option \<Rightarrow> bool" where
  "has_unread_notification_for_pull db pull_request_id notification_type recipient_role =
     list_ex (\<lambda>n. no_pull_request_id n = Some pull_request_id \<and> no_type n = notification_type \<and>
         \<not> no_is_read n \<and> (recipient_role = None \<or> no_recipient_role n = recipient_role))
       (notifications db)"

definition notify_po_shortfall :: "datetime \<Rightarrow> uuid \<Rightarrow> uuid option \<Rightarrow> db \<Rightarrow> db result" where
  "notify_po_shortfall now project_id pull_request_id db =
     create_notification now project_id (Some PO_RECIPIENT_ROLE) INVENTORY_SHORTFALL pull_request_id
       None None db"

definition log_audit_event ::
  "uuid option \<Rightarrow> audit_entity_type \<Rightarrow> uuid \<Rightarrow> audit_action \<Rightarrow> string \<Rightarrow> json \<Rightarrow> db \<Rightarrow> db" where
  "log_audit_event project_id entity_type entity_id action performed_by detail db =
     db\<lparr>inventory_audit_log := inventory_audit_log db @
          [\<lparr>au_project_id = project_id, au_entity_type = entity_type, au_entity_id = entity_id,
            au_action = action, au_performed_by = performed_by, au_detail = detail\<rparr>]\<rparr>"

section \<open>Facts\<close>

text \<open>Nothing but the notices, the audit log and the id counter is touched here.\<close>

definition same_stock :: "db \<Rightarrow> db \<Rightarrow> bool" where
  "same_stock a b \<longleftrightarrow> inventory_locations a = inventory_locations b \<and>
     inventory_reservations a = inventory_reservations b"

text \<open>Two databases that agree on every business table.\<close>

definition same_tables :: "db \<Rightarrow> db \<Rightarrow> bool" where
  "same_tables a b \<longleftrightarrow> same_stock a b \<and> pull_requests a = pull_requests b \<and>
     pull_pick_lines a = pull_pick_lines b \<and> shop_assembly_requests a = shop_assembly_requests b \<and>
     shop_assembly_batches a = shop_assembly_batches b \<and>
     shipping_out_requests a = shipping_out_requests b \<and> packing_slips a = packing_slips b \<and>
     shipment_loads a = shipment_loads b \<and> shipment_containers a = shipment_containers b \<and>
     shipment_photos a = shipment_photos b \<and>
     shipment_returns a = shipment_returns b \<and> stock_items a = stock_items b \<and>
     projects a = projects b \<and> warehouses a = warehouses b \<and> po_lines a = po_lines b \<and>
     openings a = openings b \<and> hardware_items a = hardware_items b \<and>
     project_excluded_items a = project_excluded_items b \<and> request_counters a = request_counters b \<and>
     packing_slip_counter a = packing_slip_counter b"

lemma same_tables_refl [simp]: "same_tables a a"
  by (simp add: same_tables_def same_stock_def)

lemma same_tables_trans: "same_tables a b \<Longrightarrow> same_tables b c \<Longrightarrow> same_tables a c"
  by (simp add: same_tables_def same_stock_def)

lemma create_notification_Inr:
  "create_notification now p role ty pull user slip db = Inr db' \<Longrightarrow>
     same_tables db db' \<and> inventory_audit_log db' = inventory_audit_log db \<and>
     next_id db' = Suc (next_id db) \<and>
     (\<exists>n. notifications db' = notifications db @ [n] \<and> no_project_id n = p \<and>
        no_recipient_role n = role \<and> no_recipient_user_id n = user \<and> no_type n = ty \<and>
        no_pull_request_id n = pull \<and> no_packing_slip_id n = slip \<and> \<not> no_is_read n)"
  by (auto simp: create_notification_def fresh_def Let_def same_tables_def same_stock_def split: if_splits)

lemma create_notification_total:
  "(role = None) \<noteq> (user = None) \<Longrightarrow> (\<And>r. role = Some r \<Longrightarrow> r \<in> fst ` set AUDIENCE_ROLES) \<Longrightarrow>
   \<exists>db'. create_notification now p role ty pull user slip db = Inr db'"
  by (cases role) (auto simp: create_notification_def fresh_def Let_def)

lemma audience_pull [simp]: "pull_audience src \<in> fst ` set AUDIENCE_ROLES"
  by (simp add: pull_audience_def AUDIENCE_ROLES_def role_defs)

lemma audience_roles [simp]:
  "PO_RECIPIENT_ROLE \<in> fst ` set AUDIENCE_ROLES"
  "WAREHOUSE_RECIPIENT_ROLE \<in> fst ` set AUDIENCE_ROLES"
  "SHIPPING_RECIPIENT_ROLE \<in> fst ` set AUDIENCE_ROLES"
  "SHOP_ASSEMBLY_RECIPIENT_ROLE \<in> fst ` set AUDIENCE_ROLES"
  by (simp_all add: AUDIENCE_ROLES_def)

lemma log_audit_event_frame [simp]:
  "same_tables db (log_audit_event p ty i act who d db)"
  "notifications (log_audit_event p ty i act who d db) = notifications db"
  "next_id (log_audit_event p ty i act who d db) = next_id db"
  by (simp_all add: log_audit_event_def same_tables_def same_stock_def)

lemma withdraw_frame [simp]:
  "same_tables db (withdraw_pull_created i db)"
  "same_tables db (withdraw_shipment_scheduled i db)"
  by (simp_all add: withdraw_pull_created_def withdraw_shipment_scheduled_def same_tables_def same_stock_def)

end
