(* ===== verification/Reservations.thy ===== *)
theory Reservations
  imports Notices
begin

text \<open>
  \<open>backend/app/repositories/warehouse/reservations.py\<close>: the claim a holder has on stock between
  committing to it and the pull that spends it. The repository's aggregates read the table through
  \<open>sum_by\<close>; creation writes one row per product, release drops a holder's rows whole, consumption
  and partial release decrement row by row and delete at zero. The locale \<open>claim_book\<close> states what
  the request repositories rely on, and is interpreted on these definitions.
\<close>

type_synonym holder = "reservation_source \<times> uuid"

section \<open>Operations\<close>

definition source_column :: "reservation_source \<Rightarrow> reservation \<Rightarrow> uuid option" where
  "source_column s r =
     (case s of
        SHOP_ASSEMBLY_BATCH \<Rightarrow> rs_shop_assembly_batch_id r
      | SHIPPING_OUT_REQUEST \<Rightarrow> rs_shipping_out_request_id r)"

text \<open>\<open>source = s AND column = id\<close>; a NULL column makes the comparison unknown, hence not selected.\<close>

definition held_by :: "holder \<Rightarrow> reservation \<Rightarrow> bool" where
  "held_by h r \<longleftrightarrow> rs_source r = fst h \<and> source_column (fst h) r = Some (snd h)"

text \<open>
  \<open>NOT (source = s AND column = id)\<close> in SQL's three-valued logic: true when the source differs, or when
  the column is known and differs. On a row of the source with a NULL column it is unknown.
\<close>

definition not_held_by :: "holder \<Rightarrow> reservation \<Rightarrow> bool" where
  "not_held_by h r \<longleftrightarrow> rs_source r \<noteq> fst h \<or>
     (case source_column (fst h) r of None \<Rightarrow> False | Some i \<Rightarrow> i \<noteq> snd h)"

definition combo_filter :: "combo list option \<Rightarrow> combo \<Rightarrow> bool" where
  "combo_filter combos c = (case combos of None \<Rightarrow> True | Some pairs \<Rightarrow> c \<in> set pairs)"

definition get_reserved_quantities ::
  "db \<Rightarrow> uuid \<Rightarrow> combo list option \<Rightarrow> holder option \<Rightarrow> (combo \<times> int) list" where
  "get_reserved_quantities db project_id combos exclude =
     sum_by rs_combo rs_quantity
       (filter (\<lambda>r. rs_project_id r = project_id \<and> combo_filter combos (rs_combo r) \<and>
            (case exclude of None \<Rightarrow> True | Some h \<Rightarrow> not_held_by h r))
         (inventory_reservations db))"

definition get_reserved_total :: "db \<Rightarrow> holder \<Rightarrow> int" where
  "get_reserved_total db h = sum_list (map rs_quantity (filter (held_by h) (inventory_reservations db)))"

record availability =
  av_combo :: combo
  av_on_hand_quantity :: int
  av_deficient_quantity :: int
  av_reserved_quantity :: int
  av_available_quantity :: int

definition get_project_availability :: "db \<Rightarrow> uuid \<Rightarrow> availability list" where
  "get_project_availability db project_id =
     (let rows = filter (\<lambda>il. il_project_id il = project_id) (inventory_locations db);
          quantity = sum_by il_combo il_quantity rows;
          deficient = sum_by il_combo il_deficient_quantity rows;
          reserved = get_reserved_quantities db project_id None None;
          combos = dict_keys quantity @ filter (\<lambda>c. c \<notin> set (dict_keys quantity)) (dict_keys reserved)
      in sort_key av_combo
           (map (\<lambda>c. \<lparr>av_combo = c, av_on_hand_quantity = dict_get quantity c,
                      av_deficient_quantity = dict_get deficient c,
                      av_reserved_quantity = dict_get reserved c,
                      av_available_quantity =
                        max 0 (dict_get quantity c - dict_get deficient c - dict_get reserved c)\<rparr>)
             combos))"

definition get_available_quantities :: "db \<Rightarrow> uuid \<Rightarrow> combo list \<Rightarrow> (combo \<times> int) list" where
  "get_available_quantities db project_id combos =
     (if combos = [] then []
      else
        let free = tally (map (\<lambda>il. (il_combo il, il_free il))
              (filter (\<lambda>il. il_project_id il = project_id \<and> combo_filter (Some combos) (il_combo il))
                (inventory_locations db)));
            held = get_reserved_quantities db project_id (Some combos) None
        in map (\<lambda>key. (key, max 0 (dict_get free key - dict_get held key))) (remdups combos))"

definition new_reservation :: "uuid \<Rightarrow> uuid \<Rightarrow> holder \<Rightarrow> combo \<Rightarrow> int \<Rightarrow> reservation" where
  "new_reservation i project_id h c quantity =
     \<lparr>rs_id = i, rs_project_id = project_id, rs_hardware_category = fst c, rs_product_code = snd c,
      rs_quantity = quantity, rs_source = fst h,
      rs_shop_assembly_batch_id = (if fst h = SHOP_ASSEMBLY_BATCH then Some (snd h) else None),
      rs_shipping_out_request_id = (if fst h = SHIPPING_OUT_REQUEST then Some (snd h) else None)\<rparr>"

fun add_reservations :: "uuid \<Rightarrow> holder \<Rightarrow> (combo \<times> int) list \<Rightarrow> db \<Rightarrow> db" where
  "add_reservations project_id h [] db = db"
| "add_reservations project_id h ((c, qty) # rest) db =
     (let (i, db) = fresh db
      in add_reservations project_id h rest
           (db\<lparr>inventory_reservations :=
                 inventory_reservations db @ [new_reservation i project_id h c qty]\<rparr>))"

definition create_reservations :: "uuid \<Rightarrow> holder \<Rightarrow> (combo \<times> int) list \<Rightarrow> db \<Rightarrow> db" where
  "create_reservations project_id h needs db =
     (let totals = tally (filter (\<lambda>need. 0 < snd need) needs)
      in add_reservations project_id h (sort_key fst totals) db)"

definition release_reservations :: "holder \<Rightarrow> db \<Rightarrow> int \<times> db" where
  "release_reservations h db =
     (int (length (filter (held_by h) (inventory_reservations db))),
      db\<lparr>inventory_reservations := delete_rows (held_by h) (inventory_reservations db)\<rparr>)"

text \<open>
  The loop over the selected rows, fused with the write-back: a selected row gives up what is still
  wanted of its product, is deleted when that is all it had, and what it gave is no longer wanted.
\<close>

fun spend_rows ::
  "(reservation \<Rightarrow> bool) \<Rightarrow> (combo \<times> int) list \<Rightarrow> reservation list \<Rightarrow> reservation list \<times> int" where
  "spend_rows selected wanted [] = ([], 0)"
| "spend_rows selected wanted (row # rows) =
     (let want = dict_get wanted (rs_combo row) in
      if \<not> selected row \<or> want \<le> 0 then
        (let (rest, taken) = spend_rows selected wanted rows in (row # rest, taken))
      else
        (let take = min (rs_quantity row) want;
             (rest, taken) = spend_rows selected (AList.update (rs_combo row) (want - take) wanted) rows
         in (if rs_quantity row \<le> take then rest
             else row\<lparr>rs_quantity := rs_quantity row - take\<rparr> # rest,
             take + taken)))"

definition consume_reservations :: "holder \<Rightarrow> (combo \<times> int) list \<Rightarrow> db \<Rightarrow> int \<times> db" where
  "consume_reservations h consumed db =
     (let wanted = filter (\<lambda>kv. 0 < snd kv) consumed in
      if wanted = [] then (0, db)
      else
        (let (rows, taken) = spend_rows
               (\<lambda>r. held_by h r \<and> combo_filter (Some (dict_keys wanted)) (rs_combo r))
               wanted (inventory_reservations db)
         in (taken, db\<lparr>inventory_reservations := rows\<rparr>)))"

definition release_partial_reservations :: "holder \<Rightarrow> (combo \<times> int) list \<Rightarrow> db \<Rightarrow> int \<times> db" where
  "release_partial_reservations h released db =
     (let wanted = filter (\<lambda>kv. 0 < snd kv) released in
      if wanted = [] then (0, db)
      else
        (let (rows, freed) = spend_rows
               (\<lambda>r. held_by h r \<and> combo_filter (Some (dict_keys wanted)) (rs_combo r))
               wanted (inventory_reservations db)
         in (freed, db\<lparr>inventory_reservations := rows\<rparr>)))"

section \<open>Sums over the table\<close>

definition rsum :: "(reservation \<Rightarrow> bool) \<Rightarrow> reservation list \<Rightarrow> int" where
  "rsum P rows = sum_list (map rs_quantity (filter P rows))"

lemma rsum_Nil [simp]: "rsum P [] = 0"
  and rsum_Cons [simp]: "rsum P (r # rows) = (if P r then rs_quantity r else 0) + rsum P rows"
  and rsum_append [simp]: "rsum P (rows @ rows') = rsum P rows + rsum P rows'"
  by (simp_all add: rsum_def)

lemma rsum_nonneg: "list_all reservation_row_ok rows \<Longrightarrow> 0 \<le> rsum P rows"
  by (induction rows) (auto simp: reservation_row_ok_def)

lemma rsum_split: "rsum P rows = rsum (\<lambda>r. P r \<and> Q r) rows + rsum (\<lambda>r. P r \<and> \<not> Q r) rows"
  by (induction rows) auto

lemma rsum_cong: "(\<And>r. r \<in> set rows \<Longrightarrow> P r = Q r) \<Longrightarrow> rsum P rows = rsum Q rows"
  by (induction rows) auto

lemma rsum_none: "(\<And>r. r \<in> set rows \<Longrightarrow> \<not> P r) \<Longrightarrow> rsum P rows = 0"
  by (induction rows) auto

lemma rsum_filter: "rsum P (filter Q rows) = rsum (\<lambda>r. P r \<and> Q r) rows"
  by (induction rows) auto

lemma rsum_mono: "list_all reservation_row_ok rows \<Longrightarrow> (\<And>r. P r \<Longrightarrow> Q r) \<Longrightarrow> rsum P rows \<le> rsum Q rows"
  by (induction rows) (auto simp: reservation_row_ok_def intro: add_increasing)

lemma claimed_rsum: "claimed db p c = rsum (\<lambda>r. rs_project_id r = p \<and> rs_combo r = c) (inventory_reservations db)"
  by (simp add: claimed_def rsum_def)

text \<open>What one holder claims of a product, whatever the project, and inside one project.\<close>

definition held :: "db \<Rightarrow> holder \<Rightarrow> combo \<Rightarrow> int" where
  "held db h c = rsum (\<lambda>r. held_by h r \<and> rs_combo r = c) (inventory_reservations db)"

definition held_in :: "db \<Rightarrow> uuid \<Rightarrow> holder \<Rightarrow> combo \<Rightarrow> int" where
  "held_in db p h c =
     rsum (\<lambda>r. held_by h r \<and> rs_project_id r = p \<and> rs_combo r = c) (inventory_reservations db)"

definition claimed_by_others :: "db \<Rightarrow> uuid \<Rightarrow> holder option \<Rightarrow> combo \<Rightarrow> int" where
  "claimed_by_others db p h c =
     claimed db p c - (case h of None \<Rightarrow> 0 | Some h \<Rightarrow> held_in db p h c)"

text \<open>The well-formed book: the CHECK constraints, and every claim of a holder in the holder's project.\<close>

definition book_ok :: "db \<Rightarrow> bool" where
  "book_ok db \<longleftrightarrow> list_all reservation_row_ok (inventory_reservations db)"

lemma book_okD: "book_ok db \<Longrightarrow> list_all reservation_row_ok (inventory_reservations db)"
  by (simp add: book_ok_def)

lemma not_held_by_iff: "reservation_row_ok r \<Longrightarrow> not_held_by h r \<longleftrightarrow> \<not> held_by h r"
  by (auto simp: reservation_row_ok_def not_held_by_def held_by_def source_column_def
      split: reservation_source.splits option.splits)

lemma held_by_unique: "held_by h r \<Longrightarrow> held_by h' r \<Longrightarrow> h = h'"
  by (cases h; cases h') (auto simp: held_by_def)

lemma held_by_quantity [simp]: "held_by h (r\<lparr>rs_quantity := q\<rparr>) = held_by h r"
  by (simp add: held_by_def source_column_def split: reservation_source.splits)

lemma rs_combo_quantity [simp]: "rs_combo (r\<lparr>rs_quantity := q\<rparr>) = rs_combo r"
  by (simp add: rs_combo_def)

lemma held_by_new [simp]: "held_by h' (new_reservation i p h c q) \<longleftrightarrow> h' = h"
  by (cases h; cases h') (auto simp: held_by_def source_column_def new_reservation_def
      split: reservation_source.splits)

lemma new_reservation_fields [simp]:
  "rs_combo (new_reservation i p h c q) = c"
  "rs_project_id (new_reservation i p h c q) = p"
  "rs_quantity (new_reservation i p h c q) = q"
  by (simp_all add: new_reservation_def rs_combo_def)

lemma new_reservation_ok: "1 \<le> q \<Longrightarrow> reservation_row_ok (new_reservation i p h c q)"
  by (cases "fst h") (simp_all add: reservation_row_ok_def new_reservation_def)

section \<open>Aggregates\<close>

lemma reserved_get:
  assumes "book_ok db"
  shows "dict_get (get_reserved_quantities db p combos ex) c =
    (if combo_filter combos c then claimed_by_others db p ex c else 0)"
proof (cases "combo_filter combos c")
  case False
  then show ?thesis
    by (simp add: get_reserved_quantities_def tally_simps) (rule rsum_none [unfolded rsum_def], auto)
next
  case True
  have ok: "\<And>r. r \<in> set (inventory_reservations db) \<Longrightarrow> reservation_row_ok r"
    using book_okD [OF assms] by (simp add: list_all_iff)
  have "dict_get (get_reserved_quantities db p combos ex) c =
      rsum (\<lambda>r. (rs_project_id r = p \<and> combo_filter combos (rs_combo r) \<and>
        (case ex of None \<Rightarrow> True | Some h \<Rightarrow> not_held_by h r)) \<and> rs_combo r = c) (inventory_reservations db)"
    by (simp add: get_reserved_quantities_def tally_simps rsum_def conj_ac)
  also have "\<dots> = rsum (\<lambda>r. (rs_project_id r = p \<and> rs_combo r = c) \<and>
        \<not> (case ex of None \<Rightarrow> False | Some h \<Rightarrow> held_by h r)) (inventory_reservations db)"
    using True by (intro rsum_cong) (auto simp: not_held_by_iff ok split: option.splits)
  also have "\<dots> = claimed_by_others db p ex c"
    using rsum_split [of "\<lambda>r. rs_project_id r = p \<and> rs_combo r = c" "inventory_reservations db"
        "\<lambda>r. case ex of None \<Rightarrow> False | Some h \<Rightarrow> held_by h r"]
    by (cases ex) (auto simp: claimed_by_others_def claimed_rsum held_in_def conj_ac)
  finally show ?thesis using True by simp
qed

section \<open>Effect of the operations on the book\<close>

text \<open>What a list of needs asks for of a product, zero and negative entries dropped.\<close>

definition positive_qty :: "(combo \<times> int) list \<Rightarrow> combo \<Rightarrow> int" where
  "positive_qty needs c = qty_of (filter (\<lambda>need. 0 < snd need) needs) c"

lemma positive_qty_nonneg: "0 \<le> positive_qty needs c"
  unfolding positive_qty_def by (rule qty_of_nonneg) auto

lemma positive_qty_id: "\<forall>need \<in> set needs. 0 < snd need \<Longrightarrow> positive_qty needs c = qty_of needs c"
  unfolding positive_qty_def by (metis filter_True)

lemma qty_of_pos: "\<forall>need \<in> set needs. 0 < snd need \<Longrightarrow> c \<in> fst ` set needs \<Longrightarrow> 0 < qty_of needs c"
proof (induction needs)
  case (Cons a needs)
  have "0 \<le> qty_of needs c" using Cons.prems(1) by (intro qty_of_nonneg) auto
  with Cons show ?case by (auto intro: add_pos_nonneg)
qed simp

text \<open>Every table but the book is left alone.\<close>

definition book_frame :: "db \<Rightarrow> db \<Rightarrow> bool" where
  "book_frame a b \<longleftrightarrow> a\<lparr>next_id := 0, inventory_reservations := []\<rparr> = b\<lparr>next_id := 0, inventory_reservations := []\<rparr>"

lemma book_frame_refl [simp]: "book_frame a a"
  and book_frame_trans: "book_frame a b \<Longrightarrow> book_frame b c \<Longrightarrow> book_frame a c"
  and book_frame_step [simp]: "book_frame a (a\<lparr>inventory_reservations := x\<rparr>)"
  by (simp_all add: book_frame_def)

lemma book_frameD: "book_frame a b \<Longrightarrow> inventory_locations b = inventory_locations a \<and>
    pull_requests b = pull_requests a \<and> pull_pick_lines b = pull_pick_lines a \<and>
    shop_assembly_requests b = shop_assembly_requests a \<and>
    shop_assembly_batches b = shop_assembly_batches a \<and>
    shipping_out_requests b = shipping_out_requests a \<and> packing_slips b = packing_slips a \<and>
    inventory_audit_log b = inventory_audit_log a \<and> notifications b = notifications a"
  by (cases a; cases b) (simp add: book_frame_def)

lemma add_reservations_frame: "book_frame db (add_reservations p h needs db)"
proof (induction p h needs db rule: add_reservations.induct)
  case (2 p h c qty rest db)
  then show ?case
    by (auto simp: fresh_def intro!: book_frame_trans [OF _ "2.IH"] simp: book_frame_def)
qed simp

lemma add_reservations_rsum:
  assumes "\<And>q i. P (new_reservation i p h c q) = R"
  shows "rsum (\<lambda>r. P r \<and> rs_combo r = c) (inventory_reservations (add_reservations p h needs db)) =
    rsum (\<lambda>r. P r \<and> rs_combo r = c) (inventory_reservations db) + (if R then qty_of needs c else 0)"
proof (induction needs arbitrary: db)
  case (Cons need needs)
  then show ?case by (cases need) (auto simp: fresh_def assms)
qed simp

lemma add_reservations_ok:
  "book_ok db \<Longrightarrow> \<forall>need \<in> set needs. 1 \<le> snd need \<Longrightarrow> book_ok (add_reservations p h needs db)"
  by (induction p h needs db rule: add_reservations.induct)
    (auto simp: fresh_def book_ok_def new_reservation_ok)

lemma created_positive: "(c, q) \<in> set (tally (filter (\<lambda>need. 0 < snd need) needs)) \<Longrightarrow> 1 \<le> q"
  using qty_of_pos [of "filter (\<lambda>need. 0 < snd need) needs" c] by (auto simp: tally_mem)

lemma qty_of_created:
  "qty_of (tally (filter (\<lambda>need. 0 < snd need) needs)) c = positive_qty needs c"
  using dict_get_distinct [OF distinct_tally, of "filter (\<lambda>need. 0 < snd need) needs" c]
  by (simp add: positive_qty_def tally_simps)

lemma create_reservations_frame [simp]: "book_frame db (create_reservations p h needs db)"
  by (simp add: create_reservations_def add_reservations_frame)

lemma create_reservations_ok: "book_ok db \<Longrightarrow> book_ok (create_reservations p h needs db)"
  unfolding create_reservations_def Let_def by (rule add_reservations_ok) (auto dest: created_positive)

lemma held_create:
  "held (create_reservations p h needs db) h' c = held db h' c + (if h' = h then positive_qty needs c else 0)"
  unfolding held_def create_reservations_def Let_def
  by (subst add_reservations_rsum [where R = "h' = h"]) (auto simp: qty_of_created)

lemma claimed_create:
  "claimed (create_reservations p h needs db) p' c = claimed db p' c + (if p' = p then positive_qty needs c else 0)"
  unfolding claimed_rsum create_reservations_def Let_def
  by (subst add_reservations_rsum [where R = "p' = p"]) (auto simp: qty_of_created)

lemma held_in_create:
  "held_in (create_reservations p h needs db) p' h' c =
     held_in db p' h' c + (if p' = p \<and> h' = h then positive_qty needs c else 0)"
  using add_reservations_rsum [where P = "\<lambda>r. held_by h' r \<and> rs_project_id r = p'"
      and R = "p' = p \<and> h' = h" and p = p and h = h and c = c]
  unfolding held_in_def create_reservations_def Let_def by (auto simp: qty_of_created conj_ac)

lemma release_reservations_frame [simp]: "book_frame db (snd (release_reservations h db))"
  by (simp add: release_reservations_def)

lemma release_reservations_ok: "book_ok db \<Longrightarrow> book_ok (snd (release_reservations h db))"
  by (auto simp: release_reservations_def book_ok_def delete_rows_def list_all_iff)

lemma held_release: "held (snd (release_reservations h db)) h' c = (if h' = h then 0 else held db h' c)"
  unfolding held_def release_reservations_def delete_rows_def
  by (auto simp: rsum_filter held_by_def intro!: rsum_none rsum_cong)
    (metis held_by_def prod.expand option.inject)

lemma claimed_release:
  "claimed (snd (release_reservations h db)) p c = claimed db p c - held_in db p h c"
  using rsum_split [of "\<lambda>r. rs_project_id r = p \<and> rs_combo r = c" "inventory_reservations db" "held_by h"]
  by (simp add: claimed_rsum held_in_def release_reservations_def delete_rows_def rsum_filter conj_ac)

lemma held_in_release:
  "held_in (snd (release_reservations h db)) p h' c = (if h' = h then 0 else held_in db p h' c)"
  unfolding held_in_def release_reservations_def delete_rows_def
  by (auto simp: rsum_filter held_by_def intro!: rsum_none rsum_cong)
    (metis held_by_def prod.expand option.inject)

subsection \<open>Spending\<close>

lemma spend_rows_others:
  assumes "\<And>r q. selected (r\<lparr>rs_quantity := q\<rparr>) = selected r"
  shows "filter (\<lambda>r. \<not> selected r) (fst (spend_rows selected wanted rows)) = filter (\<lambda>r. \<not> selected r) rows"
  using assms
  by (induction selected wanted rows rule: spend_rows.induct) (auto simp: Let_def split: prod.splits)

lemma spend_rows_ok: "list_all reservation_row_ok rows \<Longrightarrow> list_all reservation_row_ok (fst (spend_rows selected wanted rows))"
  by (induction selected wanted rows rule: spend_rows.induct)
    (auto simp: Let_def reservation_row_ok_def min_def split: prod.splits reservation_source.splits)

lemma dict_get_update [simp]: "dict_get (AList.update k v d) k' = (if k' = k then v else dict_get d k')"
  by (auto simp: dict_get_def update_conv')

lemma spend_rows_left:
  assumes "\<And>r q. selected (r\<lparr>rs_quantity := q\<rparr>) = selected r" and "list_all reservation_row_ok rows"
  shows "rsum (\<lambda>r. selected r \<and> rs_combo r = c) (fst (spend_rows selected wanted rows)) =
    max 0 (rsum (\<lambda>r. selected r \<and> rs_combo r = c) rows - max 0 (dict_get wanted c))"
  using assms
proof (induction selected wanted rows rule: spend_rows.induct)
  case (2 selected wanted row rows)
  have nonneg: "0 \<le> rsum P rows" for P
    using "2.prems"(2) by (intro rsum_nonneg) simp
  have pos: "1 \<le> rs_quantity row"
    using "2.prems"(2) by (simp add: reservation_row_ok_def)
  show ?case
  proof (cases "\<not> selected row \<or> dict_get wanted (rs_combo row) \<le> 0")
    case True
    with 2 nonneg [of "\<lambda>r. selected r \<and> rs_combo r = c"] pos show ?thesis
      by (auto simp: Let_def split: prod.splits)
  next
    case False
    define take where "take = min (rs_quantity row) (dict_get wanted (rs_combo row))"
    have IH: "rsum (\<lambda>r. selected r \<and> rs_combo r = c)
        (fst (spend_rows selected (AList.update (rs_combo row) (dict_get wanted (rs_combo row) - take) wanted) rows)) =
      max 0 (rsum (\<lambda>r. selected r \<and> rs_combo r = c) rows -
        max 0 (if c = rs_combo row then dict_get wanted c - take else dict_get wanted c))"
      using "2.IH"(2) [OF refl False refl] "2.prems" by (auto simp: take_def)
    with False nonneg [of "\<lambda>r. selected r \<and> rs_combo r = c"] pos "2.prems"(1) show ?thesis
      by (auto simp: Let_def take_def min_def split: prod.splits)
  qed
qed simp

lemma spend_rows_taken:
  assumes "list_all reservation_row_ok rows"
  shows "snd (spend_rows selected wanted rows) = rsum (\<lambda>_. True) rows - rsum (\<lambda>_. True) (fst (spend_rows selected wanted rows))"
  using assms
  by (induction selected wanted rows rule: spend_rows.induct)
    (auto simp: Let_def min_def split: prod.splits)

text \<open>
  Spending by predicate: every quantity-blind sum of the book is what the untouched rows add up to
  plus what is left of the selected ones.
\<close>

lemma spend_rows_keep:
  assumes "\<And>r q. Q (r\<lparr>rs_quantity := q\<rparr>) = Q r" and "\<forall>r \<in> set rows. Q r"
  shows "\<forall>r \<in> set (fst (spend_rows selected wanted rows)). Q r"
  using assms
  by (induction selected wanted rows rule: spend_rows.induct) (auto simp: Let_def split: prod.splits)

lemma spend_rows_rsum:
  assumes sel: "\<And>r q. selected (r\<lparr>rs_quantity := q\<rparr>) = selected r"
    and P: "\<And>r q. P (r\<lparr>rs_quantity := q\<rparr>) = P r"
    and ok: "list_all reservation_row_ok rows"
    and cover: "\<And>r. r \<in> set rows \<Longrightarrow> selected r \<Longrightarrow> P r"
  shows "rsum (\<lambda>r. P r \<and> rs_combo r = c) (fst (spend_rows selected wanted rows)) =
    rsum (\<lambda>r. P r \<and> rs_combo r = c) rows -
      min (rsum (\<lambda>r. selected r \<and> rs_combo r = c) rows) (max 0 (dict_get wanted c))"
proof -
  let ?out = "fst (spend_rows selected wanted rows)"
  have keep: "\<forall>r \<in> set ?out. selected r \<longrightarrow> P r"
    using spend_rows_keep [where Q = "\<lambda>r. selected r \<longrightarrow> P r"] sel P cover by blast
  have part: "rsum (\<lambda>r. P r \<and> rs_combo r = c) rs =
      rsum (\<lambda>r. selected r \<and> rs_combo r = c) rs + rsum (\<lambda>r. P r \<and> rs_combo r = c) (filter (\<lambda>r. \<not> selected r) rs)"
    if "\<forall>r \<in> set rs. selected r \<longrightarrow> P r" for rs
    using that by (induction rs) auto
  have "0 \<le> rsum (\<lambda>r. selected r \<and> rs_combo r = c) rows"
    using ok by (rule rsum_nonneg)
  with part [OF keep] part [of rows] cover spend_rows_left [OF sel ok, of c wanted]
    spend_rows_others [OF sel, of wanted rows]
  show ?thesis by (auto simp: min_def max_def)
qed

lemma spend_rows_rsum_disjoint:
  assumes sel: "\<And>r q. selected (r\<lparr>rs_quantity := q\<rparr>) = selected r"
    and P: "\<And>r q. P (r\<lparr>rs_quantity := q\<rparr>) = P r"
    and off: "\<And>r. r \<in> set rows \<Longrightarrow> selected r \<Longrightarrow> \<not> P r"
  shows "rsum P (fst (spend_rows selected wanted rows)) = rsum P rows"
proof -
  let ?out = "fst (spend_rows selected wanted rows)"
  have "\<forall>r \<in> set ?out. selected r \<longrightarrow> \<not> P r"
    using spend_rows_keep [where Q = "\<lambda>r. selected r \<longrightarrow> \<not> P r"] sel P off by blast
  then have "rsum P ?out = rsum P (filter (\<lambda>r. \<not> selected r) ?out)"
    by (auto simp: rsum_filter intro!: rsum_cong)
  also have "\<dots> = rsum P rows"
    using off by (auto simp: spend_rows_others [OF sel] rsum_filter intro!: rsum_cong)
  finally show ?thesis .
qed

text \<open>Both partial operations are the same decrement.\<close>

lemma release_partial_eq: "release_partial_reservations h ds db = consume_reservations h ds db"
  by (simp add: release_partial_reservations_def consume_reservations_def)

lemma consume_reservations_frame [simp]: "book_frame db (snd (consume_reservations h ds db))"
  by (auto simp: consume_reservations_def Let_def split: prod.splits)

lemma consume_reservations_ok: "book_ok db \<Longrightarrow> book_ok (snd (consume_reservations h ds db))"
  unfolding consume_reservations_def book_ok_def Let_def
  by (simp add: split_beta spend_rows_ok)

definition holder_in :: "db \<Rightarrow> uuid \<Rightarrow> holder \<Rightarrow> bool" where
  "holder_in db p h \<longleftrightarrow> list_all (\<lambda>r. held_by h r \<longrightarrow> rs_project_id r = p) (inventory_reservations db)"

lemma held_in_held: "holder_in db p h \<Longrightarrow> held_in db p h c = held db h c"
  unfolding held_in_def held_def holder_in_def by (rule rsum_cong) (auto simp: list_all_iff)

lemma held_nonneg: "book_ok db \<Longrightarrow> 0 \<le> held db h c"
  by (simp add: held_def book_ok_def rsum_nonneg)

lemma held_in_nonneg: "book_ok db \<Longrightarrow> 0 \<le> held_in db p h c"
  by (simp add: held_in_def book_ok_def rsum_nonneg)

lemma held_in_le_claimed: "book_ok db \<Longrightarrow> held_in db p h c \<le> claimed db p c"
  unfolding held_in_def claimed_rsum book_ok_def by (rule rsum_mono) auto

definition wanted_rows :: "holder \<Rightarrow> (combo \<times> int) list \<Rightarrow> reservation \<Rightarrow> bool" where
  "wanted_rows h ds r \<longleftrightarrow> held_by h r \<and> combo_filter (Some (dict_keys (filter (\<lambda>kv. 0 < snd kv) ds))) (rs_combo r)"

lemma wanted_rows_quantity: "wanted_rows h ds (r\<lparr>rs_quantity := q\<rparr>) = wanted_rows h ds r"
  by (simp add: wanted_rows_def)

lemma consume_reservations_rows:
  "inventory_reservations (snd (consume_reservations h ds db)) =
     fst (spend_rows (wanted_rows h ds) (filter (\<lambda>kv. 0 < snd kv) ds) (inventory_reservations db))"
proof (cases "filter (\<lambda>kv. 0 < snd kv) ds = []")
  case True
  have "fst (spend_rows (wanted_rows h ds) [] rows) = rows" for rows
    by (induction rows) (auto simp: split_beta)
  with True show ?thesis by (simp add: consume_reservations_def)
next
  case False
  then show ?thesis
    by (simp add: consume_reservations_def Let_def wanted_rows_def [abs_def] split: prod.splits)
qed

lemma wanted_rsum:
  assumes "distinct (map fst ds)" and that: "book_ok db"
  shows "min (rsum (\<lambda>r. wanted_rows h ds r \<and> rs_combo r = c) (inventory_reservations db))
      (max 0 (dict_get (filter (\<lambda>kv. 0 < snd kv) ds) c)) = min (held db h c) (max 0 (dict_get ds c))"
proof (cases "0 < dict_get ds c")
  case True
  then have "dict_get (filter (\<lambda>kv. 0 < snd kv) ds) c \<noteq> 0"
    by (simp add: dict_get_filter_pos [OF assms(1)])
  then have "c \<in> fst ` set (filter (\<lambda>kv. 0 < snd kv) ds)"
    using dict_get_notin by metis
  then have "rsum (\<lambda>r. wanted_rows h ds r \<and> rs_combo r = c) (inventory_reservations db) = held db h c"
    unfolding held_def by (intro rsum_cong) (auto simp: wanted_rows_def combo_filter_def dict_keys_def)
  then show ?thesis by (simp add: dict_get_filter_pos [OF assms(1)])
next
  case False
  then show ?thesis
    using held_nonneg [OF that, of h c] rsum_nonneg [OF book_okD [OF that]]
    by (simp add: dict_get_filter_pos [OF assms(1)])
qed

lemma held_consume:
  assumes "book_ok db" and "distinct (map fst ds)"
  shows "held (snd (consume_reservations h ds db)) h' c =
    (if h' = h then max 0 (held db h c - max 0 (dict_get ds c)) else held db h' c)"
proof (cases "h' = h")
  case True
  have "held (snd (consume_reservations h ds db)) h c =
      held db h c - min (held db h c) (max 0 (dict_get ds c))"
    unfolding held_def consume_reservations_rows
    by (subst spend_rows_rsum [where P = "held_by h"])
      (use assms in \<open>simp_all add: wanted_rows_quantity book_okD wanted_rsum [unfolded held_def]\<close>,
        simp add: wanted_rows_def)
  with True show ?thesis by auto
next
  case False
  have "held (snd (consume_reservations h ds db)) h' c = held db h' c"
    unfolding held_def consume_reservations_rows
    by (rule spend_rows_rsum_disjoint)
      (use False in \<open>auto simp: wanted_rows_def dest: held_by_unique\<close>)
  with False show ?thesis by simp
qed

lemma claimed_consume:
  assumes "book_ok db" and "distinct (map fst ds)" and "holder_in db p h"
  shows "claimed (snd (consume_reservations h ds db)) p' c =
    claimed db p' c - (if p' = p then min (held db h c) (max 0 (dict_get ds c)) else 0)"
proof (cases "p' = p")
  case True
  have cover: "rs_project_id r = p" if "r \<in> set (inventory_reservations db)" "wanted_rows h ds r" for r
    using assms(3) that by (auto simp: holder_in_def wanted_rows_def list_all_iff)
  show ?thesis
    unfolding True claimed_rsum consume_reservations_rows
    by (subst spend_rows_rsum [where P = "\<lambda>r. rs_project_id r = p"])
      (use assms cover in \<open>simp_all add: wanted_rows_quantity book_okD wanted_rsum\<close>)
next
  case False
  have "claimed (snd (consume_reservations h ds db)) p' c = claimed db p' c"
    unfolding claimed_rsum consume_reservations_rows
    by (rule spend_rows_rsum_disjoint)
      (use False assms(3) in \<open>auto simp: wanted_rows_quantity wanted_rows_def holder_in_def list_all_iff\<close>)
  with False show ?thesis by simp
qed

section \<open>The contract the holders rely on\<close>

text \<open>
  What a repository that holds claims (shop-assembly batches, shipping-out requests, the pick) may
  assume of the book: creation adds, release empties, consumption takes what is asked up to what is
  held, and no operation touches another holder's claim.
\<close>

locale claim_book =
  fixes ok :: "'s \<Rightarrow> bool"
    and held :: "'s \<Rightarrow> 'h \<Rightarrow> 'c \<Rightarrow> int"
    and create :: "'h \<Rightarrow> ('c \<times> int) list \<Rightarrow> 's \<Rightarrow> 's"
    and release :: "'h \<Rightarrow> 's \<Rightarrow> 's"
    and consume :: "'h \<Rightarrow> ('c \<times> int) list \<Rightarrow> 's \<Rightarrow> 's"
    and amount :: "('c \<times> int) list \<Rightarrow> 'c \<Rightarrow> int"
  assumes ok_create: "ok s \<Longrightarrow> ok (create h needs s)"
    and ok_release: "ok s \<Longrightarrow> ok (release h s)"
    and ok_consume: "ok s \<Longrightarrow> ok (consume h spent s)"
    and nonneg: "ok s \<Longrightarrow> 0 \<le> held s h c"
    and create_held: "held (create h needs s) h' c = held s h' c + (if h' = h then amount needs c else 0)"
    and release_held: "held (release h s) h' c = (if h' = h then 0 else held s h' c)"
    and consume_held: "ok s \<Longrightarrow> distinct (map fst spent) \<Longrightarrow>
      held (consume h spent s) h' c =
        (if h' = h then max 0 (held s h c - max 0 (dict_get spent c)) else held s h' c)"
begin

lemma ok_rewrite: "ok s \<Longrightarrow> ok (create h needs (release h s))"
  by (intro ok_create ok_release)

text \<open>Rewriting a claim (release, then create) leaves exactly the new need.\<close>

lemma rewrite_held:
  "held (create h needs (release h s)) h' c = (if h' = h then amount needs c else held s h' c)"
  by (simp add: create_held release_held)

text \<open>Two partial picks spend what one pick of their sum would.\<close>

lemma consume_twice:
  assumes "ok s" and "distinct (map fst a)" and "distinct (map fst b)" and "distinct (map fst ab)"
    and "0 \<le> dict_get a c" and "0 \<le> dict_get b c" and "dict_get ab c = dict_get a c + dict_get b c"
  shows "held (consume h b (consume h a s)) h' c = held (consume h ab s) h' c"
  using assms by (auto simp: consume_held ok_consume max_def)

lemma consume_covered:
  assumes "ok s" and "distinct (map fst a)" and "0 \<le> dict_get a c" and "dict_get a c \<le> held s h c"
  shows "held (consume h a s) h c = held s h c - dict_get a c"
  using assms by (simp add: consume_held)

end

text \<open>
  The same book seen from one project: the total of all claims, and the bound every writer has to
  keep, that the claims of a product never exceed what the project has free of it.
\<close>

locale project_book = claim_book ok held create release consume amount
  for ok :: "'s \<Rightarrow> bool" and held :: "'s \<Rightarrow> 'h \<Rightarrow> 'c \<Rightarrow> int" and create and release and consume and amount +
  fixes total :: "'s \<Rightarrow> 'c \<Rightarrow> int"
    and belongs :: "'s \<Rightarrow> 'h \<Rightarrow> bool"
  assumes total_create: "total (create h needs s) c = total s c + amount needs c"
    and total_release: "belongs s h \<Longrightarrow> total (release h s) c = total s c - held s h c"
    and total_consume: "ok s \<Longrightarrow> distinct (map fst spent) \<Longrightarrow> belongs s h \<Longrightarrow>
      total (consume h spent s) c = total s c - min (held s h c) (max 0 (dict_get spent c))"
begin

lemma rewrite_total:
  "belongs s h \<Longrightarrow> total (create h needs (release h s)) c = total s c - held s h c + amount needs c"
  by (simp add: total_create total_release)

text \<open>
  Spending what is free for a holder, deducted from the stock in the same step, keeps every claim
  covered - the holder's own remainder included.
\<close>

lemma spend_covered:
  assumes "ok s" and "distinct (map fst spent)" and "belongs s h" and "0 \<le> dict_get spent c"
    and "total s c \<le> free" and "dict_get spent c \<le> free - (total s c - held s h c)"
  shows "total (consume h spent s) c \<le> free - dict_get spent c"
  using assms by (simp add: total_consume min_def)

lemma rewrite_covered:
  assumes "belongs s h" and "amount needs c \<le> free - (total s c - held s h c)"
  shows "total (create h needs (release h s)) c \<le> free"
  using assms by (simp add: rewrite_total)

end

interpretation book: project_book book_ok held "create_reservations p"
  "\<lambda>h db. snd (release_reservations h db)" "\<lambda>h ds db. snd (consume_reservations h ds db)" positive_qty
  "\<lambda>db. claimed db p" "\<lambda>db. holder_in db p" for p :: uuid
proof unfold_locales
  fix db h c
  assume "holder_in db p h"
  then show "claimed (snd (release_reservations h db)) p c = claimed db p c - held db h c"
    by (simp add: claimed_release held_in_held)
qed (simp_all add: create_reservations_ok release_reservations_ok consume_reservations_ok held_nonneg
    held_create held_release held_consume claimed_create claimed_consume)

section \<open>Availability as the wizards see it\<close>

lemma on_hand_tally:
  "dict_get (tally (map (\<lambda>il. (il_combo il, il_free il))
      (filter (\<lambda>il. il_project_id il = p \<and> Q (il_combo il)) (inventory_locations db)))) c =
    (if Q c then on_hand db p c else 0)"
proof -
  have "qty_of (map (\<lambda>il. (il_combo il, il_free il)) (filter (\<lambda>il. il_project_id il = p \<and> Q (il_combo il)) rows)) c =
      (if Q c then sum_list (map il_free (filter (\<lambda>il. il_project_id il = p \<and> il_combo il = c) rows)) else 0)" for rows
    by (induction rows) auto
  then show ?thesis by (simp add: tally_simps on_hand_def)
qed

definition free_stock :: "db \<Rightarrow> uuid \<Rightarrow> combo \<Rightarrow> int" where
  "free_stock db p c = max 0 (on_hand db p c - claimed db p c)"

lemma dict_get_map: "dict_get (map (\<lambda>k. (k, f k)) ks) k = (if k \<in> set ks then f k else 0)"
  by (induction ks) auto

lemma available_quantities_get:
  assumes "book_ok db" and "c \<in> set combos"
  shows "dict_get (get_available_quantities db p combos) c = free_stock db p c"
proof -
  have "combos \<noteq> []" using assms(2) by auto
  then show ?thesis
    using assms on_hand_tally [where Q = "combo_filter (Some combos)" and p = p and db = db and c = c]
    by (simp add: get_available_quantities_def Let_def dict_get_map reserved_get combo_filter_def
        claimed_by_others_def free_stock_def)
qed

end
