(* ===== verification/Sufficiency.thy ===== *)
theory Sufficiency
  imports Reservations
begin

text \<open>
  The shared inventory-sufficiency gate of \<open>warehouse/pull_requests.py\<close>
  (\<open>check_inventory_sufficiency\<close>, \<open>gate_on_available_inventory\<close>): needs are summed per product and
  compared with what the project has on hand, net of condemned units and, when asked, of the claims
  of everyone but an excluded holder. Passing the gate is characterised exactly.
\<close>

record sufficiency_result =
  shortfalls :: "shortfall list"
  inventory_by_combo :: "(combo \<times> inventory_location list) list"

definition sf_combo :: "shortfall \<Rightarrow> combo" where
  "sf_combo s = (sf_hardware_category s, sf_product_code s)"

definition sufficient :: "sufficiency_result \<Rightarrow> bool" where
  "sufficient r \<longleftrightarrow> shortfalls r = []"

definition new_shortfall :: "combo \<Rightarrow> int \<Rightarrow> int \<Rightarrow> int \<Rightarrow> int \<Rightarrow> shortfall" where
  "new_shortfall c req av sh res =
     \<lparr>sf_hardware_category = fst c, sf_product_code = snd c, sf_requested = req, sf_available = av,
      sf_short = sh, sf_reserved = res\<rparr>"

definition rows_of :: "(combo \<times> inventory_location list) list \<Rightarrow> combo \<Rightarrow> inventory_location list" where
  "rows_of by_combo c = (case map_of by_combo c of None \<Rightarrow> [] | Some rows \<Rightarrow> rows)"

text \<open>The rows of the needed products, in the id order the locks are taken in, grouped by product.\<close>

definition needed_rows :: "db \<Rightarrow> uuid \<Rightarrow> combo list \<Rightarrow> (combo \<times> inventory_location list) list" where
  "needed_rows db project_id combos =
     (let rows = sort_key il_id (filter (\<lambda>il. il_project_id il = project_id \<and> il_combo il \<in> set combos)
            (inventory_locations db))
      in map (\<lambda>c. (c, filter (\<lambda>il. il_combo il = c) rows)) (remdups (map il_combo rows)))"

text \<open>One turn of the comparison loop: the shortfall of a product, if it has one.\<close>

definition combo_shortfall ::
  "(combo \<times> inventory_location list) list \<Rightarrow> (combo \<times> int) list \<Rightarrow> combo \<times> int \<Rightarrow> shortfall option" where
  "combo_shortfall inv_by_combo reserved_by_combo need =
     (let free = sum_list (map il_free (rows_of inv_by_combo (fst need)));
          res = dict_get reserved_by_combo (fst need);
          av = max 0 (free - res)
      in if av < snd need then Some (new_shortfall (fst need) (snd need) av (snd need - av) res) else None)"

definition check_inventory_sufficiency ::
  "db \<Rightarrow> uuid \<Rightarrow> (combo \<times> int) list \<Rightarrow> bool \<Rightarrow> holder option \<Rightarrow> sufficiency_result" where
  "check_inventory_sufficiency db project_id needs reservation_aware exclude_reservations_of =
     (let needed_combos = tally needs;
          inv_by_combo = needed_rows db project_id (dict_keys needed_combos);
          reserved_by_combo =
            (if reservation_aware \<and> needed_combos \<noteq> []
             then get_reserved_quantities db project_id (Some (dict_keys needed_combos)) exclude_reservations_of
             else [])
      in \<lparr>shortfalls = sort_key sf_combo
             (List.map_filter (combo_shortfall inv_by_combo reserved_by_combo) needed_combos),
          inventory_by_combo = inv_by_combo\<rparr>)"

definition gate_on_available_inventory ::
  "db \<Rightarrow> uuid \<Rightarrow> (combo \<times> int) list \<Rightarrow> string \<Rightarrow> string option \<Rightarrow> unit result" where
  "gate_on_available_inventory db project_id needs label request_number =
     (let result = check_inventory_sufficiency db project_id needs True None
      in if sufficient result then Inr ()
         else Inl (InventoryShortfallError (shortfalls result) project_id request_number label))"

section \<open>What the gate decides\<close>

text \<open>What is free of a product for a claimant whose own claim does not count against it.\<close>

definition free_for :: "db \<Rightarrow> uuid \<Rightarrow> bool \<Rightarrow> holder option \<Rightarrow> combo \<Rightarrow> int" where
  "free_for db p aware ex c =
     max 0 (on_hand db p c - (if aware then claimed_by_others db p ex c else 0))"

lemma free_for_all: "free_for db p True None c = free_stock db p c"
  by (simp add: free_for_def free_stock_def claimed_by_others_def)

lemma sum_list_sort_key: "sum_list (map f (filter P (sort_key k xs))) = sum_list (map (f :: _ \<Rightarrow> int) (filter P xs))"
  by (rule sum_list_mset) simp

lemma map_of_grouped:
  "map_of (map (\<lambda>c. (c, g c)) cs) c = (if c \<in> set cs then Some (g c) else None)"
  by (induction cs) auto

lemma on_hand_rows:
  assumes "c \<in> set keys"
  shows "sum_list (map il_free (rows_of (needed_rows db p keys) c)) = on_hand db p c"
proof -
  let ?rows = "filter (\<lambda>il. il_project_id il = p \<and> il_combo il \<in> set keys) (inventory_locations db)"
  have eq: "filter (\<lambda>il. il_combo il = c) ?rows =
      filter (\<lambda>il. il_project_id il = p \<and> il_combo il = c) (inventory_locations db)"
    using assms by (auto simp: filter_filter intro: filter_cong)
  show ?thesis
  proof (cases "c \<in> il_combo ` set ?rows")
    case True
    then have "sum_list (map il_free (rows_of (needed_rows db p keys) c)) =
        sum_list (map il_free (filter (\<lambda>il. il_combo il = c) ?rows))"
      by (simp add: needed_rows_def Let_def rows_of_def map_of_grouped sum_list_sort_key del: filter_filter)
    then show ?thesis by (simp only: eq on_hand_def)
  next
    case False
    then have "filter (\<lambda>il. il_project_id il = p \<and> il_combo il = c) (inventory_locations db) = []"
      using assms by (auto simp: filter_empty_conv)
    with False show ?thesis
      by (auto simp: needed_rows_def Let_def rows_of_def map_of_grouped on_hand_def)
  qed
qed

lemma set_map_filter: "set (List.map_filter f xs) = {y. \<exists>x \<in> set xs. f x = Some y}"
  by (force simp: List.map_filter_def image_iff)

lemma new_shortfall_simps [simp]:
  "sf_combo (new_shortfall c req av sh res) = c" "sf_requested (new_shortfall c req av sh res) = req"
  "sf_available (new_shortfall c req av sh res) = av" "sf_short (new_shortfall c req av sh res) = sh"
  "sf_reserved (new_shortfall c req av sh res) = res"
  by (simp_all add: new_shortfall_def sf_combo_def)

text \<open>The shortfalls are exactly the products whose need exceeds what is free, with that arithmetic.\<close>

lemma shortfalls_iff:
  assumes "book_ok db"
  shows "s \<in> set (shortfalls (check_inventory_sufficiency db p needs aware ex)) \<longleftrightarrow>
    (\<exists>c \<in> fst ` set needs. free_for db p aware ex c < qty_of needs c \<and>
       s = new_shortfall c (qty_of needs c) (free_for db p aware ex c)
             (qty_of needs c - free_for db p aware ex c) (if aware then claimed_by_others db p ex c else 0))"
    (is "?lhs \<longleftrightarrow> ?rhs")
proof -
  let ?rows = "needed_rows db p (dict_keys (tally needs))"
  let ?res = "if aware \<and> tally needs \<noteq> []
      then get_reserved_quantities db p (Some (dict_keys (tally needs))) ex else []"
  have gap: "combo_shortfall ?rows ?res (c, q) = (if free_for db p aware ex c < q
      then Some (new_shortfall c q (free_for db p aware ex c) (q - free_for db p aware ex c)
             (if aware then claimed_by_others db p ex c else 0)) else None)"
    if "c \<in> fst ` set needs" for c q
  proof -
    have "dict_get ?res c = (if aware then claimed_by_others db p ex c else 0)"
      using that assms by (auto simp: reserved_get combo_filter_def dict_keys_def tally_simps)
    moreover have "sum_list (map il_free (rows_of ?rows c)) = on_hand db p c"
      using that by (intro on_hand_rows) (simp add: dict_keys_def tally_simps)
    ultimately show ?thesis by (simp add: combo_shortfall_def Let_def free_for_def)
  qed
  have "?lhs \<longleftrightarrow> (\<exists>c q. (c, q) \<in> set (tally needs) \<and> combo_shortfall ?rows ?res (c, q) = Some s)"
    by (simp add: check_inventory_sufficiency_def Let_def set_map_filter Bex_def split_paired_Ex)
  also have "\<dots> \<longleftrightarrow> (\<exists>c \<in> fst ` set needs. combo_shortfall ?rows ?res (c, qty_of needs c) = Some s)"
    unfolding tally_mem by blast
  also have "\<dots> \<longleftrightarrow> ?rhs"
    by (rule bex_cong [OF refl], subst gap) auto
  finally show ?thesis .
qed

lemma sufficient_iff:
  assumes "book_ok db"
  shows "sufficient (check_inventory_sufficiency db p needs aware ex) \<longleftrightarrow>
    (\<forall>c \<in> fst ` set needs. qty_of needs c \<le> free_for db p aware ex c)"
proof -
  have "sufficient (check_inventory_sufficiency db p needs aware ex) \<longleftrightarrow>
      (\<forall>s. s \<notin> set (shortfalls (check_inventory_sufficiency db p needs aware ex)))"
    unfolding sufficient_def by (metis empty_iff empty_set last_in_set)
  then show ?thesis unfolding shortfalls_iff [OF assms] by (simp only: not_less [symmetric]) blast
qed

lemma gate_Inr:
  assumes "book_ok db"
  shows "gate_on_available_inventory db p needs label number = Inr () \<longleftrightarrow>
    (\<forall>c \<in> fst ` set needs. qty_of needs c \<le> free_stock db p c)"
  by (simp add: gate_on_available_inventory_def Let_def sufficient_iff [OF assms] free_for_all)

lemma inventory_by_combo_on_hand:
  assumes "c \<in> fst ` set needs"
  shows "sum_list (map il_free (rows_of (inventory_by_combo (check_inventory_sufficiency db p needs aware ex)) c)) =
    on_hand db p c"
  using assms on_hand_rows [where keys = "dict_keys (tally needs)" and c = c and p = p and db = db]
  by (simp add: check_inventory_sufficiency_def Let_def dict_keys_def tally_simps)

text \<open>
  The gate followed by the creation keeps the project solvent: the claims of a product, the new one
  included, never exceed what is on hand of it.
\<close>

definition solvent_at :: "db \<Rightarrow> uuid \<Rightarrow> combo \<Rightarrow> bool" where
  "solvent_at db p c \<longleftrightarrow> claimed db p c \<le> max 0 (on_hand db p c)"

lemma gated_create_solvent:
  assumes "book_ok db" and "gate_on_available_inventory db p needs label number = Inr ()"
    and "\<forall>need \<in> set needs. 0 < snd need" and "solvent_at db p' c"
    and "\<And>c. on_hand db' p' c = on_hand db p' c" and "\<And>c. claimed db' p' c = claimed db p' c"
  shows "solvent_at (create_reservations p h needs db') p' c"
proof -
  have "on_hand (create_reservations p h needs db') p' c = on_hand db p' c"
    using book_frameD [OF create_reservations_frame] assms(5) by (simp add: on_hand_def)
  moreover have "claimed (create_reservations p h needs db') p' c =
      claimed db p' c + (if p' = p then qty_of needs c else 0)"
    using assms(3,6) by (simp add: claimed_create positive_qty_id)
  moreover have "qty_of needs c \<le> max 0 (on_hand db p c - claimed db p c)"
    using assms(1,2) qty_of_notin [of c needs]
    by (cases "c \<in> fst ` set needs") (auto simp: gate_Inr free_stock_def)
  moreover have "0 \<le> claimed db p c"
    using assms(1) by (simp add: book_ok_def claimed_nonneg)
  moreover have "0 \<le> qty_of needs c"
    using assms(3) by (intro qty_of_nonneg) auto
  ultimately show ?thesis using assms(4) by (auto simp: solvent_at_def max_def split: if_splits)
qed

end
