(* ===== verification/Picking.thy ===== *)
theory Picking
  imports Sufficiency
begin

text \<open>
  The pick flow of \<open>warehouse/pull_requests.py\<close>: a pull is started, its sheet read and drafted, and
  the pick confirmed - the one moment stock leaves a shelf. \<open>confirm_pick\<close> is the atomic swap of
  the holder's claim for the deduction of exactly the rows the picker dictated, under three ceilings.
  This theory holds the definitions; what they guarantee is in \<open>PickingFacts\<close>.
\<close>

section \<open>Lookups\<close>

definition find_reservation_holder :: "db \<Rightarrow> pull_request \<Rightarrow> holder option" where
  "find_reservation_holder db pr =
     (case pr_source pr of
        PULL_SHOP_ASSEMBLY \<Rightarrow>
          map_option (\<lambda>b. (SHOP_ASSEMBLY_BATCH, sb_id b))
            (List.find (\<lambda>b. sb_pull_request_id b = Some (pr_id pr)) (shop_assembly_batches db))
      | PULL_SHIPPING_OUT \<Rightarrow>
          map_option (\<lambda>r. (SHIPPING_OUT_REQUEST, sor_id r))
            (List.find (\<lambda>r. sor_pull_request_id r = Some (pr_id pr)) (shipping_out_requests db)))"

text \<open>\<open>lock_rows\<close> on one pull: the row, or the not-found error of every caller.\<close>

definition lock_pull :: "db \<Rightarrow> uuid \<Rightarrow> pull_request result" where
  "lock_pull db i = (case find_row pr_id i (pull_requests db) of None \<Rightarrow> Inl NotFoundError | Some pr \<Rightarrow> Inr pr)"

definition get_pull_request_details :: "db \<Rightarrow> uuid \<Rightarrow> pull_request result" where
  "get_pull_request_details db i =
     (case find_row pr_id i (filter (\<lambda>pr. pr_deleted_at pr = None) (pull_requests db)) of
        None \<Rightarrow> Inl NotFoundError | Some pr \<Rightarrow> Inr pr)"

definition set_pull :: "uuid \<Rightarrow> (pull_request \<Rightarrow> pull_request) \<Rightarrow> db \<Rightarrow> db" where
  "set_pull i f db = db\<lparr>pull_requests := update_row pr_id i f (pull_requests db)\<rparr>"

definition line_requirements :: "pull_request \<Rightarrow> (combo \<times> int) list" where
  "line_requirements pr =
     tally (map (\<lambda>item. (pi_combo item, pi_requested_quantity item))
       (filter (\<lambda>item. 0 < pi_requested_quantity item) (pr_items pr)))"

definition claimable_by_combo :: "db \<Rightarrow> pull_request \<Rightarrow> combo list \<Rightarrow> (combo \<times> int) list" where
  "claimable_by_combo db pr combos =
     (if combos = [] then []
      else
        let free = sum_by il_combo il_free
              (filter (\<lambda>il. il_project_id il = pr_project_id pr \<and> il_combo il \<in> set combos)
                (inventory_locations db));
            held = get_reserved_quantities db (pr_project_id pr) (Some combos) (find_reservation_holder db pr)
        in map (\<lambda>c. (c, max 0 (dict_get free c - dict_get held c))) combos)"

definition pick_lines :: "db \<Rightarrow> uuid \<Rightarrow> pull_pick_line_state option \<Rightarrow> pull_pick_line list" where
  "pick_lines db i st =
     filter (\<lambda>l. pk_pull_request_id l = i \<and> (st = None \<or> st = Some (pk_state l))) (pull_pick_lines db)"

definition applied_by_combo :: "db \<Rightarrow> uuid \<Rightarrow> (combo \<times> int) list" where
  "applied_by_combo db i =
     sum_by pk_combo pk_quantity
       (filter (\<lambda>l. pk_pull_request_id l = i \<and> pk_state l = APPLIED) (pull_pick_lines db))"

definition outstanding_needs :: "db \<Rightarrow> pull_request \<Rightarrow> (combo \<times> int) list" where
  "outstanding_needs db pr =
     (let already = applied_by_combo db (pr_id pr)
      in List.map_filter
           (\<lambda>(c, total). let remaining = total - dict_get already c
              in if 0 < remaining then Some (c, remaining) else None)
           (line_requirements pr))"

definition get_partially_picked_pull_ids :: "db \<Rightarrow> uuid list \<Rightarrow> uuid list" where
  "get_partially_picked_pull_ids db ids =
     remdups (map pk_pull_request_id
       (filter (\<lambda>l. pk_pull_request_id l \<in> set ids \<and> pk_state l = APPLIED) (pull_pick_lines db)))"

section \<open>Starting a pick\<close>

definition start_pull_request_pick ::
  "datetime \<Rightarrow> uuid \<Rightarrow> string \<Rightarrow> string option \<Rightarrow> db \<Rightarrow> db result" where
  "start_pull_request_pick now i started_by started_by_user_id db =
     bindr (lock_pull db i) (\<lambda>pr.
       ensure (pr_deleted_at pr = None) NotFoundError (
       ensure (pr_status pr = PULL_PENDING) InvalidStateTransitionError (
       Inr (set_pull i (\<lambda>pr. pr\<lparr>pr_status := PULL_IN_PROGRESS, pr_assigned_to := Some started_by,
                                 pr_assigned_to_user_id := started_by_user_id,
                                 pr_approved_at := Some now\<rparr>) db))))"

section \<open>The pick sheet\<close>

record pick_sheet_location =
  sl_inventory_location_id :: uuid
  sl_warehouse_id :: uuid
  sl_warehouse_code :: "string option"
  sl_aisle :: "string option"
  sl_row :: "string option"
  sl_bay :: "string option"
  sl_available :: int
  sl_received_at :: datetime
  sl_draft_quantity :: int
  sl_applied_quantity :: int
  sl_order_as :: "string option"
  sl_po_number :: "string option"

record pick_sheet_section =
  ss_combo :: combo
  ss_required_quantity :: int
  ss_applied_quantity :: int
  ss_openings :: "(string option \<times> int) list"
  ss_locations :: "pick_sheet_location list"
  ss_claimable_quantity :: int

definition remaining_quantity :: "pick_sheet_section \<Rightarrow> int" where
  "remaining_quantity s = max 0 (ss_required_quantity s - ss_applied_quantity s)"

definition claimable_shortfall :: "pick_sheet_section \<Rightarrow> int" where
  "claimable_shortfall s = max 0 (remaining_quantity s - ss_claimable_quantity s)"

text \<open>Units of a row this pull has keyed in, per state of the line.\<close>

definition line_units :: "db \<Rightarrow> uuid \<Rightarrow> pull_pick_line_state \<Rightarrow> inventory_location \<Rightarrow> int" where
  "line_units db i st il =
     sum_list (map pk_quantity (filter (\<lambda>l. pk_pull_request_id l = i \<and> pk_state l = st \<and>
       pk_combo l = il_combo il \<and> pk_inventory_location_id l = Some (il_id il)) (pull_pick_lines db)))"

definition sheet_location :: "db \<Rightarrow> uuid \<Rightarrow> inventory_location \<Rightarrow> pick_sheet_location" where
  "sheet_location db i il =
     (let line = (case il_po_line_item_id il of None \<Rightarrow> None | Some l \<Rightarrow> find_row po_line_id l (po_lines db))
      in \<lparr>sl_inventory_location_id = il_id il, sl_warehouse_id = il_warehouse_id il,
          sl_warehouse_code = map_option wh_code (find_row wh_id (il_warehouse_id il) (warehouses db)),
          sl_aisle = il_aisle il, sl_row = il_row il, sl_bay = il_bay il,
          sl_available = max 0 (il_free il), sl_received_at = il_received_at il,
          sl_draft_quantity = line_units db i DRAFT il, sl_applied_quantity = line_units db i APPLIED il,
          sl_order_as = Option.bind line po_line_order_as,
          sl_po_number = Option.bind line po_line_po_number\<rparr>)"

definition referenced_location_ids :: "db \<Rightarrow> uuid \<Rightarrow> uuid list" where
  "referenced_location_ids db i = List.map_filter pk_inventory_location_id (pick_lines db i None)"

text \<open>A row is a candidate while it has units left, or when this pull has already named it.\<close>

definition sheet_rows :: "db \<Rightarrow> pull_request \<Rightarrow> combo \<Rightarrow> inventory_location list" where
  "sheet_rows db pr c =
     filter (\<lambda>il. il_combo il = c)
       (sort_key (\<lambda>il. (il_received_at il, il_id il))
         (filter (\<lambda>il. il_project_id il = pr_project_id pr \<and> il_combo il \<in> set (dict_keys (line_requirements pr)) \<and>
             (0 < il_free il \<or> il_id il \<in> set (referenced_location_ids db (pr_id pr))))
           (inventory_locations db)))"

text \<open>One section of the sheet: a product, what is asked of it, and where it is.\<close>

definition sheet_section ::
  "db \<Rightarrow> pull_request \<Rightarrow> (combo \<times> int) list \<Rightarrow> combo \<times> int \<Rightarrow> pick_sheet_section" where
  "sheet_section db pr reserved_by_others need =
     (let c = fst need;
          locations = map (sheet_location db (pr_id pr)) (sheet_rows db pr c)
      in \<lparr>ss_combo = c, ss_required_quantity = snd need,
          ss_applied_quantity = dict_get (applied_by_combo db (pr_id pr)) c,
          ss_openings = sort_key (\<lambda>og. case fst og of None \<Rightarrow> [] | Some n \<Rightarrow> n)
            (map (\<lambda>item. (pi_opening_number item, pi_requested_quantity item))
              (filter (\<lambda>item. 0 < pi_requested_quantity item \<and> pi_combo item = c) (pr_items pr))),
          ss_locations = locations,
          ss_claimable_quantity =
            max 0 (sum_list (map sl_available locations) - dict_get reserved_by_others c)\<rparr>)"

definition get_pick_sheet :: "db \<Rightarrow> uuid \<Rightarrow> pick_sheet_section list result" where
  "get_pick_sheet db i =
     bindr (get_pull_request_details db i) (\<lambda>pr.
       let required = line_requirements pr;
           reserved_by_others =
             (if required \<noteq> [] then get_reserved_quantities db (pr_project_id pr) (Some (dict_keys required))
                (find_reservation_holder db pr) else [])
       in Inr (map (sheet_section db pr reserved_by_others) (sort_key fst required)))"

section \<open>What the picker dictates\<close>

text \<open>A dictated line; the API may send no quantity and no location.\<close>

record pick_line =
  pl_hardware_category :: string
  pl_product_code :: string
  pl_inventory_location_id :: "uuid option"
  pl_quantity :: "int option"

type_synonym entry_key = "string \<times> string \<times> uuid"

definition key_combo :: "entry_key \<Rightarrow> combo" where
  "key_combo k = (fst k, fst (snd k))"

definition key_location :: "entry_key \<Rightarrow> uuid" where
  "key_location k = snd (snd k)"

fun normalise_lines ::
  "combo list \<Rightarrow> pick_line list \<Rightarrow> (entry_key \<times> int) list \<Rightarrow> (entry_key \<times> int) list result" where
  "normalise_lines req [] entered = Inr entered"
| "normalise_lines req (line # lines) entered =
     (case pl_quantity line of
        None \<Rightarrow> normalise_lines req lines entered
      | Some q \<Rightarrow>
          if q = 0 then normalise_lines req lines entered
          else if q < 0 then Inl (ValidationError (Some ''quantity''))
          else if (pl_hardware_category line, pl_product_code line) \<notin> set req
            then Inl (ValidationError (Some ''lines''))
          else (case pl_inventory_location_id line of
              None \<Rightarrow> Inl (ValidationError (Some ''inventoryLocationId''))
            | Some loc \<Rightarrow> normalise_lines req lines
                (dict_add (pl_hardware_category line, pl_product_code line, loc) q entered)))"

definition normalise_pick_lines ::
  "pick_line list \<Rightarrow> (combo \<times> int) list \<Rightarrow> (entry_key \<times> int) list result" where
  "normalise_pick_lines lines req =
     bindr (normalise_lines (dict_keys req) lines []) (\<lambda>entered. Inr (filter (\<lambda>kv. 0 < snd kv) entered))"

definition pickable_pull :: "db \<Rightarrow> uuid \<Rightarrow> pull_request result" where
  "pickable_pull db i =
     bindr (lock_pull db i) (\<lambda>pr.
       ensure (pr_deleted_at pr = None) NotFoundError (
       ensure (pr_status pr \<noteq> PULL_PENDING) InvalidStateTransitionError (
       ensure (pr_status pr = PULL_IN_PROGRESS) InvalidStateTransitionError (
       ensure (pr_picked_at pr = None) InvalidStateTransitionError (Inr pr)))))"

text \<open>
  The named rows: every one exists, belongs to the pull's project and holds the product named. The
  dictionary \<open>by_id\<close> is returned as the list of the rows.
\<close>

fun check_entries :: "uuid \<Rightarrow> inventory_location list \<Rightarrow> (entry_key \<times> int) list \<Rightarrow> unit result" where
  "check_entries project_id rows [] = Inr ()"
| "check_entries project_id rows ((k, _) # rest) =
     (case find_row il_id (key_location k) rows of
        None \<Rightarrow> Inl NotFoundError
      | Some row \<Rightarrow>
          ensure (il_project_id row = project_id) (ValidationError (Some ''inventoryLocationId'')) (
          ensure (il_combo row = key_combo k) (ValidationError (Some ''inventoryLocationId''))
            (check_entries project_id rows rest)))"

definition load_pick_locations ::
  "db \<Rightarrow> pull_request \<Rightarrow> uuid list \<Rightarrow> (entry_key \<times> int) list \<Rightarrow> inventory_location list result" where
  "load_pick_locations db pr location_ids entered =
     (if location_ids = [] then Inr []
      else
        let rows = filter (\<lambda>il. il_id il \<in> set location_ids) (inventory_locations db)
        in ensure (\<forall>loc \<in> set location_ids. loc \<in> set (map il_id rows)) NotFoundError (
           bindr (check_entries (pr_project_id pr) rows entered) (\<lambda>_. Inr rows)))"

definition drop_drafts :: "uuid \<Rightarrow> db \<Rightarrow> db" where
  "drop_drafts i db = db\<lparr>pull_pick_lines :=
     delete_rows (\<lambda>l. pk_pull_request_id l = i \<and> pk_state l = DRAFT) (pull_pick_lines db)\<rparr>"

definition new_pick_line ::
  "uuid \<Rightarrow> uuid \<Rightarrow> entry_key \<Rightarrow> int \<Rightarrow> pull_pick_line_state \<Rightarrow> string \<Rightarrow> datetime \<Rightarrow> pull_pick_line" where
  "new_pick_line i pull k qty st entered_by now =
     \<lparr>pk_id = i, pk_pull_request_id = pull, pk_hardware_category = fst k, pk_product_code = fst (snd k),
      pk_inventory_location_id = Some (key_location k), pk_quantity = qty, pk_state = st,
      pk_entered_by = entered_by, pk_entered_at = now,
      pk_applied_at = (if st = APPLIED then Some now else None)\<rparr>"

fun add_drafts :: "datetime \<Rightarrow> uuid \<Rightarrow> string \<Rightarrow> (entry_key \<times> int) list \<Rightarrow> db \<Rightarrow> db" where
  "add_drafts now pull entered_by [] db = db"
| "add_drafts now pull entered_by ((k, qty) # rest) db =
     (let (i, db) = fresh db
      in add_drafts now pull entered_by rest
           (db\<lparr>pull_pick_lines := pull_pick_lines db @ [new_pick_line i pull k qty DRAFT entered_by now]\<rparr>))"

definition entered_locations :: "(entry_key \<times> int) list \<Rightarrow> uuid list" where
  "entered_locations entered = sort (remdups (map (key_location \<circ> fst) entered))"

definition save_pick_draft ::
  "datetime \<Rightarrow> uuid \<Rightarrow> pick_line list \<Rightarrow> string \<Rightarrow> db \<Rightarrow> (pick_sheet_section list \<times> db) result" where
  "save_pick_draft now i lines entered_by db =
     bindr (pickable_pull db i) (\<lambda>pr.
     bindr (normalise_pick_lines lines (line_requirements pr)) (\<lambda>entered.
     bindr (load_pick_locations db pr (entered_locations entered) entered) (\<lambda>_.
       let db' = add_drafts now i entered_by (sort_key fst entered) (drop_drafts i db)
       in bindr (get_pick_sheet db' i) (\<lambda>sheet. Inr (sheet, db')))))"

section \<open>Confirming the pick\<close>

datatype pick_outcome = PICKED | SHORT

record confirm_pick_result =
  cp_outcome :: pick_outcome
  cp_shortfalls :: "shortfall list"
  cp_notified :: bool
  cp_applied_quantity :: int

definition entry_combos :: "(entry_key \<times> int) list \<Rightarrow> (combo \<times> int) list" where
  "entry_combos entered = tally (map (\<lambda>kv. (key_combo (fst kv), snd kv)) entered)"

definition entry_rows :: "(entry_key \<times> int) list \<Rightarrow> (uuid \<times> int) list" where
  "entry_rows entered = tally (map (\<lambda>kv. (key_location (fst kv), snd kv)) entered)"

text \<open>
  The third ceiling. A shortfall blocks only when claims are the whole reason for it: something is
  reserved by others and the entry would have fitted on hand alone.
\<close>

definition contested :: "sufficiency_result \<Rightarrow> shortfall list" where
  "contested r =
     filter (\<lambda>s. 0 < sf_reserved s \<and>
         sf_requested s \<le> sum_list (map il_free (rows_of (inventory_by_combo r) (sf_combo s))))
       (shortfalls r)"

definition contention_ok :: "db \<Rightarrow> pull_request \<Rightarrow> (combo \<times> int) list \<Rightarrow> bool" where
  "contention_ok db pr entered_by_combo \<longleftrightarrow>
     entered_by_combo = [] \<or>
     contested (check_inventory_sufficiency db (pr_project_id pr) entered_by_combo True
       (find_reservation_holder db pr)) = []"

definition rows_ok :: "inventory_location list \<Rightarrow> (uuid \<times> int) list \<Rightarrow> bool" where
  "rows_ok rows per_row \<longleftrightarrow>
     list_all (\<lambda>(loc, qty). case find_row il_id loc rows of None \<Rightarrow> False | Some row \<Rightarrow> qty \<le> il_free row)
       per_row"

definition opt_str :: "string option \<Rightarrow> json" where
  "opt_str s = (case s of None \<Rightarrow> JNull | Some t \<Rightarrow> JStr t)"

definition pick_audit ::
  "db \<Rightarrow> pull_request \<Rightarrow> inventory_location \<Rightarrow> entry_key \<Rightarrow> int \<Rightarrow> json" where
  "pick_audit db pr row k qty =
     JObj [(''oldQuantity'', JInt (il_quantity row)), (''newQuantity'', JInt (il_quantity row - qty)),
       (''deducted'', JInt qty), (''pullRequestId'', JId (pr_id pr)),
       (''pullRequestNumber'', JStr (pr_request_number pr)), (''hardwareCategory'', JStr (fst k)),
       (''productCode'', JStr (fst (snd k))), (''warehouseId'', JId (il_warehouse_id row)),
       (''warehouseCode'', opt_str (map_option wh_code (find_row wh_id (il_warehouse_id row) (warehouses db)))),
       (''aisle'', opt_str (il_aisle row)), (''row'', opt_str (il_row row)), (''bay'', opt_str (il_bay row))]"

text \<open>One entry applied: the row gives up the units, an APPLIED line and an audit row record it.\<close>

definition apply_entry :: "datetime \<Rightarrow> pull_request \<Rightarrow> string \<Rightarrow> entry_key \<times> int \<Rightarrow> db \<Rightarrow> db" where
  "apply_entry now pr picked_by entry db =
     (case find_row il_id (key_location (fst entry)) (inventory_locations db) of
        None \<Rightarrow> db
      | Some row \<Rightarrow>
          let (i, db) = fresh db;
              db = db\<lparr>inventory_locations := update_row il_id (il_id row)
                       (\<lambda>r. r\<lparr>il_quantity := il_quantity r - snd entry\<rparr>) (inventory_locations db),
                     pull_pick_lines := pull_pick_lines db @
                       [new_pick_line i (pr_id pr) (fst entry) (snd entry) APPLIED picked_by now]\<rparr>
          in log_audit_event (Some (pr_project_id pr)) INVENTORY_LOCATION (il_id row) PULL_DEDUCTION picked_by
               (pick_audit db pr row (fst entry) (snd entry)) db)"

fun apply_entries :: "datetime \<Rightarrow> pull_request \<Rightarrow> string \<Rightarrow> (entry_key \<times> int) list \<Rightarrow> db \<Rightarrow> db" where
  "apply_entries now pr picked_by [] db = db"
| "apply_entries now pr picked_by (entry # rest) db =
     apply_entries now pr picked_by rest (apply_entry now pr picked_by entry db)"

definition pick_shortfalls ::
  "db \<Rightarrow> pull_request \<Rightarrow> (combo \<times> int) list \<Rightarrow> (combo \<times> int) list \<Rightarrow> combo list \<Rightarrow> holder option \<Rightarrow> shortfall list" where
  "pick_shortfalls db pr req covered short_combos holder =
     (let combos = sort short_combos;
          free = sum_by il_combo il_free (filter (\<lambda>il. il_project_id il = pr_project_id pr \<and>
            il_combo il \<in> set combos) (inventory_locations db));
          held = get_reserved_quantities db (pr_project_id pr) (Some combos) holder
      in map (\<lambda>c. new_shortfall c (dict_get req c) (max 0 (dict_get free c - dict_get held c))
               (dict_get req c - dict_get covered c) (dict_get held c)) combos)"

definition shortfall_json :: "shortfall \<Rightarrow> json" where
  "shortfall_json s =
     JObj [(''hardwareCategory'', JStr (sf_hardware_category s)), (''productCode'', JStr (sf_product_code s)),
       (''requested'', JInt (sf_requested s)), (''available'', JInt (sf_available s)),
       (''short'', JInt (sf_short s))]"

definition source_json :: "reservation_source \<Rightarrow> json" where
  "source_json s = JStr (case s of SHOP_ASSEMBLY_BATCH \<Rightarrow> ''SHOP_ASSEMBLY_BATCH''
     | SHIPPING_OUT_REQUEST \<Rightarrow> ''SHIPPING_OUT_REQUEST'')"

definition integrity_json :: "pull_request \<Rightarrow> holder \<Rightarrow> shortfall list \<Rightarrow> json" where
  "integrity_json pr h sfs =
     JObj [(''integrityError'', JStr ''RESERVED_PULL_SHORT''),
       (''pullRequestNumber'', JStr (pr_request_number pr)), (''reservationSource'', source_json (fst h)),
       (''reservationRequestId'', JId (snd h)), (''shortfalls'', JList (map shortfall_json sfs))]"

text \<open>A pick confirmed short: purchasing told once per open gap, an integrity row when a claim is left.\<close>

definition report_short ::
  "datetime \<Rightarrow> pull_request \<Rightarrow> string \<Rightarrow> holder option \<Rightarrow> shortfall list \<Rightarrow> db \<Rightarrow> (bool \<times> db) result" where
  "report_short now pr picked_by holder sfs db =
     (let unread = has_unread_notification_for_pull db (pr_id pr) INVENTORY_SHORTFALL (Some PO_RECIPIENT_ROLE)
      in bindr (if unread then Inr db else notify_po_shortfall now (pr_project_id pr) (Some (pr_id pr)) db) (\<lambda>db.
         Inr (\<not> unread,
           case holder of
             None \<Rightarrow> db
           | Some h \<Rightarrow>
               if 0 < get_reserved_total db h
               then log_audit_event (Some (pr_project_id pr)) PULL_REQUEST (pr_id pr) PULL_DEDUCTION picked_by
                      (integrity_json pr h sfs) db
               else db)))"

text \<open>The swap itself: consume the claim, deduct the rows, drop the drafts.\<close>

definition swap_claim_for_rows ::
  "datetime \<Rightarrow> pull_request \<Rightarrow> string \<Rightarrow> holder option \<Rightarrow> (entry_key \<times> int) list \<Rightarrow> db \<Rightarrow> db" where
  "swap_claim_for_rows now pr picked_by holder entered db =
     (let consumed = (case holder of
            None \<Rightarrow> db
          | Some h \<Rightarrow> if entry_combos entered \<noteq> [] then snd (consume_reservations h (entry_combos entered) db) else db)
      in drop_drafts (pr_id pr) (apply_entries now pr picked_by (sort_key fst entered) consumed))"

text \<open>The guards of a confirmation, in the code's order: what was entered, once every ceiling holds.\<close>

definition checked_pick ::
  "db \<Rightarrow> uuid \<Rightarrow> pick_line list \<Rightarrow> (pull_request \<times> (entry_key \<times> int) list) result" where
  "checked_pick db i lines =
     bindr (pickable_pull db i) (\<lambda>pr.
     let required = line_requirements pr in
     bindr (normalise_pick_lines lines required) (\<lambda>entered.
     let already = applied_by_combo db i;
         entered_by_combo = entry_combos entered in
     ensure (\<not> (required \<noteq> [] \<and> entered = [] \<and>
         list_ex (\<lambda>kv. 0 < snd kv) (claimable_by_combo db pr (dict_keys required))))
       (ValidationError (Some ''lines'')) (
     ensure (list_all (\<lambda>kv. snd kv \<le> dict_get required (fst kv) - dict_get already (fst kv)) entered_by_combo)
       (ValidationError (Some ''quantity'')) (
     ensure (contention_ok db pr entered_by_combo) (ConflictError (Some ''quantity'')) (
     bindr (load_pick_locations db pr (entered_locations entered) entered) (\<lambda>rows.
     ensure (rows_ok rows (entry_rows entered)) (ValidationError (Some ''quantity''))
       (Inr (pr, entered))))))))"

text \<open>What a confirmation with these entries leaves of each product: \<open>covered\<close>, and the products still short.\<close>

definition covered_by :: "db \<Rightarrow> pull_request \<Rightarrow> (entry_key \<times> int) list \<Rightarrow> (combo \<times> int) list" where
  "covered_by db pr entered =
     map (\<lambda>kv. (fst kv, dict_get (applied_by_combo db (pr_id pr)) (fst kv) + dict_get (entry_combos entered) (fst kv)))
       (line_requirements pr)"

definition short_of :: "db \<Rightarrow> pull_request \<Rightarrow> (entry_key \<times> int) list \<Rightarrow> combo list" where
  "short_of db pr entered =
     map fst (filter (\<lambda>kv. snd kv < dict_get (line_requirements pr) (fst kv)) (covered_by db pr entered))"

text \<open>The confirmation from the consumption on: the swap, then the outcome.\<close>

definition settle_pick ::
  "datetime \<Rightarrow> pull_request \<Rightarrow> (entry_key \<times> int) list \<Rightarrow> string \<Rightarrow> db \<Rightarrow> (confirm_pick_result \<times> db) result" where
  "settle_pick now pr entered picked_by db0 =
     (let holder = find_reservation_holder db0 pr;
          db = swap_claim_for_rows now pr picked_by holder entered db0;
          applied_total = sum_list (map snd entered) in
      if short_of db0 pr entered = [] then
        Inr (\<lparr>cp_outcome = PICKED, cp_shortfalls = [], cp_notified = False, cp_applied_quantity = applied_total\<rparr>,
             set_pull (pr_id pr) (\<lambda>pr. pr\<lparr>pr_picked_at := Some now, pr_picked_by := Some picked_by\<rparr>) db)
      else
        (let sfs = pick_shortfalls db pr (line_requirements pr) (covered_by db0 pr entered)
               (short_of db0 pr entered) holder in
         bindr (report_short now pr picked_by holder sfs db) (\<lambda>reported.
           Inr (\<lparr>cp_outcome = SHORT, cp_shortfalls = sfs, cp_notified = fst reported,
                 cp_applied_quantity = applied_total\<rparr>, snd reported))))"

definition confirm_pick ::
  "datetime \<Rightarrow> uuid \<Rightarrow> pick_line list \<Rightarrow> string \<Rightarrow> db \<Rightarrow> (confirm_pick_result \<times> db) result" where
  "confirm_pick now i lines picked_by db =
     bindr (checked_pick db i lines) (\<lambda>checked. settle_pick now (fst checked) (snd checked) picked_by db)"

section \<open>Completing a pull\<close>

definition require_picked :: "pull_request \<Rightarrow> unit result" where
  "require_picked pr = ensure (pr_picked_at pr \<noteq> None) InvalidStateTransitionError (Inr ())"

definition complete_pull_request :: "datetime \<Rightarrow> uuid \<Rightarrow> db \<Rightarrow> db result" where
  "complete_pull_request now i db =
     bindr (lock_pull db i) (\<lambda>pr.
     ensure (pr_status pr = PULL_IN_PROGRESS) InvalidStateTransitionError (
     bindr (require_picked pr) (\<lambda>_.
       create_notification now (pr_project_id pr) (Some (pull_audience (pr_source pr))) PULL_REQUEST_COMPLETED
         (Some i) None None
         (set_pull i (\<lambda>pr. pr\<lparr>pr_status := PULL_COMPLETED, pr_completed_at := Some now\<rparr>) db))))"

end
