(* ===== verification/Pulls.thy ===== *)
theory Pulls
  imports Picking
begin

text \<open>
  What every request that becomes a warehouse pull shares: its number (\<open>request_numbers.py\<close>), the
  insertion of the pull it mints, under the unique index on live numbers
  (\<open>models/pull_request.py\<close>), and the discarding of a pull nobody has started
  (\<open>discard_pending_pull_request\<close>).
\<close>

section \<open>Request numbers\<close>

definition DEMO_COMPANY :: string where
  "DEMO_COMPANY = ''DEMO''"

definition is_demo_company :: "string option \<Rightarrow> bool" where
  "is_demo_company company \<longleftrightarrow>
     upper (strip (case company of None \<Rightarrow> [] | Some c \<Rightarrow> c)) = DEMO_COMPANY"

definition request_number_of :: "project \<Rightarrow> int \<Rightarrow> string" where
  "request_number_of pj seq =
     (if is_demo_company (pj_company pj) then ''D-'' else []) @ pj_number pj @ ''-'' @ zero_pad 3 seq"

text \<open>The counter row: inserted at 1 when missing, then read and advanced under its lock.\<close>

definition counter_value :: "db \<Rightarrow> uuid \<Rightarrow> int" where
  "counter_value db p = (case map_of (request_counters db) p of None \<Rightarrow> 1 | Some n \<Rightarrow> n)"

definition mint_request_number :: "uuid \<Rightarrow> db \<Rightarrow> (string \<times> db) result" where
  "mint_request_number project_id db =
     (case find_row pj_id project_id (projects db) of
        None \<Rightarrow> Inl PyValueError
      | Some pj \<Rightarrow>
          let seq = counter_value db project_id
          in Inr (request_number_of pj seq,
                  db\<lparr>request_counters := AList.update project_id (seq + 1) (request_counters db)\<rparr>))"

section \<open>Minting and discarding a pull\<close>

definition new_pull ::
  "uuid \<Rightarrow> string \<Rightarrow> uuid \<Rightarrow> pull_request_source \<Rightarrow> string \<Rightarrow> pull_request_item list \<Rightarrow> pull_request" where
  "new_pull i request_number project_id source requested_by items =
     \<lparr>pr_id = i, pr_request_number = request_number, pr_project_id = project_id, pr_source = source,
      pr_status = PULL_PENDING, pr_requested_by = requested_by, pr_assigned_to = None,
      pr_assigned_to_user_id = None, pr_approved_at = None, pr_picked_at = None, pr_picked_by = None,
      pr_completed_at = None, pr_cancelled_at = None, pr_cancelled_by = None,
      pr_cancellation_reason = None, pr_deleted_at = None, pr_items = items\<rparr>"

text \<open>The partial unique index: among pulls that are not cancelled a number names one pull.\<close>

definition live_number :: "db \<Rightarrow> string \<Rightarrow> bool" where
  "live_number db n =
     list_ex (\<lambda>pr. pr_request_number pr = n \<and> pr_status pr \<noteq> PULL_CANCELLED) (pull_requests db)"

definition insert_pull :: "pull_request \<Rightarrow> db \<Rightarrow> db result" where
  "insert_pull pull db =
     ensure (\<not> live_number db (pr_request_number pull)) IntegrityError
       (Inr (db\<lparr>pull_requests := pull_requests db @ [pull]\<rparr>))"

definition discard_pending_pull_request :: "uuid option \<Rightarrow> db \<Rightarrow> db result" where
  "discard_pending_pull_request i db =
     (case i of
        None \<Rightarrow> Inr db
      | Some i \<Rightarrow>
          (case find_row pr_id i (pull_requests db) of
             None \<Rightarrow> Inr db
           | Some pr \<Rightarrow>
               ensure (pr_status pr = PULL_PENDING) InvalidStateTransitionError (
                 let db = db\<lparr>pull_pick_lines :=
                       delete_rows (\<lambda>l. pk_pull_request_id l = i) (pull_pick_lines db)\<rparr>;
                     db = withdraw_pull_created i db
                 in Inr (db\<lparr>pull_requests := delete_rows (\<lambda>pr. pr_id pr = i) (pull_requests db)\<rparr>))))"

section \<open>Facts\<close>

lemma request_number_inj:
  assumes "0 \<le> m" and "0 \<le> n"
  shows "request_number_of pj m = request_number_of pj n \<longleftrightarrow> m = n"
  using zero_pad_inj [OF assms] by (simp add: request_number_of_def)

lemma mint_request_number_Inr:
  "mint_request_number p db = Inr (n, db') \<Longrightarrow> \<exists>pj. find_row pj_id p (projects db) = Some pj \<and>
     n = request_number_of pj (counter_value db p) \<and>
     db' = db\<lparr>request_counters := AList.update p (counter_value db p + 1) (request_counters db)\<rparr>"
  by (auto simp: mint_request_number_def Let_def split: option.splits)

lemma counter_value_mint:
  "counter_value (db\<lparr>request_counters := AList.update p v (request_counters db)\<rparr>) q =
     (if q = p then v else counter_value db q)"
  by (simp add: counter_value_def update_conv')

text \<open>The numbers a project hands out over a run of creates, in order.\<close>

fun mint_many :: "nat \<Rightarrow> uuid \<Rightarrow> db \<Rightarrow> string list result" where
  "mint_many 0 p db = Inr []"
| "mint_many (Suc n) p db =
     bindr (mint_request_number p db) (\<lambda>minted. bindr (mint_many n p (snd minted)) (\<lambda>rest. Inr (fst minted # rest)))"

lemma mint_many_eq:
  "find_row pj_id p (projects db) = Some pj \<Longrightarrow>
   mint_many n p db = Inr (map (\<lambda>k. request_number_of pj (counter_value db p + int k)) [0..<n])"
proof (induction n arbitrary: db)
  case (Suc n)
  let ?db = "db\<lparr>request_counters := AList.update p (counter_value db p + 1) (request_counters db)\<rparr>"
  have "mint_many n p ?db = Inr (map (\<lambda>k. request_number_of pj (counter_value ?db p + int k)) [0..<n])"
    using Suc.prems by (intro Suc.IH) simp
  then show ?case
    using Suc.prems
    by (simp add: mint_request_number_def Let_def counter_value_mint upt_conv_Cons
        map_Suc_upt [symmetric] comp_def add.assoc del: upt_Suc)
qed simp

text \<open>
  A project never hands out a request number twice: however many requests are raised on it, in
  whatever order the two kinds come, every one gets a number, and all the numbers differ.
\<close>

theorem request_numbers_distinct:
  assumes "find_row pj_id p (projects db) \<noteq> None" and "0 \<le> counter_value db p"
  shows "\<exists>numbers. mint_many n p db = Inr numbers \<and> length numbers = n \<and> distinct numbers"
proof -
  obtain pj where "find_row pj_id p (projects db) = Some pj" using assms(1) by auto
  then have "mint_many n p db = Inr (map (\<lambda>k. request_number_of pj (counter_value db p + int k)) [0..<n])"
    by (rule mint_many_eq)
  moreover have "inj_on (\<lambda>k. request_number_of pj (counter_value db p + int k)) (set [0..<n])"
    using assms(2) by (auto simp: inj_on_def request_number_inj)
  ultimately show ?thesis by (simp add: distinct_map)
qed

definition demo_project :: project where
  "demo_project = \<lparr>pj_id = 1, pj_number = ''23093'', pj_company = Some ''UBC'', pj_gp_setup_ok = Some True, pj_gp_job_state = None\<rparr>"

lemma request_numbers_distinct_witness:
  "mint_many 2 1 (empty_db\<lparr>projects := [demo_project]\<rparr>) = Inr [''23093-001'', ''23093-002''] \<and>
   (\<exists>numbers. mint_many 12 1 (empty_db\<lparr>projects := [demo_project]\<rparr>) = Inr numbers \<and> distinct numbers)"
proof -
  have "find_row pj_id 1 (projects (empty_db\<lparr>projects := [demo_project]\<rparr>)) \<noteq> None"
    and "0 \<le> counter_value (empty_db\<lparr>projects := [demo_project]\<rparr>) 1" by code_simp+
  from request_numbers_distinct [OF this, of 12]
  have "\<exists>numbers. mint_many 12 1 (empty_db\<lparr>projects := [demo_project]\<rparr>) = Inr numbers \<and> distinct numbers"
    by blast
  moreover have "mint_many 2 1 (empty_db\<lparr>projects := [demo_project]\<rparr>) = Inr [''23093-001'', ''23093-002'']"
    by code_simp
  ultimately show ?thesis by blast
qed

lemma insert_pull_Inr [result_simps]:
  "insert_pull pull db = Inr db' \<longleftrightarrow> \<not> live_number db (pr_request_number pull) \<and>
     db' = db\<lparr>pull_requests := pull_requests db @ [pull]\<rparr>"
  by (auto simp: insert_pull_def result_simps)

lemma discard_pending_Inr:
  assumes "discard_pending_pull_request i db = Inr db'"
  shows "(db' = db \<and> (\<forall>j. i = Some j \<longrightarrow> j \<notin> pr_id ` set (pull_requests db))) \<or>
    (\<exists>j pr. i = Some j \<and> find_row pr_id j (pull_requests db) = Some pr \<and> pr_status pr = PULL_PENDING \<and>
       db' = (withdraw_pull_created j (db\<lparr>pull_pick_lines :=
           delete_rows (\<lambda>l. pk_pull_request_id l = j) (pull_pick_lines db)\<rparr>))
         \<lparr>pull_requests := delete_rows (\<lambda>pr. pr_id pr = j) (pull_requests db)\<rparr>)"
  using assms
  by (auto simp: discard_pending_pull_request_def Let_def result_simps find_row_None withdraw_pull_created_def
      split: option.splits)

end
