(* ===== verification/ShopAssembly.thy ===== *)
theory ShopAssembly
  imports Pulls
begin

text \<open>
  \<open>shop_assembly_repository.py\<close>: a request flags openings the shop needs assembled and holds nothing;
  a batch dispatches a subset of them at allocated quantities, which gates on stock, claims it under
  the batch and mints the pull; openings are dismissed, batches discarded or returned by a cancelled
  pull. \<open>dominant_classification\<close> is the rule shared with \<open>request_composer.py\<close>.
\<close>

section \<open>The lines a request is raised over\<close>

text \<open>A line as it is sent: every field may be missing.\<close>

record shop_line =
  ln_opening_number :: "string option"
  ln_hardware_category :: "string option"
  ln_product_code :: "string option"
  ln_requested_quantity :: "int option"
  ln_quantity :: "int option"
  ln_allocated_quantity :: "int option"

type_synonym line_key = "string \<times> string \<times> string"

definition key_product :: "line_key \<Rightarrow> combo" where
  "key_product k = snd k"

definition text_of :: "string option \<Rightarrow> string" where
  "text_of s = (case s of None \<Rightarrow> [] | Some t \<Rightarrow> t)"

definition validated_line :: "shop_line \<Rightarrow> (line_key \<times> int) result" where
  "validated_line item =
     ensure (\<not> blank (ln_hardware_category item) \<and> \<not> blank (ln_product_code item))
       (ValidationError (Some ''product_code'')) (
     let opening_number = strip (text_of (ln_opening_number item)) in
     ensure (opening_number \<noteq> []) (ValidationError (Some ''opening_number'')) (
     case (case ln_requested_quantity item of None \<Rightarrow> ln_quantity item | Some q \<Rightarrow> Some q) of
       None \<Rightarrow> Inl (ValidationError (Some ''requested_quantity''))
     | Some quantity \<Rightarrow>
         ensure (1 \<le> quantity) (ValidationError (Some ''requested_quantity''))
           (Inr ((opening_number, text_of (ln_hardware_category item), text_of (ln_product_code item)), quantity))))"

fun validated_lines :: "shop_line list \<Rightarrow> (line_key \<times> int) list result" where
  "validated_lines [] = Inr []"
| "validated_lines (item # items) =
     bindr (validated_line item) (\<lambda>line. bindr (validated_lines items) (\<lambda>lines. Inr (line # lines)))"

section \<open>What the schedule says\<close>

record schedule_facts =
  sf_scheduled :: "(line_key \<times> int) list"
  sf_by_classification :: "(line_key \<times> (classification option \<times> int) list) list"
  sf_by_others :: "combo list"

definition hw_key :: "hardware_item \<Rightarrow> line_key" where
  "hw_key h = (hw_opening_number h, hw_hardware_category h, hw_product_code h)"

definition by_others_products :: "db \<Rightarrow> uuid \<Rightarrow> combo list" where
  "by_others_products db project_id =
     map snd (filter (\<lambda>x. fst x = project_id) (project_excluded_items db))"

definition read_schedule_facts :: "db \<Rightarrow> uuid \<Rightarrow> string list \<Rightarrow> bool \<Rightarrow> schedule_facts" where
  "read_schedule_facts db project_id opening_numbers still_scheduled =
     (let rows = filter (\<lambda>h. hw_project_id h = project_id \<and> hw_opening_number h \<in> set opening_numbers)
            (hardware_items db)
      in \<lparr>sf_scheduled = sum_by hw_key
              (\<lambda>h. if still_scheduled then hw_item_quantity h - hw_beyond_schedule_quantity h else hw_item_quantity h) rows,
          sf_by_classification = map (\<lambda>k. (k, sum_by hw_classification hw_item_quantity (filter (\<lambda>h. hw_key h = k) rows)))
              (remdups (map hw_key rows)),
          sf_by_others = by_others_products db project_id\<rparr>)"

definition class_name :: "classification option \<Rightarrow> string" where
  "class_name c = (case c of None \<Rightarrow> [] | Some SITE_HARDWARE \<Rightarrow> ''SITE_HARDWARE''
     | Some SHOP_HARDWARE \<Rightarrow> ''SHOP_HARDWARE'')"

definition dominant_classification :: "(classification option \<times> int) list \<Rightarrow> classification option" where
  "dominant_classification counts =
     (case sort_key (\<lambda>item. (- snd item, class_name (fst item))) counts of
        [] \<Rightarrow> None
      | winner # _ \<Rightarrow> fst winner)"

datatype shop_reason = BY_OTHERS | NOT_SHOP_HARDWARE | OFF_SCHEDULE

definition not_shop_work_reason :: "line_key \<Rightarrow> schedule_facts \<Rightarrow> shop_reason option" where
  "not_shop_work_reason k facts =
     (if key_product k \<in> set (sf_by_others facts) then Some BY_OTHERS
      else if dominant_classification
          (case map_of (sf_by_classification facts) k of None \<Rightarrow> [] | Some counts \<Rightarrow> counts) \<noteq> Some SHOP_HARDWARE
        then Some NOT_SHOP_HARDWARE
      else None)"

definition has_shop_work_evidence :: "line_key \<Rightarrow> schedule_facts \<Rightarrow> bool" where
  "has_shop_work_evidence k facts \<longleftrightarrow>
     k \<in> set (dict_keys (sf_by_classification facts)) \<or> key_product k \<in> set (sf_by_others facts)"

definition refuse_if_not_shop_work :: "line_key \<Rightarrow> schedule_facts \<Rightarrow> string \<Rightarrow> unit result" where
  "refuse_if_not_shop_work k facts field =
     ensure (not_shop_work_reason k facts = None) (ValidationError (Some field)) (Inr ())"

fun check_scheduled :: "schedule_facts \<Rightarrow> (line_key \<times> int) list \<Rightarrow> unit result" where
  "check_scheduled facts [] = Inr ()"
| "check_scheduled facts ((k, quantity) # lines) =
     (let on_schedule = dict_get (sf_scheduled facts) k in
      ensure (0 < on_schedule) (ValidationError (Some ''product_code'')) (
      bindr (refuse_if_not_shop_work k facts ''items'') (\<lambda>_.
      ensure (quantity \<le> on_schedule) (ValidationError (Some ''requested_quantity''))
        (check_scheduled facts lines))))"

definition check_lines_against_schedule :: "db \<Rightarrow> uuid \<Rightarrow> (line_key \<times> int) list \<Rightarrow> unit result" where
  "check_lines_against_schedule db project_id lines =
     ensure (distinct (map fst lines)) (ValidationError (Some ''items''))
       (check_scheduled (read_schedule_facts db project_id (map (fst \<circ> fst) lines) False) lines)"

section \<open>Raising a request\<close>

definition new_opening :: "string \<Rightarrow> shop_assembly_request_opening" where
  "new_opening n = \<lparr>so_opening_number = n, so_status = OPENING_PENDING, so_batch_id = None,
     so_dismissed_by = None, so_dismissed_at = None, so_dismissal_reason = None\<rparr>"

definition new_request_item :: "line_key \<times> int \<Rightarrow> shop_assembly_request_item" where
  "new_request_item line = \<lparr>si_opening_number = fst (fst line), si_hardware_category = fst (snd (fst line)),
     si_product_code = snd (snd (fst line)), si_requested_quantity = snd line\<rparr>"

definition new_shop_request ::
  "uuid \<Rightarrow> string \<Rightarrow> uuid \<Rightarrow> string \<Rightarrow> (line_key \<times> int) list \<Rightarrow> shop_assembly_request" where
  "new_shop_request i number project_id created_by lines =
     \<lparr>sar_id = i, sar_request_number = number, sar_project_id = project_id, sar_status = SAR_PENDING,
      sar_created_by = created_by, sar_approved_by = None, sar_approved_at = None, sar_rejected_by = None,
      sar_rejection_reason = None, sar_rejected_at = None, sar_integrity_note = None,
      sar_items = map new_request_item lines,
      sar_openings = map new_opening (sort (remdups (map (fst \<circ> fst) lines)))\<rparr>"

definition create_shop_assembly_request ::
  "uuid \<Rightarrow> shop_line list \<Rightarrow> string \<Rightarrow> db \<Rightarrow> (uuid \<times> db) result" where
  "create_shop_assembly_request project_id items created_by db =
     ensure (items \<noteq> []) (ValidationError (Some ''items'')) (
     bindr (validated_lines items) (\<lambda>lines.
     bindr (check_lines_against_schedule db project_id lines) (\<lambda>_.
     bindr (mint_request_number project_id db) (\<lambda>minted.
       let (i, db) = fresh (snd minted)
       in Inr (i, db\<lparr>shop_assembly_requests := shop_assembly_requests db @
                 [new_shop_request i (fst minted) project_id created_by lines]\<rparr>)))))"

section \<open>Status derived from the openings\<close>

definition pending_openings :: "shop_assembly_request \<Rightarrow> shop_assembly_request_opening list" where
  "pending_openings r = filter (\<lambda>op. so_status op = OPENING_PENDING) (sar_openings r)"

definition close_if_nothing_pending ::
  "datetime \<Rightarrow> string \<Rightarrow> shop_assembly_request \<Rightarrow> shop_assembly_request" where
  "close_if_nothing_pending now closed_by r =
     (if pending_openings r \<noteq> [] then r
      else r\<lparr>sar_status := SAR_APPROVED, sar_approved_by := Some closed_by, sar_approved_at := Some now\<rparr>)"

definition reopen_to_pending :: "shop_assembly_request \<Rightarrow> shop_assembly_request" where
  "reopen_to_pending r =
     (if sar_status r \<noteq> SAR_APPROVED then r
      else r\<lparr>sar_status := SAR_PENDING, sar_approved_by := None, sar_approved_at := None\<rparr>)"

definition locked_request :: "db \<Rightarrow> uuid \<Rightarrow> shop_assembly_request result" where
  "locked_request db i =
     (case find_row sar_id i (shop_assembly_requests db) of None \<Rightarrow> Inl NotFoundError | Some r \<Rightarrow> Inr r)"

definition set_shop_request ::
  "uuid \<Rightarrow> (shop_assembly_request \<Rightarrow> shop_assembly_request) \<Rightarrow> db \<Rightarrow> db" where
  "set_shop_request i f db = db\<lparr>shop_assembly_requests := update_row sar_id i f (shop_assembly_requests db)\<rparr>"

definition map_openings ::
  "(shop_assembly_request_opening \<Rightarrow> shop_assembly_request_opening) \<Rightarrow> shop_assembly_request \<Rightarrow> shop_assembly_request" where
  "map_openings f r = r\<lparr>sar_openings := map f (sar_openings r)\<rparr>"

definition batches_of :: "db \<Rightarrow> uuid \<Rightarrow> shop_assembly_batch list" where
  "batches_of db i = filter (\<lambda>b. sb_shop_assembly_request_id b = i) (shop_assembly_batches db)"

section \<open>Where a request stands\<close>

datatype stage = STAGE_REQUESTED | STAGE_ACCEPTED | STAGE_PULLING | STAGE_DONE | STAGE_REJECTED

definition pull_status_of :: "db \<Rightarrow> uuid option \<Rightarrow> pull_request_status option" where
  "pull_status_of db i =
     Option.bind i (\<lambda>i. map_option pr_status (find_row pr_id i (pull_requests db)))"

definition stage_for :: "db \<Rightarrow> shop_assembly_request \<Rightarrow> stage" where
  "stage_for db r =
     (case sar_status r of
        SAR_REJECTED \<Rightarrow> STAGE_REJECTED
      | SAR_PENDING \<Rightarrow> STAGE_REQUESTED
      | SAR_APPROVED \<Rightarrow>
          let statuses = map (\<lambda>b. pull_status_of db (sb_pull_request_id b))
                (filter (\<lambda>b. sb_status b = BATCH_ACTIVE) (batches_of db (sar_id r)))
          in if statuses = [] then STAGE_DONE
             else if list_ex (\<lambda>s. s = Some PULL_PENDING \<or> s = None) statuses then STAGE_ACCEPTED
             else if list_ex (\<lambda>s. s = Some PULL_IN_PROGRESS) statuses then STAGE_PULLING
             else STAGE_DONE)"

section \<open>Composing a batch\<close>

text \<open>The review: every pending opening with its owed lines, as the screen offers them.\<close>

record review_line =
  rl_key :: line_key
  rl_requested_quantity :: int
  rl_available_quantity :: int
  rl_reason :: "shop_reason option"

definition si_key :: "shop_assembly_request_item \<Rightarrow> line_key" where
  "si_key i = (si_opening_number i, si_hardware_category i, si_product_code i)"

definition line_reason :: "schedule_facts \<Rightarrow> line_key \<Rightarrow> shop_reason option" where
  "line_reason facts k =
     (case (if has_shop_work_evidence k facts then not_shop_work_reason k facts else None) of
        Some reason \<Rightarrow> Some reason
      | None \<Rightarrow> if dict_get (sf_scheduled facts) k \<le> 0 then Some OFF_SCHEDULE else None)"

definition line_owed :: "schedule_facts \<Rightarrow> shop_assembly_request_item \<Rightarrow> int" where
  "line_owed facts item =
     (let on_schedule = dict_get (sf_scheduled facts) (si_key item)
      in if 0 < on_schedule then min (si_requested_quantity item) on_schedule else si_requested_quantity item)"

definition get_allocation_review :: "db \<Rightarrow> uuid \<Rightarrow> (string \<times> review_line list) list result" where
  "get_allocation_review db i =
     bindr (locked_request db i) (\<lambda>r.
       let pending = sort (map so_opening_number (pending_openings r));
           items = filter (\<lambda>item. si_opening_number item \<in> set pending) (sar_items r);
           available = get_available_quantities db (sar_project_id r) (map (snd \<circ> si_key) items);
           facts = read_schedule_facts db (sar_project_id r) pending True
       in Inr (map (\<lambda>n. (n, map (\<lambda>item. \<lparr>rl_key = si_key item, rl_requested_quantity = line_owed facts item,
                  rl_available_quantity = dict_get available (snd (si_key item)),
                  rl_reason = line_reason facts (si_key item)\<rparr>)
              (sort_key (snd \<circ> si_key) (filter (\<lambda>item. si_opening_number item = n) items)))) pending))"

section \<open>Batching\<close>

definition owed_lines :: "shop_assembly_request \<Rightarrow> (line_key \<times> int) list" where
  "owed_lines r = foldl (\<lambda>d i. AList.update (si_key i) (si_requested_quantity i) d) [] (sar_items r)"

definition validated_allocation ::
  "shop_line \<Rightarrow> string list \<Rightarrow> (line_key \<times> int) list \<Rightarrow> (line_key \<times> int) result" where
  "validated_allocation line pending owed =
     (let opening_number = strip (text_of (ln_opening_number line));
          k = (opening_number, text_of (ln_hardware_category line), text_of (ln_product_code line)) in
      ensure (opening_number \<noteq> [] \<and> \<not> blank (ln_hardware_category line) \<and> \<not> blank (ln_product_code line))
        (ValidationError (Some ''lines'')) (
      ensure (opening_number \<in> set pending) (ValidationError (Some ''opening_number'')) (
      ensure (k \<in> set (dict_keys owed)) NotFoundError (
      case ln_allocated_quantity line of
        None \<Rightarrow> Inl (ValidationError (Some ''allocated_quantity''))
      | Some quantity \<Rightarrow>
          ensure (1 \<le> quantity) (ValidationError (Some ''allocated_quantity'')) (
          ensure (quantity \<le> dict_get owed k) (ValidationError (Some ''allocated_quantity''))
            (Inr (k, quantity)))))))"

fun collect_allocations ::
  "string list \<Rightarrow> (line_key \<times> int) list \<Rightarrow> shop_line list \<Rightarrow> (line_key \<times> int) list \<Rightarrow> (line_key \<times> int) list result" where
  "collect_allocations pending owed [] allocations = Inr allocations"
| "collect_allocations pending owed (line # lines) allocations =
     bindr (validated_allocation line pending owed) (\<lambda>kv.
     ensure (fst kv \<notin> set (dict_keys allocations)) (ValidationError (Some ''lines''))
       (collect_allocations pending owed lines (allocations @ [kv])))"

fun check_shop_work :: "schedule_facts \<Rightarrow> line_key list \<Rightarrow> unit result" where
  "check_shop_work facts [] = Inr ()"
| "check_shop_work facts (k # ks) =
     (if has_shop_work_evidence k facts
      then bindr (refuse_if_not_shop_work k facts ''lines'') (\<lambda>_. check_shop_work facts ks)
      else check_shop_work facts ks)"

fun check_still_scheduled :: "schedule_facts \<Rightarrow> (line_key \<times> int) list \<Rightarrow> unit result" where
  "check_still_scheduled facts [] = Inr ()"
| "check_still_scheduled facts ((k, quantity) # rest) =
     (let on_schedule = dict_get (sf_scheduled facts) k in
      ensure (0 < on_schedule) (ValidationError (Some ''lines'')) (
      ensure (quantity \<le> on_schedule) (ValidationError (Some ''allocated_quantity''))
        (check_still_scheduled facts rest)))"

text \<open>The allocations a batch goes ahead with, once every check on the lines has passed.\<close>

definition checked_allocations :: "db \<Rightarrow> shop_assembly_request \<Rightarrow> shop_line list \<Rightarrow> (line_key \<times> int) list result" where
  "checked_allocations db r lines =
     ensure (sar_status r = SAR_PENDING) InvalidStateTransitionError (
     ensure (lines \<noteq> []) (ValidationError (Some ''lines'')) (
     bindr (collect_allocations (map so_opening_number (pending_openings r)) (owed_lines r) lines []) (\<lambda>allocations.
     let facts = read_schedule_facts db (sar_project_id r) (map (fst \<circ> fst) allocations) True in
     bindr (check_shop_work facts (sort (dict_keys allocations))) (\<lambda>_.
     bindr (check_still_scheduled facts (sort_key fst allocations)) (\<lambda>_. Inr allocations)))))"

definition batch_needs :: "(line_key \<times> int) list \<Rightarrow> (combo \<times> int) list" where
  "batch_needs allocations = sort_key fst (tally (map (\<lambda>kv. (key_product (fst kv), snd kv)) allocations))"

definition next_sequence :: "db \<Rightarrow> uuid \<Rightarrow> int" where
  "next_sequence db i = foldl max 0 (map sb_sequence (batches_of db i)) + 1"

definition batch_number_of :: "shop_assembly_request \<Rightarrow> int \<Rightarrow> string" where
  "batch_number_of r sequence = sar_request_number r @ ''-B'' @ int_str sequence"

definition batch_item :: "line_key \<times> int \<Rightarrow> shop_assembly_batch_item" where
  "batch_item kv = \<lparr>bi_opening_number = fst (fst kv), bi_hardware_category = fst (snd (fst kv)),
     bi_product_code = snd (snd (fst kv)), bi_allocated_quantity = snd kv\<rparr>"

definition batch_pull_item :: "line_key \<times> int \<Rightarrow> pull_request_item" where
  "batch_pull_item kv = \<lparr>pi_opening_number = Some (fst (fst kv)), pi_hardware_category = fst (snd (fst kv)),
     pi_product_code = snd (snd (fst kv)), pi_requested_quantity = snd kv\<rparr>"

definition new_batch ::
  "uuid \<Rightarrow> uuid \<Rightarrow> int \<Rightarrow> string \<Rightarrow> string \<Rightarrow> uuid \<Rightarrow> (line_key \<times> int) list \<Rightarrow> shop_assembly_batch" where
  "new_batch i request sequence number created_by pull allocations =
     \<lparr>sb_id = i, sb_shop_assembly_request_id = request, sb_sequence = sequence, sb_batch_number = number,
      sb_status = BATCH_ACTIVE, sb_created_by = created_by, sb_pull_request_id = Some pull,
      sb_items = map batch_item (sort_key fst allocations)\<rparr>"

definition batch_opening ::
  "uuid \<Rightarrow> string list \<Rightarrow> shop_assembly_request_opening \<Rightarrow> shop_assembly_request_opening" where
  "batch_opening batch names op =
     (if so_status op = OPENING_PENDING \<and> so_opening_number op \<in> set names
      then op\<lparr>so_status := OPENING_BATCHED, so_batch_id := Some batch\<rparr> else op)"

definition create_shop_assembly_batch ::
  "datetime \<Rightarrow> uuid \<Rightarrow> shop_line list \<Rightarrow> string \<Rightarrow> db \<Rightarrow> (uuid \<times> db) result" where
  "create_shop_assembly_batch now request_id lines created_by db =
     bindr (locked_request db request_id) (\<lambda>r.
     bindr (checked_allocations db r lines) (\<lambda>allocations.
     let sequence = next_sequence db request_id;
         number = batch_number_of r sequence;
         needs = batch_needs allocations in
     bindr (gate_on_available_inventory db (sar_project_id r) needs ''shop-assembly batch'' (Some number)) (\<lambda>_.
     let (batch, db) = fresh db;
         (pull_id, db) = fresh db;
         pull = new_pull pull_id number (sar_project_id r) PULL_SHOP_ASSEMBLY created_by
           (map batch_pull_item (sort_key fst allocations));
         db = db\<lparr>shop_assembly_batches := shop_assembly_batches db @
           [new_batch batch request_id sequence number created_by pull_id allocations]\<rparr> in
     bindr (insert_pull pull db) (\<lambda>db.
     bindr (notify_pull_created now pull db) (\<lambda>db.
     let db = create_reservations (sar_project_id r) (SHOP_ASSEMBLY_BATCH, batch) needs db
     in Inr (batch, set_shop_request request_id
          (\<lambda>r. close_if_nothing_pending now created_by
             ((map_openings (batch_opening batch (map (fst \<circ> fst) allocations)) r)\<lparr>sar_integrity_note := None\<rparr>)) db))))))"

section \<open>Dismissing, rejecting\<close>

definition dismiss_opening ::
  "datetime \<Rightarrow> string \<Rightarrow> string option \<Rightarrow> string list \<Rightarrow> shop_assembly_request_opening \<Rightarrow> shop_assembly_request_opening" where
  "dismiss_opening now dismissed_by reason names op =
     (if so_status op = OPENING_PENDING \<and> so_opening_number op \<in> set names
      then op\<lparr>so_status := OPENING_DISMISSED, so_dismissed_by := Some dismissed_by,
              so_dismissed_at := Some now, so_dismissal_reason := reason\<rparr> else op)"

definition MAX_REASON_LENGTH :: nat where
  "MAX_REASON_LENGTH = 500"

definition dismiss_shop_assembly_openings ::
  "datetime \<Rightarrow> uuid \<Rightarrow> string list option \<Rightarrow> string \<Rightarrow> string option \<Rightarrow> db \<Rightarrow> db result" where
  "dismiss_shop_assembly_openings now request_id opening_numbers dismissed_by reason db =
     bindr (locked_request db request_id) (\<lambda>r.
     ensure (sar_status r = SAR_PENDING) InvalidStateTransitionError (
     let reason = strip_or_none reason in
     ensure (length (text_of reason) \<le> MAX_REASON_LENGTH) (ValidationError (Some ''reason'')) (
     let pending = map so_opening_number (pending_openings r);
         targets = (case opening_numbers of None \<Rightarrow> pending | Some wanted \<Rightarrow> remdups wanted) in
     ensure (\<forall>n \<in> set targets. n \<in> set pending) (ValidationError (Some ''opening_numbers'')) (
     ensure (targets \<noteq> []) (ValidationError (Some ''opening_numbers''))
       (Inr (set_shop_request request_id
          (\<lambda>r. close_if_nothing_pending now dismissed_by
             (map_openings (dismiss_opening now dismissed_by reason targets) r)) db))))))"

definition reject_shop_assembly_request ::
  "datetime \<Rightarrow> uuid \<Rightarrow> string \<Rightarrow> string option \<Rightarrow> db \<Rightarrow> db result" where
  "reject_shop_assembly_request now request_id rejected_by reason db =
     bindr (locked_request db request_id) (\<lambda>r.
     ensure (sar_status r = SAR_PENDING) InvalidStateTransitionError (
     ensure (batches_of db request_id = []) InvalidStateTransitionError (
     let reason = strip (text_of reason) in
     ensure (reason \<noteq> []) (ValidationError (Some ''reason'')) (
     ensure (length reason \<le> MAX_REASON_LENGTH) (ValidationError (Some ''reason''))
       (create_notification now (sar_project_id r) (Some SHOP_ASSEMBLY_RECIPIENT_ROLE)
          SHOP_ASSEMBLY_REQUEST_REJECTED None None None
          (set_shop_request request_id (\<lambda>r. r\<lparr>sar_status := SAR_REJECTED, sar_rejected_by := Some rejected_by,
             sar_rejection_reason := Some reason, sar_rejected_at := Some now\<rparr>) db))))))"

section \<open>Undoing a batch\<close>

definition release_opening :: "uuid \<Rightarrow> shop_assembly_request_opening \<Rightarrow> shop_assembly_request_opening" where
  "release_opening batch op =
     (if so_batch_id op = Some batch then op\<lparr>so_status := OPENING_PENDING, so_batch_id := None\<rparr> else op)"

definition discard_shop_assembly_batch :: "uuid \<Rightarrow> db \<Rightarrow> db result" where
  "discard_shop_assembly_batch batch_id db =
     (case find_row sb_id batch_id (shop_assembly_batches db) of
        None \<Rightarrow> Inl NotFoundError
      | Some b \<Rightarrow>
          bindr (locked_request db (sb_shop_assembly_request_id b)) (\<lambda>r.
          ensure (sb_status b = BATCH_ACTIVE) InvalidStateTransitionError (
          let db = snd (release_reservations (SHOP_ASSEMBLY_BATCH, batch_id) db);
              db = set_shop_request (sar_id r)
                (\<lambda>r. reopen_to_pending (map_openings (release_opening batch_id) r)) db in
          bindr (discard_pending_pull_request (sb_pull_request_id b) db) (\<lambda>db.
            Inr (db\<lparr>shop_assembly_batches := delete_rows (\<lambda>b. sb_id b = batch_id) (shop_assembly_batches db)\<rparr>)))))"

definition return_batch_to_pending :: "shop_assembly_batch \<Rightarrow> db \<Rightarrow> (bool \<times> db) result" where
  "return_batch_to_pending b db =
     bindr (locked_request db (sb_shop_assembly_request_id b)) (\<lambda>r.
       if sb_status b \<noteq> BATCH_ACTIVE then Inr (False, db)
       else
         (let db = db\<lparr>shop_assembly_batches :=
                update_row sb_id (sb_id b) (\<lambda>b. b\<lparr>sb_status := BATCH_CANCELLED\<rparr>) (shop_assembly_batches db)\<rparr>
          in Inr (True, set_shop_request (sar_id r)
               (\<lambda>r. let r = map_openings (release_opening (sb_id b)) r
                    in if pending_openings r \<noteq> [] then reopen_to_pending r else r) db)))"

end
