(* ===== verification/ShippingRequests.thy ===== *)
theory ShippingRequests
  imports Pulls
begin

text \<open>
  \<open>shipping_requests.py\<close> and the accept gate of \<open>shipping_repository.py\<close>: a shipping-out request
  claims its lines when it is raised, keeps the claim while it is accepted, reopened or edited, and
  gives it up when it is rejected. Accepting mints the pull; reopening discards it.
\<close>

section \<open>Lines\<close>

text \<open>A line as it is sent; an absent quantity is one.\<close>

record ship_line =
  sl_opening_number :: "string option"
  sl_hardware_category :: "string option"
  sl_product_code :: "string option"
  sl_requested_quantity :: "int option"

definition sent_text :: "string option \<Rightarrow> string" where
  "sent_text s = (case s of None \<Rightarrow> [] | Some t \<Rightarrow> t)"

definition sent_quantity :: "ship_line \<Rightarrow> int" where
  "sent_quantity item = (case sl_requested_quantity item of None \<Rightarrow> 1 | Some q \<Rightarrow> q)"

definition line_needs :: "ship_line list \<Rightarrow> (combo \<times> int) list" where
  "line_needs items =
     map (\<lambda>item. ((sent_text (sl_hardware_category item), sent_text (sl_product_code item)), sent_quantity item))
       (filter (\<lambda>item. \<not> blank (sl_hardware_category item) \<and> \<not> blank (sl_product_code item)) items)"

definition build_item :: "ship_line \<Rightarrow> shipping_out_request_item result" where
  "build_item item =
     ensure (\<not> blank (sl_hardware_category item) \<and> \<not> blank (sl_product_code item))
       (ValidationError (Some ''product_code'')) (
     ensure (1 \<le> sent_quantity item) (ValidationError (Some ''requested_quantity''))
       (Inr \<lparr>sri_opening_number = (if blank (sl_opening_number item) then None else sl_opening_number item),
             sri_hardware_category = sent_text (sl_hardware_category item),
             sri_product_code = sent_text (sl_product_code item),
             sri_requested_quantity = sent_quantity item\<rparr>))"

fun build_items :: "ship_line list \<Rightarrow> shipping_out_request_item list result" where
  "build_items [] = Inr []"
| "build_items (item # items) =
     bindr (build_item item) (\<lambda>i. bindr (build_items items) (\<lambda>is. Inr (i # is)))"

definition check_openings :: "db \<Rightarrow> uuid \<Rightarrow> ship_line list \<Rightarrow> unit result" where
  "check_openings db project_id items =
     ensure (list_all (\<lambda>item. blank (sl_opening_number item) \<or>
         (project_id, sent_text (sl_opening_number item)) \<in> set (openings db)) items)
       (ValidationError (Some ''opening_number'')) (Inr ())"

text \<open>
  The gate runs only over a non-empty list of needs.
\<close>

definition gate_needs :: "db \<Rightarrow> uuid \<Rightarrow> (combo \<times> int) list \<Rightarrow> string option \<Rightarrow> unit result" where
  "gate_needs db project_id needs number =
     (if needs = [] then Inr ()
      else gate_on_available_inventory db project_id needs ''shipping-out request'' number)"

section \<open>Creating\<close>

definition request_for_create_key :: "db \<Rightarrow> uuid \<Rightarrow> string \<Rightarrow> shipping_out_request option result" where
  "request_for_create_key db project_id key =
     ensure (length key \<le> 100) (ValidationError (Some ''idempotency_key'')) (
     case List.find (\<lambda>r. sor_create_idempotency_key r = Some key) (shipping_out_requests db) of
       None \<Rightarrow> Inr None
     | Some r \<Rightarrow>
         ensure (sor_project_id r = project_id) (ValidationError (Some ''idempotency_key'')) (Inr (Some r)))"

definition new_shipping_request ::
  "uuid \<Rightarrow> string \<Rightarrow> uuid \<Rightarrow> string \<Rightarrow> string option \<Rightarrow> string option \<Rightarrow> shipping_out_request_item list \<Rightarrow>
   shipping_out_request" where
  "new_shipping_request i number project_id created_by user_id key items =
     \<lparr>sor_id = i, sor_request_number = number, sor_project_id = project_id, sor_status = SOR_PENDING,
      sor_created_by = created_by, sor_created_by_user_id = user_id,
      sor_create_idempotency_key = (if blank key then None else key), sor_approved_by = None,
      sor_approved_at = None, sor_rejected_by = None, sor_rejection_reason = None, sor_rejected_at = None,
      sor_integrity_note = None, sor_pull_request_id = None, sor_items = items\<rparr>"

text \<open>One draft: its number, its row with its lines, and its claim.\<close>

definition create_draft ::
  "uuid \<Rightarrow> string \<Rightarrow> string option \<Rightarrow> string option \<Rightarrow> ship_line list \<Rightarrow> db \<Rightarrow> (uuid \<times> db) result" where
  "create_draft project_id created_by user_id key items db =
     bindr (mint_request_number project_id db) (\<lambda>minted.
     bindr (build_items items) (\<lambda>built.
       let (i, db) = fresh (snd minted);
           db = db\<lparr>shipping_out_requests := shipping_out_requests db @
             [new_shipping_request i (fst minted) project_id created_by user_id key built]\<rparr>
       in Inr (i, create_reservations project_id (SHIPPING_OUT_REQUEST, i) (line_needs items) db)))"

fun create_drafts ::
  "uuid \<Rightarrow> string \<Rightarrow> string option \<Rightarrow> string option \<Rightarrow> ship_line list list \<Rightarrow> db \<Rightarrow> (uuid list \<times> db) result" where
  "create_drafts project_id created_by user_id key [] db = Inr ([], db)"
| "create_drafts project_id created_by user_id key (draft # drafts) db =
     bindr (create_draft project_id created_by user_id key draft db) (\<lambda>made.
     bindr (create_drafts project_id created_by user_id key drafts (snd made)) (\<lambda>rest.
       Inr (fst made # fst rest, snd rest)))"

definition raise_drafts ::
  "uuid \<Rightarrow> ship_line list list \<Rightarrow> string \<Rightarrow> string option \<Rightarrow> string option \<Rightarrow> db \<Rightarrow> (uuid list \<times> db) result" where
  "raise_drafts project_id drafts created_by user_id key db =
     ensure (list_all (\<lambda>items. items \<noteq> []) drafts) (ValidationError (Some ''items'')) (
     bindr (check_openings db project_id (concat drafts)) (\<lambda>_.
     bindr (gate_needs db project_id (concat (map line_needs drafts)) None) (\<lambda>_.
       create_drafts project_id created_by user_id key drafts db)))"

definition create_shipping_out_requests ::
  "uuid \<Rightarrow> ship_line list list \<Rightarrow> string \<Rightarrow> string option \<Rightarrow> string option \<Rightarrow> db \<Rightarrow> (uuid list \<times> db) result" where
  "create_shipping_out_requests project_id drafts created_by user_id key db =
     (if drafts = [] then Inr ([], db)
      else if blank key then raise_drafts project_id drafts created_by user_id key db
      else
        ensure (length drafts = 1) PyValueError (
        bindr (request_for_create_key db project_id (sent_text key)) (\<lambda>existing.
          case existing of
            Some r \<Rightarrow> Inr ([sor_id r], db)
          | None \<Rightarrow> raise_drafts project_id drafts created_by user_id key db)))"

section \<open>Editing\<close>

definition lock_shipping_out_request :: "db \<Rightarrow> uuid \<Rightarrow> shipping_out_request result" where
  "lock_shipping_out_request db i =
     (case find_row sor_id i (shipping_out_requests db) of None \<Rightarrow> Inl NotFoundError | Some r \<Rightarrow> Inr r)"

definition set_shipping_request ::
  "uuid \<Rightarrow> (shipping_out_request \<Rightarrow> shipping_out_request) \<Rightarrow> db \<Rightarrow> db" where
  "set_shipping_request i f db = db\<lparr>shipping_out_requests := update_row sor_id i f (shipping_out_requests db)\<rparr>"

type_synonym lines_row = "string \<times> string \<times> string \<times> int"

text \<open>The fingerprint of a request's lines: \<open>digest\<close> is the truncated SHA-1 of the sorted rows.\<close>

definition lines_rows :: "shipping_out_request_item list \<Rightarrow> lines_row list" where
  "lines_rows items = sort (map (\<lambda>i. (sent_text (sri_opening_number i), sri_hardware_category i,
     sri_product_code i, sri_requested_quantity i)) items)"

definition lines_version :: "(lines_row list \<Rightarrow> string) \<Rightarrow> shipping_out_request_item list \<Rightarrow> string" where
  "lines_version digest items = digest (lines_rows items)"

definition get_reserved_by_product :: "db \<Rightarrow> uuid \<Rightarrow> (combo \<times> int) list" where
  "get_reserved_by_product db i =
     sum_by rs_combo rs_quantity
       (filter (\<lambda>r. rs_source r = SHIPPING_OUT_REQUEST \<and> rs_shipping_out_request_id r = Some i)
         (inventory_reservations db))"

definition replace_shipping_out_request_items ::
  "(lines_row list \<Rightarrow> string) \<Rightarrow> uuid \<Rightarrow> ship_line list \<Rightarrow> string option \<Rightarrow> db \<Rightarrow> db result" where
  "replace_shipping_out_request_items digest i items expected db =
     bindr (lock_shipping_out_request db i) (\<lambda>r.
     ensure (sor_status r = SOR_PENDING) InvalidStateTransitionError (
     ensure (items \<noteq> []) (ValidationError (Some ''items'')) (
     ensure (expected = None \<or> expected = Some (lines_version digest (sor_items r)))
       (ConflictError (Some ''items'')) (
     bindr (check_openings db (sor_project_id r) items) (\<lambda>_.
     let db = snd (release_reservations (SHIPPING_OUT_REQUEST, i) db); needs = line_needs items in
     bindr (gate_needs db (sor_project_id r) needs (Some (sor_request_number r))) (\<lambda>_.
     bindr (build_items items) (\<lambda>built.
       Inr (set_shipping_request i (\<lambda>r. r\<lparr>sor_items := built, sor_integrity_note := None\<rparr>)
         (create_reservations (sor_project_id r) (SHIPPING_OUT_REQUEST, i) needs db)))))))))"

section \<open>Accepting, rejecting, reopening\<close>

definition ship_pull_item :: "shipping_out_request_item \<Rightarrow> pull_request_item" where
  "ship_pull_item i = \<lparr>pi_opening_number = sri_opening_number i, pi_hardware_category = sri_hardware_category i,
     pi_product_code = sri_product_code i, pi_requested_quantity = sri_requested_quantity i\<rparr>"

definition accept_shipping_out_request :: "datetime \<Rightarrow> uuid \<Rightarrow> string \<Rightarrow> db \<Rightarrow> db result" where
  "accept_shipping_out_request now i accepted_by db =
     bindr (lock_shipping_out_request db i) (\<lambda>r.
     ensure (sor_status r = SOR_PENDING) InvalidStateTransitionError (
     let (pull_id, db) = fresh db;
         pull = new_pull pull_id (sor_request_number r) (sor_project_id r) PULL_SHIPPING_OUT accepted_by
           (map ship_pull_item (sor_items r)) in
     bindr (insert_pull pull db) (\<lambda>db.
       notify_pull_created now pull
         (set_shipping_request i (\<lambda>r. r\<lparr>sor_status := SOR_APPROVED, sor_approved_by := Some accepted_by,
            sor_approved_at := Some now, sor_pull_request_id := Some pull_id\<rparr>) db))))"

definition reject_shipping_out_request :: "datetime \<Rightarrow> uuid \<Rightarrow> string \<Rightarrow> string option \<Rightarrow> db \<Rightarrow> db result" where
  "reject_shipping_out_request now i rejected_by reason db =
     (let reason = strip (sent_text reason) in
      ensure (reason \<noteq> []) (ValidationError (Some ''reason'')) (
      bindr (lock_shipping_out_request db i) (\<lambda>r.
      ensure (sor_status r = SOR_PENDING) InvalidStateTransitionError (
      let db = set_shipping_request i (\<lambda>r. r\<lparr>sor_status := SOR_REJECTED, sor_rejected_by := Some rejected_by,
            sor_rejection_reason := Some (take 500 reason), sor_rejected_at := Some now\<rparr>) db;
          db = snd (release_reservations (SHIPPING_OUT_REQUEST, i) db)
      in create_notification now (sor_project_id r)
           (if blank (sor_created_by_user_id r) then Some SHIPPING_RECIPIENT_ROLE else None)
           SHIPPING_REQUEST_REJECTED None
           (if blank (sor_created_by_user_id r) then None else sor_created_by_user_id r) None db))))"

definition reopen_shipping_out_request :: "uuid \<Rightarrow> db \<Rightarrow> db result" where
  "reopen_shipping_out_request i db =
     bindr (lock_shipping_out_request db i) (\<lambda>r.
     ensure (sor_status r = SOR_APPROVED) InvalidStateTransitionError (
       discard_pending_pull_request (sor_pull_request_id r)
         (set_shipping_request i (\<lambda>r. r\<lparr>sor_status := SOR_PENDING, sor_approved_by := None,
            sor_approved_at := None, sor_pull_request_id := None\<rparr>) db)))"

section \<open>Where a request stands\<close>

definition open_request :: "db \<Rightarrow> shipping_out_request \<Rightarrow> bool" where
  "open_request db r \<longleftrightarrow> sor_status r \<noteq> SOR_REJECTED \<and>
     (sor_status r = SOR_PENDING \<or>
      (case Option.bind (sor_pull_request_id r) (\<lambda>i. find_row pr_id i (pull_requests db)) of
         None \<Rightarrow> True
       | Some pr \<Rightarrow> pr_status pr \<notin> {PULL_COMPLETED, PULL_CANCELLED}))"

datatype shipping_stage = SHIP_REJECTED | SHIP_REQUESTED | SHIP_DONE | SHIP_PULLING | SHIP_ACCEPTED

definition shipping_stage_for :: "shipping_out_request \<Rightarrow> pull_request_status option \<Rightarrow> shipping_stage" where
  "shipping_stage_for r pull_status =
     (if sor_status r = SOR_REJECTED then SHIP_REJECTED
      else if sor_status r = SOR_PENDING then SHIP_REQUESTED
      else if pull_status = Some PULL_COMPLETED then SHIP_DONE
      else if pull_status = Some PULL_IN_PROGRESS then SHIP_PULLING
      else if pull_status = Some PULL_CANCELLED \<or> pull_status = None then SHIP_REQUESTED
      else SHIP_ACCEPTED)"

end
