(* ===== verification/StockPool.thy ===== *)
theory StockPool
  imports Notices
begin

text \<open>
  Where units that come back to a project or to the shared stock pool land: the canonical shelf label
  (\<open>warehouse/locations.py\<close>), the currency of a cost (\<open>currency.py\<close>), the price of a product in a
  project (\<open>warehouse/inventory.py\<close>), the default building (\<open>warehouse_admin_repository.py\<close>) and the
  pool row of a product at a price (\<open>stock/common.py\<close>). A stored cost is an integer in units of the
  columns' fifth decimal; a price that was computed is exact, a quotient of two integers in that unit,
  and is rounded where the code rounds it: half to even when the pool looks a row up by price
  (\<open>Decimal.quantize\<close>), half away from zero when the column stores it.
\<close>

section \<open>Shelf labels\<close>

text \<open>The canonical form of a shelf label: upper case, trimmed, single spaces; None when nothing is left.\<close>

definition normalize_location_value :: "string option \<Rightarrow> string option" where
  "normalize_location_value value =
     (case value of
        None \<Rightarrow> None
      | Some s \<Rightarrow>
          let normalized = join_words (split_words [] (strip (upper s)))
          in if normalized = [] then None else Some normalized)"

lemma upper_fixed: "\<forall>c \<in> set s. upper_char c = c \<Longrightarrow> upper s = s"
  by (simp add: upper_def map_idI)

lemma set_strip: "set (strip s) \<subseteq> set s"
  unfolding strip_def by (metis set_rev set_dropWhileD subsetI)

lemma normalize_join:
  assumes "ws \<noteq> []" and "\<forall>w \<in> set ws. word_ok w" and "\<forall>w \<in> set ws. \<forall>c \<in> set w. upper_char c = c"
  shows "normalize_location_value (Some (join_words ws)) = Some (join_words ws)"
proof -
  have "upper_char (CHR '' '') = CHR '' ''" by code_simp
  then have "upper (join_words ws) = join_words ws"
    using assms(3) join_words_chars [of ws] by (intro upper_fixed) blast
  moreover have "strip (join_words ws) = join_words ws"
    using join_words_ends [OF assms(1,2)] by (intro strip_id) simp
  ultimately show ?thesis
    using join_words_ends(1) [OF assms(1,2)] split_join [OF assms(2)]
    by (simp add: normalize_location_value_def Let_def)
qed
lemma normalize_location_value_idem:
  "normalize_location_value (normalize_location_value v) = normalize_location_value v"
proof (cases "normalize_location_value v")
  case None
  then show ?thesis by (simp add: normalize_location_value_def)
next
  case (Some t)
  then obtain s where t: "t = join_words (split_words [] (strip (upper s)))" "t \<noteq> []"
    by (auto simp: normalize_location_value_def Let_def split: option.splits if_splits)
  let ?ws = "split_words [] (strip (upper s))"
  have "?ws \<noteq> []" using t by (metis join_words.simps(1))
  moreover have "\<forall>w \<in> set ?ws. word_ok w" using split_words_ok [of "[]"] by simp
  moreover have "upper_char c = c" if "w \<in> set ?ws" "c \<in> set w" for w c
  proof -
    have "c \<in> set (upper s)" using split_words_chars [OF that(1)] that(2) set_strip by fastforce
    then show ?thesis by (auto simp: upper_def)
  qed
  ultimately have "normalize_location_value (Some t) = Some t"
    unfolding t(1) by (intro normalize_join) blast+
  then show ?thesis using Some by simp
qed
section \<open>Currencies and prices\<close>

definition FUNCTIONAL_CURRENCY :: string where
  "FUNCTIONAL_CURRENCY = ''CAD''"

definition normalize_currency :: "string option \<Rightarrow> string" where
  "normalize_currency value =
     (let c = upper (strip (case value of None \<Rightarrow> [] | Some s \<Rightarrow> s))
      in if c = [] then FUNCTIONAL_CURRENCY else c)"

definition cost_currency_of :: "string option \<Rightarrow> string option" where
  "cost_currency_of value =
     (let currency = normalize_currency value
      in if currency = FUNCTIONAL_CURRENCY then None else Some currency)"

text \<open>\<open>coalesce(a, b)\<close>, and the first row of an \<open>ORDER BY ... DESC LIMIT 1\<close> (ties in table order).\<close>

definition coalesce :: "'a option \<Rightarrow> 'a option \<Rightarrow> 'a option" where
  "coalesce a b = (case a of None \<Rightarrow> b | Some x \<Rightarrow> Some x)"

definition newest :: "('r \<Rightarrow> nat) \<Rightarrow> 'r list \<Rightarrow> 'r option" where
  "newest key rows = (case sort_key (\<lambda>r. - int (key r)) rows of [] \<Rightarrow> None | r # _ \<Rightarrow> Some r)"

definition po_line_of :: "db \<Rightarrow> inventory_location \<Rightarrow> po_line option" where
  "po_line_of db il = Option.bind (il_po_line_item_id il) (\<lambda>l. find_row po_line_id l (po_lines db))"

definition effective_cost :: "db \<Rightarrow> inventory_location \<Rightarrow> int option" where
  "effective_cost db il = coalesce (Option.bind (po_line_of db il) po_line_unit_cost) (il_unit_cost il)"

definition resolve_project_combo_price :: "db \<Rightarrow> uuid \<Rightarrow> combo \<Rightarrow> int option \<times> string option" where
  "resolve_project_combo_price db project_id c =
     (case newest il_received_at (filter (\<lambda>il. il_project_id il = project_id \<and> il_combo il = c \<and>
             effective_cost db il \<noteq> None) (inventory_locations db)) of
        Some il \<Rightarrow>
          (effective_cost db il,
           cost_currency_of (coalesce (Option.bind (po_line_of db il) po_line_currency) (il_cost_currency il)))
      | None \<Rightarrow>
          (let schedule_rows = sum_by (\<lambda>h. case hw_unit_cost h of None \<Rightarrow> 0 | Some u \<Rightarrow> u) hw_item_quantity
                (filter (\<lambda>h. hw_project_id h = project_id \<and>
                     (hw_hardware_category h, hw_product_code h) = c \<and> hw_unit_cost h \<noteq> None)
                  (hardware_items db))
          in case sort_key (\<lambda>r. (- snd r, - fst r)) schedule_rows of
               [] \<Rightarrow> (None, None)
             | best # _ \<Rightarrow> (Some (fst best), None)))"

section \<open>The default building\<close>

definition get_primary_warehouse_id :: "db \<Rightarrow> string option \<Rightarrow> uuid result" where
  "get_primary_warehouse_id db company =
     (case sort_key (\<lambda>w. (\<not> wh_is_active w, \<not> wh_is_primary w, wh_created_at w))
             (filter (\<lambda>w. company = None \<or> company = Some (wh_company w)) (warehouses db)) of
        [] \<Rightarrow> Inl (ConflictError None)
      | w # _ \<Rightarrow> Inr (wh_id w))"

definition assert_usable_destination :: "db \<Rightarrow> uuid \<Rightarrow> string option \<Rightarrow> string \<Rightarrow> warehouse result" where
  "assert_usable_destination db warehouse_id company field =
     (case find_row wh_id warehouse_id (warehouses db) of
        None \<Rightarrow> Inl NotFoundError
      | Some wh \<Rightarrow>
          ensure (wh_is_active wh) (ValidationError (Some field)) (
          ensure (company = None \<or> company = Some (wh_company wh)) (ValidationError (Some field)) (Inr wh)))"

section \<open>The stock pool\<close>

text \<open>An exact price, and the two roundings of it.\<close>

type_synonym exact_cost = "int \<times> int"

definition exactly :: "int \<Rightarrow> exact_cost" where
  "exactly c = (c, 1)"

definition pool_unit_cost :: "exact_cost \<Rightarrow> int" where
  "pool_unit_cost c =
     (let q = fst c div snd c; twice = 2 * (fst c mod snd c)
      in if twice < snd c \<or> (twice = snd c \<and> even q) then q else q + 1)"

definition column_cost :: "exact_cost \<Rightarrow> int" where
  "column_cost c =
     (let q = fst c div snd c; twice = 2 * (fst c mod snd c)
      in if twice < snd c \<or> (twice = snd c \<and> fst c < 0) then q else q + 1)"

lemma exactly_costs [simp]: "pool_unit_cost (exactly c) = c" "column_cost (exactly c) = c"
  by (simp_all add: exactly_def pool_unit_cost_def column_cost_def)

lemma exactly_inj [simp]: "exactly a = exactly b \<longleftrightarrow> a = b"
  by (simp add: exactly_def)

text \<open>A pool row's key: one shelf, one product, one kind, one price in one currency.\<close>

record pool_key =
  key_warehouse :: uuid
  key_product :: combo
  key_aisle :: "string option"
  key_row :: "string option"
  key_bay :: "string option"
  key_kind :: pool_kind
  key_unit_cost :: "exact_cost option"
  key_cost_currency :: "string option"

definition canonical_key :: "pool_key \<Rightarrow> pool_key" where
  "canonical_key k = k\<lparr>key_aisle := normalize_location_value (key_aisle k),
     key_row := normalize_location_value (key_row k), key_bay := normalize_location_value (key_bay k),
     key_unit_cost := map_option (\<lambda>c. exactly (pool_unit_cost c)) (key_unit_cost k),
     key_cost_currency := cost_currency_of (key_cost_currency k)\<rparr>"

definition stock_row_key :: "stock_item \<Rightarrow> pool_key" where
  "stock_row_key s =
     \<lparr>key_warehouse = st_warehouse_id s, key_product = (st_hardware_category s, st_product_code s),
      key_aisle = st_aisle s, key_row = st_row s, key_bay = st_bay s, key_kind = st_kind s,
      key_unit_cost = map_option exactly (st_unit_cost s), key_cost_currency = st_cost_currency s\<rparr>"

definition find_stock_row :: "db \<Rightarrow> pool_key \<Rightarrow> stock_item option" where
  "find_stock_row db k = List.find (\<lambda>s. stock_row_key s = canonical_key k) (stock_items db)"

definition new_stock_row :: "uuid \<Rightarrow> datetime \<Rightarrow> pool_key \<Rightarrow> stock_item" where
  "new_stock_row i received_at k =
     \<lparr>st_id = i, st_warehouse_id = key_warehouse k, st_hardware_category = fst (key_product k),
      st_product_code = snd (key_product k), st_quantity = 0, st_deficient_quantity = 0,
      st_kind = key_kind k, st_aisle = normalize_location_value (key_aisle k),
      st_row = normalize_location_value (key_row k), st_bay = normalize_location_value (key_bay k),
      st_unit_cost = map_option column_cost (key_unit_cost k), st_cost_currency = cost_currency_of (key_cost_currency k),
      st_received_at = received_at\<rparr>"

definition find_or_create_stock_row :: "datetime \<Rightarrow> pool_key \<Rightarrow> db \<Rightarrow> stock_item \<times> db" where
  "find_or_create_stock_row received_at k db =
     (case find_stock_row db k of
        Some s \<Rightarrow> (s, db)
      | None \<Rightarrow>
          let (i, db) = fresh db; s = new_stock_row i received_at k
          in (s, db\<lparr>stock_items := stock_items db @ [s]\<rparr>))"

text \<open>The two roundings of a price agree.\<close>

definition price_settled :: "pool_key \<Rightarrow> bool" where
  "price_settled k \<longleftrightarrow>
     map_option pool_unit_cost (key_unit_cost k) = map_option column_cost (key_unit_cost k)"

lemma new_stock_row_key: "price_settled k \<Longrightarrow> stock_row_key (new_stock_row i t k) = canonical_key k"
  by (cases "key_unit_cost k") (simp_all add: price_settled_def stock_row_key_def new_stock_row_def canonical_key_def)

lemma price_settled_exactly [simp]: "key_unit_cost k = map_option exactly c \<Longrightarrow> price_settled k"
  by (cases c) (simp_all add: price_settled_def)

text \<open>No two rows of the pool share a key.\<close>

definition pool_keys_unique :: "db \<Rightarrow> bool" where
  "pool_keys_unique db \<longleftrightarrow> distinct (map stock_row_key (stock_items db))"

lemma strip_ends: "strip s = [] \<or> (\<not> is_space (hd (strip s)) \<and> \<not> is_space (last (strip s)))"
proof -
  let ?d = "dropWhile is_space s"
  have d: "?d = strip s @ rev (takeWhile is_space (rev ?d))"
    unfolding strip_def by (metis rev_append rev_rev_ident takeWhile_dropWhile_id)
  have "\<not> is_space (hd (strip s))" if "strip s \<noteq> []"
  proof -
    have "hd ?d = hd (strip s)" "?d \<noteq> []" using d that by (metis hd_append2, metis append_is_Nil_conv)
    then show ?thesis using hd_dropWhile by metis
  qed
  moreover have "\<not> is_space (last (strip s))" if "strip s \<noteq> []"
    using that hd_dropWhile [of is_space "rev ?d"] unfolding strip_def by (simp add: last_rev)
  ultimately show ?thesis by blast
qed

lemma is_space_upper: "is_space (upper_char c) \<longleftrightarrow> is_space c"
proof (cases "CHR ''a'' \<le> c \<and> c \<le> CHR ''z''")
  case True
  then have range: "97 \<le> (of_char c :: nat)" "(of_char c :: nat) \<le> 122" by (simp_all add: less_eq_char_def)
  have "of_char (upper_char c) = (of_char c - 32 :: nat)"
    using True range by (simp add: upper_char_def of_char_of)
  moreover have "(of_char d :: nat) \<le> 32" if "is_space d" for d
    using that by (auto simp: is_space_def)
  ultimately show ?thesis using range by fastforce
next
  case False
  then have "upper_char c = c" unfolding upper_char_def by (rule if_not_P)
  then show ?thesis by simp
qed

lemma strip_upper_strip: "strip (upper (strip s)) = upper (strip s)"
  using strip_ends [of s] by (intro strip_id) (auto simp: upper_def hd_map last_map is_space_upper)

lemma cost_currency_of_idem: "cost_currency_of (cost_currency_of v) = cost_currency_of v"
proof (cases "cost_currency_of v")
  case None
  then show ?thesis by (simp add: cost_currency_of_def normalize_currency_def strip_def upper_def)
next
  case (Some c)
  then have "c \<noteq> [] \<and> c \<noteq> FUNCTIONAL_CURRENCY \<and> (\<exists>s. c = upper (strip s))"
    by (auto simp: cost_currency_of_def normalize_currency_def Let_def FUNCTIONAL_CURRENCY_def split: if_splits)
  then show ?thesis
    using Some by (auto simp: cost_currency_of_def normalize_currency_def Let_def strip_upper_strip)
qed

lemma canonical_key_idem: "canonical_key (canonical_key k) = canonical_key k"
  by (cases "key_unit_cost k")
    (simp_all add: canonical_key_def normalize_location_value_idem cost_currency_of_idem)

lemma find_append: "List.find P (xs @ ys) = (case List.find P xs of None \<Rightarrow> List.find P ys | Some x \<Rightarrow> Some x)"
  by (induction xs) auto

lemma find_stock_row_None: "find_stock_row db k = None \<longleftrightarrow> canonical_key k \<notin> stock_row_key ` set (stock_items db)"
  by (force simp: find_stock_row_def find_None_iff)

lemma find_stock_row_Some: "find_stock_row db k = Some s \<Longrightarrow> s \<in> set (stock_items db) \<and> stock_row_key s = canonical_key k"
  by (auto simp: find_stock_row_def find_Some_iff)

text \<open>
  The pool never splits a product at a price over two rows: a request for a pool row leaves at
  most one row per key, hands back a row of the canonical key, and asking again - with the key as
  typed or in its canonical form, in any later call - finds that row and adds nothing. The price is
  one the two roundings agree on.
\<close>

theorem stock_row_found_again:
  assumes settled: "price_settled k"
  shows "(let (s, db') = find_or_create_stock_row t k db in
     stock_row_key s = canonical_key k \<and> s \<in> set (stock_items db') \<and>
     pool_keys_unique db' = pool_keys_unique db \<and>
     find_or_create_stock_row t' k db' = (s, db') \<and>
     find_or_create_stock_row t' (canonical_key k) db' = (s, db'))"
proof (cases "find_stock_row db k")
  case None
  let ?s = "new_stock_row (next_id db) t k"
  let ?db = "db\<lparr>next_id := Suc (next_id db), stock_items := stock_items db @ [?s]\<rparr>"
  have key: "stock_row_key ?s = canonical_key k" by (rule new_stock_row_key [OF settled])
  have run: "find_or_create_stock_row t k db = (?s, ?db)"
    using None by (simp add: find_or_create_stock_row_def fresh_def Let_def)
  have "find_stock_row ?db k' = Some ?s" if "canonical_key k' = canonical_key k" for k'
    using None that by (simp add: find_stock_row_def find_append key)
  then have "find_or_create_stock_row t' k' ?db = (?s, ?db)" if "canonical_key k' = canonical_key k" for k'
    using that by (simp add: find_or_create_stock_row_def)
  moreover have "pool_keys_unique ?db = pool_keys_unique db"
    using None by (auto simp: pool_keys_unique_def find_stock_row_None key)
  ultimately show ?thesis by (simp add: run canonical_key_idem key)
next
  case (Some s)
  then have "find_or_create_stock_row t k' db = (s, db)" if "canonical_key k' = canonical_key k" for k' t
    using that by (simp add: find_or_create_stock_row_def find_stock_row_def)
  then show ?thesis using find_stock_row_Some [OF Some] by (simp add: canonical_key_idem)
qed

text \<open>A shelf of the pool, typed in two ways, at a price computed from three rows.\<close>

definition demo_key :: "string \<Rightarrow> exact_cost \<Rightarrow> pool_key" where
  "demo_key aisle price =
     \<lparr>key_warehouse = 2, key_product = (''Hinges'', ''BB1279''), key_aisle = Some aisle, key_row = None,
      key_bay = None, key_kind = STOCK, key_unit_cost = Some price, key_cost_currency = Some ''usd ''\<rparr>"

theorem stock_row_found_again_witness:
  "price_settled (demo_key '' a  1'' (100, 3)) \<and>
   (let (s, db') = find_or_create_stock_row 7 (demo_key '' a  1'' (100, 3)) empty_db in
     st_aisle s = Some ''A 1'' \<and>
     find_or_create_stock_row 8 (canonical_key (demo_key '' a  1'' (100, 3))) db' = (s, db'))"
proof -
  have settled: "price_settled (demo_key '' a  1'' (100, 3))" by code_simp
  have "st_aisle (fst (find_or_create_stock_row 7 (demo_key '' a  1'' (100, 3)) empty_db)) = Some ''A 1''"
    by code_simp
  then show ?thesis
    using settled stock_row_found_again [OF settled, of 7 empty_db 8] by (simp add: split_beta)
qed

text \<open>A price exactly between two fifth decimals whose two roundings go different ways.\<close>

definition price_tied :: "pool_key \<Rightarrow> bool" where
  "price_tied k \<longleftrightarrow> (case key_unit_cost k of None \<Rightarrow> False
     | Some (n, d) \<Rightarrow> 2 * (n mod d) = d \<and> (if n < 0 then odd (n div d) else even (n div d)))"

lemma settled_iff_not_tied: "price_settled k \<longleftrightarrow> \<not> price_tied k"
  by (auto simp: price_settled_def price_tied_def pool_unit_cost_def column_cost_def Let_def split: option.split)

text \<open>
  C18. Where a pool row is stored and where it is looked up can disagree, and exactly where: of a key the pool has no row
  for, asking twice gives the same row and adds nothing the second time, unless the price sits exactly between two fifth
  decimals and the one below is even (odd, for a negative price). There the row is stored rounded away from zero and
  looked up rounded to even, so the second request misses it and adds a twin with the same key.
\<close>

theorem pool_splits_a_tied_price:
  assumes "find_stock_row db k = None" and "find_or_create_stock_row t k db = (first, db1)"
    and "find_or_create_stock_row t' k db1 = (second, db2)"
  shows "if price_tied k
    then stock_row_key second = stock_row_key first \<and> st_id second \<noteq> st_id first \<and>
      stock_items db2 = stock_items db @ [first, second] \<and> \<not> pool_keys_unique db2
    else second = first \<and> db2 = db1 \<and> stock_items db2 = stock_items db @ [first] \<and> (pool_keys_unique db2 \<longleftrightarrow> pool_keys_unique db)"
proof -
  let ?s = "new_stock_row (next_id db) t k"
  have one: "first = ?s" "db1 = db\<lparr>next_id := Suc (next_id db), stock_items := stock_items db @ [?s]\<rparr>"
    using assms(1,2) by (auto simp: find_or_create_stock_row_def fresh_def Let_def)
  show ?thesis
  proof (cases "price_tied k")
    case False
    then have settled: "price_settled k" by (simp add: settled_iff_not_tied)
    then have "find_or_create_stock_row t' k db1 = (first, db1)" "pool_keys_unique db1 = pool_keys_unique db"
      using stock_row_found_again [OF settled, of t db t'] assms(2) by simp_all
    moreover from this have "second = first" "db2 = db1" using assms(3) by simp_all
    moreover have "stock_items db1 = stock_items db @ [first]" using one by simp
    ultimately show ?thesis using False by simp
  next
    case True
    have other: "stock_row_key (new_stock_row i t k) \<noteq> canonical_key k" for i t
    proof -
      have "map_option column_cost (key_unit_cost k) \<noteq> map_option pool_unit_cost (key_unit_cost k)"
        using True settled_iff_not_tied [of k] by (simp add: price_settled_def)
      then have "key_unit_cost (stock_row_key (new_stock_row i t k)) \<noteq> key_unit_cost (canonical_key k)"
        by (cases "key_unit_cost k") (simp_all add: stock_row_key_def new_stock_row_def canonical_key_def)
      then show ?thesis by metis
    qed
    have "find_stock_row db1 k = None" using assms(1) other [of "next_id db" t] by (simp add: one find_stock_row_def find_append)
    then have two: "second = new_stock_row (Suc (next_id db)) t' k" "stock_items db2 = stock_items db @ [first, second]"
      using assms(3) one by (auto simp: find_or_create_stock_row_def fresh_def Let_def)
    have "stock_row_key second = stock_row_key first" "st_id second \<noteq> st_id first"
      by (simp_all add: one two(1) new_stock_row_def stock_row_key_def)
    then show ?thesis using True two(2) by (simp add: pool_keys_unique_def)
  qed
qed

text \<open>2.5 hundred-thousandths, and 3.5.\<close>

theorem pool_splits_a_tied_price_witness:
  "length (stock_items (snd (find_or_create_stock_row 8 (demo_key ''A'' (5, 2)) (snd (find_or_create_stock_row 7 (demo_key ''A'' (5, 2)) empty_db))))) = 2 \<and>
   length (stock_items (snd (find_or_create_stock_row 8 (demo_key ''A'' (7, 2)) (snd (find_or_create_stock_row 7 (demo_key ''A'' (7, 2)) empty_db))))) = 1"
proof -
  have none: "find_stock_row empty_db k = None" "stock_items empty_db = []" for k by (simp_all add: find_stock_row_def empty_db_def)
  have tied: "price_tied (demo_key ''A'' (5, 2))" "\<not> price_tied (demo_key ''A'' (7, 2))" by code_simp+
  let ?ask = "\<lambda>t n db. find_or_create_stock_row t (demo_key ''A'' (n, 2)) db"
  have "stock_items (snd (?ask 8 5 (snd (?ask 7 5 empty_db)))) =
      stock_items empty_db @ [fst (?ask 7 5 empty_db), fst (?ask 8 5 (snd (?ask 7 5 empty_db)))]"
    using pool_splits_a_tied_price [OF none(1) prod.collapse [symmetric] prod.collapse [symmetric], of "demo_key ''A'' (5, 2)" 8 7] tied(1) by simp
  moreover have "stock_items (snd (?ask 8 7 (snd (?ask 7 7 empty_db)))) = stock_items empty_db @ [fst (?ask 7 7 empty_db)]"
    using pool_splits_a_tied_price [OF none(1) prod.collapse [symmetric] prod.collapse [symmetric], of "demo_key ''A'' (7, 2)" 8 7] tied(2) by auto
  ultimately show ?thesis by (simp add: none(2))
qed

end
