(* ===== verification/Cancelling.thy ===== *)
theory Cancelling
  imports ShopAssembly ShippingRequests StockPool
begin

text \<open>
  \<open>cancel_pull_request\<close> of \<open>warehouse/pull_requests.py\<close>: a started pull is closed, what was picked goes
  back to the rows it came off, the claim it still holds is dropped, and the work returns to the
  request it was minted for - re-claimed for a shipping request when it still fits, left free for a
  shop-assembly one.
\<close>

section \<open>Putting units back\<close>

definition project_company :: "db \<Rightarrow> uuid \<Rightarrow> string option" where
  "project_company db p = Option.bind (find_row pj_id p (projects db)) pj_company"

definition restored_row ::
  "uuid \<Rightarrow> datetime \<Rightarrow> uuid \<Rightarrow> combo \<Rightarrow> uuid \<Rightarrow> uuid \<Rightarrow> int option \<Rightarrow> string option \<Rightarrow> inventory_location" where
  "restored_row i now project_id c warehouse stock cost currency =
     \<lparr>il_id = i, il_project_id = project_id, il_warehouse_id = warehouse, il_hardware_category = fst c,
      il_product_code = snd c, il_quantity = 0, il_deficient_quantity = 0, il_aisle = None, il_row = None,
      il_bay = None, il_po_line_item_id = None, il_receive_line_item_id = None, il_stock_item_id = Some stock,
      il_shipment_return_item_id = None, il_entry_source = Some PULL_RESTOCK_ENTRY, il_unit_cost = cost,
      il_cost_currency = currency, il_received_at = now\<rparr>"

definition add_units :: "uuid \<Rightarrow> int \<Rightarrow> db \<Rightarrow> db" where
  "add_units i quantity db =
     db\<lparr>inventory_locations := update_row il_id i (\<lambda>il. il\<lparr>il_quantity := il_quantity il + quantity\<rparr>)
          (inventory_locations db)\<rparr>"

text \<open>The product's newest row takes the units; when it has none, one is made at the project's price.\<close>

definition return_units_to_project_inventory ::
  "datetime \<Rightarrow> uuid \<Rightarrow> combo \<Rightarrow> int \<Rightarrow> db \<Rightarrow> (uuid \<times> db) result" where
  "return_units_to_project_inventory now project_id c quantity db =
     (case newest il_received_at (filter (\<lambda>il. il_project_id il = project_id \<and> il_combo il = c)
             (inventory_locations db)) of
        Some il \<Rightarrow> Inr (il_id il, add_units (il_id il) quantity db)
      | None \<Rightarrow>
          bindr (get_primary_warehouse_id db (project_company db project_id)) (\<lambda>warehouse.
          let price = resolve_project_combo_price db project_id c;
              (stock, db) = find_or_create_stock_row now
                \<lparr>key_warehouse = warehouse, key_product = c, key_aisle = None, key_row = None, key_bay = None,
                 key_kind = STOCK, key_unit_cost = map_option exactly (fst price), key_cost_currency = snd price\<rparr> db;
              (i, db) = fresh db;
              db = db\<lparr>inventory_locations := inventory_locations db @
                [restored_row i now project_id c warehouse (st_id stock) (fst price) (snd price)]\<rparr>
          in Inr (i, add_units i quantity db)))"

definition quantity_at :: "db \<Rightarrow> uuid \<Rightarrow> int" where
  "quantity_at db i = (case find_row il_id i (inventory_locations db) of None \<Rightarrow> 0 | Some il \<Rightarrow> il_quantity il)"

definition restock_audit ::
  "pull_request \<Rightarrow> combo \<Rightarrow> int \<Rightarrow> int \<Rightarrow> (string \<times> json) list \<Rightarrow> string option \<Rightarrow> json" where
  "restock_audit pr c qty new_quantity where_from reason =
     JObj ([(''pullRequestId'', JId (pr_id pr)), (''pullRequestNumber'', JStr (pr_request_number pr)),
       (''restockedQuantity'', JInt qty), (''newQuantity'', JInt new_quantity),
       (''hardwareCategory'', JStr (fst c)), (''productCode'', JStr (snd c))] @ where_from @
       [(''reasonText'', opt_str reason)])"

text \<open>Units with no row to go back to: product by product, audited with where they came from.\<close>

fun return_all ::
  "datetime \<Rightarrow> pull_request \<Rightarrow> string \<Rightarrow> string option \<Rightarrow> (string \<times> json) list \<Rightarrow> (combo \<times> int) list \<Rightarrow> db \<Rightarrow> db result" where
  "return_all now pr by_whom reason where_from [] db = Inr db"
| "return_all now pr by_whom reason where_from ((c, qty) # rest) db =
     bindr (return_units_to_project_inventory now (pr_project_id pr) c qty db) (\<lambda>landed.
       return_all now pr by_whom reason where_from rest
         (log_audit_event (Some (pr_project_id pr)) INVENTORY_LOCATION (fst landed) PULL_RESTOCK by_whom
            (restock_audit pr c qty (quantity_at (snd landed) (fst landed)) where_from reason) (snd landed)))"

text \<open>
  Units with a row to go back to, in the order of their keys. What each product got back and what
  found no row is accumulated beside the database.
\<close>

fun return_to_rows ::
  "pull_request \<Rightarrow> string \<Rightarrow> string option \<Rightarrow> (entry_key \<times> int) list \<Rightarrow>
   (combo \<times> int) list \<Rightarrow> (combo \<times> int) list \<Rightarrow> db \<Rightarrow> (combo \<times> int) list \<times> (combo \<times> int) list \<times> db" where
  "return_to_rows pr by_whom reason [] orphaned totals db = (orphaned, totals, db)"
| "return_to_rows pr by_whom reason ((k, qty) # rest) orphaned totals db =
     (case find_row il_id (key_location k) (inventory_locations db) of
        None \<Rightarrow> return_to_rows pr by_whom reason rest (dict_add (key_combo k) qty orphaned) totals db
      | Some row \<Rightarrow>
          return_to_rows pr by_whom reason rest orphaned (dict_add (key_combo k) qty totals)
            (log_audit_event (Some (pr_project_id pr)) INVENTORY_LOCATION (il_id row) PULL_RESTOCK by_whom
               (restock_audit pr (key_combo k) qty (il_quantity row + qty)
                  [(''aisle'', opt_str (il_aisle row)), (''row'', opt_str (il_row row)),
                   (''bay'', opt_str (il_bay row)), (''returnedToSourceRow'', JBool True)] reason)
               (add_units (il_id row) qty db)))"

definition applied_lines :: "db \<Rightarrow> uuid \<Rightarrow> pull_pick_line list" where
  "applied_lines db i = filter (\<lambda>l. 0 < pk_quantity l) (pick_lines db i (Some APPLIED))"

definition line_key_at :: "pull_pick_line \<Rightarrow> uuid \<Rightarrow> entry_key" where
  "line_key_at l loc = (pk_hardware_category l, pk_product_code l, loc)"

definition lines_by_row :: "pull_pick_line list \<Rightarrow> (entry_key \<times> int) list" where
  "lines_by_row ls = tally (List.map_filter
     (\<lambda>l. map_option (\<lambda>loc. (line_key_at l loc, pk_quantity l)) (pk_inventory_location_id l)) ls)"

definition orphaned_lines :: "pull_pick_line list \<Rightarrow> (combo \<times> int) list" where
  "orphaned_lines ls = tally (map (\<lambda>l. (pk_combo l, pk_quantity l))
     (filter (\<lambda>l. pk_inventory_location_id l = None) ls))"

text \<open>What a cancelled pull puts back: the exact rows, the products, or nothing, by the evidence there is.\<close>

definition restock_cancelled_pull ::
  "datetime \<Rightarrow> pull_request \<Rightarrow> (combo \<times> int) list \<Rightarrow> string \<Rightarrow> string option \<Rightarrow> db \<Rightarrow>
   ((combo \<times> int) list \<times> db) result" where
  "restock_cancelled_pull now pr needs_by_combo cancelled_by reason db =
     (let applied = applied_lines db (pr_id pr) in
      if applied = [] then
        (if pr_picked_at pr = None then Inr ([], db)
         else
           (let needs = sort_key fst needs_by_combo in
            bindr (return_all now pr cancelled_by reason [] needs db) (\<lambda>db. Inr (needs, db))))
      else
        (let result = return_to_rows pr cancelled_by reason (sort_key fst (lines_by_row applied))
               (orphaned_lines applied) [] db;
             orphaned = sort_key fst (fst result);
             totals = fst (snd result)
         in bindr (return_all now pr cancelled_by reason [(''returnedToSourceRow'', JBool False)] orphaned
                    (snd (snd result))) (\<lambda>db.
              Inr (sort_key fst (tally_from totals orphaned), db))))"

section \<open>The source of the pull\<close>

datatype pull_origin =
    FROM_BATCH shop_assembly_request shop_assembly_batch
  | FROM_SHIPPING shipping_out_request
  | NO_ORIGIN

definition find_source_request :: "db \<Rightarrow> pull_request \<Rightarrow> pull_origin" where
  "find_source_request db pr =
     (case pr_source pr of
        PULL_SHOP_ASSEMBLY \<Rightarrow>
          (case List.find (\<lambda>b. sb_pull_request_id b = Some (pr_id pr)) (shop_assembly_batches db) of
             None \<Rightarrow> NO_ORIGIN
           | Some b \<Rightarrow>
               (case find_row sar_id (sb_shop_assembly_request_id b) (shop_assembly_requests db) of
                  None \<Rightarrow> NO_ORIGIN
                | Some r \<Rightarrow> FROM_BATCH r b))
      | PULL_SHIPPING_OUT \<Rightarrow>
          (case List.find (\<lambda>r. sor_pull_request_id r = Some (pr_id pr)) (shipping_out_requests db) of
             None \<Rightarrow> NO_ORIGIN
           | Some r \<Rightarrow> FROM_SHIPPING r))"

definition return_shipping_request_to_pending :: "shipping_out_request \<Rightarrow> db \<Rightarrow> bool \<times> db" where
  "return_shipping_request_to_pending r db =
     (if sor_status r \<noteq> SOR_APPROVED then (False, db)
      else (True, set_shipping_request (sor_id r) (\<lambda>r. r\<lparr>sor_status := SOR_PENDING, sor_approved_by := None,
              sor_approved_at := None\<rparr>) db))"

record returned_source =
  rt_returned_to_pending :: bool
  rt_reservations_recreated :: bool
  rt_integrity_note :: bool

text \<open>
  The work handed back. A shipping request re-claims its full need when it fits beside every other
  claim; otherwise it is flagged (the note's text is presentation, its presence is not).
\<close>

definition integrity_text :: string where
  "integrity_text = ''NOT_RESERVED''"

definition hand_back :: "pull_request \<Rightarrow> (combo \<times> int) list \<Rightarrow> db \<Rightarrow> (returned_source \<times> db) result" where
  "hand_back pr needs_by_combo db =
     (case find_source_request db pr of
        NO_ORIGIN \<Rightarrow> Inr (\<lparr>rt_returned_to_pending = False, rt_reservations_recreated = False, rt_integrity_note = False\<rparr>, db)
      | FROM_BATCH r b \<Rightarrow>
          bindr (return_batch_to_pending b db) (\<lambda>returned.
            Inr (\<lparr>rt_returned_to_pending = fst returned, rt_reservations_recreated = False,
                  rt_integrity_note = False\<rparr>, snd returned))
      | FROM_SHIPPING r \<Rightarrow>
          let (returned, db) = return_shipping_request_to_pending r db in
          if needs_by_combo = [] then
            Inr (\<lparr>rt_returned_to_pending = returned, rt_reservations_recreated = False, rt_integrity_note = False\<rparr>, db)
          else if sufficient (check_inventory_sufficiency db (pr_project_id pr) needs_by_combo True None) then
            Inr (\<lparr>rt_returned_to_pending = returned, rt_reservations_recreated = True, rt_integrity_note = False\<rparr>,
                 create_reservations (pr_project_id pr) (SHIPPING_OUT_REQUEST, sor_id r) needs_by_combo db)
          else
            Inr (\<lparr>rt_returned_to_pending = returned, rt_reservations_recreated = False, rt_integrity_note = True\<rparr>,
                 set_shipping_request (sor_id r) (\<lambda>r. r\<lparr>sor_integrity_note := Some integrity_text\<rparr>) db))"

section \<open>Cancelling\<close>

record cancel_result =
  cr_restocked :: "(combo \<times> int) list"
  cr_source_request_returned_to_pending :: bool
  cr_reservations_recreated :: bool
  cr_integrity_note :: bool

definition MAX_CANCELLATION_REASON_LENGTH :: nat where
  "MAX_CANCELLATION_REASON_LENGTH = 500"

definition cancellable_pull :: "db \<Rightarrow> uuid \<Rightarrow> pull_request result" where
  "cancellable_pull db i =
     bindr (lock_pull db i) (\<lambda>pr.
     ensure (pr_deleted_at pr = None) NotFoundError (
     ensure (pr_status pr \<noteq> PULL_PENDING) InvalidStateTransitionError (
     ensure (pr_status pr \<noteq> PULL_CANCELLED) InvalidStateTransitionError (
     ensure (pr_status pr \<noteq> PULL_COMPLETED) InvalidStateTransitionError (Inr pr)))))"

definition origin_ids :: "pull_origin \<Rightarrow> (string \<times> json) list" where
  "origin_ids origin =
     (case origin of
        NO_ORIGIN \<Rightarrow> [(''sourceRequestId'', JNull), (''sourceBatchId'', JNull)]
      | FROM_BATCH r b \<Rightarrow> [(''sourceRequestId'', JId (sar_id r)), (''sourceBatchId'', JId (sb_id b))]
      | FROM_SHIPPING r \<Rightarrow> [(''sourceRequestId'', JId (sor_id r)), (''sourceBatchId'', JNull)])"

definition cancel_audit ::
  "datetime \<Rightarrow> pull_request \<Rightarrow> string option \<Rightarrow> (combo \<times> int) list \<Rightarrow> pull_origin \<Rightarrow> returned_source \<Rightarrow> json" where
  "cancel_audit now pr reason restocked origin rt =
     JObj ([(''pullRequestNumber'', JStr (pr_request_number pr)),
       (''source'', JStr (case pr_source pr of PULL_SHOP_ASSEMBLY \<Rightarrow> ''SHOP_ASSEMBLY'' | PULL_SHIPPING_OUT \<Rightarrow> ''SHIPPING_OUT'')),
       (''reasonText'', opt_str reason),
       (''restocked'', JList (map (\<lambda>r. JObj [(''hardwareCategory'', JStr (fst (fst r))),
          (''productCode'', JStr (snd (fst r))), (''quantity'', JInt (snd r))]) restocked))] @ origin_ids origin @
       [(''sourceRequestReturnedToPending'', JBool (rt_returned_to_pending rt)),
        (''reservationsRecreated'', JBool (rt_reservations_recreated rt)),
        (''integrityNote'', if rt_integrity_note rt then JStr integrity_text else JNull),
        (''cancelledAt'', JInt (int now))])"

text \<open>The pull closed, its claim dropped, its drafts gone.\<close>

definition close_cancelled ::
  "datetime \<Rightarrow> pull_request \<Rightarrow> string \<Rightarrow> string option \<Rightarrow> db \<Rightarrow> db" where
  "close_cancelled now pr cancelled_by reason db =
     (let db = set_pull (pr_id pr) (\<lambda>pr. pr\<lparr>pr_status := PULL_CANCELLED, pr_cancelled_at := Some now,
            pr_cancelled_by := Some cancelled_by, pr_cancellation_reason := reason\<rparr>) db;
          db = (case find_reservation_holder db pr of
                  None \<Rightarrow> db
                | Some h \<Rightarrow> snd (release_reservations h db))
      in drop_drafts (pr_id pr) db)"

definition cancel_pull_request ::
  "datetime \<Rightarrow> uuid \<Rightarrow> string \<Rightarrow> string option \<Rightarrow> db \<Rightarrow> (cancel_result \<times> db) result" where
  "cancel_pull_request now i cancelled_by reason db =
     ensure (cancelled_by \<noteq> []) (ValidationError (Some ''cancelled_by'')) (
     let reason = strip_or_none reason in
     ensure (length (sent_text reason) \<le> MAX_CANCELLATION_REASON_LENGTH) (ValidationError (Some ''reason'')) (
     bindr (cancellable_pull db i) (\<lambda>pr.
     let needs_by_combo = line_requirements pr in
     bindr (restock_cancelled_pull now pr needs_by_combo cancelled_by reason db) (\<lambda>restocked.
     let closed = close_cancelled now pr cancelled_by reason (snd restocked) in
     bindr (hand_back pr needs_by_combo closed) (\<lambda>returned.
     let logged = log_audit_event (Some (pr_project_id pr)) PULL_REQUEST (pr_id pr) PULL_CANCELLED_ACTION cancelled_by
            (cancel_audit now pr reason (fst restocked) (find_source_request closed pr) (fst returned)) (snd returned) in
     bindr (create_notification now (pr_project_id pr) (Some (pull_audience (pr_source pr))) PULL_REQUEST_CANCELLED
              (Some (pr_id pr)) None None logged) (\<lambda>db.
       Inr (\<lparr>cr_restocked = fst restocked,
             cr_source_request_returned_to_pending = rt_returned_to_pending (fst returned),
             cr_reservations_recreated = rt_reservations_recreated (fst returned),
             cr_integrity_note = rt_integrity_note (fst returned)\<rparr>, db)))))))"

end
