(* ===== verification/Demo.thy ===== *)
theory Demo
  imports Picking
begin

text \<open>
  One small project the witnesses are evaluated on: two shelf rows of a hinge (one unit condemned),
  a shop-assembly batch whose pull is being picked and which claims its four units, and a
  shipping-out request that claims two more.
\<close>

definition demo_combo :: combo where
  "demo_combo = (''Hinges'', ''BB1279'')"

definition demo_location :: "uuid \<Rightarrow> int \<Rightarrow> int \<Rightarrow> inventory_location" where
  "demo_location i qty bad =
     \<lparr>il_id = i, il_project_id = 1, il_warehouse_id = 2, il_hardware_category = ''Hinges'',
      il_product_code = ''BB1279'', il_quantity = qty, il_deficient_quantity = bad, il_aisle = Some ''A'',
      il_row = None, il_bay = None, il_po_line_item_id = None, il_receive_line_item_id = None, il_stock_item_id = None,
      il_shipment_return_item_id = None, il_entry_source = None, il_unit_cost = None,
      il_cost_currency = None, il_received_at = i\<rparr>"

definition demo_pull :: pull_request where
  "demo_pull =
     \<lparr>pr_id = 20, pr_request_number = ''P-001'', pr_project_id = 1, pr_source = PULL_SHOP_ASSEMBLY,
      pr_status = PULL_IN_PROGRESS, pr_requested_by = ''ann'', pr_assigned_to = Some ''bob'',
      pr_assigned_to_user_id = None, pr_approved_at = Some 5, pr_picked_at = None, pr_picked_by = None,
      pr_completed_at = None, pr_cancelled_at = None, pr_cancelled_by = None, pr_cancellation_reason = None,
      pr_deleted_at = None,
      pr_items = [\<lparr>pi_opening_number = Some ''101'', pi_hardware_category = ''Hinges'',
        pi_product_code = ''BB1279'', pi_requested_quantity = 4\<rparr>]\<rparr>"

definition demo_batch :: shop_assembly_batch where
  "demo_batch =
     \<lparr>sb_id = 30, sb_shop_assembly_request_id = 29, sb_sequence = 1, sb_batch_number = ''P-001/1'',
      sb_status = BATCH_ACTIVE, sb_created_by = ''ann'', sb_pull_request_id = Some 20,
      sb_items = [\<lparr>bi_opening_number = ''101'', bi_hardware_category = ''Hinges'',
        bi_product_code = ''BB1279'', bi_allocated_quantity = 4\<rparr>]\<rparr>"

definition demo_db :: db where
  "demo_db = empty_db\<lparr>next_id := 100, inventory_locations := [demo_location 10 5 1, demo_location 11 3 0],
     pull_requests := [demo_pull], shop_assembly_batches := [demo_batch],
     inventory_reservations := [new_reservation 40 1 (SHOP_ASSEMBLY_BATCH, 30) demo_combo 4,
       new_reservation 41 1 (SHIPPING_OUT_REQUEST, 31) demo_combo 2]\<rparr>"

definition demo_line :: "uuid \<Rightarrow> int \<Rightarrow> pick_line" where
  "demo_line loc q = \<lparr>pl_hardware_category = ''Hinges'', pl_product_code = ''BB1279'',
     pl_inventory_location_id = Some loc, pl_quantity = Some q\<rparr>"

text \<open>The value of a run that did not raise.\<close>

definition value_of :: "'e + 'a \<Rightarrow> 'a" where
  "value_of m = (case m of Inr x \<Rightarrow> x)"

lemma value_of: "\<not> raised m \<Longrightarrow> m = Inr (value_of m)"
  by (cases m) (simp_all add: value_of_def)

definition demo_short_pick :: "confirm_pick_result \<times> db" where
  "demo_short_pick = value_of (confirm_pick 7 20 [demo_line 10 3] ''bob'' demo_db)"

definition demo_full_pick :: "confirm_pick_result \<times> db" where
  "demo_full_pick = value_of (confirm_pick 7 20 [demo_line 10 3, demo_line 11 1] ''bob'' demo_db)"

lemma demo_short_pick:
  "confirm_pick 7 20 [demo_line 10 3] ''bob'' demo_db = Inr (fst demo_short_pick, snd demo_short_pick)"
proof -
  have "\<not> raised (confirm_pick 7 20 [demo_line 10 3] ''bob'' demo_db)" by code_simp
  then show ?thesis unfolding demo_short_pick_def by (simp add: value_of)
qed

lemma demo_full_pick:
  "confirm_pick 7 20 [demo_line 10 3, demo_line 11 1] ''bob'' demo_db = Inr (fst demo_full_pick, snd demo_full_pick)"
proof -
  have "\<not> raised (confirm_pick 7 20 [demo_line 10 3, demo_line 11 1] ''bob'' demo_db)" by code_simp
  then show ?thesis unfolding demo_full_pick_def by (simp add: value_of)
qed

end
