(* ===== verification/PickingFacts.thy ===== *)
theory PickingFacts
  imports Demo
begin

text \<open>
  What a confirmed pick guarantees: the facts about validated entries, the rows they are deducted
  from and the lines that record them, then the properties of \<open>confirm_pick\<close>, \<open>save_pick_draft\<close> and
  the pick sheet.
\<close>

section \<open>What a validated entry is\<close>

lemma lock_pull_Inr [result_simps]: "lock_pull db i = Inr pr \<longleftrightarrow> find_row pr_id i (pull_requests db) = Some pr"
  by (simp add: lock_pull_def split: option.split)

lemma pickable_pull_Inr:
  "pickable_pull db i = Inr pr \<longleftrightarrow> find_row pr_id i (pull_requests db) = Some pr \<and>
     pr_deleted_at pr = None \<and> pr_status pr = PULL_IN_PROGRESS \<and> pr_picked_at pr = None"
  by (auto simp: pickable_pull_def result_simps)

lemma pickable_pull_id: "pickable_pull db i = Inr pr \<Longrightarrow> pr_id pr = i"
  by (auto simp: pickable_pull_Inr dest: find_row_Some)

lemma set_dict_add: "set (dict_add k v d) \<subseteq> insert (k, dict_get d k + v) (set d)"
  unfolding dict_add_def by (induction d) auto

lemma dict_get_nonneg: "\<forall>kv \<in> set d. 0 \<le> snd kv \<Longrightarrow> 0 \<le> dict_get d k"
  by (induction d) auto

text \<open>What the loop over the dictated lines keeps of the dictionary it fills.\<close>

definition entries_wf :: "combo list \<Rightarrow> (entry_key \<times> int) list \<Rightarrow> bool" where
  "entries_wf req entered \<longleftrightarrow> distinct (map fst entered) \<and>
     (\<forall>kv \<in> set entered. 0 < snd kv \<and> key_combo (fst kv) \<in> set req)"

lemma entries_wf_add:
  assumes "entries_wf req entered" and "0 < q" and "key_combo k \<in> set req"
  shows "entries_wf req (dict_add k q entered)"
proof -
  have "0 \<le> dict_get entered k"
    using assms(1) by (intro dict_get_nonneg) (auto simp: entries_wf_def)
  with assms set_dict_add [of k q entered] show ?thesis
    by (auto simp: entries_wf_def distinct_dict_add)
qed

lemma normalise_lines_wf:
  "normalise_lines req lines entered = Inr out \<Longrightarrow> entries_wf req entered \<Longrightarrow> entries_wf req out"
proof (induction req lines entered rule: normalise_lines.induct)
  case (2 req line lines entered)
  have "entries_wf req (dict_add (pl_hardware_category line, pl_product_code line, loc) q entered)"
    if "0 < q" "(pl_hardware_category line, pl_product_code line) \<in> set req" for q loc
    using "2.prems"(2) that by (intro entries_wf_add) (auto simp: key_combo_def)
  with 2 show ?case
    by (auto split: option.splits if_splits)
qed simp

lemma normalise_pick_lines_wf:
  assumes "normalise_pick_lines lines req = Inr entered"
  shows "entries_wf (dict_keys req) entered"
proof -
  obtain e where "normalise_lines (dict_keys req) lines [] = Inr e" and "entered = filter (\<lambda>kv. 0 < snd kv) e"
    using assms by (auto simp: normalise_pick_lines_def result_simps)
  with normalise_lines_wf [of "dict_keys req" lines "[]" e] show ?thesis
    by (auto simp: entries_wf_def distinct_map_filter)
qed

definition entry_ok :: "uuid \<Rightarrow> inventory_location list \<Rightarrow> entry_key \<times> int \<Rightarrow> bool" where
  "entry_ok p rows e \<longleftrightarrow> (\<exists>row. find_row il_id (key_location (fst e)) rows = Some row \<and>
     il_project_id row = p \<and> il_combo row = key_combo (fst e))"

lemma check_entries_Inr: "check_entries p rows es = Inr u \<longleftrightarrow> (\<forall>e \<in> set es. entry_ok p rows e)"
  by (induction es) (auto simp: entry_ok_def result_simps split: option.splits)

lemma find_row_filter_in:
  "P i \<Longrightarrow> find_row key i (filter (\<lambda>r. P (key r)) rows) = find_row key i rows"
  unfolding find_row_def by (induction rows) auto

lemma load_pick_locations_Inr:
  assumes "load_pick_locations db pr (entered_locations es) es = Inr rows"
  shows "\<forall>e \<in> set es. entry_ok (pr_project_id pr) (inventory_locations db) e"
    and "\<And>l. l \<in> key_location ` fst ` set es \<Longrightarrow> find_row il_id l rows = find_row il_id l (inventory_locations db)"
proof -
  have locs: "set (entered_locations es) = key_location ` fst ` set es"
    by (force simp: entered_locations_def)
  show find: "find_row il_id l rows = find_row il_id l (inventory_locations db)" if "l \<in> key_location ` fst ` set es" for l
  proof -
    have "entered_locations es \<noteq> []" using that locs by auto
    then have "rows = filter (\<lambda>il. il_id il \<in> set (entered_locations es)) (inventory_locations db)"
      using assms by (auto simp: load_pick_locations_def Let_def result_simps)
    then show ?thesis using that locs find_row_filter_in [where P = "\<lambda>j. j \<in> set (entered_locations es)"] by simp
  qed
  have "es = [] \<or> check_entries (pr_project_id pr) rows es = Inr ()"
    using assms locs by (auto simp: load_pick_locations_def Let_def result_simps split: if_splits)
  then show "\<forall>e \<in> set es. entry_ok (pr_project_id pr) (inventory_locations db) e"
    using find by (auto simp: check_entries_Inr entry_ok_def)
qed

section \<open>Applying entries\<close>

definition loc_qty :: "(entry_key \<times> int) list \<Rightarrow> uuid \<Rightarrow> int" where
  "loc_qty es = qty_of (map (\<lambda>kv. (key_location (fst kv), snd kv)) es)"

definition combo_qty :: "(entry_key \<times> int) list \<Rightarrow> combo \<Rightarrow> int" where
  "combo_qty es = qty_of (map (\<lambda>kv. (key_combo (fst kv), snd kv)) es)"

lemma loc_qty_simps [simp]: "loc_qty [] l = 0" "loc_qty (e # es) l = (if key_location (fst e) = l then snd e else 0) + loc_qty es l"
  and combo_qty_simps [simp]: "combo_qty [] c = 0" "combo_qty (e # es) c = (if key_combo (fst e) = c then snd e else 0) + combo_qty es c"
  by (simp_all add: loc_qty_def combo_qty_def)

lemma map_mset_qty: "mset es = mset es' \<Longrightarrow> qty_of (map f es) k = qty_of (map f es') k"
  by (rule qty_of_mset) simp

lemma loc_qty_sort [simp]: "loc_qty (sort_key f es) l = loc_qty es l"
  and combo_qty_sort [simp]: "combo_qty (sort_key f es) c = combo_qty es c"
  unfolding loc_qty_def combo_qty_def by (rule map_mset_qty, simp)+

lemma dict_get_entry_combos [simp]: "dict_get (entry_combos es) c = combo_qty es c"
  and dict_get_entry_rows [simp]: "dict_get (entry_rows es) l = loc_qty es l"
  by (simp_all add: entry_combos_def entry_rows_def combo_qty_def loc_qty_def tally_simps)

lemma entry_row: "e \<in> set es \<Longrightarrow> (key_location (fst e), loc_qty es (key_location (fst e))) \<in> set (entry_rows es)"
  by (auto simp: entry_rows_def tally_mem loc_qty_def image_iff)

lemma loc_qty_notin: "l \<notin> key_location ` fst ` set es \<Longrightarrow> loc_qty es l = 0"
  unfolding loc_qty_def by (rule qty_of_notin) force

lemma combo_qty_nonneg: "\<forall>e \<in> set es. 0 \<le> snd e \<Longrightarrow> 0 \<le> combo_qty es c"
  and loc_qty_nonneg: "\<forall>e \<in> set es. 0 \<le> snd e \<Longrightarrow> 0 \<le> loc_qty es l"
  unfolding combo_qty_def loc_qty_def by (rule qty_of_nonneg, auto)+

definition deduct :: "int \<Rightarrow> inventory_location \<Rightarrow> inventory_location" where
  "deduct q il = il\<lparr>il_quantity := il_quantity il - q\<rparr>"

lemma deduct_simps [simp]:
  "il_id (deduct q il) = il_id il" "il_combo (deduct q il) = il_combo il"
  "il_project_id (deduct q il) = il_project_id il" "il_free (deduct q il) = il_free il - q"
  "deduct 0 il = il" "deduct a (deduct b il) = deduct (a + b) il"
  by (simp_all add: deduct_def il_combo_def il_free_def)

lemma apply_entry_rows:
  "inventory_locations (apply_entry now pr who e db) =
     map (\<lambda>il. deduct (if key_location (fst e) = il_id il then snd e else 0) il) (inventory_locations db)"
proof (cases "find_row il_id (key_location (fst e)) (inventory_locations db)")
  case None
  then have "key_location (fst e) \<notin> il_id ` set (inventory_locations db)"
    by (simp add: table_simps)
  then have "map (\<lambda>il. deduct (if key_location (fst e) = il_id il then snd e else 0) il) (inventory_locations db)
      = inventory_locations db"
    by (intro map_idI) auto
  with None show ?thesis by (simp add: apply_entry_def)
next
  case (Some row)
  then show ?thesis
    by (auto simp: apply_entry_def fresh_def Let_def log_audit_event_def update_row_def deduct_def dest: find_row_Some)
qed

text \<open>All entries at once: every row gives up what its entries add up to.\<close>

lemma apply_entries_rows:
  "inventory_locations (apply_entries now pr who es db) =
     map (\<lambda>il. deduct (loc_qty es (il_id il)) il) (inventory_locations db)"
proof (induction es arbitrary: db)
  case (Cons e es)
  then show ?case by (auto simp: apply_entry_rows algebra_simps)
qed simp

lemma entry_ok_deduct: "entry_ok p (map (\<lambda>il. deduct (g il) il) rows) e = entry_ok p rows e"
proof -
  have "find_row il_id l (map (\<lambda>il. deduct (g il) il) rows) = map_option (\<lambda>il. deduct (g il) il) (find_row il_id l rows)" for l
    unfolding find_row_def by (induction rows) auto
  then show ?thesis by (auto simp: entry_ok_def)
qed

lemma on_hand_apply_entry:
  assumes "distinct (map il_id (inventory_locations db))" and "entry_ok (pr_project_id pr) (inventory_locations db) e"
  shows "on_hand (apply_entry now pr who e db) p c =
    on_hand db p c - (if p = pr_project_id pr \<and> key_combo (fst e) = c then snd e else 0)"
proof -
  obtain row where row: "find_row il_id (key_location (fst e)) (inventory_locations db) = Some row"
    "il_project_id row = pr_project_id pr" "il_combo row = key_combo (fst e)"
    using assms(2) by (auto simp: entry_ok_def)
  have "inventory_locations (apply_entry now pr who e db) =
      update_row il_id (key_location (fst e)) (deduct (snd e)) (inventory_locations db)"
    by (auto simp: apply_entry_rows update_row_def)
  then show ?thesis
    unfolding on_hand_def
    by (simp add: sum_update_row [OF assms(1) row(1), where P = "\<lambda>il. il_project_id il = p \<and> il_combo il = c"] row)
qed

lemma on_hand_apply_entries:
  assumes "distinct (map il_id (inventory_locations db))"
    and "\<forall>e \<in> set es. entry_ok (pr_project_id pr) (inventory_locations db) e"
  shows "on_hand (apply_entries now pr who es db) p c =
    on_hand db p c - (if p = pr_project_id pr then combo_qty es c else 0)"
  using assms
proof (induction es arbitrary: db)
  case (Cons e es)
  let ?db = "apply_entry now pr who e db"
  have "on_hand (apply_entries now pr who es ?db) p c =
      on_hand ?db p c - (if p = pr_project_id pr then combo_qty es c else 0)"
    using Cons.prems by (intro Cons.IH) (simp_all add: apply_entry_rows entry_ok_deduct comp_def)
  also have "on_hand ?db p c =
      on_hand db p c - (if p = pr_project_id pr \<and> key_combo (fst e) = c then snd e else 0)"
    using Cons.prems by (intro on_hand_apply_entry) simp_all
  finally show ?case by simp
qed simp


text \<open>The lines recorded: one APPLIED line per entry, after the ones already there.\<close>

definition units_in :: "db \<Rightarrow> uuid \<Rightarrow> pull_pick_line_state \<Rightarrow> combo \<Rightarrow> int" where
  "units_in db i st c =
     sum_list (map pk_quantity (filter (\<lambda>l. pk_pull_request_id l = i \<and> pk_state l = st \<and> pk_combo l = c)
       (pull_pick_lines db)))"

lemma dict_get_applied [simp]: "dict_get (applied_by_combo db i) c = units_in db i APPLIED c"
  by (simp add: applied_by_combo_def tally_simps units_in_def conj_ac)

lemma pk_combo_new [simp]: "pk_combo (new_pick_line j i k q st who now) = key_combo k"
  by (simp add: pk_combo_def new_pick_line_def key_combo_def)

lemma new_pick_line_fields [simp]:
  "pk_pull_request_id (new_pick_line j i k q st who now) = i" "pk_state (new_pick_line j i k q st who now) = st"
  "pk_quantity (new_pick_line j i k q st who now) = q" "pk_id (new_pick_line j i k q st who now) = j"
  "pk_inventory_location_id (new_pick_line j i k q st who now) = Some (key_location k)"
  by (simp_all add: new_pick_line_def)

lemma apply_entry_lines:
  assumes "entry_ok p (inventory_locations db) e"
  shows "pull_pick_lines (apply_entry now pr who e db) =
    pull_pick_lines db @ [new_pick_line (next_id db) (pr_id pr) (fst e) (snd e) APPLIED who now]"
  using assms by (auto simp: entry_ok_def apply_entry_def fresh_def Let_def log_audit_event_def)

lemma units_in_apply_entries:
  assumes "\<forall>e \<in> set es. entry_ok p (inventory_locations db) e"
  shows "units_in (apply_entries now pr who es db) i st c =
    units_in db i st c + (if i = pr_id pr \<and> st = APPLIED then combo_qty es c else 0)"
  using assms
proof (induction es arbitrary: db)
  case (Cons e es)
  let ?db = "apply_entry now pr who e db"
  have "units_in (apply_entries now pr who es ?db) i st c =
      units_in ?db i st c + (if i = pr_id pr \<and> st = APPLIED then combo_qty es c else 0)"
    using Cons.prems by (intro Cons.IH) (simp add: apply_entry_rows entry_ok_deduct)
  moreover have "entry_ok p (inventory_locations db) e"
    using Cons.prems by simp
  ultimately show ?case by (auto simp: units_in_def apply_entry_lines)
qed simp

text \<open>Only rows, lines, the audit log and the id counter change.\<close>

definition pick_frame :: "db \<Rightarrow> db \<Rightarrow> bool" where
  "pick_frame a b \<longleftrightarrow>
     a\<lparr>next_id := 0, inventory_locations := [], pull_pick_lines := [], inventory_audit_log := []\<rparr> =
     b\<lparr>next_id := 0, inventory_locations := [], pull_pick_lines := [], inventory_audit_log := []\<rparr>"

lemma pick_frame_refl [simp]: "pick_frame a a"
  and pick_frame_trans: "pick_frame a b \<Longrightarrow> pick_frame b c \<Longrightarrow> pick_frame a c"
  by (simp_all add: pick_frame_def)

lemma apply_entry_frame: "pick_frame db (apply_entry now pr who e db)"
  by (simp add: apply_entry_def fresh_def Let_def log_audit_event_def pick_frame_def split: option.split)

lemma apply_entries_frame: "pick_frame db (apply_entries now pr who es db)"
  by (induction es arbitrary: db) (auto intro: pick_frame_trans [OF apply_entry_frame])

lemma pick_frameD: "pick_frame a b \<Longrightarrow> inventory_reservations b = inventory_reservations a \<and>
    pull_requests b = pull_requests a \<and> shop_assembly_requests b = shop_assembly_requests a \<and>
    shop_assembly_batches b = shop_assembly_batches a \<and>
    shipping_out_requests b = shipping_out_requests a \<and> packing_slips b = packing_slips a \<and>
    notifications b = notifications a"
  by (cases a; cases b) (simp add: pick_frame_def)

lemma drop_drafts_frame: "pick_frame db (drop_drafts i db)"
  and drop_drafts_rows [simp]: "inventory_locations (drop_drafts i db) = inventory_locations db"
  by (simp_all add: drop_drafts_def pick_frame_def)

lemma units_in_drop_drafts:
  "units_in (drop_drafts i db) j st c = (if j = i \<and> st = DRAFT then 0 else units_in db j st c)"
proof -
  have "filter (\<lambda>l. pk_pull_request_id l = j \<and> pk_state l = st \<and> pk_combo l = c)
      (delete_rows (\<lambda>l. pk_pull_request_id l = i \<and> pk_state l = DRAFT) ls) =
      (if j = i \<and> st = DRAFT then [] else filter (\<lambda>l. pk_pull_request_id l = j \<and> pk_state l = st \<and> pk_combo l = c) ls)" for ls
    by (induction ls) (auto simp: delete_rows_def)
  then show ?thesis by (simp add: units_in_def drop_drafts_def)
qed

section \<open>The swap\<close>

lemma distinct_entry_combos [simp]: "distinct (map fst (entry_combos es))"
  by (simp add: entry_combos_def)

lemma entry_combos_Nil [simp]: "entry_combos es = [] \<longleftrightarrow> es = []"
  by (simp add: entry_combos_def)

definition consumed_claim :: "holder option \<Rightarrow> (entry_key \<times> int) list \<Rightarrow> db \<Rightarrow> db" where
  "consumed_claim holder es db =
     (case holder of None \<Rightarrow> db | Some h \<Rightarrow> snd (consume_reservations h (entry_combos es) db))"

lemma consume_nothing [simp]: "consume_reservations h [] db = (0, db)"
  by (simp add: consume_reservations_def)

lemma swap_claim_eq:
  "swap_claim_for_rows now pr who holder es db =
     drop_drafts (pr_id pr) (apply_entries now pr who (sort_key fst es) (consumed_claim holder es db))"
  by (cases "es = []") (auto simp: swap_claim_for_rows_def consumed_claim_def Let_def entry_combos_def split: option.split)

lemma consumed_claim_frame: "book_frame db (consumed_claim holder es db)"
  by (simp add: consumed_claim_def split: option.split)

lemma swap_rows:
  "inventory_locations (swap_claim_for_rows now pr who holder es db) =
     map (\<lambda>il. deduct (loc_qty es (il_id il)) il) (inventory_locations db)"
  using book_frameD [OF consumed_claim_frame [of db holder es]]
  by (simp add: swap_claim_eq apply_entries_rows)

lemma swap_book:
  "inventory_reservations (swap_claim_for_rows now pr who holder es db) =
     inventory_reservations (consumed_claim holder es db)"
  using pick_frameD [OF apply_entries_frame] pick_frameD [OF drop_drafts_frame] by (simp add: swap_claim_eq)

lemma swap_frame:
  "pull_requests (swap_claim_for_rows now pr who holder es db) = pull_requests db"
  "shop_assembly_batches (swap_claim_for_rows now pr who holder es db) = shop_assembly_batches db"
  "shop_assembly_requests (swap_claim_for_rows now pr who holder es db) = shop_assembly_requests db"
  "shipping_out_requests (swap_claim_for_rows now pr who holder es db) = shipping_out_requests db"
  "packing_slips (swap_claim_for_rows now pr who holder es db) = packing_slips db"
  "notifications (swap_claim_for_rows now pr who holder es db) = notifications db"
  using pick_frameD [OF apply_entries_frame] pick_frameD [OF drop_drafts_frame]
    book_frameD [OF consumed_claim_frame [of db holder es]]
  by (simp_all add: swap_claim_eq consumed_claim_def consume_reservations_def split: option.split prod.split)

lemma swap_on_hand:
  assumes "distinct (map il_id (inventory_locations db))"
    and "\<forall>e \<in> set es. entry_ok (pr_project_id pr) (inventory_locations db) e"
  shows "on_hand (swap_claim_for_rows now pr who holder es db) p c =
    on_hand db p c - (if p = pr_project_id pr then combo_qty es c else 0)"
proof -
  let ?db = "consumed_claim holder es db"
  have rows: "inventory_locations ?db = inventory_locations db"
    using book_frameD [OF consumed_claim_frame] by simp
  have "on_hand (swap_claim_for_rows now pr who holder es db) p c =
      on_hand (apply_entries now pr who (sort_key fst es) ?db) p c"
    by (simp add: swap_claim_eq on_hand_def)
  also have "\<dots> = on_hand ?db p c - (if p = pr_project_id pr then combo_qty es c else 0)"
    using assms rows by (subst on_hand_apply_entries) simp_all
  finally show ?thesis using rows by (simp add: on_hand_def)
qed

lemma swap_units:
  assumes "\<forall>e \<in> set es. entry_ok p (inventory_locations db) e"
  shows "units_in (swap_claim_for_rows now pr who holder es db) i APPLIED c =
    units_in db i APPLIED c + (if i = pr_id pr then combo_qty es c else 0)"
proof -
  let ?db = "consumed_claim holder es db"
  have same: "inventory_locations ?db = inventory_locations db" "pull_pick_lines ?db = pull_pick_lines db"
    using book_frameD [OF consumed_claim_frame] by simp_all
  have "units_in (apply_entries now pr who (sort_key fst es) ?db) i APPLIED c =
      units_in ?db i APPLIED c + (if i = pr_id pr then combo_qty es c else 0)"
    using assms same by (subst units_in_apply_entries [where p = p]) simp_all
  then show ?thesis by (simp add: swap_claim_eq units_in_drop_drafts) (simp add: units_in_def same)
qed


section \<open>Confirming\<close>

text \<open>Everything a confirmation that did not raise has checked.\<close>

definition confirmed :: "db \<Rightarrow> pull_request \<Rightarrow> (entry_key \<times> int) list \<Rightarrow> bool" where
  "confirmed db pr es \<longleftrightarrow> pickable_pull db (pr_id pr) = Inr pr \<and> entries_wf (dict_keys (line_requirements pr)) es \<and>
     (\<forall>c. combo_qty es c = 0 \<or> combo_qty es c \<le> dict_get (line_requirements pr) c - units_in db (pr_id pr) APPLIED c) \<and>
     contention_ok db pr (entry_combos es) \<and>
     (\<forall>e \<in> set es. entry_ok (pr_project_id pr) (inventory_locations db) e) \<and>
     (\<forall>e \<in> set es. \<exists>row. find_row il_id (key_location (fst e)) (inventory_locations db) = Some row \<and>
        loc_qty es (key_location (fst e)) \<le> il_free row)"

lemma combo_in_entries: "c \<in> key_combo ` fst ` set es \<Longrightarrow> (c, combo_qty es c) \<in> set (entry_combos es)"
  by (force simp: entry_combos_def tally_mem combo_qty_def)

lemma combo_qty_notin: "c \<notin> key_combo ` fst ` set es \<Longrightarrow> combo_qty es c = 0"
  unfolding combo_qty_def by (intro qty_of_notin) force

lemma ceiling_all:
  assumes "list_all (\<lambda>kv. snd kv \<le> f (fst kv)) (entry_combos es)"
  shows "combo_qty es c = 0 \<or> combo_qty es c \<le> f c"
  using assms combo_in_entries [of c es] combo_qty_notin [of c es]
  by (cases "c \<in> key_combo ` fst ` set es") (auto simp: list_all_iff)

lemma rows_ok_entry:
  assumes "rows_ok rows (entry_rows es)" and "e \<in> set es"
  shows "\<exists>row. find_row il_id (key_location (fst e)) rows = Some row \<and> loc_qty es (key_location (fst e)) \<le> il_free row"
proof -
  have "(key_location (fst e), loc_qty es (key_location (fst e))) \<in> set (entry_rows es)"
    using assms(2) by (rule entry_row)
  with assms(1) show ?thesis
    unfolding rows_ok_def list_all_iff by (auto split: option.splits)
qed

lemma checked_pick_Inr:
  assumes "checked_pick db i lines = Inr (pr, es)"
  shows "confirmed db pr es" and "pr_id pr = i"
    and "normalise_pick_lines lines (line_requirements pr) = Inr es"
proof -
  obtain rows where *: "pickable_pull db i = Inr pr"
    "normalise_pick_lines lines (line_requirements pr) = Inr es"
    "list_all (\<lambda>kv. snd kv \<le> dict_get (line_requirements pr) (fst kv) - dict_get (applied_by_combo db i) (fst kv))
       (entry_combos es)"
    "contention_ok db pr (entry_combos es)"
    "load_pick_locations db pr (entered_locations es) es = Inr rows" "rows_ok rows (entry_rows es)"
    using assms unfolding checked_pick_def Let_def bindr_eq_Inr ensure_eq_Inr by blast
  show "pr_id pr = i" using *(1) by (rule pickable_pull_id)
  then show "confirmed db pr es"
    using * load_pick_locations_Inr [OF *(5)] normalise_pick_lines_wf [OF *(2)]
      ceiling_all [OF *(3)] rows_ok_entry [OF *(6)]
    unfolding confirmed_def by simp
  show "normalise_pick_lines lines (line_requirements pr) = Inr es" by (rule *)
qed

lemma confirm_pick_Inr:
  assumes "confirm_pick now i lines who db = Inr (r, db')"
  obtains pr es where "confirmed db pr es" and "pr_id pr = i"
    and "normalise_pick_lines lines (line_requirements pr) = Inr es"
    and "settle_pick now pr es who db = Inr (r, db')"
  using assms checked_pick_Inr unfolding confirm_pick_def bindr_eq_Inr by (metis prod.collapse)

text \<open>The outcome touches the pull and the notices, not the stock.\<close>

lemma report_short_Inr:
  assumes "report_short now pr who holder sfs db = Inr (n, db')"
  defines "unread \<equiv> has_unread_notification_for_pull db (pr_id pr) INVENTORY_SHORTFALL (Some PO_RECIPIENT_ROLE)"
  obtains mid where "(if unread then Inr db
      else notify_po_shortfall now (pr_project_id pr) (Some (pr_id pr)) db) = Inr mid"
    and "n \<longleftrightarrow> \<not> unread" and "same_tables mid db'" and "notifications db' = notifications mid"
proof -
  obtain mid where mid: "(if unread then Inr db
      else notify_po_shortfall now (pr_project_id pr) (Some (pr_id pr)) db) = Inr mid"
    and out: "Inr (\<not> unread,
           case holder of
             None \<Rightarrow> mid
           | Some h \<Rightarrow>
               if 0 < get_reserved_total mid h
               then log_audit_event (Some (pr_project_id pr)) PULL_REQUEST (pr_id pr) PULL_DEDUCTION who
                      (integrity_json pr h sfs) mid
               else mid) = (Inr (n, db') :: (bool \<times> db) result)"
    using assms unfolding report_short_def Let_def bindr_eq_Inr unread_def by blast
  have "n \<longleftrightarrow> \<not> unread" "same_tables mid db' \<and> notifications db' = notifications mid"
    using out by (auto split: option.splits if_splits)
  with mid that show thesis by blast
qed

lemma report_short_frame:
  assumes "report_short now pr who holder sfs db = Inr (n, db')"
  shows "same_tables db db'"
proof -
  obtain mid where "same_tables db mid" "same_tables mid db'"
    using assms by (rule report_short_Inr)
      (auto simp: notify_po_shortfall_def split: if_splits dest: create_notification_Inr)
  then show ?thesis by (rule same_tables_trans)
qed

lemma set_pull_frame [simp]:
  "inventory_locations (set_pull i f db) = inventory_locations db"
  "inventory_reservations (set_pull i f db) = inventory_reservations db"
  "pull_pick_lines (set_pull i f db) = pull_pick_lines db"
  "notifications (set_pull i f db) = notifications db"
  by (simp_all add: set_pull_def)

lemma settle_pick_stock:
  assumes "settle_pick now pr es who db = Inr (r, db')"
  defines "swapped \<equiv> swap_claim_for_rows now pr who (find_reservation_holder db pr) es db"
  shows "inventory_locations db' = inventory_locations swapped"
    and "inventory_reservations db' = inventory_reservations swapped"
    and "pull_pick_lines db' = pull_pick_lines swapped"
proof -
  have "inventory_locations db' = inventory_locations swapped \<and>
      inventory_reservations db' = inventory_reservations swapped \<and> pull_pick_lines db' = pull_pick_lines swapped"
    using assms(1) unfolding settle_pick_def swapped_def
    by (auto simp: Let_def result_simps split: if_splits dest!: report_short_frame
        simp: same_tables_def same_stock_def)
  then show "inventory_locations db' = inventory_locations swapped"
    and "inventory_reservations db' = inventory_reservations swapped"
    and "pull_pick_lines db' = pull_pick_lines swapped" by simp_all
qed

section \<open>The ceilings\<close>

lemma confirmed_row_ceiling:
  assumes "confirmed db pr es" and "distinct (map il_id (inventory_locations db))"
    and "il \<in> set (inventory_locations db)" and "0 \<le> il_free il"
  shows "loc_qty es (il_id il) \<le> il_free il"
proof (cases "il_id il \<in> key_location ` fst ` set es")
  case True
  then obtain e where e: "e \<in> set es" "key_location (fst e) = il_id il" by auto
  then obtain row where "find_row il_id (il_id il) (inventory_locations db) = Some row"
    "loc_qty es (il_id il) \<le> il_free row"
    using assms(1) unfolding confirmed_def by metis
  moreover from this have "row = il"
    using assms(2,3) by (metis find_row_eq_Some option.inject)
  ultimately show ?thesis by simp
next
  case False
  then show ?thesis using assms(4) by (simp add: loc_qty_notin)
qed

lemma confirmed_nonneg: "confirmed db pr es \<Longrightarrow> 0 \<le> combo_qty es c \<and> 0 \<le> loc_qty es l"
  unfolding confirmed_def entries_wf_def by (meson combo_qty_nonneg loc_qty_nonneg less_imp_le)

lemma deduct_row_ok:
  "inventory_row_ok il \<Longrightarrow> q \<le> il_free il \<Longrightarrow> inventory_row_ok (deduct q il)"
  by (auto simp: inventory_row_ok_def deduct_def il_free_def)

lemma confirmed_rows_ok:
  assumes "confirmed db pr es" and "distinct (map il_id (inventory_locations db))"
    and "list_all inventory_row_ok (inventory_locations db)"
  shows "list_all inventory_row_ok (map (\<lambda>il. deduct (loc_qty es (il_id il)) il) (inventory_locations db))"
proof -
  have "inventory_row_ok (deduct (loc_qty es (il_id il)) il)" if "il \<in> set (inventory_locations db)" for il
  proof (rule deduct_row_ok)
    show "inventory_row_ok il" using assms(3) that by (simp add: list_all_iff)
    then show "loc_qty es (il_id il) \<le> il_free il"
      by (intro confirmed_row_ceiling [OF assms(1,2) that]) (simp add: inventory_row_ok_def il_free_def)
  qed
  then show ?thesis by (simp add: list_all_iff)
qed

text \<open>Row by row ceilings add up: no product is entered past what is on hand.\<close>

lemma confirmed_on_hand:
  assumes "confirmed db pr es" and "distinct (map il_id (inventory_locations db))"
    and "list_all inventory_row_ok (inventory_locations db)"
  shows "combo_qty es c \<le> on_hand db (pr_project_id pr) c"
proof -
  let ?db = "\<lambda>now who holder. swap_claim_for_rows now pr who holder es db"
  have "list_all inventory_row_ok (inventory_locations (?db 0 [] None))"
    using confirmed_rows_ok [OF assms] by (simp add: swap_rows)
  then have "0 \<le> on_hand (?db 0 [] None) (pr_project_id pr) c"
    by (rule on_hand_nonneg)
  moreover have "on_hand (?db 0 [] None) (pr_project_id pr) c =
      on_hand db (pr_project_id pr) c - combo_qty es c"
    using assms by (subst swap_on_hand) (simp_all add: confirmed_def)
  ultimately show ?thesis by simp
qed

text \<open>And no product past what is free for this pull, the claims of everyone else counted.\<close>

lemma claimed_by_others_nonneg: "book_ok db \<Longrightarrow> 0 \<le> claimed_by_others db p h c"
  using held_in_le_claimed claimed_nonneg
  by (auto simp: claimed_by_others_def book_ok_def split: option.split)

lemma entry_combos_qty: "qty_of (entry_combos es) c = combo_qty es c"
  using dict_get_distinct [OF distinct_entry_combos, of es c] by simp

lemma confirmed_free:
  assumes "confirmed db pr es" and "distinct (map il_id (inventory_locations db))"
    and "list_all inventory_row_ok (inventory_locations db)" and "book_ok db"
  shows "combo_qty es c \<le> free_for db (pr_project_id pr) True (find_reservation_holder db pr) c"
proof (rule ccontr)
  let ?p = "pr_project_id pr" and ?h = "find_reservation_holder db pr"
  let ?check = "check_inventory_sufficiency db ?p (entry_combos es) True ?h"
  assume "\<not> combo_qty es c \<le> free_for db ?p True ?h c"
  then have over: "free_for db ?p True ?h c < combo_qty es c" by simp
  have c: "c \<in> fst ` set (entry_combos es)"
    using over combo_in_entries [of c es] combo_qty_notin [of c es]
    by (cases "c \<in> key_combo ` fst ` set es") (force simp: free_for_def)+
  have on_hand: "combo_qty es c \<le> on_hand db ?p c"
    by (rule confirmed_on_hand [OF assms(1-3)])
  let ?s = "new_shortfall c (combo_qty es c) (free_for db ?p True ?h c)
      (combo_qty es c - free_for db ?p True ?h c) (claimed_by_others db ?p ?h c)"
  have "?s \<in> set (shortfalls ?check)"
    unfolding shortfalls_iff [OF assms(4)] using c over by (auto simp: entry_combos_qty)
  moreover have "0 < claimed_by_others db ?p ?h c"
    using over on_hand by (simp add: free_for_def)
  moreover have "sum_list (map il_free (rows_of (inventory_by_combo ?check) c)) = on_hand db ?p c"
    using c by (rule inventory_by_combo_on_hand)
  ultimately have "?s \<in> set (contested ?check)"
    using on_hand by (simp add: contested_def)
  moreover have "entry_combos es \<noteq> []" using c by force
  ultimately show False
    using assms(1) by (auto simp: confirmed_def contention_ok_def)
qed

section \<open>Properties of the pick\<close>

text \<open>The pull a confirmation ran on, given the row of its id.\<close>

lemma confirm_pick_pull:
  assumes "confirm_pick now i lines who db = Inr (r, db')" and "find_row pr_id i (pull_requests db) = Some pr"
  obtains es where "confirmed db pr es" and "pr_id pr = i"
    and "normalise_pick_lines lines (line_requirements pr) = Inr es"
    and "settle_pick now pr es who db = Inr (r, db')"
proof -
  obtain pr' es where *: "confirmed db pr' es" "pr_id pr' = i"
    "normalise_pick_lines lines (line_requirements pr') = Inr es" "settle_pick now pr' es who db = Inr (r, db')"
    using assms(1) by (rule confirm_pick_Inr)
  from this(1,2) have "find_row pr_id i (pull_requests db) = Some pr'"
    by (simp add: confirmed_def pickable_pull_Inr)
  with assms(2) * show thesis using that by simp
qed

text \<open>The stock of the database is well formed: unique rows within their CHECK constraints, a well-formed book.\<close>

definition stock_ok :: "db \<Rightarrow> bool" where
  "stock_ok db \<longleftrightarrow> distinct (map il_id (inventory_locations db)) \<and>
     list_all inventory_row_ok (inventory_locations db) \<and> book_ok db"

lemma settled_on_hand:
  assumes "settle_pick now pr es who db = Inr (r, db')" and "confirmed db pr es"
    and "distinct (map il_id (inventory_locations db))"
  shows "on_hand db' p c = on_hand db p c - (if p = pr_project_id pr then combo_qty es c else 0)"
  using swap_on_hand [OF assms(3), of es pr] assms(2) settle_pick_stock(1) [OF assms(1)]
  by (simp add: on_hand_def confirmed_def)

lemma settled_units:
  assumes "settle_pick now pr es who db = Inr (r, db')" and "confirmed db pr es"
  shows "units_in db' j APPLIED c = units_in db j APPLIED c + (if j = pr_id pr then combo_qty es c else 0)"
  using swap_units [where p = "pr_project_id pr" and es = es and db = db and i = j and pr = pr] assms(2)
    settle_pick_stock(3) [OF assms(1)]
  by (simp add: units_in_def confirmed_def)

lemma settled_held:
  assumes "settle_pick now pr es who db = Inr (r, db')" and "confirmed db pr es" and "book_ok db"
  shows "held db' h c = (if find_reservation_holder db pr = Some h
    then max 0 (held db h c - combo_qty es c) else held db h c)"
  using held_consume [OF assms(3) distinct_entry_combos] confirmed_nonneg [OF assms(2)]
    settle_pick_stock(2) [OF assms(1)]
  by (cases "find_reservation_holder db pr")
    (auto simp: held_def swap_book consumed_claim_def max_def)

text \<open>Grouping the sums of a dictionary by a coarser key.\<close>

definition regroup :: "('a \<Rightarrow> 'b) \<Rightarrow> ('a \<times> int) list \<Rightarrow> ('b \<times> int) list" where
  "regroup g xs = map (\<lambda>kv. (g (fst kv), snd kv)) xs"

lemma regroup_update:
  "qty_of (regroup g (AList.update a w d)) k = qty_of (regroup g d) k + (if g a = k then w - dict_get d a else 0)"
  unfolding regroup_def by (induction d) auto

lemma regroup_tally_from: "qty_of (regroup g (tally_from d xs)) k = qty_of (regroup g d) k + qty_of (regroup g xs) k"
  by (induction xs arbitrary: d) (simp_all add: dict_add_def regroup_update, simp_all add: regroup_def)

lemma regroup_tally: "qty_of (regroup g (tally xs)) k = qty_of (regroup g xs) k"
  by (simp add: tally_def regroup_tally_from) (simp add: regroup_def)

lemma loc_qty_regroup: "loc_qty es = qty_of (regroup key_location es)"
  and combo_qty_regroup: "combo_qty es = qty_of (regroup key_combo es)"
  by (simp_all add: loc_qty_def combo_qty_def regroup_def)

lemma list_all2_partner: "list_all2 P xs ys \<Longrightarrow> x \<in> set xs \<Longrightarrow> \<exists>y \<in> set ys. P x y"
  by (induction rule: list_all2_induct) auto

definition sheet_units :: "pick_line \<Rightarrow> int" where
  "sheet_units l = (case pl_quantity l of None \<Rightarrow> 0 | Some q \<Rightarrow> q)"

definition entered_units :: "pick_line list \<Rightarrow> combo \<Rightarrow> uuid \<Rightarrow> int" where
  "entered_units lines c loc = sum_list (map sheet_units (filter (\<lambda>l. (pl_hardware_category l, pl_product_code l) = c \<and>
     pl_inventory_location_id l = Some loc) lines))"

definition entered_on :: "pick_line list \<Rightarrow> uuid \<Rightarrow> int" where
  "entered_on lines loc = sum_list (map sheet_units (filter (\<lambda>l. pl_inventory_location_id l = Some loc) lines))"

definition applied_units :: "db \<Rightarrow> uuid \<Rightarrow> combo \<Rightarrow> uuid \<Rightarrow> int" where
  "applied_units db i c loc = sum_list (map pk_quantity (filter (\<lambda>l. pk_combo l = c \<and> pk_inventory_location_id l = Some loc)
     (pick_lines db i (Some APPLIED))))"

lemma regroup_add: "qty_of (regroup g (dict_add k q d)) x = qty_of (regroup g d) x + (if g k = x then q else 0)"
  by (simp add: dict_add_def regroup_update)

text \<open>The entries are the lines, row by row and product by product.\<close>

lemma normalise_lines_qty:
  assumes "normalise_lines req lines es = Inr out"
  shows "qty_of (regroup key_location out) loc = qty_of (regroup key_location es) loc + entered_on lines loc"
    and "qty_of (regroup (\<lambda>k. (key_combo k, key_location k)) out) (c, loc) =
      qty_of (regroup (\<lambda>k. (key_combo k, key_location k)) es) (c, loc) + entered_units lines c loc"
    and "sum_list (map snd out) = sum_list (map snd es) + sum_list (map sheet_units lines)"
proof -
  have total: "sum_list (map snd d) = qty_of (regroup (\<lambda>_. ()) d) ()" for d :: "(entry_key \<times> int) list"
    by (induction d) (auto simp: regroup_def)
  have "qty_of (regroup key_location out) loc = qty_of (regroup key_location es) loc + entered_on lines loc \<and>
    qty_of (regroup (\<lambda>k. (key_combo k, key_location k)) out) (c, loc) =
      qty_of (regroup (\<lambda>k. (key_combo k, key_location k)) es) (c, loc) + entered_units lines c loc \<and>
    qty_of (regroup (\<lambda>_. ()) out) () = qty_of (regroup (\<lambda>_. ()) es) () + sum_list (map sheet_units lines)"
    using assms
  proof (induction req lines es rule: normalise_lines.induct)
    case (2 req line lines es)
    then show ?case
      by (auto simp: entered_on_def entered_units_def sheet_units_def regroup_add key_combo_def key_location_def
          split: option.splits if_splits)
  qed (simp add: entered_on_def entered_units_def)
  then show "qty_of (regroup key_location out) loc = qty_of (regroup key_location es) loc + entered_on lines loc"
    and "qty_of (regroup (\<lambda>k. (key_combo k, key_location k)) out) (c, loc) =
      qty_of (regroup (\<lambda>k. (key_combo k, key_location k)) es) (c, loc) + entered_units lines c loc"
    and "sum_list (map snd out) = sum_list (map snd es) + sum_list (map sheet_units lines)"
    by (simp_all add: total)
qed

lemma normalised_qty:
  assumes "normalise_pick_lines lines req = Inr es"
  shows "loc_qty es loc = entered_on lines loc"
    and "qty_of (regroup (\<lambda>k. (key_combo k, key_location k)) es) (c, loc) = entered_units lines c loc"
    and "sum_list (map snd es) = sum_list (map sheet_units lines)"
proof -
  obtain e where e: "normalise_lines (dict_keys req) lines [] = Inr e" "es = filter (\<lambda>kv. 0 < snd kv) e"
    using assms by (auto simp: normalise_pick_lines_def result_simps)
  have "entries_wf (dict_keys req) e" by (rule normalise_lines_wf [OF e(1)]) (simp add: entries_wf_def)
  then have "es = e" unfolding e(2) by (intro filter_True) (simp add: entries_wf_def)
  then show "loc_qty es loc = entered_on lines loc"
    and "qty_of (regroup (\<lambda>k. (key_combo k, key_location k)) es) (c, loc) = entered_units lines c loc"
    and "sum_list (map snd es) = sum_list (map sheet_units lines)"
    using normalise_lines_qty [OF e(1)] by (simp_all add: loc_qty_regroup) (simp_all add: regroup_def)
qed

text \<open>What a confirmation appends to the pull's lines.\<close>

definition recorded :: "uuid \<Rightarrow> pull_pick_line \<Rightarrow> entry_key \<times> int \<Rightarrow> bool" where
  "recorded i l e \<longleftrightarrow> pk_pull_request_id l = i \<and> pk_state l = APPLIED \<and> pk_quantity l = snd e \<and> pk_combo l = key_combo (fst e) \<and>
     pk_inventory_location_id l = Some (key_location (fst e))"

lemma apply_entries_record:
  assumes "\<forall>e \<in> set es. entry_ok p (inventory_locations db) e"
  shows "\<exists>news. pull_pick_lines (apply_entries now pr who es db) = pull_pick_lines db @ news \<and> list_all2 (recorded (pr_id pr)) news es"
  using assms
proof (induction es arbitrary: db)
  case (Cons e es)
  let ?l = "new_pick_line (next_id db) (pr_id pr) (fst e) (snd e) APPLIED who now"
  have e: "entry_ok p (inventory_locations db) e" using Cons.prems by simp
  have "recorded (pr_id pr) ?l e" by (simp add: recorded_def new_pick_line_def pk_combo_def key_combo_def)
  moreover have "\<forall>e' \<in> set es. entry_ok p (inventory_locations (apply_entry now pr who e db)) e'"
    using Cons.prems by (simp add: apply_entry_rows entry_ok_deduct)
  from Cons.IH [OF this] obtain news where
    "pull_pick_lines (apply_entries now pr who es (apply_entry now pr who e db)) = (pull_pick_lines db @ [?l]) @ news"
    "list_all2 (recorded (pr_id pr)) news es"
    unfolding apply_entry_lines [OF e] by blast
  ultimately show ?case by (intro exI [of _ "?l # news"]) simp
qed simp

lemma settled_lines_recorded:
  assumes "confirmed db pr es" and "settle_pick now pr es who db = Inr (r, db')"
  shows "\<exists>news. pick_lines db' (pr_id pr) (Some APPLIED) = pick_lines db (pr_id pr) (Some APPLIED) @ news \<and>
    list_all2 (recorded (pr_id pr)) news (sort_key fst es) \<and>
    filter (\<lambda>l. pk_pull_request_id l \<noteq> pr_id pr) (pull_pick_lines db') = filter (\<lambda>l. pk_pull_request_id l \<noteq> pr_id pr) (pull_pick_lines db)"
proof -
  let ?db = "consumed_claim (find_reservation_holder db pr) es db"
  have lines: "pull_pick_lines ?db = pull_pick_lines db" "inventory_locations ?db = inventory_locations db"
    using book_frameD [OF consumed_claim_frame] by simp_all
  have ok: "\<forall>e \<in> set (sort_key fst es). entry_ok (pr_project_id pr) (inventory_locations ?db) e"
    using assms(1) lines by (simp add: confirmed_def)
  obtain news where news: "pull_pick_lines (apply_entries now pr who (sort_key fst es) ?db) = pull_pick_lines db @ news"
    "list_all2 (recorded (pr_id pr)) news (sort_key fst es)"
    using apply_entries_record [OF ok, of now pr who] unfolding lines(1) by blast
  have own: "\<forall>l \<in> set news. pk_pull_request_id l = pr_id pr \<and> pk_state l = APPLIED"
    using list_all2_partner [OF news(2)] by (auto simp: recorded_def)
  have "pull_pick_lines db' = delete_rows (\<lambda>l. pk_pull_request_id l = pr_id pr \<and> pk_state l = DRAFT) (pull_pick_lines db @ news)"
    using settle_pick_stock(3) [OF assms(2)] news(1) by (simp add: swap_claim_eq drop_drafts_def)
  then have "pick_lines db' (pr_id pr) (Some APPLIED) = pick_lines db (pr_id pr) (Some APPLIED) @ news \<and>
      filter (\<lambda>l. pk_pull_request_id l \<noteq> pr_id pr) (pull_pick_lines db') = filter (\<lambda>l. pk_pull_request_id l \<noteq> pr_id pr) (pull_pick_lines db)"
    using own by (auto simp: pick_lines_def delete_rows_def filter_empty_conv intro!: filter_cong)
  then show ?thesis using news(2) by blast
qed

lemma recorded_qty:
  "list_all2 (recorded i) ls es \<Longrightarrow>
   sum_list (map pk_quantity (filter (\<lambda>l. pk_combo l = c \<and> pk_inventory_location_id l = Some loc) ls)) =
     qty_of (regroup (\<lambda>k. (key_combo k, key_location k)) es) (c, loc)"
  by (induction rule: list_all2_induct) (auto simp: recorded_def regroup_def)

text \<open>
  C9. A confirmed pick is its sheet, row by row: every inventory row loses exactly the units the lines enter against it
  and keeps its other columns, the pull's applied lines grow by exactly the units entered of each product on each row and
  lose none, no other pull's lines change, and the units reported are the units entered.
\<close>

theorem confirm_pick_conserves:
  assumes "confirm_pick now i lines who db = Inr (r, db')"
  shows "inventory_locations db' =
      map (\<lambda>il. il\<lparr>il_quantity := il_quantity il - entered_on lines (il_id il)\<rparr>) (inventory_locations db) \<and>
    applied_units db' i c loc = applied_units db i c loc + entered_units lines c loc \<and>
    (\<exists>news. pick_lines db' i (Some APPLIED) = pick_lines db i (Some APPLIED) @ news) \<and>
    filter (\<lambda>l. pk_pull_request_id l \<noteq> i) (pull_pick_lines db') = filter (\<lambda>l. pk_pull_request_id l \<noteq> i) (pull_pick_lines db) \<and>
    cp_applied_quantity r = sum_list (map sheet_units lines)"
proof -
  obtain pr es where es: "confirmed db pr es" "pr_id pr = i" "normalise_pick_lines lines (line_requirements pr) = Inr es"
    "settle_pick now pr es who db = Inr (r, db')" using assms by (rule confirm_pick_Inr)
  obtain news where news: "pick_lines db' i (Some APPLIED) = pick_lines db i (Some APPLIED) @ news" "list_all2 (recorded i) news (sort_key fst es)"
    "filter (\<lambda>l. pk_pull_request_id l \<noteq> i) (pull_pick_lines db') = filter (\<lambda>l. pk_pull_request_id l \<noteq> i) (pull_pick_lines db)"
    using settled_lines_recorded [OF es(1,4)] unfolding es(2) by blast
  have "qty_of (regroup g (sort_key fst es)) x = qty_of (regroup g es) x" for g :: "entry_key \<Rightarrow> combo \<times> uuid" and x
    unfolding regroup_def by (rule qty_of_mset) simp
  then have "applied_units db' i c loc = applied_units db i c loc + entered_units lines c loc"
    using recorded_qty [OF news(2), of c loc] normalised_qty(2) [OF es(3)] by (simp add: applied_units_def news(1))
  moreover have "inventory_locations db' = map (\<lambda>il. deduct (entered_on lines (il_id il)) il) (inventory_locations db)"
    using settle_pick_stock(1) [OF es(4)] normalised_qty(1) [OF es(3)] by (simp add: swap_rows)
  moreover have "cp_applied_quantity r = sum_list (map snd es)"
    using es(4) by (auto simp: settle_pick_def Let_def result_simps split: if_splits)
  ultimately show ?thesis using news(1,3) normalised_qty(3) [OF es(3)] by (auto simp: deduct_def)
qed

lemma confirm_pick_conserves_witness:
  "map il_quantity (inventory_locations (snd demo_full_pick)) =
     map (\<lambda>il. il_quantity il - entered_on [demo_line 10 3, demo_line 11 1] (il_id il)) (inventory_locations demo_db) \<and>
   applied_units (snd demo_full_pick) 20 demo_combo 10 = 3"
proof -
  have "applied_units demo_db 20 demo_combo 10 = 0" "entered_units [demo_line 10 3, demo_line 11 1] demo_combo 10 = 3" by code_simp+
  with confirm_pick_conserves [OF demo_full_pick, of demo_combo 10] show ?thesis by simp
qed

text \<open>
  C2. The three ceilings: after a confirmed pick no row is negative or below its condemned units, no
  product of the pull is past what was asked for, and the units taken were free of everyone else's
  claims.
\<close>

theorem confirm_pick_never_over_pulls:
  assumes "stock_ok db" and "confirm_pick now i lines who db = Inr (r, db')"
    and "find_row pr_id i (pull_requests db) = Some pr"
    and "units_in db i APPLIED c \<le> dict_get (line_requirements pr) c"
  shows "list_all inventory_row_ok (inventory_locations db') \<and>
    units_in db' i APPLIED c \<le> dict_get (line_requirements pr) c \<and>
    units_in db' i APPLIED c - units_in db i APPLIED c
      \<le> free_for db (pr_project_id pr) True (find_reservation_holder db pr) c"
proof -
  obtain es where es: "confirmed db pr es" "pr_id pr = i" "settle_pick now pr es who db = Inr (r, db')"
    using confirm_pick_pull [OF assms(2,3)] by metis
  have ok: "distinct (map il_id (inventory_locations db))" "list_all inventory_row_ok (inventory_locations db)" "book_ok db"
    using assms(1) by (simp_all add: stock_ok_def)
  have "inventory_locations db' = map (\<lambda>il. deduct (loc_qty es (il_id il)) il) (inventory_locations db)"
    using settle_pick_stock(1) [OF es(3)] by (simp add: swap_rows)
  then have "list_all inventory_row_ok (inventory_locations db')"
    using confirmed_rows_ok [OF es(1) ok(1,2)] by simp
  moreover have "units_in db' i APPLIED c = units_in db i APPLIED c + combo_qty es c"
    using settled_units [OF es(3,1)] es(2) by simp
  moreover have "combo_qty es c = 0 \<or> combo_qty es c \<le> dict_get (line_requirements pr) c - units_in db i APPLIED c"
    using es(1) unfolding confirmed_def es(2) by blast
  ultimately show ?thesis using confirmed_free [OF es(1) ok, of c] assms(4) by auto
qed

lemma confirm_pick_never_over_pulls_witness:
  "list_all inventory_row_ok (inventory_locations (snd demo_full_pick)) \<and>
   units_in (snd demo_full_pick) 20 APPLIED demo_combo \<le> 4"
proof -
  have "stock_ok demo_db" by code_simp
  moreover have "find_row pr_id 20 (pull_requests demo_db) = Some demo_pull" by code_simp
  moreover have "units_in demo_db 20 APPLIED demo_combo \<le> dict_get (line_requirements demo_pull) demo_combo"
    by code_simp
  ultimately have "list_all inventory_row_ok (inventory_locations (snd demo_full_pick)) \<and>
      units_in (snd demo_full_pick) 20 APPLIED demo_combo \<le> dict_get (line_requirements demo_pull) demo_combo"
    using confirm_pick_never_over_pulls [OF _ demo_full_pick] by blast
  moreover have "dict_get (line_requirements demo_pull) demo_combo = 4" by code_simp
  ultimately show ?thesis by simp
qed

text \<open>
  C1. The swap keeps the project solvent: if the claims on a product are covered by what is on hand,
  they still are after any pick of any pull, whoever holds them.
\<close>

theorem confirm_pick_keeps_claims_covered:
  assumes "stock_ok db" and "confirm_pick now i lines who db = Inr (r, db')"
    and "find_row pr_id i (pull_requests db) = Some pr"
    and "\<And>h. find_reservation_holder db pr = Some h \<Longrightarrow> holder_in db (pr_project_id pr) h"
    and "solvent_at db p c"
  shows "solvent_at db' p c"
proof -
  let ?p = "pr_project_id pr" and ?h = "find_reservation_holder db pr"
  obtain es where es: "confirmed db pr es" "settle_pick now pr es who db = Inr (r, db')"
    using confirm_pick_pull [OF assms(2,3)] by metis
  have ok: "distinct (map il_id (inventory_locations db))" "list_all inventory_row_ok (inventory_locations db)" "book_ok db"
    using assms(1) by (simp_all add: stock_ok_def)
  have spent: "0 \<le> combo_qty es c" "combo_qty es c \<le> free_for db ?p True ?h c"
    using confirmed_nonneg [OF es(1)] confirmed_free [OF es(1) ok] by simp_all
  have claims: "claimed db' p c = claimed (consumed_claim ?h es db) p c"
    using settle_pick_stock(2) [OF es(2)] by (simp add: claimed_def swap_book)
  have stock: "on_hand db' p c = on_hand db p c - (if p = ?p then combo_qty es c else 0)"
    by (rule settled_on_hand [OF es(2,1) ok(1)])
  have nonneg: "0 \<le> on_hand db p c" for p by (rule on_hand_nonneg [OF ok(2)])
  show ?thesis
  proof (cases ?h)
    case None
    then show ?thesis using assms(5) spent claims stock nonneg [of p]
      by (auto simp: solvent_at_def consumed_claim_def free_for_def claimed_by_others_def split: if_splits)
  next
    case (Some h)
    have home: "holder_in db ?p h" using assms(4) Some by simp
    have total: "claimed db' p c = claimed db p c - (if p = ?p then min (held db h c) (combo_qty es c) else 0)"
      using claims claimed_consume [OF ok(3) distinct_entry_combos home] Some spent(1)
      by (simp add: consumed_claim_def)
    show ?thesis
    proof (cases "p = ?p")
      case True
      have "claimed db' p c \<le> on_hand db p c - dict_get (entry_combos es) c"
        using book.spend_covered [OF ok(3) distinct_entry_combos home, of es c "on_hand db p c"]
          claims Some True spent assms(5) nonneg [of p] held_in_held [OF home] held_nonneg [OF ok(3), of h c]
        by (auto simp: consumed_claim_def free_for_def claimed_by_others_def solvent_at_def max_def split: if_splits)
      with stock True show ?thesis by (simp add: solvent_at_def)
    next
      case False
      with total stock assms(5) show ?thesis by (simp add: solvent_at_def)
    qed
  qed
qed


lemma confirm_pick_keeps_claims_covered_witness: "solvent_at (snd demo_full_pick) 1 demo_combo"
proof (rule confirm_pick_keeps_claims_covered [OF _ demo_full_pick])
  show "stock_ok demo_db" and pull: "find_row pr_id 20 (pull_requests demo_db) = Some demo_pull"
    and "solvent_at demo_db 1 demo_combo" by code_simp+
  have "find_reservation_holder demo_db demo_pull = Some (SHOP_ASSEMBLY_BATCH, 30)" by code_simp
  moreover have "holder_in demo_db 1 (SHOP_ASSEMBLY_BATCH, 30)" by code_simp
  ultimately show "\<And>h. find_reservation_holder demo_db demo_pull = Some h \<Longrightarrow>
      holder_in demo_db (pr_project_id demo_pull) h"
    by (auto simp: demo_pull_def)
qed

lemma confirmed_pr: "confirmed db pr es \<Longrightarrow> find_row pr_id (pr_id pr) (pull_requests db) = Some pr \<and>
    pr_deleted_at pr = None \<and> pr_status pr = PULL_IN_PROGRESS \<and> pr_picked_at pr = None"
  by (simp add: confirmed_def pickable_pull_Inr)

text \<open>
  A holder's claim shrinks by exactly what is picked of each product, never below nothing, and
  nobody else's claim changes.
\<close>

theorem confirm_pick_spends_own_claim:
  assumes "stock_ok db" and "confirm_pick now i lines who db = Inr (r, db')"
    and "find_row pr_id i (pull_requests db) = Some pr"
  shows "held db' h c =
    (if find_reservation_holder db pr = Some h
     then max 0 (held db h c - (units_in db' i APPLIED c - units_in db i APPLIED c)) else held db h c)"
proof -
  obtain es where es: "confirmed db pr es" "pr_id pr = i" "settle_pick now pr es who db = Inr (r, db')"
    using confirm_pick_pull [OF assms(2,3)] by metis
  then show ?thesis
    using settled_held [OF es(3,1)] settled_units [OF es(3,1)] assms(1) by (simp add: stock_ok_def)
qed

lemma confirm_pick_spends_own_claim_witness:
  "held (snd demo_short_pick) (SHIPPING_OUT_REQUEST, 31) demo_combo = 2"
proof -
  have "stock_ok demo_db" and pull: "find_row pr_id 20 (pull_requests demo_db) = Some demo_pull"
    and holder: "find_reservation_holder demo_db demo_pull = Some (SHOP_ASSEMBLY_BATCH, 30)"
    and before: "held demo_db (SHIPPING_OUT_REQUEST, 31) demo_combo = 2"
    by code_simp+
  with confirm_pick_spends_own_claim [OF this(1) demo_short_pick pull, of "(SHIPPING_OUT_REQUEST, 31)" demo_combo]
  show ?thesis by simp
qed

section \<open>The outcome\<close>

lemma keys_requirements: "c \<notin> fst ` set (line_requirements pr) \<Longrightarrow> dict_get (line_requirements pr) c = 0"
  by (rule dict_get_notin)

lemma units_in_nonneg:
  "list_all (\<lambda>l. 0 \<le> pk_quantity l) (pull_pick_lines db) \<Longrightarrow> 0 \<le> units_in db i st c"
  unfolding units_in_def by (rule sum_list_nonneg) (auto simp: list_all_iff)

lemma short_of_Nil:
  assumes "\<And>c. 0 \<le> units_in db (pr_id pr) APPLIED c" and "\<And>c. 0 \<le> combo_qty es c"
  shows "short_of db pr es = [] \<longleftrightarrow>
    (\<forall>c. dict_get (line_requirements pr) c \<le> units_in db (pr_id pr) APPLIED c + combo_qty es c)"
proof -
  have "short_of db pr es = [] \<longleftrightarrow> (\<forall>c \<in> fst ` set (line_requirements pr).
      dict_get (line_requirements pr) c \<le> units_in db (pr_id pr) APPLIED c + combo_qty es c)"
    by (auto simp: short_of_def covered_by_def filter_empty_conv image_iff)
  also have "\<dots> \<longleftrightarrow> (\<forall>c. dict_get (line_requirements pr) c \<le> units_in db (pr_id pr) APPLIED c + combo_qty es c)"
    using assms keys_requirements by (metis add_nonneg_nonneg)
  finally show ?thesis .
qed

lemma settle_pick_cases:
  assumes "settle_pick now pr es who db = Inr (r, db')"
  defines "swapped \<equiv> swap_claim_for_rows now pr who (find_reservation_holder db pr) es db"
  shows "cp_outcome r = (if short_of db pr es = [] then PICKED else SHORT)"
    and "short_of db pr es = [] \<Longrightarrow> \<not> cp_notified r \<and>
      db' = set_pull (pr_id pr) (\<lambda>pr. pr\<lparr>pr_picked_at := Some now, pr_picked_by := Some who\<rparr>) swapped"
    and "short_of db pr es \<noteq> [] \<Longrightarrow>
      report_short now pr who (find_reservation_holder db pr) (cp_shortfalls r) swapped = Inr (cp_notified r, db')"
  using assms(1) unfolding settle_pick_def swapped_def
  by (auto simp: Let_def result_simps split: if_splits)

text \<open>
  C10. Picked means covered: the outcome is PICKED exactly when every product of the pull has been
  applied in full, and that is when, and only when, the pull is stamped as picked. A short pick leaves
  the pull as it was, in progress and still pickable.
\<close>

theorem confirm_pick_outcome:
  assumes "list_all (\<lambda>l. 0 \<le> pk_quantity l) (pull_pick_lines db)"
    and "confirm_pick now i lines who db = Inr (r, db')"
    and "find_row pr_id i (pull_requests db) = Some pr"
  shows "(cp_outcome r = PICKED \<longleftrightarrow> (\<forall>c. dict_get (line_requirements pr) c \<le> units_in db' i APPLIED c)) \<and>
    find_row pr_id i (pull_requests db') =
      Some (if cp_outcome r = PICKED then pr\<lparr>pr_picked_at := Some now, pr_picked_by := Some who\<rparr> else pr)"
proof -
  obtain es where es: "confirmed db pr es" "pr_id pr = i" "settle_pick now pr es who db = Inr (r, db')"
    using confirm_pick_pull [OF assms(2,3)] by metis
  let ?swapped = "swap_claim_for_rows now pr who (find_reservation_holder db pr) es db"
  have "cp_outcome r = PICKED \<longleftrightarrow> (\<forall>c. dict_get (line_requirements pr) c \<le> units_in db' i APPLIED c)"
    using settle_pick_cases(1) [OF es(3)] short_of_Nil [of db pr es] settled_units [OF es(3,1)]
      units_in_nonneg [OF assms(1)] confirmed_nonneg [OF es(1)] es(2) by simp
  moreover have "find_row pr_id i (pull_requests ?swapped) = Some pr"
    using assms(3) by (simp add: swap_frame)
  moreover have "same_tables ?swapped db'" if "cp_outcome r \<noteq> PICKED"
    using that settle_pick_cases(1,3) [OF es(3)] report_short_frame by (metis (mono_tags))
  ultimately show ?thesis
    using settle_pick_cases(1,2) [OF es(3)] es(2)
    by (cases "short_of db pr es = []") (auto simp: set_pull_def find_row_update same_tables_def)
qed

lemma confirm_pick_outcome_witness:
  "map_option pr_picked_at (find_row pr_id 20 (pull_requests (snd demo_full_pick))) = Some (Some 7) \<and>
   map_option pr_picked_at (find_row pr_id 20 (pull_requests (snd demo_short_pick))) = Some None"
proof -
  have lines: "list_all (\<lambda>l. 0 \<le> pk_quantity l) (pull_pick_lines demo_db)"
    and pull: "find_row pr_id 20 (pull_requests demo_db) = Some demo_pull"
    and outcome: "cp_outcome (fst demo_full_pick) = PICKED" "cp_outcome (fst demo_short_pick) = SHORT"
    and "pr_picked_at demo_pull = None"
    by code_simp+
  with confirm_pick_outcome [OF lines demo_full_pick pull] confirm_pick_outcome [OF lines demo_short_pick pull]
  show ?thesis by simp
qed

text \<open>The open purchasing signals of a pull.\<close>

definition open_signals :: "db \<Rightarrow> uuid \<Rightarrow> nat" where
  "open_signals db i = length (filter (\<lambda>n. no_pull_request_id n = Some i \<and> no_type n = INVENTORY_SHORTFALL \<and>
     \<not> no_is_read n \<and> no_recipient_role n = Some PO_RECIPIENT_ROLE) (notifications db))"

lemma open_signals_unread:
  "has_unread_notification_for_pull db i INVENTORY_SHORTFALL (Some PO_RECIPIENT_ROLE) \<longleftrightarrow> 0 < open_signals db i"
  by (auto simp: has_unread_notification_for_pull_def open_signals_def list_ex_iff filter_empty_conv)

lemma report_short_signals:
  assumes "report_short now pr who holder sfs db = Inr (n, db')"
  shows "n \<longleftrightarrow> open_signals db (pr_id pr) = 0"
    and "open_signals db' j = (if n \<and> j = pr_id pr then 1 else open_signals db j)"
proof -
  let ?unread = "has_unread_notification_for_pull db (pr_id pr) INVENTORY_SHORTFALL (Some PO_RECIPIENT_ROLE)"
  obtain mid where mid: "(if ?unread then Inr db
      else notify_po_shortfall now (pr_project_id pr) (Some (pr_id pr)) db) = Inr mid"
    and n: "n \<longleftrightarrow> \<not> ?unread" and out: "notifications db' = notifications mid"
    using assms by (rule report_short_Inr) blast
  show "n \<longleftrightarrow> open_signals db (pr_id pr) = 0" using n by (simp add: open_signals_unread)
  then show "open_signals db' j = (if n \<and> j = pr_id pr then 1 else open_signals db j)"
    using mid n out
    by (auto simp: notify_po_shortfall_def open_signals_def split: if_splits dest!: create_notification_Inr)
qed

text \<open>
  Purchasing is told once per gap: a confirmation signals exactly when it ends short with no open
  signal for the pull, so a pull picked in many sittings never carries two.
\<close>

theorem confirm_pick_signals_once:
  assumes "confirm_pick now i lines who db = Inr (r, db')"
  shows "(cp_notified r \<longleftrightarrow> cp_outcome r = SHORT \<and> open_signals db i = 0) \<and>
    open_signals db' i = (if cp_outcome r = SHORT then max 1 (open_signals db i) else open_signals db i)"
proof -
  obtain pr es where es: "confirmed db pr es" "pr_id pr = i" "settle_pick now pr es who db = Inr (r, db')"
    using assms by (rule confirm_pick_Inr)
  let ?swapped = "swap_claim_for_rows now pr who (find_reservation_holder db pr) es db"
  have same: "open_signals ?swapped j = open_signals db j" for j
    by (simp add: open_signals_def swap_frame)
  show ?thesis
  proof (cases "short_of db pr es = []")
    case True
    then show ?thesis using settle_pick_cases(1,2) [OF es(3)] same
      by (auto simp: open_signals_def)
  next
    case False
    then show ?thesis
      using settle_pick_cases(1) [OF es(3)] report_short_signals [OF settle_pick_cases(3) [OF es(3) False]] same es(2)
      by (auto simp: max_def)
  qed
qed

lemma confirm_pick_signals_once_witness:
  "open_signals (snd demo_short_pick) 20 = 1 \<and> cp_notified (fst demo_short_pick)"
proof -
  have "cp_outcome (fst demo_short_pick) = SHORT" and "open_signals demo_db 20 = 0" by code_simp+
  with confirm_pick_signals_once [OF demo_short_pick] show ?thesis by simp
qed

section \<open>No confirmation within the ceilings is refused\<close>

lemma report_short_total: "\<exists>out. report_short now pr who holder sfs db = Inr out"
  using create_notification_total [of "Some PO_RECIPIENT_ROLE" None]
  by (fastforce simp: report_short_def notify_po_shortfall_def Let_def bindr_eq_Inr split: option.split)

lemma settle_pick_total: "\<exists>out. settle_pick now pr es who db = Inr out"
proof (cases "short_of db pr es = []")
  case False
  let ?holder = "find_reservation_holder db pr"
  let ?db = "swap_claim_for_rows now pr who ?holder es db"
  obtain out where "report_short now pr who ?holder
      (pick_shortfalls ?db pr (line_requirements pr) (covered_by db pr es) (short_of db pr es) ?holder) ?db = Inr out"
    using report_short_total by blast
  with False show ?thesis by (simp add: settle_pick_def Let_def)
qed (simp add: settle_pick_def Let_def)

lemma claimable_get:
  assumes "book_ok db" and "c \<in> set combos"
  shows "dict_get (claimable_by_combo db pr combos) c =
    free_for db (pr_project_id pr) True (find_reservation_holder db pr) c"
proof -
  have "combos \<noteq> []" using assms(2) by auto
  moreover have "dict_get (sum_by il_combo il_free (filter (\<lambda>il. il_project_id il = p \<and> il_combo il \<in> set combos)
      (inventory_locations db))) c = on_hand db p c" for p
    using on_hand_tally [where Q = "\<lambda>c. c \<in> set combos" and p = p and db = db and c = c] assms(2)
    by (simp add: sum_by_def)
  ultimately show ?thesis
    using assms by (simp add: claimable_by_combo_def Let_def dict_get_map reserved_get combo_filter_def free_for_def)
qed

lemma claimable_keys: "fst ` set (claimable_by_combo db pr combos) = set combos"
  by (auto simp: claimable_by_combo_def Let_def image_image)

lemma claimable_none:
  assumes "book_ok db"
  shows "list_ex (\<lambda>kv. 0 < snd kv) (claimable_by_combo db pr combos) \<longleftrightarrow>
    (\<exists>c \<in> set combos. 0 < free_for db (pr_project_id pr) True (find_reservation_holder db pr) c)"
proof -
  have "(c, q) \<in> set (claimable_by_combo db pr combos) \<Longrightarrow> dict_get (claimable_by_combo db pr combos) c = q" for c q
    by (auto simp: claimable_by_combo_def Let_def dict_get_map split: if_splits)
  moreover have "c \<in> set combos \<Longrightarrow> (c, dict_get (claimable_by_combo db pr combos) c) \<in> set (claimable_by_combo db pr combos)" for c
    by (auto simp: claimable_by_combo_def Let_def dict_get_map image_iff split: if_splits)
  ultimately show ?thesis
    using claimable_get [OF assms] claimable_keys [of db pr combos]
    by (auto simp: list_ex_iff) (metis image_eqI fst_conv snd_conv)+
qed

lemma contention_ok_free:
  assumes "book_ok db"
    and "\<And>c. combo_qty es c \<le> free_for db (pr_project_id pr) True (find_reservation_holder db pr) c"
  shows "contention_ok db pr (entry_combos es)"
proof -
  let ?check = "check_inventory_sufficiency db (pr_project_id pr) (entry_combos es) True (find_reservation_holder db pr)"
  have "sufficient ?check"
    unfolding sufficient_iff [OF assms(1)] using assms(2) by (simp add: entry_combos_qty)
  then show ?thesis by (simp add: contention_ok_def contested_def sufficient_def)
qed

lemma load_pick_locations_ok:
  assumes "\<forall>e \<in> set es. entry_ok (pr_project_id pr) (inventory_locations db) e"
  obtains rows where "load_pick_locations db pr (entered_locations es) es = Inr rows"
    and "\<And>l. l \<in> key_location ` fst ` set es \<Longrightarrow> find_row il_id l rows = find_row il_id l (inventory_locations db)"
proof (cases "es = []")
  case True
  then show thesis using that [of "[]"] by (simp add: load_pick_locations_def entered_locations_def)
next
  case False
  have locs: "set (entered_locations es) = key_location ` fst ` set es"
    by (force simp: entered_locations_def)
  let ?rows = "filter (\<lambda>il. il_id il \<in> set (entered_locations es)) (inventory_locations db)"
  have find: "find_row il_id l ?rows = find_row il_id l (inventory_locations db)" if "l \<in> key_location ` fst ` set es" for l
    using that locs find_row_filter_in [where P = "\<lambda>j. j \<in> set (entered_locations es)"] by simp
  have "l \<in> il_id ` set ?rows" if "l \<in> set (entered_locations es)" for l
  proof -
    obtain e where "e \<in> set es" "l = key_location (fst e)" using \<open>l \<in> set (entered_locations es)\<close> locs by auto
    then obtain row where "find_row il_id l (inventory_locations db) = Some row"
      using assms by (auto simp: entry_ok_def)
    then show ?thesis using that by (auto dest!: find_row_Some)
  qed
  moreover have "check_entries (pr_project_id pr) ?rows es = Inr ()"
    using assms find by (simp add: check_entries_Inr entry_ok_def)
  moreover have "entered_locations es \<noteq> []" using False locs by fastforce
  ultimately have "load_pick_locations db pr (entered_locations es) es = Inr ?rows"
    by (simp add: load_pick_locations_def Let_def)
  then show thesis using that find by blast
qed

text \<open>
  C11. The ceilings are the only obstacles: an in-progress, unpicked pull accepts any well-formed
  entry that names its own project's rows, stays within what is still owed, within what each row has
  free and within what is free of other claims - and an empty entry exactly when nothing it needs
  is claimable.
\<close>

theorem confirm_pick_accepts:
  assumes "stock_ok db" and "pickable_pull db i = Inr pr"
    and "normalise_pick_lines lines (line_requirements pr) = Inr es"
    and "es = [] \<longrightarrow> line_requirements pr = [] \<or> (\<forall>c \<in> set (dict_keys (line_requirements pr)).
      free_for db (pr_project_id pr) True (find_reservation_holder db pr) c \<le> 0)"
    and "\<And>c. combo_qty es c = 0 \<or> combo_qty es c \<le> dict_get (line_requirements pr) c - units_in db i APPLIED c"
    and "\<And>c. combo_qty es c \<le> free_for db (pr_project_id pr) True (find_reservation_holder db pr) c"
    and "\<And>e. e \<in> set es \<Longrightarrow> \<exists>row. find_row il_id (key_location (fst e)) (inventory_locations db) = Some row \<and>
      il_project_id row = pr_project_id pr \<and> il_combo row = key_combo (fst e) \<and>
      loc_qty es (key_location (fst e)) \<le> il_free row"
  shows "\<exists>r db'. confirm_pick now i lines who db = Inr (r, db')"
proof -
  have ok: "book_ok db" using assms(1) by (simp add: stock_ok_def)
  obtain rows where rows: "load_pick_locations db pr (entered_locations es) es = Inr rows"
    and find: "\<And>l. l \<in> key_location ` fst ` set es \<Longrightarrow> find_row il_id l rows = find_row il_id l (inventory_locations db)"
    using load_pick_locations_ok [of es pr db] assms(7) unfolding entry_ok_def by metis
  have "rows_ok rows (entry_rows es)"
  proof -
    have "\<exists>row. find_row il_id l rows = Some row \<and> q \<le> il_free row" if "(l, q) \<in> set (entry_rows es)" for l q
    proof -
      obtain e where "e \<in> set es" "l = key_location (fst e)" "q = loc_qty es l"
        using \<open>(l, q) \<in> set (entry_rows es)\<close> by (auto simp: entry_rows_def tally_mem loc_qty_def)
      moreover from this have "find_row il_id l rows = find_row il_id l (inventory_locations db)"
        by (intro find) simp
      ultimately show ?thesis using assms(7) by metis
    qed
    then show ?thesis unfolding rows_ok_def list_all_iff by (auto split: option.split) fastforce+
  qed
  moreover have "list_all (\<lambda>kv. snd kv \<le> dict_get (line_requirements pr) (fst kv) -
      dict_get (applied_by_combo db i) (fst kv)) (entry_combos es)"
  proof -
    have "q \<le> dict_get (line_requirements pr) c - units_in db i APPLIED c" if "(c, q) \<in> set (entry_combos es)" for c q
    proof -
      have "q = combo_qty es c" and c: "c \<in> key_combo ` fst ` set es"
        using that by (force simp: entry_combos_def tally_mem combo_qty_def)+
      moreover have "0 < combo_qty es c"
      proof -
        have "\<forall>e \<in> set (map (\<lambda>kv. (key_combo (fst kv), snd kv)) es). 0 < snd e"
          using normalise_pick_lines_wf [OF assms(3)] by (auto simp: entries_wf_def)
        then show ?thesis using c unfolding combo_qty_def by (intro qty_of_pos) force+
      qed
      ultimately show ?thesis using assms(5) [of c] by simp
    qed
    then show ?thesis by (auto simp: list_all_iff)
  qed
  moreover have "contention_ok db pr (entry_combos es)"
    using ok assms(6) by (rule contention_ok_free)
  moreover have "\<not> (line_requirements pr \<noteq> [] \<and> es = [] \<and>
      list_ex (\<lambda>kv. 0 < snd kv) (claimable_by_combo db pr (dict_keys (line_requirements pr))))"
    using assms(4) unfolding claimable_none [OF ok] by fastforce
  ultimately have "checked_pick db i lines = Inr (pr, es)"
    unfolding checked_pick_def Let_def using assms(2,3) rows by simp
  then show ?thesis using settle_pick_total [of now pr es who db] by (auto simp: confirm_pick_def)
qed

lemma confirm_pick_accepts_witness:
  "\<exists>r db'. confirm_pick 7 20 [demo_line 11 2] ''bob'' demo_db = Inr (r, db')"
proof (rule confirm_pick_accepts)
  have pr: "demo_pull\<lparr>pr_project_id := 1\<rparr> = demo_pull" "pr_project_id demo_pull = 1" by (simp_all add: demo_pull_def)
  let ?es = "[((''Hinges'', ''BB1279'', 11), 2)] :: (entry_key \<times> int) list"
  show "stock_ok demo_db" and "pickable_pull demo_db 20 = Inr demo_pull"
    and "normalise_pick_lines [demo_line 11 2] (line_requirements demo_pull) = Inr ?es" by code_simp+
  have facts: "dict_get (line_requirements demo_pull) (''Hinges'', ''BB1279'') = 4"
    "units_in demo_db 20 APPLIED (''Hinges'', ''BB1279'') = 0"
    "free_for demo_db (pr_project_id demo_pull) True (find_reservation_holder demo_db demo_pull) (''Hinges'', ''BB1279'') = 5"
    "find_row il_id 11 (inventory_locations demo_db) = Some (demo_location 11 3 0)" by code_simp+
  show "combo_qty ?es c = 0 \<or> combo_qty ?es c \<le> dict_get (line_requirements demo_pull) c - units_in demo_db 20 APPLIED c" for c
    using facts by (auto simp: key_combo_def)
  show "combo_qty ?es c \<le> free_for demo_db (pr_project_id demo_pull) True (find_reservation_holder demo_db demo_pull) c" for c
    using facts by (auto simp: key_combo_def free_for_def)
  show "?es = [] \<longrightarrow> line_requirements demo_pull = [] \<or> (\<forall>c \<in> set (dict_keys (line_requirements demo_pull)).
      free_for demo_db (pr_project_id demo_pull) True (find_reservation_holder demo_db demo_pull) c \<le> 0)"
    by simp
  show "\<exists>row. find_row il_id (key_location (fst e)) (inventory_locations demo_db) = Some row \<and>
      il_project_id row = pr_project_id demo_pull \<and> il_combo row = key_combo (fst e) \<and>
      loc_qty ?es (key_location (fst e)) \<le> il_free row" if "e \<in> set ?es" for e
    using that facts by (auto simp: key_combo_def key_location_def demo_location_def il_combo_def il_free_def demo_pull_def)
qed

section \<open>The sheet and the draft\<close>

lemma get_pull_request_details_Inr:
  "get_pull_request_details db i = Inr pr \<Longrightarrow> pr_id pr = i \<and> pr \<in> set (pull_requests db) \<and> pr_deleted_at pr = None"
  by (auto simp: get_pull_request_details_def split: option.splits dest: find_row_Some)

lemma sum_drop_zero:
  "(\<And>x. x \<in> set xs \<Longrightarrow> \<not> Q x \<Longrightarrow> f x = (0 :: int)) \<Longrightarrow> sum_list (map f (filter Q xs)) = sum_list (map f xs)"
  by (induction xs) auto

lemma sheet_available:
  assumes "list_all inventory_row_ok (inventory_locations db)" and "c \<in> set (dict_keys (line_requirements pr))"
  shows "sum_list (map sl_available (map (sheet_location db (pr_id pr)) (sheet_rows db pr c))) =
    on_hand db (pr_project_id pr) c"
proof -
  let ?mine = "filter (\<lambda>il. il_project_id il = pr_project_id pr \<and> il_combo il = c) (inventory_locations db)"
  let ?named = "\<lambda>il. 0 < il_free il \<or> il_id il \<in> set (referenced_location_ids db (pr_id pr))"
  have free: "max 0 (il_free il) = il_free il" if "il \<in> set (inventory_locations db)" for il
    using assms(1) that by (auto simp: list_all_iff inventory_row_ok_def il_free_def)
  have "sum_list (map sl_available (map (sheet_location db (pr_id pr)) (sheet_rows db pr c))) =
      sum_list (map (\<lambda>il. max 0 (il_free il)) (sheet_rows db pr c))"
    by (simp add: sheet_location_def Let_def comp_def)
  also have "\<dots> = sum_list (map (\<lambda>il. max 0 (il_free il)) (filter ?named ?mine))"
    using assms(2) unfolding sheet_rows_def sum_list_sort_key filter_filter
    by (intro arg_cong [where f = sum_list] map_cong filter_cong refl) auto
  also have "\<dots> = sum_list (map (\<lambda>il. max 0 (il_free il)) ?mine)"
    by (rule sum_drop_zero) auto
  also have "\<dots> = sum_list (map il_free ?mine)"
    by (intro arg_cong [where f = sum_list] map_cong refl) (simp add: free)
  finally show ?thesis by (simp add: on_hand_def)
qed

text \<open>
  The sheet tells the truth before the walk: product by product, in order, the claimable quantity
  it prints is the ceiling \<open>confirm_pick\<close> will hold the entry to, next to what is asked for and what is
  already picked.
\<close>

theorem pick_sheet_claimable:
  assumes "stock_ok db" and "get_pick_sheet db i = Inr sheet" and "get_pull_request_details db i = Inr pr"
  shows "map (\<lambda>s. (ss_combo s, ss_required_quantity s, ss_applied_quantity s, ss_claimable_quantity s)) sheet =
    map (\<lambda>need. (fst need, snd need, units_in db i APPLIED (fst need),
        free_for db (pr_project_id pr) True (find_reservation_holder db pr) (fst need)))
      (sort_key fst (line_requirements pr))"
proof -
  let ?others = "if line_requirements pr \<noteq> [] then get_reserved_quantities db (pr_project_id pr)
      (Some (dict_keys (line_requirements pr))) (find_reservation_holder db pr) else []"
  have id: "pr_id pr = i" using get_pull_request_details_Inr [OF assms(3)] by simp
  have each: "ss_combo (sheet_section db pr ?others need) = fst need \<and>
      ss_required_quantity (sheet_section db pr ?others need) = snd need \<and>
      ss_applied_quantity (sheet_section db pr ?others need) = units_in db i APPLIED (fst need) \<and>
      ss_claimable_quantity (sheet_section db pr ?others need) =
        free_for db (pr_project_id pr) True (find_reservation_holder db pr) (fst need)"
    if "need \<in> set (line_requirements pr)" for need
  proof -
    have "fst need \<in> set (dict_keys (line_requirements pr))" using that by (simp add: dict_keys_def)
    moreover from this have "dict_get ?others (fst need) =
        claimed_by_others db (pr_project_id pr) (find_reservation_holder db pr) (fst need)"
      using assms(1) by (auto simp: stock_ok_def reserved_get combo_filter_def dict_keys_def)
    ultimately show ?thesis
      using sheet_available [of db "fst need" pr] assms(1) id
      by (simp add: sheet_section_def Let_def stock_ok_def free_for_def)
  qed
  have "sheet = map (sheet_section db pr ?others) (sort_key fst (line_requirements pr))"
    using assms(2) unfolding get_pick_sheet_def assms(3) bindr_Inr Let_def by simp
  then show ?thesis by (simp only: map_map) (rule map_cong, use each in \<open>simp_all\<close>)
qed

definition demo_sheet :: "pick_sheet_section list" where
  "demo_sheet = value_of (get_pick_sheet demo_db 20)"

lemma pick_sheet_claimable_witness: "map ss_claimable_quantity demo_sheet = [5]"
proof -
  have "\<not> raised (get_pick_sheet demo_db 20)" and ok: "stock_ok demo_db"
    and pull: "get_pull_request_details demo_db 20 = Inr demo_pull" by code_simp+
  then have sheet: "get_pick_sheet demo_db 20 = Inr demo_sheet"
    by (simp add: demo_sheet_def value_of)
  have free: "map (\<lambda>need. (fst need, snd need, units_in demo_db 20 APPLIED (fst need),
        free_for demo_db (pr_project_id demo_pull) True (find_reservation_holder demo_db demo_pull) (fst need)))
      (sort_key fst (line_requirements demo_pull)) = [(demo_combo, 4, 0, 5)]"
    by code_simp
  have "map (snd \<circ> snd \<circ> snd) (map (\<lambda>s. (ss_combo s, ss_required_quantity s, ss_applied_quantity s,
      ss_claimable_quantity s)) demo_sheet) = [5]"
    unfolding pick_sheet_claimable [OF ok sheet pull] free by simp
  then show ?thesis by (simp add: comp_def)
qed

text \<open>The key a row is entered under.\<close>

definition row_key :: "inventory_location \<Rightarrow> entry_key" where
  "row_key il = (il_hardware_category il, il_product_code il, il_id il)"

lemma line_units_add_drafts:
  "line_units (add_drafts now i who es db) i DRAFT il = line_units db i DRAFT il + qty_of es (row_key il)"
proof (induction now i who es db rule: add_drafts.induct)
  case (2 now pull entered_by k qty rest db)
  have "key_combo k = il_combo il \<and> key_location k = il_id il \<longleftrightarrow> k = row_key il"
    by (cases k) (auto simp: key_combo_def key_location_def il_combo_def row_key_def)
  with 2 show ?case by (auto simp: fresh_def line_units_def)
qed simp

lemma add_drafts_frame: "pick_frame db (add_drafts now i who es db)"
proof (induction now i who es db rule: add_drafts.induct)
  case (2 now pull entered_by k qty rest db)
  then show ?case by (auto simp: fresh_def intro!: pick_frame_trans [OF _ "2.IH"] simp: pick_frame_def)
qed simp

lemma add_drafts_keeps:
  "inventory_locations (add_drafts now i who es db) = inventory_locations db"
  "inventory_audit_log (add_drafts now i who es db) = inventory_audit_log db"
  "units_in (add_drafts now i who es db) j APPLIED c = units_in db j APPLIED c"
  by (induction now i who es db rule: add_drafts.induct) (auto simp: fresh_def units_in_def)

lemma line_units_drop_drafts: "line_units (drop_drafts i db) i DRAFT il = 0"
proof -
  have "filter (\<lambda>l. pk_pull_request_id l = i \<and> pk_state l = DRAFT \<and> pk_combo l = c \<and> pk_inventory_location_id l = x)
      (delete_rows (\<lambda>l. pk_pull_request_id l = i \<and> pk_state l = DRAFT) ls) = []" for ls c x
    by (auto simp: filter_empty_conv delete_rows_def)
  then show ?thesis by (simp add: line_units_def drop_drafts_def)
qed

text \<open>
  Saving a draft round-trips and moves nothing: afterwards the draft units of every row are what
  was entered for that row and product - zero where nothing was, whatever an earlier draft said - the
  stock, the claims, the applied lines and the audit log are untouched, and the sheet returned is the
  sheet of the saved state.
\<close>

theorem save_pick_draft_roundtrip:
  assumes "save_pick_draft now i lines who db = Inr (sheet, db')"
    and "find_row pr_id i (pull_requests db) = Some pr"
  shows "(\<exists>es. normalise_pick_lines lines (line_requirements pr) = Inr es \<and>
      (\<forall>il. line_units db' i DRAFT il = dict_get es (row_key il))) \<and>
    same_stock db db' \<and> inventory_audit_log db' = inventory_audit_log db \<and>
    pull_requests db' = pull_requests db \<and> units_in db' i APPLIED c = units_in db i APPLIED c \<and>
    get_pick_sheet db' i = Inr sheet"
proof -
  obtain pr' es where es: "pickable_pull db i = Inr pr'" "normalise_pick_lines lines (line_requirements pr') = Inr es"
    "db' = add_drafts now i who (sort_key fst es) (drop_drafts i db)" "get_pick_sheet db' i = Inr sheet"
    using assms(1) unfolding save_pick_draft_def Let_def bindr_eq_Inr by blast
  have "pr' = pr" using es(1) assms(2) by (simp add: pickable_pull_Inr)
  moreover have "line_units db' i DRAFT il = dict_get es (row_key il)" for il
    using normalise_pick_lines_wf [OF es(2)]
    by (simp add: es(3) line_units_add_drafts line_units_drop_drafts dict_get_distinct entries_wf_def)
  moreover have "same_stock db db' \<and> inventory_audit_log db' = inventory_audit_log db \<and> pull_requests db' = pull_requests db"
    using pick_frameD [OF add_drafts_frame] pick_frameD [OF drop_drafts_frame]
    by (simp add: es(3) same_stock_def add_drafts_keeps) (simp add: drop_drafts_def)
  moreover have "units_in db' i APPLIED c = units_in db i APPLIED c"
    by (simp add: es(3) add_drafts_keeps units_in_drop_drafts)
  ultimately show ?thesis using es by blast
qed

definition demo_draft :: "pick_sheet_section list \<times> db" where
  "demo_draft = value_of (save_pick_draft 6 20 [demo_line 10 2, demo_line 10 1, demo_line 11 0] ''bob'' demo_db)"

lemma save_pick_draft_roundtrip_witness:
  "line_units (snd demo_draft) 20 DRAFT (demo_location 10 5 1) = 3 \<and> same_stock demo_db (snd demo_draft)"
proof -
  let ?lines = "[demo_line 10 2, demo_line 10 1, demo_line 11 0]"
  have "\<not> raised (save_pick_draft 6 20 ?lines ''bob'' demo_db)"
    and pull: "find_row pr_id 20 (pull_requests demo_db) = Some demo_pull"
    and norm: "normalise_pick_lines ?lines (line_requirements demo_pull) = Inr [((''Hinges'', ''BB1279'', 10), 3)]"
    by code_simp+
  then have run: "save_pick_draft 6 20 ?lines ''bob'' demo_db = Inr (fst demo_draft, snd demo_draft)"
    by (simp add: demo_draft_def value_of)
  have key: "row_key (demo_location 10 5 1) = (''Hinges'', ''BB1279'', 10)"
    by (simp add: row_key_def demo_location_def)
  show ?thesis using save_pick_draft_roundtrip [OF run pull, of demo_combo] unfolding norm by (auto simp: key)
qed

end
