(* ===== verification/ShopAssemblyFacts.thy ===== *)
theory ShopAssemblyFacts
  imports ShopAssembly PickingFacts
begin

text \<open>
  What batching, dismissing and unwinding guarantee: a batch claims exactly what its pull asks for and
  never past what is free, discarding it undoes it, and a request's status is derived from its
  openings in every state the operations reach.
\<close>


section \<open>Inverting the operations\<close>

lemma locked_request_Inr [result_simps]:
  "locked_request db i = Inr r \<longleftrightarrow> find_row sar_id i (shop_assembly_requests db) = Some r"
  by (simp add: locked_request_def split: option.split)

definition batch_pull :: "shop_assembly_request \<Rightarrow> db \<Rightarrow> string \<Rightarrow> (line_key \<times> int) list \<Rightarrow> pull_request" where
  "batch_pull r db created_by allocations =
     new_pull (Suc (next_id db)) (batch_number_of r (next_sequence db (sar_id r))) (sar_project_id r)
       PULL_SHOP_ASSEMBLY created_by (map batch_pull_item (sort_key fst allocations))"

definition batch_row :: "shop_assembly_request \<Rightarrow> db \<Rightarrow> string \<Rightarrow> (line_key \<times> int) list \<Rightarrow> shop_assembly_batch" where
  "batch_row r db created_by allocations =
     new_batch (next_id db) (sar_id r) (next_sequence db (sar_id r)) (batch_number_of r (next_sequence db (sar_id r)))
       created_by (Suc (next_id db)) allocations"

definition batched_request ::
  "datetime \<Rightarrow> string \<Rightarrow> uuid \<Rightarrow> (line_key \<times> int) list \<Rightarrow> shop_assembly_request \<Rightarrow> shop_assembly_request" where
  "batched_request now created_by batch allocations r =
     close_if_nothing_pending now created_by
       ((map_openings (batch_opening batch (map (fst \<circ> fst) allocations)) r)\<lparr>sar_integrity_note := None\<rparr>)"

definition batch_inserted ::
  "shop_assembly_request \<Rightarrow> string \<Rightarrow> (line_key \<times> int) list \<Rightarrow> notification \<Rightarrow> db \<Rightarrow> db" where
  "batch_inserted r who allocations n db =
     db\<lparr>shop_assembly_batches := shop_assembly_batches db @ [batch_row r db who allocations],
        pull_requests := pull_requests db @ [batch_pull r db who allocations],
        next_id := Suc (Suc (Suc (next_id db))),
        notifications := notifications db @ [n]\<rparr>"

lemma notify_pull_created_Inr:
  "notify_pull_created now pull db = Inr db' \<Longrightarrow>
     \<exists>n. db' = db\<lparr>next_id := Suc (next_id db), notifications := notifications db @ [n]\<rparr> \<and>
       no_type n = PULL_REQUEST_CREATED \<and> no_pull_request_id n = Some (pr_id pull)"
  by (auto simp: notify_pull_created_def create_notification_def fresh_def Let_def split: if_splits)

lemma create_batch_Inr:
  assumes "create_shop_assembly_batch now i lines who db = Inr (batch, db')"
  obtains r allocations n where "find_row sar_id i (shop_assembly_requests db) = Some r" and "sar_id r = i"
    and "checked_allocations db r lines = Inr allocations"
    and "gate_on_available_inventory db (sar_project_id r) (batch_needs allocations) ''shop-assembly batch''
      (Some (batch_number_of r (next_sequence db i))) = Inr ()"
    and "batch = next_id db" and "\<not> live_number db (batch_number_of r (next_sequence db i))"
    and "no_type n = PULL_REQUEST_CREATED" and "no_pull_request_id n = Some (Suc (next_id db))"
    and "db' = set_shop_request i (batched_request now who batch allocations)
      (create_reservations (sar_project_id r) (SHOP_ASSEMBLY_BATCH, batch) (batch_needs allocations)
        (batch_inserted r who allocations n db))"
proof -
  obtain r allocations where r: "find_row sar_id i (shop_assembly_requests db) = Some r"
    "checked_allocations db r lines = Inr allocations"
    using assms by (auto simp: create_shop_assembly_batch_def result_simps)
  then have id: "sar_id r = i" by (auto dest: find_row_Some)
  note run = assms [unfolded create_shop_assembly_batch_def locked_request_def r option.case bindr_Inr
      Let_def fresh_def split_conv]
  from run obtain n where *: "no_type n = PULL_REQUEST_CREATED" "no_pull_request_id n = Some (Suc (next_id db))"
    and out: "gate_on_available_inventory db (sar_project_id r) (batch_needs allocations) ''shop-assembly batch''
        (Some (batch_number_of r (next_sequence db i))) = Inr ()"
      "batch = next_id db" "\<not> live_number db (batch_number_of r (next_sequence db i))"
      "db' = set_shop_request i (batched_request now who batch allocations)
        (create_reservations (sar_project_id r) (SHOP_ASSEMBLY_BATCH, batch) (batch_needs allocations)
          (batch_inserted r who allocations n db))"
    by (auto simp: result_simps batch_pull_def batch_row_def batched_request_def [abs_def] live_number_def
        new_pull_def batch_inserted_def id dest!: notify_pull_created_Inr)
  show thesis by (rule that [OF r(1) id r(2) out(1-3) * out(4)])
qed

lemma validated_allocation_Inr:
  assumes "validated_allocation line pending owed = Inr (k, q)"
  shows "1 \<le> q \<and> q \<le> dict_get owed k \<and> fst k \<in> set pending \<and> k \<in> set (dict_keys owed)"
proof (cases "ln_allocated_quantity line")
  case None
  then show ?thesis using assms by (simp add: validated_allocation_def Let_def ensure_eq_Inr)
next
  case (Some n)
  then have "fst k \<in> set pending \<and> k \<in> set (dict_keys owed) \<and> 1 \<le> n \<and> n \<le> dict_get owed k \<and> n = q"
    using assms
    unfolding validated_allocation_def Let_def ensure_eq_Inr Some option.case sum.inject prod.inject
    by (metis fst_conv)
  then show ?thesis by simp
qed

definition allocation_ok :: "string list \<Rightarrow> (line_key \<times> int) list \<Rightarrow> line_key \<times> int \<Rightarrow> bool" where
  "allocation_ok pending owed kv \<longleftrightarrow> 1 \<le> snd kv \<and> snd kv \<le> dict_get owed (fst kv) \<and>
     fst (fst kv) \<in> set pending \<and> fst kv \<in> set (dict_keys owed)"

lemma collect_allocations_Inr:
  assumes "collect_allocations pending owed lines acc = Inr out"
    and "distinct (map fst acc)" and "\<forall>kv \<in> set acc. allocation_ok pending owed kv"
  shows "distinct (map fst out) \<and> (\<forall>kv \<in> set out. allocation_ok pending owed kv) \<and> length out = length acc + length lines"
  using assms
proof (induction pending owed lines acc rule: collect_allocations.induct)
  case (2 pending owed line lines acc)
  then obtain kv where kv: "validated_allocation line pending owed = Inr kv" "fst kv \<notin> set (dict_keys acc)"
    "collect_allocations pending owed lines (acc @ [kv]) = Inr out"
    unfolding collect_allocations.simps bindr_eq_Inr ensure_eq_Inr by blast
  have "allocation_ok pending owed kv"
    using validated_allocation_Inr [of line pending owed "fst kv" "snd kv"] kv(1) by (simp add: allocation_ok_def)
  with "2.IH" [OF kv(3)] "2.prems" kv(2) show ?case by (simp add: dict_keys_def)
qed simp

lemma checked_allocations_Inr:
  assumes "checked_allocations db r lines = Inr allocations"
  shows "sar_status r = SAR_PENDING" and "allocations \<noteq> []" and "distinct (map fst allocations)"
    and "\<forall>kv \<in> set allocations. allocation_ok (map so_opening_number (pending_openings r)) (owed_lines r) kv"
proof -
  have run: "sar_status r = SAR_PENDING" "lines \<noteq> []"
    "collect_allocations (map so_opening_number (pending_openings r)) (owed_lines r) lines [] = Inr allocations"
    using assms by (auto simp: checked_allocations_def Let_def result_simps)
  with collect_allocations_Inr [OF run(3)] show "sar_status r = SAR_PENDING" "allocations \<noteq> []"
    "distinct (map fst allocations)"
    "\<forall>kv \<in> set allocations. allocation_ok (map so_opening_number (pending_openings r)) (owed_lines r) kv"
    by auto
qed

text \<open>What the allocations add up to per product: the batch's needs, and what its pull asks for.\<close>

definition allocated :: "(line_key \<times> int) list \<Rightarrow> combo \<Rightarrow> int" where
  "allocated allocations c = qty_of (map (\<lambda>kv. (key_product (fst kv), snd kv)) allocations) c"

lemma qty_of_batch_needs: "qty_of (batch_needs allocations) c = allocated allocations c"
  using dict_get_distinct [OF distinct_tally, of "map (\<lambda>kv. (key_product (fst kv), snd kv)) allocations" c]
  by (simp add: batch_needs_def allocated_def tally_simps)

lemma keys_batch_needs: "fst ` set (batch_needs allocations) = (key_product \<circ> fst) ` set allocations"
  by (simp add: batch_needs_def tally_simps image_image comp_def)

lemma batch_needs_pos:
  assumes "\<forall>kv \<in> set allocations. 1 \<le> snd kv"
  shows "\<forall>need \<in> set (batch_needs allocations). 0 < snd need"
proof
  fix need assume "need \<in> set (batch_needs allocations)"
  then have "(fst need, snd need) \<in> set (tally (map (\<lambda>kv. (key_product (fst kv), snd kv)) allocations))"
    by (simp add: batch_needs_def)
  then have need: "fst need \<in> fst ` set (map (\<lambda>kv. (key_product (fst kv), snd kv)) allocations)"
    "snd need = qty_of (map (\<lambda>kv. (key_product (fst kv), snd kv)) allocations) (fst need)"
    unfolding tally_mem by blast+
  show "0 < snd need"
    unfolding need(2) using assms need(1) by (intro qty_of_pos) auto
qed

lemma pull_asks_allocated:
  assumes "\<forall>kv \<in> set allocations. 1 \<le> snd kv"
  shows "dict_get (line_requirements (batch_pull r db who allocations)) c = allocated allocations c"
proof -
  have items: "map (\<lambda>item. (pi_combo item, pi_requested_quantity item))
      (filter (\<lambda>item. 0 < pi_requested_quantity item) (map batch_pull_item xs)) =
      map (\<lambda>kv. (key_product (fst kv), snd kv)) xs" if "\<forall>kv \<in> set xs. 1 \<le> snd kv" for xs
    using that by (induction xs) (auto simp: batch_pull_item_def pi_combo_def key_product_def)
  have "dict_get (line_requirements (batch_pull r db who allocations)) c =
      qty_of (map (\<lambda>kv. (key_product (fst kv), snd kv)) (sort_key fst allocations)) c"
    unfolding line_requirements_def dict_get_tally using assms
    by (simp add: batch_pull_def new_pull_def items)
  also have "\<dots> = allocated allocations c"
    unfolding allocated_def by (rule qty_of_mset) simp
  finally show ?thesis .
qed

lemma set_shop_request_frame [simp]:
  "inventory_locations (set_shop_request i f db) = inventory_locations db"
  "inventory_reservations (set_shop_request i f db) = inventory_reservations db"
  "pull_requests (set_shop_request i f db) = pull_requests db"
  "shop_assembly_batches (set_shop_request i f db) = shop_assembly_batches db"
  "pull_pick_lines (set_shop_request i f db) = pull_pick_lines db"
  "shipping_out_requests (set_shop_request i f db) = shipping_out_requests db"
  "notifications (set_shop_request i f db) = notifications db"
  "next_id (set_shop_request i f db) = next_id db"
  by (simp_all add: set_shop_request_def)

lemma batch_inserted_book:
  "inventory_reservations (batch_inserted r who al n db) = inventory_reservations db"
  "inventory_locations (batch_inserted r who al n db) = inventory_locations db"
  by (simp_all add: batch_inserted_def)

section \<open>Properties of a batch\<close>

text \<open>Ids are fresh: nothing in the book names a holder that has not been created yet.\<close>

definition fresh_holder :: "db \<Rightarrow> holder \<Rightarrow> bool" where
  "fresh_holder db h \<longleftrightarrow> list_all (\<lambda>r. \<not> held_by h r) (inventory_reservations db)"

lemma held_fresh: "fresh_holder db h \<Longrightarrow> held db h c = 0"
  unfolding held_def fresh_holder_def by (rule rsum_none) (auto simp: list_all_iff)

lemma held_cong: "inventory_reservations a = inventory_reservations b \<Longrightarrow> held a h c = held b h c"
  by (simp add: held_def)

lemma create_batch_held:
  assumes "db' = set_shop_request i f (create_reservations p h needs (batch_inserted r who al n db))"
  shows "held db' h' c = held db h' c + (if h' = h then positive_qty needs c else 0)"
    and "claimed db' p' c = claimed db p' c + (if p' = p then positive_qty needs c else 0)"
  using held_create [of p h needs "batch_inserted r who al n db" h' c]
    claimed_create [of p h needs "batch_inserted r who al n db" p' c]
  by (simp_all add: assms held_def claimed_def batch_inserted_book)

text \<open>
  C15. A batch claims exactly what its pull asks for: the batch created points at a live, pending pull
  for the request's project whose requirement of every product is what the batch allocates of it,
  and what is reserved under the batch - nobody else's claim changes, and the project's claims grow
  by that amount alone.
\<close>

theorem batch_reserves_what_it_pulls:
  assumes "create_shop_assembly_batch now i lines who db = Inr (batch, db')"
    and "fresh_holder db (SHOP_ASSEMBLY_BATCH, next_id db)"
  shows "\<exists>r b pull. find_row sar_id i (shop_assembly_requests db) = Some r \<and>
    b \<in> set (shop_assembly_batches db') \<and> sb_id b = batch \<and> sb_status b = BATCH_ACTIVE \<and>
    pull \<in> set (pull_requests db') \<and> sb_pull_request_id b = Some (pr_id pull) \<and>
    pr_status pull = PULL_PENDING \<and> pr_project_id pull = sar_project_id r \<and>
    (\<forall>c. dict_get (line_requirements pull) c = qty_of (map (\<lambda>item. ((bi_hardware_category item, bi_product_code item),
          bi_allocated_quantity item)) (sb_items b)) c \<and>
      held db' (SHOP_ASSEMBLY_BATCH, batch) c = dict_get (line_requirements pull) c \<and>
      claimed db' (sar_project_id r) c = claimed db (sar_project_id r) c + dict_get (line_requirements pull) c \<and>
      (\<forall>h. h = (SHOP_ASSEMBLY_BATCH, batch) \<or> held db' h c = held db h c))"
proof -
  obtain r al n where run: "find_row sar_id i (shop_assembly_requests db) = Some r" "sar_id r = i"
    "checked_allocations db r lines = Inr al" "batch = next_id db"
    "db' = set_shop_request i (batched_request now who batch al)
      (create_reservations (sar_project_id r) (SHOP_ASSEMBLY_BATCH, batch) (batch_needs al) (batch_inserted r who al n db))"
    using assms(1) by (rule create_batch_Inr)
  let ?b = "batch_row r db who al" and ?pull = "batch_pull r db who al"
  have pos: "\<forall>kv \<in> set al. 1 \<le> snd kv"
    using checked_allocations_Inr(4) [OF run(3)] by (auto simp: allocation_ok_def)
  have needs: "positive_qty (batch_needs al) c = allocated al c" for c
    using positive_qty_id [OF batch_needs_pos [OF pos]] by (simp add: qty_of_batch_needs)
  have tables: "shop_assembly_batches db' = shop_assembly_batches db @ [?b]" "pull_requests db' = pull_requests db @ [?pull]"
    using book_frameD [OF create_reservations_frame [of "batch_inserted r who al n db"]]
    by (simp_all add: run(5) batch_inserted_def)
  have items: "qty_of (map (\<lambda>item. ((bi_hardware_category item, bi_product_code item), bi_allocated_quantity item))
      (sb_items ?b)) c = allocated al c" for c
  proof -
    have "map (\<lambda>item. ((bi_hardware_category item, bi_product_code item), bi_allocated_quantity item)) (sb_items ?b) =
        map (\<lambda>kv. (key_product (fst kv), snd kv)) (sort_key fst al)"
      by (simp add: batch_row_def new_batch_def batch_item_def key_product_def comp_def)
    then show ?thesis unfolding allocated_def by (metis (no_types, lifting) map_mset_qty mset_sort)
  qed
  have counts: "held db' (SHOP_ASSEMBLY_BATCH, batch) c = allocated al c"
    "claimed db' (sar_project_id r) c = claimed db (sar_project_id r) c + allocated al c"
    "h = (SHOP_ASSEMBLY_BATCH, batch) \<or> held db' h c = held db h c" for c h
    using create_batch_held [OF run(5)] held_fresh [OF assms(2)] run(4) needs by auto
  show ?thesis
  proof (intro exI conjI allI)
    show "find_row sar_id i (shop_assembly_requests db) = Some r" by (rule run)
    show "?b \<in> set (shop_assembly_batches db')" "?pull \<in> set (pull_requests db')" by (simp_all add: tables)
    show "sb_id ?b = batch" "sb_status ?b = BATCH_ACTIVE" "sb_pull_request_id ?b = Some (pr_id ?pull)"
      "pr_status ?pull = PULL_PENDING" "pr_project_id ?pull = sar_project_id r"
      by (simp_all add: run(4) batch_row_def new_batch_def batch_pull_def new_pull_def)
  qed (use items counts pull_asks_allocated [OF pos, of r db who] in simp_all)
qed

text \<open>
  C16. Batching never over-commits: when the claims of a product were covered by what is on hand, they
  are after any batch, on any project.
\<close>

theorem batch_keeps_claims_covered:
  assumes "create_shop_assembly_batch now i lines who db = Inr (batch, db')"
    and "book_ok db" and "solvent_at db p c"
  shows "solvent_at db' p c"
proof -
  obtain r al n where run: "checked_allocations db r lines = Inr al"
    "gate_on_available_inventory db (sar_project_id r) (batch_needs al) ''shop-assembly batch''
      (Some (batch_number_of r (next_sequence db i))) = Inr ()"
    "db' = set_shop_request i (batched_request now who batch al)
      (create_reservations (sar_project_id r) (SHOP_ASSEMBLY_BATCH, batch) (batch_needs al) (batch_inserted r who al n db))"
    using assms(1) by (rule create_batch_Inr)
  have "\<forall>need \<in> set (batch_needs al). 0 < snd need"
    using checked_allocations_Inr(4) [OF run(1)] by (intro batch_needs_pos) (auto simp: allocation_ok_def)
  then have "solvent_at (create_reservations (sar_project_id r) (SHOP_ASSEMBLY_BATCH, batch) (batch_needs al)
      (batch_inserted r who al n db)) p c"
    by (rule gated_create_solvent [OF assms(2) run(2) _ assms(3)])
      (simp_all add: on_hand_def claimed_def batch_inserted_book)
  then show ?thesis by (simp add: run(3) solvent_at_def on_hand_def claimed_def)
qed

section \<open>Discarding a batch\<close>

definition below :: "nat \<Rightarrow> nat option \<Rightarrow> bool" where
  "below n i = (case i of None \<Rightarrow> True | Some j \<Rightarrow> j < n)"

lemma below_neq: "below n i \<Longrightarrow> n \<le> j \<Longrightarrow> i \<noteq> Some j"
  by (auto simp: below_def)

text \<open>Every id in use has been handed out by the counter.\<close>

definition ids_fresh :: "db \<Rightarrow> bool" where
  "ids_fresh db \<longleftrightarrow>
     list_all (\<lambda>r. below (next_id db) (rs_shop_assembly_batch_id r) \<and> below (next_id db) (rs_shipping_out_request_id r))
       (inventory_reservations db) \<and>
     list_all (\<lambda>pr. pr_id pr < next_id db) (pull_requests db) \<and>
     list_all (\<lambda>b. sb_id b < next_id db) (shop_assembly_batches db) \<and>
     list_all (\<lambda>r. sar_id r < next_id db \<and> list_all (\<lambda>op. below (next_id db) (so_batch_id op)) (sar_openings r))
       (shop_assembly_requests db) \<and>
     list_all (\<lambda>l. pk_pull_request_id l < next_id db) (pull_pick_lines db) \<and>
     list_all (\<lambda>n. below (next_id db) (no_pull_request_id n)) (notifications db)"

lemma fresh_holderI: "ids_fresh db \<Longrightarrow> next_id db \<le> i \<Longrightarrow> fresh_holder db (s, i)"
  by (cases s) (auto simp: ids_fresh_def fresh_holder_def list_all_iff held_by_def source_column_def below_def)

text \<open>A request at rest: pending means unstamped, and only a batched opening names a batch.\<close>

definition request_at_rest :: "shop_assembly_request \<Rightarrow> bool" where
  "request_at_rest r \<longleftrightarrow>
     (sar_status r = SAR_PENDING \<longrightarrow> sar_approved_by r = None \<and> sar_approved_at r = None) \<and>
     list_all (\<lambda>op. so_batch_id op \<noteq> None \<longleftrightarrow> so_status op = OPENING_BATCHED) (sar_openings r)"

lemma add_reservations_rows:
  "\<exists>rows. inventory_reservations (add_reservations p h needs db) = inventory_reservations db @ rows \<and>
     (\<forall>r \<in> set rows. held_by h r)"
proof (induction p h needs db rule: add_reservations.induct)
  case (2 p h c qty rest db)
  obtain rows where "inventory_reservations (add_reservations p h ((c, qty) # rest) db) =
      (inventory_reservations db @ [new_reservation (next_id db) p h c qty]) @ rows \<and> (\<forall>r \<in> set rows. held_by h r)"
    using "2.IH" [OF refl, of "next_id db" "db\<lparr>next_id := Suc (next_id db)\<rparr>"] by (auto simp: fresh_def)
  then show ?case by (intro exI [of _ "new_reservation (next_id db) p h c qty # rows"]) auto
qed simp

lemma create_release_inverse:
  assumes "fresh_holder db h"
  shows "inventory_reservations (snd (release_reservations h (create_reservations p h needs db))) =
    inventory_reservations db"
proof -
  obtain rows where "inventory_reservations (create_reservations p h needs db) = inventory_reservations db @ rows"
    "\<forall>r \<in> set rows. held_by h r"
    using add_reservations_rows unfolding create_reservations_def Let_def by blast
  with assms show ?thesis
    by (auto simp: release_reservations_def delete_rows_def fresh_holder_def list_all_iff filter_empty_conv)
qed

lemma delete_rows_none: "\<forall>x \<in> set xs. \<not> P x \<Longrightarrow> delete_rows P xs = xs"
  and delete_rows_append: "delete_rows P (xs @ ys) = delete_rows P xs @ delete_rows P ys"
  and delete_rows_single: "delete_rows P [x] = (if P x then [] else [x])"
  by (simp_all add: delete_rows_def)

lemma release_batch_opening:
  assumes "so_batch_id op \<noteq> Some b" and "so_batch_id op \<noteq> None \<longleftrightarrow> so_status op = OPENING_BATCHED"
  shows "release_opening b (batch_opening b names op) = op"
  using assms by (cases op) (auto simp: release_opening_def batch_opening_def)

lemma reopen_batched_request:
  assumes "request_at_rest r" and "sar_status r = SAR_PENDING"
    and "list_all (\<lambda>op. so_batch_id op \<noteq> Some b) (sar_openings r)"
  shows "reopen_to_pending (map_openings (release_opening b) (batched_request now who b al r)) =
    r\<lparr>sar_integrity_note := None\<rparr>"
proof -
  let ?mid = "map_openings (batch_opening b (map (fst \<circ> fst) al)) r\<lparr>sar_integrity_note := None\<rparr>"
  have "map (\<lambda>op. release_opening b (batch_opening b names op)) (sar_openings r) = sar_openings r" for names
    using assms(1,3) by (intro map_idI release_batch_opening) (auto simp: request_at_rest_def list_all_iff)
  then have "map_openings (release_opening b) ?mid = r\<lparr>sar_integrity_note := None\<rparr>"
    by (cases r) (simp add: map_openings_def comp_def)
  with assms(1,2) show ?thesis
    by (cases r) (auto simp: batched_request_def close_if_nothing_pending_def reopen_to_pending_def
        map_openings_def request_at_rest_def)
qed

lemma discard_after_create:
  assumes "create_shop_assembly_batch now i lines who db = Inr (batch, db')"
    and "ids_fresh db" and "distinct (map sar_id (shop_assembly_requests db))"
    and "list_all request_at_rest (shop_assembly_requests db)"
  shows "\<exists>db''. discard_shop_assembly_batch batch db' = Inr db'' \<and>
    inventory_reservations db'' = inventory_reservations db \<and> inventory_locations db'' = inventory_locations db \<and>
    pull_requests db'' = pull_requests db \<and> shop_assembly_batches db'' = shop_assembly_batches db \<and>
    pull_pick_lines db'' = pull_pick_lines db \<and> notifications db'' = notifications db \<and>
    shop_assembly_requests db'' =
      update_row sar_id i (\<lambda>r. r\<lparr>sar_integrity_note := None\<rparr>) (shop_assembly_requests db)"
proof -
  obtain r al n where run: "find_row sar_id i (shop_assembly_requests db) = Some r" "sar_id r = i"
    "checked_allocations db r lines = Inr al" "batch = next_id db" "no_type n = PULL_REQUEST_CREATED"
    "no_pull_request_id n = Some (Suc (next_id db))"
    "db' = set_shop_request i (batched_request now who batch al)
      (create_reservations (sar_project_id r) (SHOP_ASSEMBLY_BATCH, batch) (batch_needs al) (batch_inserted r who al n db))"
    using assms(1) by (rule create_batch_Inr)
  let ?b = "batch_row r db who al" and ?pull = "batch_pull r db who al" and ?h = "(SHOP_ASSEMBLY_BATCH, batch)"
  let ?ins = "create_reservations (sar_project_id r) ?h (batch_needs al) (batch_inserted r who al n db)"
  let ?rel = "snd (release_reservations ?h db')"
  let ?open = "set_shop_request i (\<lambda>r. reopen_to_pending (map_openings (release_opening batch) r)) ?rel"
  have ids: "sb_id ?b = batch" "sb_pull_request_id ?b = Some (Suc (next_id db))" "sb_status ?b = BATCH_ACTIVE"
    "sb_shop_assembly_request_id ?b = i" "pr_id ?pull = Suc (next_id db)" "pr_status ?pull = PULL_PENDING"
    by (simp_all add: run(2,4) batch_row_def new_batch_def batch_pull_def new_pull_def)
  note frame = book_frameD [OF create_reservations_frame [of "batch_inserted r who al n db" "sar_project_id r" ?h "batch_needs al"]]
  have tables: "shop_assembly_batches db' = shop_assembly_batches db @ [?b]"
    "pull_requests db' = pull_requests db @ [?pull]" "notifications db' = notifications db @ [n]"
    "pull_pick_lines db' = pull_pick_lines db" "inventory_locations db' = inventory_locations db"
    "shop_assembly_requests db' = update_row sar_id i (batched_request now who batch al) (shop_assembly_requests db)"
    using frame by (simp_all add: run(7) batch_inserted_def) (simp add: set_shop_request_def)
  have rows: "inventory_reservations ?rel = inventory_reservations db"
  proof -
    have "fresh_holder (batch_inserted r who al n db) ?h"
      using fresh_holderI [OF assms(2)] run(4) by (simp add: fresh_holder_def batch_inserted_book)
    then have "inventory_reservations (snd (release_reservations ?h ?ins)) = inventory_reservations db"
      by (simp add: create_release_inverse batch_inserted_book)
    then show ?thesis by (simp add: run(7) release_reservations_def)
  qed
  have rel_tables: "shop_assembly_batches ?rel = shop_assembly_batches db'" "pull_requests ?rel = pull_requests db'"
    "notifications ?rel = notifications db'" "pull_pick_lines ?rel = pull_pick_lines db'"
    "inventory_locations ?rel = inventory_locations db'" "shop_assembly_requests ?rel = shop_assembly_requests db'"
    by (simp_all add: release_reservations_def)
  have fresh: "batch \<notin> sb_id ` set (shop_assembly_batches db)" "Suc (next_id db) \<notin> pr_id ` set (pull_requests db)"
    "\<forall>l \<in> set (pull_pick_lines db). pk_pull_request_id l \<noteq> Suc (next_id db)"
    "\<forall>n \<in> set (notifications db). no_pull_request_id n \<noteq> Some (Suc (next_id db))"
    using assms(2) run(4) by (auto simp: ids_fresh_def list_all_iff below_def)
  have fresh_openings: "list_all (\<lambda>op. so_batch_id op \<noteq> Some batch) (sar_openings r)"
    using assms(2) run(1,4) find_row_Some [OF run(1)] unfolding ids_fresh_def list_all_iff
    by (metis below_neq le_refl)
  have req: "shop_assembly_requests ?open =
      update_row sar_id i (\<lambda>r. r\<lparr>sar_integrity_note := None\<rparr>) (shop_assembly_requests db)"
  proof -
    have "reopen_to_pending (map_openings (release_opening batch) (batched_request now who batch al x)) =
        x\<lparr>sar_integrity_note := None\<rparr>" if "x \<in> set (shop_assembly_requests db)" "sar_id x = i" for x
    proof -
      have "x = r" using that run(1) assms(3) by (metis find_row_eq_Some option.inject)
      then show ?thesis
        using reopen_batched_request [OF _ checked_allocations_Inr(1) [OF run(3)] fresh_openings] assms(4) that(1)
        by (simp add: list_all_iff)
    qed
    moreover have "sar_id (batched_request now who batch al x) = sar_id x" for x
      by (simp add: batched_request_def close_if_nothing_pending_def map_openings_def)
    ultimately show ?thesis
      by (simp add: set_shop_request_def rel_tables tables update_row_def)
  qed
  have find_b: "find_row sb_id batch (shop_assembly_batches db') = Some ?b"
    using fresh(1) ids(1) by (simp add: tables find_row_append table_simps(1) [symmetric])
  have find_p: "find_row pr_id (Suc (next_id db)) (pull_requests ?open) = Some ?pull"
    using fresh(2) ids(5) by (simp add: rel_tables tables find_row_append table_simps(1) [symmetric])
  have find_r: "locked_request db' i = Inr (batched_request now who batch al r)"
    using run(1,2) by (simp add: locked_request_def tables find_row_update batched_request_def
        close_if_nothing_pending_def map_openings_def)
  have batched_id: "sar_id (batched_request now who batch al r) = i"
    using run(2) by (simp add: batched_request_def close_if_nothing_pending_def map_openings_def)
  have open_tables: "shop_assembly_batches ?open = shop_assembly_batches db @ [?b]"
    "pull_requests ?open = pull_requests db @ [?pull]" "notifications ?open = notifications db @ [n]"
    "pull_pick_lines ?open = pull_pick_lines db" "inventory_locations ?open = inventory_locations db"
    "inventory_reservations ?open = inventory_reservations db"
    by (simp_all add: rel_tables tables rows)
  have "discard_shop_assembly_batch batch db' = bindr (discard_pending_pull_request (Some (Suc (next_id db))) ?open)
      (\<lambda>db. Inr (db\<lparr>shop_assembly_batches := delete_rows (\<lambda>b. sb_id b = batch) (shop_assembly_batches db)\<rparr>))"
    by (simp add: discard_shop_assembly_batch_def find_b ids find_r batched_id)
  moreover have "delete_rows (\<lambda>b. sb_id b = batch) (shop_assembly_batches db) = shop_assembly_batches db"
    "delete_rows (\<lambda>pr. pr_id pr = Suc (next_id db)) (pull_requests db) = pull_requests db"
    using fresh(1,2) by (force intro!: delete_rows_none)+
  ultimately show ?thesis
    using find_p ids fresh(3,4) run(5,6)
    by (simp add: discard_pending_pull_request_def withdraw_pull_created_def open_tables req
        delete_rows_append delete_rows_single delete_rows_none del: set_shop_request_frame)
qed

text \<open>
  C17. Discarding a batch nobody has started undoes it: it always succeeds, and puts back the claims,
  the pulls, the batches, the pick lines and the notices exactly as they were, and the request as it
  was but for the note the batch acted on.
\<close>

theorem discard_undoes_batch:
  assumes "create_shop_assembly_batch now i lines who db = Inr (batch, db')"
    and "ids_fresh db" and "distinct (map sar_id (shop_assembly_requests db))"
    and "list_all request_at_rest (shop_assembly_requests db)"
  shows "\<exists>db''. discard_shop_assembly_batch batch db' = Inr db'' \<and>
    inventory_reservations db'' = inventory_reservations db \<and> inventory_locations db'' = inventory_locations db \<and>
    pull_requests db'' = pull_requests db \<and> shop_assembly_batches db'' = shop_assembly_batches db \<and>
    pull_pick_lines db'' = pull_pick_lines db \<and> notifications db'' = notifications db \<and>
    shop_assembly_requests db'' =
      update_row sar_id i (\<lambda>r. r\<lparr>sar_integrity_note := None\<rparr>) (shop_assembly_requests db)"
  using discard_after_create [OF assms] .

definition demo_item :: "string \<Rightarrow> int \<Rightarrow> hardware_item" where
  "demo_item opening q =
     \<lparr>hw_project_id = 1, hw_opening_number = opening, hw_hardware_category = ''Hinges'', hw_product_code = ''BB1279'',
      hw_classification = Some SHOP_HARDWARE, hw_item_quantity = q, hw_beyond_schedule_quantity = 0, hw_unit_cost = None\<rparr>"

definition demo_shop_request :: shop_assembly_request where
  "demo_shop_request = new_shop_request 50 ''23093-001'' 1 ''ann''
     [((''101'', ''Hinges'', ''BB1279''), 3), ((''102'', ''Hinges'', ''BB1279''), 2)]"

definition demo_shop_db :: db where
  "demo_shop_db = demo_db\<lparr>shop_assembly_requests := [demo_shop_request], shop_assembly_batches := [],
     pull_requests := [], hardware_items := [demo_item ''101'' 3, demo_item ''102'' 2],
     inventory_reservations := [new_reservation 41 1 (SHIPPING_OUT_REQUEST, 31) demo_combo 2]\<rparr>"

definition demo_allocation :: "string \<Rightarrow> int \<Rightarrow> shop_line" where
  "demo_allocation opening q =
     \<lparr>ln_opening_number = Some opening, ln_hardware_category = Some ''Hinges'', ln_product_code = Some ''BB1279'',
      ln_requested_quantity = None, ln_quantity = None, ln_allocated_quantity = Some q\<rparr>"

definition demo_batched :: "uuid \<times> db" where
  "demo_batched = value_of (create_shop_assembly_batch 8 50 [demo_allocation ''101'' 3] ''mia'' demo_shop_db)"

lemma demo_batched:
  "create_shop_assembly_batch 8 50 [demo_allocation ''101'' 3] ''mia'' demo_shop_db = Inr (fst demo_batched, snd demo_batched)"
proof -
  have "\<not> raised (create_shop_assembly_batch 8 50 [demo_allocation ''101'' 3] ''mia'' demo_shop_db)" by code_simp
  then show ?thesis unfolding demo_batched_def by (simp add: value_of)
qed

lemma discard_undoes_batch_witness:
  "\<exists>db''. discard_shop_assembly_batch (fst demo_batched) (snd demo_batched) = Inr db'' \<and>
     inventory_reservations db'' = inventory_reservations demo_shop_db \<and>
     shop_assembly_batches db'' = [] \<and> pull_requests db'' = []"
proof -
  have "ids_fresh demo_shop_db" and "distinct (map sar_id (shop_assembly_requests demo_shop_db))"
    and "list_all request_at_rest (shop_assembly_requests demo_shop_db)" by code_simp+
  moreover have "shop_assembly_batches demo_shop_db = []" "pull_requests demo_shop_db = []"
    by (simp_all add: demo_shop_db_def)
  ultimately show ?thesis using discard_undoes_batch [OF demo_batched] by auto
qed

lemma batch_reserves_what_it_pulls_witness:
  "\<exists>b pull. b \<in> set (shop_assembly_batches (snd demo_batched)) \<and> sb_pull_request_id b = Some (pr_id pull) \<and>
     held (snd demo_batched) (SHOP_ASSEMBLY_BATCH, fst demo_batched) demo_combo = dict_get (line_requirements pull) demo_combo"
proof -
  have "fresh_holder demo_shop_db (SHOP_ASSEMBLY_BATCH, next_id demo_shop_db)" by code_simp
  from batch_reserves_what_it_pulls [OF demo_batched this] show ?thesis by blast
qed

lemma batch_keeps_claims_covered_witness: "solvent_at (snd demo_batched) 1 demo_combo"
proof -
  have "book_ok demo_shop_db" and "solvent_at demo_shop_db 1 demo_combo" by code_simp+
  from batch_keeps_claims_covered [OF demo_batched this] show ?thesis .
qed

text \<open>
  The number a discarded batch had is free again: once the batch is discarded the next batch of
  the request computes the very sequence the discarded one carried. (The column's comment says a
  discarded number is spent.)
\<close>

theorem discarded_number_is_reused:
  assumes "create_shop_assembly_batch now i lines who db = Inr (batch, db')"
    and "ids_fresh db" and "distinct (map sar_id (shop_assembly_requests db))"
    and "list_all request_at_rest (shop_assembly_requests db)"
  shows "\<exists>db'' b. discard_shop_assembly_batch batch db' = Inr db'' \<and>
    b \<in> set (shop_assembly_batches db') \<and> sb_id b = batch \<and> sb_sequence b = next_sequence db'' i"
proof -
  obtain db'' where undone: "discard_shop_assembly_batch batch db' = Inr db''"
    "shop_assembly_batches db'' = shop_assembly_batches db"
    using discard_after_create [OF assms] by blast
  obtain r al n where run: "sar_id r = i" "batch = next_id db"
    "db' = set_shop_request i (batched_request now who batch al)
      (create_reservations (sar_project_id r) (SHOP_ASSEMBLY_BATCH, batch) (batch_needs al) (batch_inserted r who al n db))"
    using assms(1) by (rule create_batch_Inr)
  have rows: "shop_assembly_batches db' = shop_assembly_batches db @ [batch_row r db who al]"
    using book_frameD [OF create_reservations_frame [of "batch_inserted r who al n db"]]
    by (simp add: run(3) batch_inserted_def)
  have "sb_id (batch_row r db who al) = batch \<and> sb_sequence (batch_row r db who al) = next_sequence db'' i"
    using undone run(1,2) by (simp add: batch_row_def new_batch_def next_sequence_def batches_of_def)
  then show ?thesis using undone(1) rows by auto
qed

theorem discarded_number_is_reused_witness:
  "\<exists>db'' b. discard_shop_assembly_batch (fst demo_batched) (snd demo_batched) = Inr db'' \<and>
    b \<in> set (shop_assembly_batches (snd demo_batched)) \<and> sb_id b = fst demo_batched \<and>
    sb_sequence b = next_sequence db'' 50"
proof -
  have "ids_fresh demo_shop_db" and "distinct (map sar_id (shop_assembly_requests demo_shop_db))"
    and "list_all request_at_rest (shop_assembly_requests demo_shop_db)" by code_simp+
  then show ?thesis using discarded_number_is_reused [OF demo_batched] by blast
qed

end
