(* ===== verification/CancellingFacts.thy ===== *)
theory CancellingFacts
  imports Cancelling ShopAssemblyFacts
begin

text \<open>
  What cancelling a started pull guarantees: the rows get back what they gave, no claim is left behind
  or stacked, the claims that stand stay covered, and the work is where it can be decided again.
\<close>


section \<open>Units put back on rows\<close>

lemma dict_add_get: "dict_get (dict_add k v d) k' = dict_get d k' + (if k' = k then v else 0)"
  by (rule dict_get_add)

lemma add_units_rows:
  "inventory_locations (add_units i q db) =
     map (\<lambda>il. deduct (if i = il_id il then - q else 0) il) (inventory_locations db)"
  by (auto simp: add_units_def update_row_def deduct_def)

lemma add_units_frame [simp]:
  "inventory_reservations (add_units i q db) = inventory_reservations db"
  "pull_pick_lines (add_units i q db) = pull_pick_lines db"
  "next_id (add_units i q db) = next_id db"
  by (simp_all add: add_units_def)

lemma add_units_on_hand:
  assumes "distinct (map il_id (inventory_locations db))" and "find_row il_id i (inventory_locations db) = Some il"
  shows "on_hand (add_units i q db) p c =
    on_hand db p c + (if il_project_id il = p \<and> il_combo il = c then q else 0)"
proof -
  have eq: "inventory_locations (add_units i q db) = update_row il_id i (deduct (- q)) (inventory_locations db)"
    by (simp add: add_units_def deduct_def [abs_def])
  show ?thesis
    unfolding on_hand_def eq
    by (simp add: sum_update_row [OF assms, where P = "\<lambda>il. il_project_id il = p \<and> il_combo il = c"])
qed

text \<open>All keys at once: every row named takes back what its keys add up to, and no key is left over.\<close>

lemma find_row_deducted:
  "find_row il_id l (map (\<lambda>il. deduct (g il) il) rows) = map_option (\<lambda>il. deduct (g il) il) (find_row il_id l rows)"
  unfolding find_row_def by (induction rows) auto

lemma return_to_rows_all:
  assumes "\<forall>e \<in> set es. find_row il_id (key_location (fst e)) (inventory_locations db) \<noteq> None"
  shows "\<exists>totals db'. return_to_rows pr who reason es orphaned tot db = (orphaned, totals, db') \<and>
    inventory_locations db' = map (\<lambda>il. deduct (- loc_qty es (il_id il)) il) (inventory_locations db) \<and>
    totals = tally_from tot (map (\<lambda>kv. (key_combo (fst kv), snd kv)) es) \<and>
    inventory_reservations db' = inventory_reservations db \<and> pull_pick_lines db' = pull_pick_lines db \<and>
    pull_requests db' = pull_requests db \<and> shop_assembly_batches db' = shop_assembly_batches db \<and>
    shipping_out_requests db' = shipping_out_requests db \<and> shop_assembly_requests db' = shop_assembly_requests db"
  using assms
proof (induction es arbitrary: tot db)
  case (Cons e es)
  obtain row where row: "find_row il_id (key_location (fst e)) (inventory_locations db) = Some row"
    using Cons.prems by auto
  have id: "il_id row = key_location (fst e)" using row by (auto dest: find_row_Some)
  define mid where "mid = log_audit_event (Some (pr_project_id pr)) INVENTORY_LOCATION (il_id row) PULL_RESTOCK who
    (restock_audit pr (key_combo (fst e)) (snd e) (il_quantity row + snd e)
      [(''aisle'', opt_str (il_aisle row)), (''row'', opt_str (il_row row)),
       (''bay'', opt_str (il_bay row)), (''returnedToSourceRow'', JBool True)] reason)
    (add_units (il_id row) (snd e) db)"
  have mid_rows: "inventory_locations mid =
      map (\<lambda>il. deduct (if key_location (fst e) = il_id il then - snd e else 0) il) (inventory_locations db)"
    by (simp add: mid_def log_audit_event_def add_units_rows id)
  have mid_frame: "inventory_reservations mid = inventory_reservations db" "pull_pick_lines mid = pull_pick_lines db"
    "pull_requests mid = pull_requests db" "shop_assembly_batches mid = shop_assembly_batches db"
    "shipping_out_requests mid = shipping_out_requests db" "shop_assembly_requests mid = shop_assembly_requests db"
    by (simp_all add: mid_def log_audit_event_def add_units_def)
  have step: "return_to_rows pr who reason (e # es) orphaned tot db =
      return_to_rows pr who reason es orphaned (dict_add (key_combo (fst e)) (snd e) tot) mid"
    using row by (cases e) (simp add: mid_def)
  have "\<forall>e \<in> set es. find_row il_id (key_location (fst e)) (inventory_locations mid) \<noteq> None"
    using Cons.prems by (simp add: mid_rows find_row_deducted)
  moreover have "- snd e - n = - n - snd e" for n by simp
  ultimately show ?case
    using Cons.IH [of mid "dict_add (key_combo (fst e)) (snd e) tot"] unfolding step
    by (auto simp: mid_rows mid_frame)
qed simp

text \<open>What a pull has applied to a row.\<close>

definition applied_to :: "db \<Rightarrow> uuid \<Rightarrow> uuid \<Rightarrow> int" where
  "applied_to db i loc = sum_list (map pk_quantity
     (filter (\<lambda>l. pk_inventory_location_id l = Some loc) (applied_lines db i)))"

lemma loc_qty_lines_by_row:
  "loc_qty (lines_by_row ls) loc =
     sum_list (map pk_quantity (filter (\<lambda>l. pk_inventory_location_id l = Some loc) ls))"
  unfolding loc_qty_regroup lines_by_row_def regroup_tally
  by (induction ls) (auto simp: regroup_def List.map_filter_simps line_key_at_def key_location_def split: option.split)

lemma keys_lines_by_row:
  "key_location ` fst ` set (lines_by_row ls) = {loc. \<exists>l \<in> set ls. pk_inventory_location_id l = Some loc}"
  unfolding lines_by_row_def keys_tally set_map_filter
  by (force simp: line_key_at_def key_location_def image_iff)

text \<open>The exact-row case: every applied line still has its row.\<close>

definition rows_known :: "db \<Rightarrow> uuid \<Rightarrow> bool" where
  "rows_known db i \<longleftrightarrow> list_all (\<lambda>l. case pk_inventory_location_id l of None \<Rightarrow> False
     | Some loc \<Rightarrow> loc \<in> il_id ` set (inventory_locations db)) (applied_lines db i)"

lemma restock_exact:
  assumes "rows_known db (pr_id pr)" and "applied_lines db (pr_id pr) \<noteq> [] \<or> pr_picked_at pr = None \<or> needs = []"
    and "restock_cancelled_pull now pr needs who reason db = Inr (restocked, db')"
  shows "inventory_locations db' = map (\<lambda>il. deduct (- applied_to db (pr_id pr) (il_id il)) il) (inventory_locations db) \<and>
    inventory_reservations db' = inventory_reservations db \<and> pull_pick_lines db' = pull_pick_lines db \<and>
    pull_requests db' = pull_requests db \<and> shop_assembly_batches db' = shop_assembly_batches db \<and>
    shipping_out_requests db' = shipping_out_requests db \<and> shop_assembly_requests db' = shop_assembly_requests db"
proof (cases "applied_lines db (pr_id pr) = []")
  case True
  then have "db' = db" using assms(2,3) by (auto simp: restock_cancelled_pull_def Let_def split: if_splits)
  moreover have "applied_to db (pr_id pr) loc = 0" for loc
    using True by (simp add: applied_to_def)
  ultimately show ?thesis by (simp add: map_idI)
next
  case False
  let ?ls = "applied_lines db (pr_id pr)"
  have orphans: "orphaned_lines ?ls = []"
    using assms(1) by (auto simp: orphaned_lines_def rows_known_def list_all_iff filter_empty_conv split: option.splits)
  have "\<forall>e \<in> set (sort_key fst (lines_by_row ?ls)). find_row il_id (key_location (fst e)) (inventory_locations db) \<noteq> None"
  proof
    fix e assume "e \<in> set (sort_key fst (lines_by_row ?ls))"
    then have "key_location (fst e) \<in> {loc. \<exists>l \<in> set ?ls. pk_inventory_location_id l = Some loc}"
      using keys_lines_by_row [of ?ls] by auto
    then show "find_row il_id (key_location (fst e)) (inventory_locations db) \<noteq> None"
      using assms(1) by (auto simp: rows_known_def list_all_iff find_row_None split: option.splits)
  qed
  from return_to_rows_all [OF this, of pr who reason "[]" "[]"] obtain totals mid where
    mid: "return_to_rows pr who reason (sort_key fst (lines_by_row ?ls)) [] [] db = ([], totals, mid)"
      "inventory_locations mid = map (\<lambda>il. deduct (- loc_qty (sort_key fst (lines_by_row ?ls)) (il_id il)) il) (inventory_locations db)"
      "inventory_reservations mid = inventory_reservations db" "pull_pick_lines mid = pull_pick_lines db"
      "pull_requests mid = pull_requests db" "shop_assembly_batches mid = shop_assembly_batches db"
      "shipping_out_requests mid = shipping_out_requests db" "shop_assembly_requests mid = shop_assembly_requests db"
    by blast
  have "db' = mid"
    using assms(3) False by (simp add: restock_cancelled_pull_def Let_def orphans mid(1))
  then show ?thesis
    using mid(2-) by (simp add: loc_qty_lines_by_row applied_to_def)
qed

section \<open>Inverting a cancellation\<close>

lemma cancel_pull_request_Inr:
  assumes "cancel_pull_request now i who reason db = Inr (res, db')"
  obtains pr reason' restocked mid rt out n where "find_row pr_id i (pull_requests db) = Some pr" and "pr_id pr = i"
    and "pr_status pr = PULL_IN_PROGRESS" and "pr_deleted_at pr = None"
    and "restock_cancelled_pull now pr (line_requirements pr) who reason' db = Inr (restocked, mid)"
    and "hand_back pr (line_requirements pr) (close_cancelled now pr who reason' mid) = Inr (rt, out)"
    and "cr_reservations_recreated res = rt_reservations_recreated rt"
    and "cr_source_request_returned_to_pending res = rt_returned_to_pending rt"
    and "cr_integrity_note res = rt_integrity_note rt" and "cr_restocked res = restocked"
    and "same_tables out db'" and "notifications db' = notifications out @ [n]"
proof -
  define reason' where "reason' = strip_or_none reason"
  obtain pr restocked mid rt out where run: "cancellable_pull db i = Inr pr"
    "restock_cancelled_pull now pr (line_requirements pr) who reason' db = Inr (restocked, mid)"
    "hand_back pr (line_requirements pr) (close_cancelled now pr who reason' mid) = Inr (rt, out)"
    "create_notification now (pr_project_id pr) (Some (pull_audience (pr_source pr))) PULL_REQUEST_CANCELLED
       (Some (pr_id pr)) None None
       (log_audit_event (Some (pr_project_id pr)) PULL_REQUEST (pr_id pr) PULL_CANCELLED_ACTION who
          (cancel_audit now pr reason' restocked (find_source_request (close_cancelled now pr who reason' mid) pr) rt) out) = Inr db'"
    "res = \<lparr>cr_restocked = restocked, cr_source_request_returned_to_pending = rt_returned_to_pending rt,
       cr_reservations_recreated = rt_reservations_recreated rt, cr_integrity_note = rt_integrity_note rt\<rparr>"
    using assms unfolding cancel_pull_request_def Let_def reason'_def [symmetric] ensure_eq_Inr bindr_eq_Inr
    by auto
  have pr: "find_row pr_id i (pull_requests db) = Some pr" "pr_deleted_at pr = None" "pr_status pr = PULL_IN_PROGRESS"
    using run(1) by (cases "pr_status pr"; simp add: cancellable_pull_def result_simps)+
  have "same_tables out db'"
    using create_notification_Inr [OF run(4)] same_tables_trans [OF log_audit_event_frame(1)] by blast
  moreover obtain n where "notifications db' = notifications out @ [n]"
    using create_notification_Inr [OF run(4)] by auto
  ultimately show thesis
    using that [OF pr(1) _ pr(3,2) run(2,3)] run(5) find_row_Some [OF pr(1)] by simp
qed

lemma close_cancelled_rows [simp]:
  "inventory_locations (close_cancelled now pr who reason db) = inventory_locations db"
  "shipping_out_requests (close_cancelled now pr who reason db) = shipping_out_requests db"
  "shop_assembly_requests (close_cancelled now pr who reason db) = shop_assembly_requests db"
  "shop_assembly_batches (close_cancelled now pr who reason db) = shop_assembly_batches db"
  by (simp_all add: close_cancelled_def Let_def drop_drafts_def release_reservations_def set_pull_def split: option.split)

lemma set_shipping_request_frame [simp]:
  "inventory_locations (set_shipping_request i f db) = inventory_locations db"
  "inventory_reservations (set_shipping_request i f db) = inventory_reservations db"
  "pull_requests (set_shipping_request i f db) = pull_requests db"
  "pull_pick_lines (set_shipping_request i f db) = pull_pick_lines db"
  "shop_assembly_batches (set_shipping_request i f db) = shop_assembly_batches db"
  "shop_assembly_requests (set_shipping_request i f db) = shop_assembly_requests db"
  "notifications (set_shipping_request i f db) = notifications db"
  "next_id (set_shipping_request i f db) = next_id db"
  by (simp_all add: set_shipping_request_def)

lemma return_batch_frame:
  assumes "return_batch_to_pending b db = Inr (returned, db')"
  shows "inventory_locations db' = inventory_locations db" and "inventory_reservations db' = inventory_reservations db"
    and "pull_requests db' = pull_requests db" and "pull_pick_lines db' = pull_pick_lines db"
    and "shipping_out_requests db' = shipping_out_requests db" and "notifications db' = notifications db"
  using assms by (auto simp: return_batch_to_pending_def Let_def result_simps set_shop_request_def split: if_splits)

lemma hand_back_rows:
  assumes "hand_back pr needs db = Inr (rt, out)"
  shows "inventory_locations out = inventory_locations db"
  using assms book_frameD [OF create_reservations_frame]
  by (auto simp: hand_back_def Let_def result_simps return_shipping_request_to_pending_def
      dest: return_batch_frame split: pull_origin.splits if_splits prod.splits)

section \<open>Properties of a cancellation\<close>

lemma entry_ok_known: "entry_ok p rows e \<Longrightarrow> key_location (fst e) \<in> il_id ` set rows"
  unfolding entry_ok_def by (metis find_row_None option.distinct(1))

lemma no_requirements:
  assumes "\<forall>c. dict_get (line_requirements pr) c \<le> 0"
  shows "line_requirements pr = []"
proof (rule ccontr)
  let ?lines = "map (\<lambda>item. (pi_combo item, pi_requested_quantity item)) (filter (\<lambda>item. 0 < pi_requested_quantity item) (pr_items pr))"
  assume "line_requirements pr \<noteq> []"
  then have "?lines \<noteq> []" by (simp only: line_requirements_def tally_eq_Nil) simp
  then obtain kv where "kv \<in> set ?lines" using last_in_set by blast
  then obtain c where "c \<in> fst ` set ?lines" by blast
  then have "0 < qty_of ?lines c" by (intro qty_of_pos) auto
  then show False using spec [OF assms, of c] by (simp add: line_requirements_def tally_simps)
qed

lemma settled_lines: "settle_pick now pr es who db = Inr (r, db') \<Longrightarrow>
    applied_lines db' i = applied_lines (swap_claim_for_rows now pr who (find_reservation_holder db pr) es db) i"
  using settle_pick_stock(3) by (simp add: applied_lines_def pick_lines_def)

lemma settled_pull:
  assumes "settle_pick now pr es who db = Inr (r, db')" and "find_row pr_id (pr_id pr) (pull_requests db) = Some pr"
  shows "find_row pr_id (pr_id pr) (pull_requests db') =
    Some (if short_of db pr es = [] then pr\<lparr>pr_picked_at := Some now, pr_picked_by := Some who\<rparr> else pr)"
proof (cases "short_of db pr es = []")
  case True
  then show ?thesis using settle_pick_cases(2) [OF assms(1)] assms(2)
    by (simp add: set_pull_def find_row_update swap_frame)
next
  case False
  then have "pull_requests db' = pull_requests db"
    using report_short_frame [OF settle_pick_cases(3) [OF assms(1) False]] by (simp add: same_tables_def swap_frame)
  with False show ?thesis using assms(2) by simp
qed

lemma nothing_short_of_nothing:
  assumes "short_of db pr [] = []" and "applied_lines db (pr_id pr) = []"
  shows "line_requirements pr = []"
proof -
  have units: "units_in db (pr_id pr) APPLIED c \<le> 0" for c
    unfolding units_in_def using assms(2)
    by (intro sum_list_nonpos) (auto simp: applied_lines_def pick_lines_def filter_empty_conv)
  have "dict_get (line_requirements pr) (fst need) \<le> units_in db (pr_id pr) APPLIED (fst need)"
    if "need \<in> set (line_requirements pr)" for need
    using assms(1) that by (auto simp: short_of_def covered_by_def filter_empty_conv not_less)
  then have "\<forall>c \<in> fst ` set (line_requirements pr). dict_get (line_requirements pr) c \<le> 0"
    using units order_trans by blast
  then have "\<forall>c. dict_get (line_requirements pr) c \<le> 0" using keys_requirements by (metis order_refl)
  then show ?thesis by (rule no_requirements)
qed

text \<open>A round of picking, and the shelf with what a pull has taken put back.\<close>

definition picks :: "uuid \<Rightarrow> db \<Rightarrow> db \<Rightarrow> bool" where
  "picks i db db' \<longleftrightarrow> (\<exists>now lines who r. confirm_pick now i lines who db = Inr (r, db'))"

definition put_back :: "db \<Rightarrow> uuid \<Rightarrow> inventory_location list" where
  "put_back db i = map (\<lambda>il. il\<lparr>il_quantity := il_quantity il + applied_to db i (il_id il)\<rparr>) (inventory_locations db)"

text \<open>A pull that was picked has lines to show for it, unless it asks for nothing.\<close>

definition picked_by_lines :: "db \<Rightarrow> uuid \<Rightarrow> bool" where
  "picked_by_lines db i \<longleftrightarrow> (\<forall>pr. find_row pr_id i (pull_requests db) = Some pr \<longrightarrow>
     applied_lines db i \<noteq> [] \<or> pr_picked_at pr = None \<or> line_requirements pr = [])"

lemma applied_lines_grow:
  assumes "confirmed db pr es" and "settle_pick now pr es who db = Inr (r, db')"
  shows "\<exists>news. applied_lines db' (pr_id pr) = applied_lines db (pr_id pr) @ news \<and> list_all2 (recorded (pr_id pr)) news (sort_key fst es)"
proof -
  obtain news where news: "pick_lines db' (pr_id pr) (Some APPLIED) = pick_lines db (pr_id pr) (Some APPLIED) @ news"
    "list_all2 (recorded (pr_id pr)) news (sort_key fst es)" using settled_lines_recorded [OF assms] by blast
  have "0 < pk_quantity l" if l: "l \<in> set news" for l
  proof -
    obtain e where "e \<in> set (sort_key fst es)" "recorded (pr_id pr) l e" using list_all2_partner [OF news(2) l] by blast
    then show ?thesis using assms(1) by (auto simp: recorded_def confirmed_def entries_wf_def)
  qed
  then show ?thesis using news by (auto simp: applied_lines_def)
qed

lemma recorded_loc:
  "list_all2 (recorded i) ls es \<Longrightarrow>
   sum_list (map pk_quantity (filter (\<lambda>l. pk_inventory_location_id l = Some loc) ls)) = loc_qty es loc"
  by (induction rule: list_all2_induct) (auto simp: recorded_def)

lemma recorded_known:
  "list_all2 (recorded i) ls es \<Longrightarrow> \<forall>e \<in> set es. entry_ok p rows e \<Longrightarrow>
   list_all (\<lambda>l. case pk_inventory_location_id l of None \<Rightarrow> False | Some loc \<Rightarrow> loc \<in> il_id ` set rows) ls"
  by (induction rule: list_all2_induct) (auto simp: recorded_def dest: entry_ok_known)

lemma round_puts_back:
  assumes "picks i db db'" and "rows_known db i" and "picked_by_lines db i"
  shows "put_back db' i = put_back db i \<and> rows_known db' i \<and> picked_by_lines db' i"
proof -
  obtain now lines who r where "confirm_pick now i lines who db = Inr (r, db')" using assms(1) by (auto simp: picks_def)
  then obtain pr es where es: "confirmed db pr es" "pr_id pr = i" "settle_pick now pr es who db = Inr (r, db')"
    by (rule confirm_pick_Inr)
  obtain news where news: "applied_lines db' i = applied_lines db i @ news" "list_all2 (recorded i) news (sort_key fst es)"
    using applied_lines_grow [OF es(1,3)] unfolding es(2) by blast
  have rows: "inventory_locations db' = map (\<lambda>il. deduct (loc_qty es (il_id il)) il) (inventory_locations db)"
    using settle_pick_stock(1) [OF es(3)] by (simp add: swap_rows)
  have applied: "applied_to db' i loc = applied_to db i loc + loc_qty es loc" for loc
    using recorded_loc [OF news(2), of loc] by (simp add: applied_to_def news(1))
  have "put_back db' i = put_back db i" unfolding put_back_def rows by (simp add: applied deduct_def)
  moreover have "\<forall>e \<in> set (sort_key fst es). entry_ok (pr_project_id pr) (inventory_locations db) e"
    using es(1) by (simp add: confirmed_def)
  from recorded_known [OF news(2) this] have "rows_known db' i"
    using assms(2) by (simp add: rows_known_def news(1) rows image_image deduct_def cong: option.case_cong)
  moreover have "picked_by_lines db' i"
  proof (cases "applied_lines db' i = []")
    case True
    then have none: "applied_lines db i = []" "es = []" using news arg_cong [OF length_sort [of fst es], of "\<lambda>n. n = 0"] by auto
    have pr: "find_row pr_id i (pull_requests db') =
        Some (if short_of db pr es = [] then pr\<lparr>pr_picked_at := Some now, pr_picked_by := Some who\<rparr> else pr)"
      using settled_pull [OF es(3)] confirmed_pr [OF es(1)] es(2) by simp
    have "line_requirements pr = []" if "short_of db pr es = []"
      using nothing_short_of_nothing [of db pr] none es(2) that by simp
    then show ?thesis using pr confirmed_pr [OF es(1)] by (auto simp: picked_by_lines_def line_requirements_def split: if_splits)
  qed (simp add: picked_by_lines_def)
  ultimately show ?thesis by blast
qed

lemma rounds_put_back:
  assumes "(picks i)\<^sup>*\<^sup>* db db'" and "rows_known db i" and "picked_by_lines db i"
  shows "put_back db' i = put_back db i \<and> rows_known db' i \<and> picked_by_lines db' i"
  using assms by (induction rule: rtranclp_induct) (use round_puts_back in auto)

text \<open>
  C12. Cancelling a pull puts back on every row exactly what the pull took off it: whatever lines it has applied already,
  however many rounds of picking follow, in full or short, several lines on one row or one line on several, after the
  cancel every inventory row holds what it held before those rounds and the units the earlier lines took off it, and
  nothing else of it has changed. The rows of the earlier lines are still there, and a pull stamped picked has lines.
\<close>

theorem cancel_restores_picked_rows:
  assumes "rows_known db i" and "picked_by_lines db i" and "(picks i)\<^sup>*\<^sup>* db db1"
    and "cancel_pull_request now i who reason db1 = Inr (res, db2)"
  shows "inventory_locations db2 =
    map (\<lambda>il. il\<lparr>il_quantity := il_quantity il + applied_to db i (il_id il)\<rparr>) (inventory_locations db)"
proof -
  obtain pr reason' restocked mid rt out where cancel: "find_row pr_id i (pull_requests db1) = Some pr" "pr_id pr = i"
    "restock_cancelled_pull now pr (line_requirements pr) who reason' db1 = Inr (restocked, mid)"
    "hand_back pr (line_requirements pr) (close_cancelled now pr who reason' mid) = Inr (rt, out)"
    "same_tables out db2"
    using assms(4) by (rule cancel_pull_request_Inr)
  note rounds = rounds_put_back [OF assms(3,1,2)]
  have "applied_lines db1 (pr_id pr) \<noteq> [] \<or> pr_picked_at pr = None \<or> line_requirements pr = []"
    using rounds cancel(1,2) by (auto simp: picked_by_lines_def)
  from restock_exact [OF _ this cancel(3)] rounds cancel(2)
  have "inventory_locations mid = put_back db1 i" by (simp add: put_back_def deduct_def)
  then have "inventory_locations db2 = put_back db i"
    using hand_back_rows [OF cancel(4)] cancel(5) rounds by (simp add: same_tables_def same_stock_def)
  then show ?thesis by (simp add: put_back_def)
qed

text \<open>Three units off one row in two rounds, then the cancel.\<close>

definition demo_round1 :: "confirm_pick_result \<times> db" where
  "demo_round1 = value_of (confirm_pick 7 20 [demo_line 10 2] ''bob'' demo_db)"

definition demo_round2 :: "confirm_pick_result \<times> db" where
  "demo_round2 = value_of (confirm_pick 8 20 [demo_line 10 1] ''bob'' (snd demo_round1))"

definition demo_undone :: "cancel_result \<times> db" where
  "demo_undone = value_of (cancel_pull_request 9 20 ''eve'' None (snd demo_round2))"

lemma demo_rounds:
  "confirm_pick 7 20 [demo_line 10 2] ''bob'' demo_db = Inr (fst demo_round1, snd demo_round1)"
  "confirm_pick 8 20 [demo_line 10 1] ''bob'' (snd demo_round1) = Inr (fst demo_round2, snd demo_round2)"
  "cancel_pull_request 9 20 ''eve'' None (snd demo_round2) = Inr (fst demo_undone, snd demo_undone)"
proof -
  have "\<not> raised (confirm_pick 7 20 [demo_line 10 2] ''bob'' demo_db)"
    "\<not> raised (confirm_pick 8 20 [demo_line 10 1] ''bob'' (snd demo_round1))"
    "\<not> raised (cancel_pull_request 9 20 ''eve'' None (snd demo_round2))" by code_simp+
  then show "confirm_pick 7 20 [demo_line 10 2] ''bob'' demo_db = Inr (fst demo_round1, snd demo_round1)"
    "confirm_pick 8 20 [demo_line 10 1] ''bob'' (snd demo_round1) = Inr (fst demo_round2, snd demo_round2)"
    "cancel_pull_request 9 20 ''eve'' None (snd demo_round2) = Inr (fst demo_undone, snd demo_undone)"
    unfolding demo_round1_def demo_round2_def demo_undone_def by (simp_all add: value_of)
qed

lemma cancel_restores_picked_rows_witness:
  "map il_quantity (inventory_locations (snd demo_undone)) = map il_quantity (inventory_locations demo_db) \<and>
   map il_quantity (inventory_locations (snd demo_undone)) =
     map (\<lambda>il. il_quantity il + applied_to (snd demo_round1) 20 (il_id il)) (inventory_locations (snd demo_round1)) \<and>
   applied_to (snd demo_round1) 20 10 = 2"
proof -
  have known: "rows_known demo_db 20" "rows_known (snd demo_round1) 20" by code_simp+
  have lines: "picked_by_lines demo_db 20" "picked_by_lines (snd demo_round1) 20"
  proof -
    have "find_row pr_id 20 (pull_requests demo_db) = Some demo_pull" "pr_picked_at demo_pull = None"
      "applied_lines (snd demo_round1) 20 \<noteq> []" by code_simp+
    then show "picked_by_lines demo_db 20" "picked_by_lines (snd demo_round1) 20" by (simp_all add: picked_by_lines_def)
  qed
  have two: "picks 20 (snd demo_round1) (snd demo_round2)" and one: "picks 20 demo_db (snd demo_round1)"
    unfolding picks_def using demo_rounds(1,2) by blast+
  have "(picks 20)\<^sup>*\<^sup>* demo_db (snd demo_round2)" using one two by (meson converse_rtranclp_into_rtranclp r_into_rtranclp)
  note first = cancel_restores_picked_rows [OF known(1) lines(1) this demo_rounds(3)]
  note second = cancel_restores_picked_rows [OF known(2) lines(2) r_into_rtranclp [where r = "picks 20", OF two] demo_rounds(3)]
  have "map il_quantity (inventory_locations (snd demo_undone)) =
      map (\<lambda>il. il_quantity il + applied_to demo_db 20 (il_id il)) (inventory_locations demo_db)"
    "map il_quantity (inventory_locations (snd demo_undone)) =
      map (\<lambda>il. il_quantity il + applied_to (snd demo_round1) 20 (il_id il)) (inventory_locations (snd demo_round1))"
    using arg_cong [OF first, of "map il_quantity"] arg_cong [OF second, of "map il_quantity"] by (simp_all add: comp_def)
  moreover have "applied_lines demo_db 20 = []" "applied_to (snd demo_round1) 20 10 = 2" by code_simp+
  ultimately show ?thesis by (simp add: applied_to_def)
qed

definition demo_cancelled :: "cancel_result \<times> db" where
  "demo_cancelled = value_of (cancel_pull_request 9 20 ''eve'' None (snd demo_short_pick))"

lemma demo_cancelled:
  "cancel_pull_request 9 20 ''eve'' None (snd demo_short_pick) = Inr (fst demo_cancelled, snd demo_cancelled)"
proof -
  have "\<not> raised (cancel_pull_request 9 20 ''eve'' None (snd demo_short_pick))" by code_simp
  then show ?thesis unfolding demo_cancelled_def by (simp add: value_of)
qed

lemma line_requirements_pos: "\<forall>need \<in> set (line_requirements pr). 0 < snd need"
proof
  let ?lines = "map (\<lambda>item. (pi_combo item, pi_requested_quantity item)) (filter (\<lambda>item. 0 < pi_requested_quantity item) (pr_items pr))"
  fix need assume "need \<in> set (line_requirements pr)"
  then have "(fst need, snd need) \<in> set (tally ?lines)" by (simp add: line_requirements_def)
  then have need: "fst need \<in> fst ` set ?lines" "snd need = qty_of ?lines (fst need)"
    unfolding tally_mem by blast+
  show "0 < snd need" unfolding need(2) using need(1) by (intro qty_of_pos) auto
qed

lemma distinct_requirements [simp]: "distinct (map fst (line_requirements pr))"
  by (simp add: line_requirements_def)

lemma positive_requirements: "positive_qty (line_requirements pr) c = dict_get (line_requirements pr) c"
  using positive_qty_id [OF line_requirements_pos] by (simp add: dict_get_distinct)

text \<open>Putting units back never touches the book, nor the requests.\<close>

lemma return_units_frame:
  assumes "return_units_to_project_inventory now p c q db = Inr landed"
  shows "inventory_reservations (snd landed) = inventory_reservations db \<and>
    shop_assembly_batches (snd landed) = shop_assembly_batches db \<and>
    shop_assembly_requests (snd landed) = shop_assembly_requests db \<and>
    shipping_out_requests (snd landed) = shipping_out_requests db \<and> pull_requests (snd landed) = pull_requests db"
  using assms
  by (auto simp: return_units_to_project_inventory_def find_or_create_stock_row_def fresh_def Let_def add_units_def
      bindr_eq_Inr split: option.splits)

lemma return_units_on_hand:
  assumes "return_units_to_project_inventory now p c q db = Inr landed" and "0 \<le> q"
  shows "on_hand db p' c' \<le> on_hand (snd landed) p' c'"
proof -
  have add: "on_hand db p' c' \<le> on_hand (add_units i q db) p' c'" for i db
  proof -
    have "sum_list (map il_free (filter P rows)) \<le>
        sum_list (map il_free (filter P (map (\<lambda>il. deduct (if i = il_id il then - q else 0) il) rows)))"
      if "\<And>il n. P (deduct n il) = P il" for P rows
      using assms(2) by (induction rows) (auto simp: that)
    then show ?thesis by (simp add: on_hand_def add_units_rows)
  qed
  show ?thesis
  proof (cases "newest il_received_at (filter (\<lambda>il. il_project_id il = p \<and> il_combo il = c) (inventory_locations db))")
    case (Some il)
    then show ?thesis using assms(1) add by (auto simp: return_units_to_project_inventory_def)
  next
    case None
    obtain w k where "let mid = snd (find_or_create_stock_row now k db);
        stock = fst (find_or_create_stock_row now k db) in
      snd landed = add_units (next_id mid) q (mid\<lparr>next_id := Suc (next_id mid), inventory_locations :=
        inventory_locations mid @ [restored_row (next_id mid) now p c w (st_id stock)
          (fst (resolve_project_combo_price db p c)) (snd (resolve_project_combo_price db p c))]\<rparr>)"
      using assms(1) None
      by (auto simp: return_units_to_project_inventory_def fresh_def Let_def bindr_eq_Inr split_beta)
    then obtain mid i row where out: "snd landed = add_units i q (mid\<lparr>next_id := Suc (next_id mid), inventory_locations :=
        inventory_locations mid @ [row]\<rparr>)" and row: "il_free row = 0" and mid: "mid = snd (find_or_create_stock_row now k db)"
      by (force simp: Let_def restored_row_def il_free_def)
    have "on_hand mid p' c' = on_hand db p' c'"
      by (simp add: mid find_or_create_stock_row_def fresh_def Let_def on_hand_def split: option.split)
    then have "on_hand (mid\<lparr>next_id := Suc (next_id mid), inventory_locations := inventory_locations mid @ [row]\<rparr>) p' c' =
        on_hand db p' c'"
      using row by (simp add: on_hand_def)
    then show ?thesis unfolding out using add by metis
  qed
qed

text \<open>Every restock step leaves the book and the requests alone and only adds to the shelves.\<close>

definition restocked_from :: "db \<Rightarrow> db \<Rightarrow> bool" where
  "restocked_from a b \<longleftrightarrow> inventory_reservations b = inventory_reservations a \<and>
     shop_assembly_batches b = shop_assembly_batches a \<and> shop_assembly_requests b = shop_assembly_requests a \<and>
     shipping_out_requests b = shipping_out_requests a \<and> pull_requests b = pull_requests a \<and>
     (\<forall>p c. on_hand a p c \<le> on_hand b p c)"

lemma restocked_from_refl [simp]: "restocked_from a a"
  by (simp add: restocked_from_def)

lemma restocked_from_trans: "restocked_from a b \<Longrightarrow> restocked_from b c \<Longrightarrow> restocked_from a c"
  unfolding restocked_from_def by (metis order_trans)

lemma restocked_log [simp]: "restocked_from a (log_audit_event p ty i act who d b) = restocked_from a b"
  by (simp add: restocked_from_def log_audit_event_def on_hand_def)

lemma restocked_return:
  "return_units_to_project_inventory now p c q db = Inr landed \<Longrightarrow> 0 \<le> q \<Longrightarrow> restocked_from db (snd landed)"
  using return_units_frame return_units_on_hand unfolding restocked_from_def by blast

lemma restocked_add: "0 \<le> q \<Longrightarrow> restocked_from db (add_units i q db)"
proof -
  assume q: "0 \<le> q"
  have "sum_list (map il_free (filter P rows)) \<le>
      sum_list (map il_free (filter P (map (\<lambda>il. deduct (if i = il_id il then - q else 0) il) rows)))"
    if "\<And>il n. P (deduct n il) = P il" for P rows
    using q by (induction rows) (auto simp: that)
  then have "on_hand db p c \<le> on_hand (add_units i q db) p c" for p c
    by (simp add: on_hand_def add_units_rows)
  then show ?thesis by (simp add: restocked_from_def) (simp add: add_units_def)
qed

lemma return_all_restocks:
  assumes "return_all now pr who reason from_where needs db = Inr db'" and "\<forall>need \<in> set needs. 0 \<le> snd need"
  shows "restocked_from db db'"
  using assms
proof (induction needs arbitrary: db)
  case (Cons need needs)
  obtain landed where "return_units_to_project_inventory now (pr_project_id pr) (fst need) (snd need) db = Inr landed"
    and rest: "return_all now pr who reason from_where needs
      (log_audit_event (Some (pr_project_id pr)) INVENTORY_LOCATION (fst landed) PULL_RESTOCK who
        (restock_audit pr (fst need) (snd need) (quantity_at (snd landed) (fst landed)) from_where reason) (snd landed)) = Inr db'"
    using Cons.prems(1) by (cases need) (simp only: return_all.simps bindr_eq_Inr fst_conv snd_conv, blast)
  then have "restocked_from db (log_audit_event (Some (pr_project_id pr)) INVENTORY_LOCATION (fst landed) PULL_RESTOCK who
      (restock_audit pr (fst need) (snd need) (quantity_at (snd landed) (fst landed)) from_where reason) (snd landed))"
    using restocked_return Cons.prems(2) by simp
  moreover note Cons.IH [OF rest]
  ultimately show ?case using restocked_from_trans Cons.prems(2) by (meson list.set_intros(2))
qed simp

lemma nonneg_dict_add: "\<forall>kv \<in> set d. 0 \<le> snd kv \<Longrightarrow> 0 \<le> v \<Longrightarrow> \<forall>kv \<in> set (dict_add k v d). 0 \<le> snd kv"
  using set_dict_add [of k v d] dict_get_nonneg [of d k] by fastforce

lemma return_to_rows_restocks:
  assumes "\<forall>e \<in> set es. 0 \<le> snd e" and "\<forall>kv \<in> set orphaned. 0 \<le> snd kv"
    and "return_to_rows pr who reason es orphaned tot db = (orphaned', tot', db')"
  shows "restocked_from db db' \<and> (\<forall>kv \<in> set orphaned'. 0 \<le> snd kv)"
  using assms
proof (induction es arbitrary: orphaned tot db)
  case (Cons e es)
  show ?case
  proof (cases "find_row il_id (key_location (fst e)) (inventory_locations db)")
    case None
    then show ?thesis
      using Cons.prems Cons.IH [of "dict_add (key_combo (fst e)) (snd e) orphaned" tot db]
        nonneg_dict_add [OF Cons.prems(2), of "snd e" "key_combo (fst e)"]
      by (cases e) simp
  next
    case (Some row)
    let ?mid = "log_audit_event (Some (pr_project_id pr)) INVENTORY_LOCATION (il_id row) PULL_RESTOCK who
      (restock_audit pr (key_combo (fst e)) (snd e) (il_quantity row + snd e)
        [(''aisle'', opt_str (il_aisle row)), (''row'', opt_str (il_row row)),
         (''bay'', opt_str (il_bay row)), (''returnedToSourceRow'', JBool True)] reason)
      (add_units (il_id row) (snd e) db)"
    have "restocked_from db ?mid" using restocked_add Cons.prems(1) by simp
    moreover have "return_to_rows pr who reason es orphaned (dict_add (key_combo (fst e)) (snd e) tot) ?mid = (orphaned', tot', db')"
      using Cons.prems(3) Some by (cases e) simp
    then have "restocked_from ?mid db' \<and> (\<forall>kv \<in> set orphaned'. 0 \<le> snd kv)"
      using Cons.prems(1,2) by (intro Cons.IH) simp_all
    ultimately show ?thesis using restocked_from_trans by blast
  qed
qed simp

lemma tally_nonneg:
  assumes "\<forall>kv \<in> set xs. 0 \<le> snd kv"
  shows "\<forall>kv \<in> set (tally xs). 0 \<le> snd kv"
proof
  fix kv assume "kv \<in> set (tally xs)"
  then have "snd kv = qty_of xs (fst kv)" using tally_mem [of "fst kv" "snd kv" xs] by simp
  then show "0 \<le> snd kv" using qty_of_nonneg [OF assms] by simp
qed

lemma applied_lines_pos: "l \<in> set (applied_lines db i) \<Longrightarrow> 0 < pk_quantity l"
  by (simp add: applied_lines_def)

lemma restock_frame:
  assumes "restock_cancelled_pull now pr needs who reason db = Inr (restocked, mid)"
    and "\<forall>need \<in> set needs. 0 \<le> snd need"
  shows "restocked_from db mid"
proof (cases "applied_lines db (pr_id pr) = []")
  case True
  then show ?thesis
    using assms return_all_restocks [of now pr who reason "[]" "sort_key fst needs" db]
    by (auto simp: restock_cancelled_pull_def Let_def bindr_eq_Inr split: if_splits)
next
  case False
  let ?ls = "applied_lines db (pr_id pr)"
  obtain orphaned totals m where rows: "return_to_rows pr who reason (sort_key fst (lines_by_row ?ls)) (orphaned_lines ?ls) [] db =
      (orphaned, totals, m)"
    by (metis prod_cases3)
  have "\<forall>kv \<in> set (lines_by_row ?ls). 0 \<le> snd kv" "\<forall>kv \<in> set (orphaned_lines ?ls). 0 \<le> snd kv"
    unfolding lines_by_row_def orphaned_lines_def
    by (rule tally_nonneg, force simp: set_map_filter dest: applied_lines_pos)+
  then have "restocked_from db m" "\<forall>kv \<in> set orphaned. 0 \<le> snd kv"
    using return_to_rows_restocks [OF _ _ rows] by auto
  moreover have "return_all now pr who reason [(''returnedToSourceRow'', JBool False)] (sort_key fst orphaned) m = Inr mid"
    using assms(1) False rows by (auto simp: restock_cancelled_pull_def Let_def bindr_eq_Inr)
  ultimately show ?thesis using return_all_restocks restocked_from_trans by fastforce
qed

section \<open>Claims after a cancellation\<close>

lemma holder_cong:
  "shop_assembly_batches a = shop_assembly_batches b \<Longrightarrow> shipping_out_requests a = shipping_out_requests b \<Longrightarrow>
   find_reservation_holder a pr = find_reservation_holder b pr"
  by (simp add: find_reservation_holder_def split: pull_request_source.split)

lemma set_pull_requests [simp]:
  "shop_assembly_batches (set_pull i f db) = shop_assembly_batches db"
  "shipping_out_requests (set_pull i f db) = shipping_out_requests db"
  by (simp_all add: set_pull_def)

lemma close_cancelled_book:
  "inventory_reservations (close_cancelled now pr who reason db) =
     (case find_reservation_holder db pr of
        None \<Rightarrow> inventory_reservations db
      | Some h \<Rightarrow> inventory_reservations (snd (release_reservations h db)))"
  using holder_cong [of "set_pull (pr_id pr) f db" db pr for f]
  by (simp add: close_cancelled_def Let_def drop_drafts_def release_reservations_def split: option.split)

lemma release_cong:
  "inventory_reservations a = inventory_reservations b \<Longrightarrow>
   inventory_reservations (snd (release_reservations h a)) = inventory_reservations (snd (release_reservations h b))"
  by (simp add: release_reservations_def)

lemma hand_back_claims:
  assumes "hand_back pr needs db = Inr (rt, out)"
  shows "(\<not> rt_reservations_recreated rt \<and> inventory_reservations out = inventory_reservations db) \<or>
    (rt_reservations_recreated rt \<and> (\<exists>r mid. find_source_request db pr = FROM_SHIPPING r \<and>
       inventory_reservations mid = inventory_reservations db \<and> inventory_locations mid = inventory_locations db \<and>
       sufficient (check_inventory_sufficiency mid (pr_project_id pr) needs True None) \<and>
       out = create_reservations (pr_project_id pr) (SHIPPING_OUT_REQUEST, sor_id r) needs mid))"
proof (cases "find_source_request db pr")
  case (FROM_BATCH r b)
  then show ?thesis using assms by (auto simp: hand_back_def bindr_eq_Inr dest: return_batch_frame)
next
  case (FROM_SHIPPING r)
  obtain returned mid where mid: "return_shipping_request_to_pending r db = (returned, mid)" by fastforce
  then have same: "inventory_reservations mid = inventory_reservations db" "inventory_locations mid = inventory_locations db"
    by (auto simp: return_shipping_request_to_pending_def split: if_splits)
  show ?thesis
  proof (cases "rt_reservations_recreated rt")
    case True
    then have "sufficient (check_inventory_sufficiency mid (pr_project_id pr) needs True None) \<and>
        out = create_reservations (pr_project_id pr) (SHIPPING_OUT_REQUEST, sor_id r) needs mid"
      using assms by (auto simp: hand_back_def FROM_SHIPPING mid split: if_splits)
    with True same FROM_SHIPPING show ?thesis by blast
  next
    case False
    then show ?thesis using assms same by (auto simp: hand_back_def FROM_SHIPPING mid split: if_splits)
  qed
qed (use assms in \<open>auto simp: hand_back_def\<close>)

lemma source_holder:
  "find_source_request db pr = FROM_SHIPPING r \<Longrightarrow> find_reservation_holder db pr = Some (SHIPPING_OUT_REQUEST, sor_id r)"
  by (auto simp: find_source_request_def find_reservation_holder_def split: pull_request_source.splits option.splits)

lemma source_cong:
  "shop_assembly_batches a = shop_assembly_batches b \<Longrightarrow> shipping_out_requests a = shipping_out_requests b \<Longrightarrow>
   shop_assembly_requests a = shop_assembly_requests b \<Longrightarrow> find_source_request a pr = find_source_request b pr"
  by (simp add: find_source_request_def split: pull_request_source.split option.split)

text \<open>The book of a closed pull: its holder's claim gone, everyone else's untouched, the stock no less.\<close>

lemma closed_book:
  fixes now pr who reason
  assumes "restocked_from db mid"
  defines "closed \<equiv> close_cancelled now pr who reason mid"
  shows "held closed h c = (if find_reservation_holder db pr = Some h then 0 else held db h c)"
    and "book_ok db \<Longrightarrow> book_ok closed"
    and "book_ok db \<Longrightarrow> claimed closed p c \<le> claimed db p c" and "on_hand db p c \<le> on_hand closed p c"
proof -
  have same: "find_reservation_holder mid pr = find_reservation_holder db pr"
    "inventory_reservations mid = inventory_reservations db"
    using assms(1) holder_cong [of mid db pr] by (simp_all add: restocked_from_def)
  have book: "inventory_reservations closed = (case find_reservation_holder db pr of None \<Rightarrow> inventory_reservations db
      | Some h \<Rightarrow> inventory_reservations (snd (release_reservations h db)))"
    using release_cong [OF same(2)] by (simp add: closed_def close_cancelled_book same split: option.split)
  show "held closed h c = (if find_reservation_holder db pr = Some h then 0 else held db h c)"
    using held_release [of _ db h c] book by (auto simp: held_def split: option.splits)
  show "book_ok db \<Longrightarrow> book_ok closed"
    using release_reservations_ok [of db] book by (auto simp: book_ok_def split: option.splits)
  show "book_ok db \<Longrightarrow> claimed closed p c \<le> claimed db p c"
    using claimed_release [of _ db p c] held_in_nonneg [of db p _ c] book by (auto simp: claimed_def split: option.splits)
  have "on_hand closed p c = on_hand mid p c" by (simp add: closed_def on_hand_def)
  then show "on_hand db p c \<le> on_hand closed p c"
    using assms(1) unfolding restocked_from_def by metis
qed

text \<open>
  C13. No claim is left behind or stacked: after a cancellation the pull's holder claims either nothing
  or - a shipping request whose hardware could be claimed again - exactly the pull's requirement,
  whatever it still held before, and no other holder's claim has changed.
\<close>

theorem cancel_leaves_one_claim:
  assumes "cancel_pull_request now i who reason db = Inr (res, db')"
    and "find_row pr_id i (pull_requests db) = Some pr"
  shows "held db' h c =
    (if find_reservation_holder db pr = Some h
     then (if cr_reservations_recreated res then dict_get (line_requirements pr) c else 0) else held db h c)"
proof -
  obtain pr' reason' restocked mid rt out where run: "find_row pr_id i (pull_requests db) = Some pr'"
    "restock_cancelled_pull now pr' (line_requirements pr') who reason' db = Inr (restocked, mid)"
    "hand_back pr' (line_requirements pr') (close_cancelled now pr' who reason' mid) = Inr (rt, out)"
    "cr_reservations_recreated res = rt_reservations_recreated rt" "same_tables out db'"
    using assms(1) by (rule cancel_pull_request_Inr)
  have pr': "pr' = pr" using run(1) assms(2) by simp
  let ?closed = "close_cancelled now pr who reason' mid"
  have from_db: "restocked_from db mid"
    using restock_frame [OF run(2)] line_requirements_pos [of pr'] by (metis less_imp_le)
  have final: "held db' h c = held out h c" using run(5) by (simp add: held_def same_tables_def same_stock_def)
  from hand_back_claims [OF run(3)] show ?thesis
  proof (elim disjE conjE exE)
    assume "\<not> rt_reservations_recreated rt"
      "inventory_reservations out = inventory_reservations (close_cancelled now pr' who reason' mid)"
    then show ?thesis using closed_book(1) [OF from_db] final run(4) pr' by (simp add: held_def)
  next
    fix r m assume r: "rt_reservations_recreated rt" "find_source_request (close_cancelled now pr' who reason' mid) pr' = FROM_SHIPPING r"
      "inventory_reservations m = inventory_reservations (close_cancelled now pr' who reason' mid)"
      "out = create_reservations (pr_project_id pr') (SHIPPING_OUT_REQUEST, sor_id r) (line_requirements pr') m"
    have "find_source_request db pr = FROM_SHIPPING r"
      using r(2) source_cong [of "close_cancelled now pr' who reason' mid" db pr] from_db pr'
      by (simp add: restocked_from_def)
    then have holder: "find_reservation_holder db pr = Some (SHIPPING_OUT_REQUEST, sor_id r)" by (rule source_holder)
    have "held m h c = (if find_reservation_holder db pr = Some h then 0 else held db h c)"
      using closed_book(1) [OF from_db] r(3) pr' by (simp add: held_def)
    then show ?thesis
      using final r(1) run(4) pr' holder by (auto simp: r(4) held_create positive_requirements)
  qed
qed

lemma cancel_leaves_one_claim_witness:
  "held (snd demo_cancelled) (SHOP_ASSEMBLY_BATCH, 30) demo_combo = 0 \<and>
   held (snd demo_short_pick) (SHOP_ASSEMBLY_BATCH, 30) demo_combo = 1"
proof
  have pull: "find_row pr_id 20 (pull_requests (snd demo_short_pick)) = Some demo_pull"
    and "find_reservation_holder (snd demo_short_pick) demo_pull = Some (SHOP_ASSEMBLY_BATCH, 30)"
    and "\<not> cr_reservations_recreated (fst demo_cancelled)" by code_simp+
  with cancel_leaves_one_claim [OF demo_cancelled pull]
  show "held (snd demo_cancelled) (SHOP_ASSEMBLY_BATCH, 30) demo_combo = 0" by simp
  show "held (snd demo_short_pick) (SHOP_ASSEMBLY_BATCH, 30) demo_combo = 1" by code_simp
qed

text \<open>
  C14. A cancellation never over-commits: if the claims of a product were covered by what is on hand
  they are afterwards, re-claimed shipping requirement included, whatever path the restock took.
\<close>

theorem cancel_keeps_claims_covered:
  assumes "cancel_pull_request now i who reason db = Inr (res, db')"
    and "book_ok db" and "solvent_at db p c"
  shows "solvent_at db' p c"
proof -
  obtain pr reason' restocked mid rt out where run:
    "restock_cancelled_pull now pr (line_requirements pr) who reason' db = Inr (restocked, mid)"
    "hand_back pr (line_requirements pr) (close_cancelled now pr who reason' mid) = Inr (rt, out)" "same_tables out db'"
    using assms(1) by (rule cancel_pull_request_Inr)
  let ?closed = "close_cancelled now pr who reason' mid"
  have from_db: "restocked_from db mid"
    using restock_frame [OF run(1)] line_requirements_pos [of pr] by (metis less_imp_le)
  note closed = closed_book [OF from_db, where now = now and pr = pr and who = who and reason = reason']
  have closed_solvent: "solvent_at ?closed p c"
    using closed(3) [OF assms(2), of p c] closed(4) [of p c] assms(3) by (simp add: solvent_at_def)
  have out: "on_hand out p c = on_hand ?closed p c" using hand_back_rows [OF run(2)] by (simp add: on_hand_def)
  from hand_back_claims [OF run(2)] have "solvent_at out p c"
  proof (elim disjE conjE exE)
    assume "inventory_reservations out = inventory_reservations ?closed"
    then show ?thesis using closed_solvent out by (simp add: solvent_at_def claimed_def)
  next
    fix r m assume m: "inventory_reservations m = inventory_reservations ?closed" "inventory_locations m = inventory_locations ?closed"
      "sufficient (check_inventory_sufficiency m (pr_project_id pr) (line_requirements pr) True None)"
      "out = create_reservations (pr_project_id pr) (SHIPPING_OUT_REQUEST, sor_id r) (line_requirements pr) m"
    have "book_ok m" using closed(2) [OF assms(2)] m(1) by (simp add: book_ok_def)
    moreover have "gate_on_available_inventory m (pr_project_id pr) (line_requirements pr) [] None = Inr ()"
      using m(3) by (simp add: gate_on_available_inventory_def)
    moreover have "solvent_at m p c" using closed_solvent m(1,2) by (simp add: solvent_at_def claimed_def on_hand_def)
    ultimately show ?thesis
      unfolding m(4) by (rule gated_create_solvent [OF _ _ line_requirements_pos]) simp_all
  qed
  then show ?thesis using run(3) by (simp add: solvent_at_def on_hand_def claimed_def same_tables_def same_stock_def)
qed

lemma cancel_keeps_claims_covered_witness: "solvent_at (snd demo_cancelled) 1 demo_combo"
proof -
  have "book_ok (snd demo_short_pick)" and "solvent_at (snd demo_short_pick) 1 demo_combo" by code_simp+
  from cancel_keeps_claims_covered [OF demo_cancelled this] show ?thesis .
qed

end
