(* ===== verification/Contracts.thy ===== *)
theory Contracts
  imports Prelude
begin

text \<open>
  The contracts parts of the program rely on: a step relation that keeps an invariant, a fact that no
  step can undo, and a source of numbers that hands out only free ones.
\<close>

section \<open>Runs\<close>

locale invariant_run =
  fixes step :: "'s \<Rightarrow> 's \<Rightarrow> bool" and inv :: "'s \<Rightarrow> bool"
  assumes keeps: "step s t \<Longrightarrow> inv s \<Longrightarrow> inv t"
begin

lemma along: "step\<^sup>*\<^sup>* s t \<Longrightarrow> inv s \<Longrightarrow> inv t"
  by (induction rule: rtranclp_induct) (auto intro: keeps)

end

locale lasting_fact = invariant_run step inv for step :: "'s \<Rightarrow> 's \<Rightarrow> bool" and inv :: "'s \<Rightarrow> bool" +
  fixes fact :: "'s \<Rightarrow> bool"
  assumes stays: "step s t \<Longrightarrow> inv s \<Longrightarrow> fact s \<Longrightarrow> fact t"
begin

lemma lasts: "step\<^sup>*\<^sup>* s t \<Longrightarrow> inv s \<Longrightarrow> fact s \<Longrightarrow> fact t"
  by (induction rule: rtranclp_induct) (auto intro: stays along)

end

section \<open>Numbers\<close>

text \<open>
  A mint never hands out a number that is taken, wherever it may be asked; so a table keyed by the numbers
  keeps its key when a row is added under a minted one.
\<close>

locale number_source =
  fixes mint :: "'s \<Rightarrow> 'n" and taken :: "'s \<Rightarrow> 'n list" and askable :: "'s \<Rightarrow> bool"
  assumes unused: "askable s \<Longrightarrow> mint s \<notin> set (taken s)"
begin

lemma keeps_key: "askable s \<Longrightarrow> distinct (taken s) \<Longrightarrow> distinct (taken s @ [mint s])"
  using unused [of s] by simp

end

end
