(* ===== verification/Loads.thy ===== *)
theory Loads
  imports Cancelling Contracts
begin

text \<open>
  \<open>shipment_loads.py\<close>: the truck trips packing slips ride on. A load is named for its lead project and
  the ship date, is joined only while it is on the dock, takes no other company's slips, and goes when
  the last slip leaves it. Dates carry no time; \<open>today\<close> is Toronto's calendar date, passed in.
\<close>

section \<open>The name of a load\<close>

definition date_stamp :: "date \<Rightarrow> string" where
  "date_stamp d = (case d of (y, m, day) \<Rightarrow> zero_pad 2 (int m) @ zero_pad 2 (int day) @ digits y)"

definition load_number_base :: "string \<Rightarrow> date \<Rightarrow> string option \<Rightarrow> string" where
  "load_number_base project_number ship_date company =
     (if is_demo_company company then ''D-'' else []) @ strip project_number @ ''-'' @ date_stamp ship_date"

text \<open>SQL \<open>LIKE\<close>: per cent is any text, underscore any character, a backslash quotes the next one.\<close>

fun like :: "string \<Rightarrow> string \<Rightarrow> bool" where
  "like [] s = (s = [])"
| "like (p # ps) s =
     (if p = CHR ''%'' then list_ex (\<lambda>n. like ps (drop n s)) [0..<Suc (length s)]
      else if p = CHR 0x5C then
        (case ps of [] \<Rightarrow> False | q # qs \<Rightarrow> (case s of [] \<Rightarrow> False | c # cs \<Rightarrow> c = q \<and> like qs cs))
      else (case s of [] \<Rightarrow> False | c # cs \<Rightarrow> (p = CHR ''_'' \<or> c = p) \<and> like ps cs))"

definition company_load_numbers :: "db \<Rightarrow> string \<Rightarrow> string list" where
  "company_load_numbers db company =
     map ld_load_number (filter (\<lambda>l. ld_company l = company) (shipment_loads db))"

definition load_suffix :: "string \<Rightarrow> string \<Rightarrow> nat option" where
  "load_suffix base n =
     (let p = base @ ''-'' in
      if take (length p) n = p \<and> is_numeral (drop (length p) n) then Some (numeral_value (drop (length p) n))
      else None)"

definition mint_load_number :: "db \<Rightarrow> string \<Rightarrow> string \<Rightarrow> string" where
  "mint_load_number db base company =
     (let taken = filter (\<lambda>n. n = base \<or> like (base @ ''-%'') n) (company_load_numbers db company) in
      if base \<notin> set taken then base
      else
        (let used = List.map_filter (load_suffix base) taken
         in base @ ''-'' @ digits ((if used = [] then 1 else Max (set used)) + 1)))"

section \<open>Starting and joining\<close>

text \<open>
  The flush of a new load: its company is not null and its number is unique within the company.
\<close>

definition start_load :: "date \<Rightarrow> project \<Rightarrow> date option \<Rightarrow> string \<Rightarrow> db \<Rightarrow> (shipment_load \<times> db) result" where
  "start_load today project ship_date created_by db =
     (let day = (case ship_date of None \<Rightarrow> today | Some d \<Rightarrow> d) in
      case pj_company project of
        None \<Rightarrow> Inl IntegrityError
      | Some company \<Rightarrow>
          (let number = mint_load_number db (load_number_base (pj_number project) day (Some company)) company in
           ensure (number \<notin> set (company_load_numbers db company)) IntegrityError (
             let (i, db) = fresh db;
                 load = \<lparr>ld_id = i, ld_load_number = number, ld_company = company,
                         ld_lead_project_id = pj_id project, ld_ship_date = day, ld_created_by = created_by\<rparr>
             in Inr (load, db\<lparr>shipment_loads := shipment_loads db @ [load]\<rparr>))))"

definition set_load :: "uuid \<Rightarrow> (shipment_load \<Rightarrow> shipment_load) \<Rightarrow> db \<Rightarrow> db" where
  "set_load i f db = db\<lparr>shipment_loads := update_row ld_id i f (shipment_loads db)\<rparr>"

text \<open>How many other slips ride a load: a cancelled one rides nothing.\<close>

definition others_riding :: "db \<Rightarrow> uuid \<Rightarrow> uuid \<Rightarrow> nat" where
  "others_riding db load slip =
     length (filter (\<lambda>ps. ps_load_id ps = Some load \<and> ps_id ps \<noteq> slip \<and> ps_status ps \<noteq> SHIPMENT_CANCELLED)
       (packing_slips db))"

definition follow_lone_slip_date :: "packing_slip \<Rightarrow> db \<Rightarrow> db" where
  "follow_lone_slip_date slip db =
     (case (ps_load_id slip, ps_pickup_date slip) of
        (Some load, Some day) \<Rightarrow>
          if find_row ld_id load (shipment_loads db) = None then db
          else if others_riding db load (ps_id slip) = 0
            then set_load load (\<lambda>l. l\<lparr>ld_ship_date := day\<rparr>) db
          else db
      | _ \<Rightarrow> db)"

definition joinable :: "db \<Rightarrow> uuid \<Rightarrow> bool" where
  "joinable db load \<longleftrightarrow>
     list_ex (\<lambda>ps. ps_load_id ps = Some load \<and> ps_status ps = SCHEDULED) (packing_slips db) \<and>
     \<not> list_ex (\<lambda>ps. ps_load_id ps = Some load \<and> ps_status ps \<in> {PICKED_UP, DELIVERED}) (packing_slips db)"

definition joinable_loads :: "db \<Rightarrow> string \<Rightarrow> shipment_load list" where
  "joinable_loads db company =
     sort_key (\<lambda>l. (ld_ship_date l, ld_load_number l))
       (filter (\<lambda>l. ld_company l = company \<and> joinable db (ld_id l)) (shipment_loads db))"

definition join_load :: "uuid \<Rightarrow> project option \<Rightarrow> db \<Rightarrow> shipment_load result" where
  "join_load load_id project db =
     (case find_row ld_id load_id (shipment_loads db) of
        None \<Rightarrow> Inl NotFoundError
      | Some load \<Rightarrow>
          (case project of
             None \<Rightarrow> Inl PyAttributeError
           | Some pj \<Rightarrow>
               ensure (pj_company pj = Some (ld_company load)) NotFoundError (
               ensure (joinable db load_id) InvalidStateTransitionError (Inr load))))"

text \<open>The load a slip goes on: the one it names, or a new one of the project's.\<close>

definition choose_load ::
  "date \<Rightarrow> project option \<Rightarrow> uuid option \<Rightarrow> date option \<Rightarrow> string \<Rightarrow> db \<Rightarrow> (uuid \<times> db) result" where
  "choose_load today project load_id ship_date created_by db =
     (case load_id of
        Some i \<Rightarrow> bindr (join_load i project db) (\<lambda>load. Inr (ld_id load, db))
      | None \<Rightarrow>
          (case project of
             None \<Rightarrow> Inl PyAttributeError
           | Some pj \<Rightarrow> bindr (start_load today pj ship_date created_by db) (\<lambda>started.
               Inr (ld_id (fst started), snd started))))"

section \<open>Moving a slip\<close>

definition set_slip :: "uuid \<Rightarrow> (packing_slip \<Rightarrow> packing_slip) \<Rightarrow> db \<Rightarrow> db" where
  "set_slip i f db = db\<lparr>packing_slips := update_row ps_id i f (packing_slips db)\<rparr>"

text \<open>A load no slip of any status is on is deleted.\<close>

definition drop_empty_load :: "uuid option \<Rightarrow> db \<Rightarrow> db" where
  "drop_empty_load load db =
     (case load of
        None \<Rightarrow> db
      | Some i \<Rightarrow>
          if list_ex (\<lambda>ps. ps_load_id ps = Some i) (packing_slips db) then db
          else db\<lparr>shipment_loads := delete_rows (\<lambda>l. ld_id l = i) (shipment_loads db)\<rparr>)"

definition move_slip_to_load ::
  "date \<Rightarrow> packing_slip \<Rightarrow> uuid option \<Rightarrow> string \<Rightarrow> date option \<Rightarrow> db \<Rightarrow> (uuid \<times> db) result" where
  "move_slip_to_load today slip load_id moved_by pickup_date db =
     ensure (ps_status slip = SCHEDULED) InvalidStateTransitionError (
     ensure (load_id = None \<or> load_id \<noteq> ps_load_id slip) (ValidationError (Some ''load_id'')) (
     ensure (load_id \<noteq> None \<or> (case ps_load_id slip of None \<Rightarrow> True | Some i \<Rightarrow> others_riding db i (ps_id slip) \<noteq> 0))
       (ValidationError (Some ''load_id'')) (
     bindr (choose_load today (find_row pj_id (ps_project_id slip) (projects db)) load_id
             (coalesce pickup_date (ps_pickup_date slip)) moved_by db) (\<lambda>chosen.
       let db = set_slip (ps_id slip) (\<lambda>ps. ps\<lparr>ps_load_id := Some (fst chosen)\<rparr>) (snd chosen)
       in Inr (fst chosen, drop_empty_load (ps_load_id slip) db)))))"


section \<open>Facts\<close>

lemma like_percent: "like [CHR ''%''] s"
  by (auto simp: list_ex_iff intro: bexI [of _ "length s"])

lemma like_literal: "CHR 0x5C \<notin> set b \<Longrightarrow> like ps s \<Longrightarrow> like (b @ ps) (b @ s)"
proof (induction b)
  case (Cons c b)
  then have rest: "like (b @ ps) (b @ s)" by simp
  show ?case
  proof (cases "c = CHR ''%''")
    case True
    from rest have "like (b @ ps) (drop 1 ((c # b) @ s))" by simp
    moreover have "1 \<in> set [0..<Suc (length ((c # b) @ s))]"
      unfolding set_upt atLeastLessThan_iff by (simp add: less_Suc_eq_le)
    ultimately have "list_ex (\<lambda>n. like (b @ ps) (drop n ((c # b) @ s))) [0..<Suc (length ((c # b) @ s))]"
      unfolding list_ex_iff by blast
    with True show ?thesis by simp
  next
    case False
    moreover have "c \<noteq> CHR 0x5C" using Cons.prems by auto
    ultimately show ?thesis using rest by simp
  qed
qed simp

lemma load_suffix_roundtrip: "load_suffix base (base @ ''-'' @ digits n) = Some n"
  by (simp add: load_suffix_def Let_def is_numeral_digits numeral_value_digits)

lemma mint_load_number_fresh:
  assumes "CHR 0x5C \<notin> set base"
  shows "mint_load_number db base company \<notin> set (company_load_numbers db company) \<and>
    (mint_load_number db base company = base \<or>
     (\<exists>n. mint_load_number db base company = base @ ''-'' @ digits n))"
proof -
  let ?all = "company_load_numbers db company"
  let ?taken = "filter (\<lambda>n. n = base \<or> like (base @ ''-%'') n) ?all"
  let ?used = "List.map_filter (load_suffix base) ?taken"
  let ?next = "(if ?used = [] then 1 else Max (set ?used)) + 1"
  show ?thesis
  proof (cases "base \<in> set ?taken")
    case False
    then show ?thesis by (auto simp: mint_load_number_def Let_def)
  next
    case True
    have minted: "mint_load_number db base company = base @ ''-'' @ digits ?next"
      using True unfolding mint_load_number_def Let_def by simp
    have "base @ ''-'' @ digits ?next \<notin> set ?all"
    proof
      assume mem: "base @ ''-'' @ digits ?next \<in> set ?all"
      have "like (base @ ''-%'') (base @ ''-'' @ digits ?next)"
        using like_literal [OF assms, of "''-%''" "''-'' @ digits ?next"] like_percent [of "digits ?next"] by simp
      then have "base @ ''-'' @ digits ?next \<in> set ?taken" using mem by simp
      then have "?next \<in> set ?used"
        using load_suffix_roundtrip [of base ?next] by (force simp: set_map_filter simp del: set_filter)
      then have "?next \<le> Max (set ?used)" "?used \<noteq> []" by auto
      then show False by simp
    qed
    then show ?thesis unfolding minted by blast
  qed
qed

interpretation load_numbering: number_source "\<lambda>(db, base, company). mint_load_number db base company"
    "\<lambda>(db, base, company). company_load_numbers db company" "\<lambda>(db, base, company). CHR 0x5C \<notin> set base"
  by unfold_locales (use mint_load_number_fresh in \<open>auto split: prod.splits\<close>)

text \<open>
  A new load's number is free: it is the base name or the base name with a counter, and no load of
  the company carries it, so starting a load never trips the unique constraint. (A project number
  holds no backslash, which \<open>LIKE\<close> reads as a quote.)
\<close>

theorem mint_load_number_free:
  assumes "CHR 0x5C \<notin> set base"
  shows "mint_load_number db base company \<notin> set (company_load_numbers db company) \<and>
    (mint_load_number db base company = base \<or>
     (\<exists>n. mint_load_number db base company = base @ ''-'' @ digits n))"
  using mint_load_number_fresh [OF assms] .

theorem mint_load_number_free_witness:
  "CHR 0x5C \<notin> set ''22713-10152026'' \<and>
   (let db = empty_db\<lparr>shipment_loads := [\<lparr>ld_id = 1, ld_load_number = ''22713-10152026'', ld_company = ''UBC'',
          ld_lead_project_id = 1, ld_ship_date = (2026, 10, 15), ld_created_by = ''ann''\<rparr>]\<rparr>
    in mint_load_number db ''22713-10152026'' ''UBC'' \<notin> set (company_load_numbers db ''UBC'') \<and>
       mint_load_number db ''22713-10152026'' ''UBC'' = ''22713-10152026-2'')"
proof -
  have free: "CHR 0x5C \<notin> set ''22713-10152026''" by code_simp
  let ?db = "empty_db\<lparr>shipment_loads := [\<lparr>ld_id = 1, ld_load_number = ''22713-10152026'', ld_company = ''UBC'',
          ld_lead_project_id = 1, ld_ship_date = (2026, 10, 15), ld_created_by = ''ann''\<rparr>]\<rparr>"
  have "mint_load_number ?db ''22713-10152026'' ''UBC'' = ''22713-10152026-2''" by code_simp
  then show ?thesis using free mint_load_number_free [OF free, of ?db "''UBC''"] unfolding Let_def by blast
qed

end
