(* ===== verification/Shipments.thy ===== *)
theory Shipments
  imports Loads
begin

text \<open>
  The last leg of \<open>shipping_repository.py\<close>, with \<open>packing_slip_numbers.py\<close> and the price a returned unit
  carries (\<open>inventory_value_repository.py\<close>): what completed pulls have staged and slips have not taken,
  a packing slip cut against it, the truck's journey, and the units that come back. A slip's line and a
  return's line are fields of their slip and return; \<open>today\<close> is Toronto's calendar date.
\<close>

section \<open>The staged pool\<close>

text \<open>A staged quantity is keyed by the opening it was pulled for, if any, and the product.\<close>

type_synonym staged_key = "string option \<times> combo"

definition loose_key :: "string option \<Rightarrow> string \<Rightarrow> string \<Rightarrow> staged_key" where
  "loose_key opening category product = (opening, category, product)"

definition pi_key :: "pull_request_item \<Rightarrow> staged_key" where
  "pi_key i = loose_key (pi_opening_number i) (pi_hardware_category i) (pi_product_code i)"

definition psi_key :: "packing_slip_item \<Rightarrow> staged_key" where
  "psi_key i = loose_key (psi_opening_number i) (psi_hardware_category i) (psi_product_code i)"

definition staged_fulfilled :: "db \<Rightarrow> uuid \<Rightarrow> (staged_key \<times> int) list" where
  "staged_fulfilled db project_id =
     sum_by pi_key pi_requested_quantity
       (concat (map pr_items (filter (\<lambda>pr. pr_source pr = PULL_SHIPPING_OUT \<and> pr_status pr = PULL_COMPLETED \<and>
          pr_project_id pr = project_id) (pull_requests db))))"

definition shipped_lines :: "db \<Rightarrow> uuid \<Rightarrow> packing_slip_item list" where
  "shipped_lines db project_id =
     filter (\<lambda>i. \<not> psi_is_manual i)
       (concat (map ps_items (filter (\<lambda>ps. ps_project_id ps = project_id) (packing_slips db))))"

definition staged_shipped :: "db \<Rightarrow> uuid \<Rightarrow> (staged_key \<times> int) list" where
  "staged_shipped db project_id = sum_by psi_key psi_quantity (shipped_lines db project_id)"

text \<open>The project's staged lines with something left, unattributed ones last.\<close>

definition get_ship_ready_items :: "db \<Rightarrow> uuid \<Rightarrow> (staged_key \<times> int) list" where
  "get_ship_ready_items db project_id =
     (let shipped = staged_shipped db project_id
      in sort_key (\<lambda>li. (fst (fst li) = None, sent_text (fst (fst li))))
           (filter (\<lambda>li. 0 < snd li)
             (map (\<lambda>kv. (fst kv, snd kv - dict_get shipped (fst kv))) (staged_fulfilled db project_id))))"

section \<open>The Shipment Site Form\<close>

text \<open>
  The header as it is sent. The weight is exact, in hundredths of a pound, and is rounded by its
  column, which holds ten digits.
\<close>

record site_form =
  sf_pickup_date :: "date option"
  sf_delivery_date :: "date option"
  sf_weight_lbs :: "exact_cost option"
  sf_texts :: "(string \<times> string option) list"

definition empty_form :: site_form where
  "empty_form = \<lparr>sf_pickup_date = None, sf_delivery_date = None, sf_weight_lbs = None, sf_texts = []\<rparr>"

definition SITE_FORM_TEXT_FIELDS :: "string list" where
  "SITE_FORM_TEXT_FIELDS =
     [''shipper_email'', ''shipper_phone'', ''pickup_location'', ''shipment_method'', ''carrier_tag_bol'',
      ''tracking_number'', ''delivery_address'', ''special_instructions'', ''gate_number'',
      ''forklift_onsite'', ''material_coming_back'', ''site_material_included'', ''construction_temp_keys'',
      ''extra_frame_anchors'', ''contractor_contact_name'', ''contractor_contact_phone'',
      ''ucsh_contact_name'', ''ucsh_contact_phone'', ''sales_order_number'']"

definition MAX_WEIGHT_LBS :: int where
  "MAX_WEIGHT_LBS = 100000000"

definition weight_allowed :: "exact_cost \<Rightarrow> bool" where
  "weight_allowed w \<longleftrightarrow> 0 \<le> fst w \<and> fst w < MAX_WEIGHT_LBS * 100 * snd w"

definition weight_fits :: "exact_cost option \<Rightarrow> bool" where
  "weight_fits w = (case w of None \<Rightarrow> True | Some w \<Rightarrow> column_cost w < 10 ^ 10)"

definition apply_site_form :: "site_form option \<Rightarrow> packing_slip \<Rightarrow> packing_slip result" where
  "apply_site_form details ps =
     (let values = (case details of None \<Rightarrow> empty_form | Some d \<Rightarrow> d) in
      ensure (case sf_weight_lbs values of None \<Rightarrow> True | Some w \<Rightarrow> weight_allowed w)
        (ValidationError (Some ''weight_lbs'')) (
      ensure (case (sf_pickup_date values, sf_delivery_date values) of
                (Some pickup, Some delivery) \<Rightarrow> pickup \<le> delivery | _ \<Rightarrow> True)
        (ValidationError (Some ''delivery_date'')) (
      Inr (ps\<lparr>ps_pickup_date := sf_pickup_date values, ps_delivery_date := sf_delivery_date values,
          ps_weight_lbs := map_option column_cost (sf_weight_lbs values),
          ps_form := map (\<lambda>f. (f, strip_or_none (case map_of (sf_texts values) f of None \<Rightarrow> None | Some t \<Rightarrow> t)))
            SITE_FORM_TEXT_FIELDS\<rparr>))))"

definition form_fits :: "site_form option \<Rightarrow> bool" where
  "form_fits details = (case details of None \<Rightarrow> True | Some d \<Rightarrow> weight_fits (sf_weight_lbs d))"

definition apply_driver :: "(string \<times> string) option \<Rightarrow> packing_slip \<Rightarrow> packing_slip" where
  "apply_driver driver ps =
     ps\<lparr>ps_driver_user_id := map_option fst driver, ps_driver_name := map_option snd driver\<rparr>"

section \<open>The packing-slip number\<close>

definition slip_numbers :: "db \<Rightarrow> string list" where
  "slip_numbers db = map ps_packing_slip_number (packing_slips db)"

definition demo_slip_suffix :: "string \<Rightarrow> nat option" where
  "demo_slip_suffix n =
     (if take 4 n = ''PS-D'' \<and> is_numeral (drop 4 n) then Some (numeral_value (drop 4 n)) else None)"

definition mint_demo_packing_slip_number :: "db \<Rightarrow> string" where
  "mint_demo_packing_slip_number db =
     (let used = List.map_filter demo_slip_suffix (slip_numbers db)
      in ''PS-D'' @ zero_pad 5 (int (if used = [] then 0 else Max (set used)) + 1))"

definition slip_number_of :: "int \<Rightarrow> string" where
  "slip_number_of seq = ''PS-'' @ zero_pad 5 seq"

lemma slip_number_inj: "0 \<le> i \<Longrightarrow> 0 \<le> j \<Longrightarrow> slip_number_of i = slip_number_of j \<longleftrightarrow> i = j"
  by (simp add: slip_number_of_def zero_pad_inj)

text \<open>
  The loop that walks past numbers already taken. It ends: a taken number stands for one value of the
  counter, and there are finitely many.
\<close>

lemma taken_values_finite: "finite {i. seq \<le> i \<and> slip_number_of i \<in> set taken}"
proof -
  have "inj_on slip_number_of {i. 0 \<le> i \<and> slip_number_of i \<in> set taken}"
    by (auto simp: inj_on_def slip_number_inj)
  then have "finite {i. 0 \<le> i \<and> slip_number_of i \<in> set taken}"
    by (rule inj_on_finite [of _ _ "set taken"]) auto
  then have "finite ({seq..<0} \<union> {i. 0 \<le> i \<and> slip_number_of i \<in> set taken})" by simp
  then show ?thesis by (rule rev_finite_subset) auto
qed

function walk_past_taken :: "string list \<Rightarrow> int \<Rightarrow> string \<times> int" where
  "walk_past_taken taken seq =
     (if slip_number_of seq \<in> set taken then walk_past_taken taken (seq + 1)
      else (slip_number_of seq, seq + 1))"
  by auto

termination
proof (relation "measure (\<lambda>(taken, seq). card {i. seq \<le> i \<and> slip_number_of i \<in> set taken})")
  fix taken seq
  assume "slip_number_of seq \<in> set taken"
  then have "seq \<in> {i. seq \<le> i \<and> slip_number_of i \<in> set taken}"
    and "seq \<notin> {i. seq + 1 \<le> i \<and> slip_number_of i \<in> set taken}" by simp_all
  moreover have "{i. seq + 1 \<le> i \<and> slip_number_of i \<in> set taken} \<subseteq> {i. seq \<le> i \<and> slip_number_of i \<in> set taken}"
    by auto
  ultimately have "{i. seq + 1 \<le> i \<and> slip_number_of i \<in> set taken} \<subset> {i. seq \<le> i \<and> slip_number_of i \<in> set taken}"
    by blast
  then show "((taken, seq + 1), (taken, seq)) \<in>
      measure (\<lambda>(taken, seq). card {i. seq \<le> i \<and> slip_number_of i \<in> set taken})"
    using psubset_card_mono [OF taken_values_finite] by simp
qed simp

declare walk_past_taken.simps [simp del]

definition mint_packing_slip_number :: "string option \<Rightarrow> db \<Rightarrow> string \<times> db" where
  "mint_packing_slip_number company db =
     (if is_demo_company company then (mint_demo_packing_slip_number db, db)
      else
        (let walked = walk_past_taken (slip_numbers db)
               (case packing_slip_counter db of None \<Rightarrow> 1 | Some n \<Rightarrow> n)
         in (fst walked, db\<lparr>packing_slip_counter := Some (snd walked)\<rparr>)))"

section \<open>Confirming a shipment\<close>

text \<open>A line of the cart; the placement is where the hardware is going.\<close>

record cart_item =
  ca_opening_number :: "string option"
  ca_building :: "string option"
  ca_floor :: "string option"
  ca_location :: "string option"
  ca_hardware_category :: string
  ca_product_code :: string
  ca_quantity :: "int option"
  ca_is_manual :: bool

definition ca_key :: "cart_item \<Rightarrow> staged_key" where
  "ca_key i = loose_key (ca_opening_number i) (ca_hardware_category i) (ca_product_code i)"

definition ca_units :: "cart_item \<Rightarrow> int" where
  "ca_units i = (case ca_quantity i of None \<Rightarrow> 0 | Some q \<Rightarrow> q)"

definition cart_agg :: "cart_item list \<Rightarrow> (staged_key \<times> int) list" where
  "cart_agg items = tally (map (\<lambda>i. (ca_key i, ca_units i)) (filter (\<lambda>i. \<not> ca_is_manual i) items))"

text \<open>Only a project whose GP job is known to be broken is on hold.\<close>

definition require_gp_setup_ok :: "db \<Rightarrow> uuid \<Rightarrow> unit result" where
  "require_gp_setup_ok db project_id =
     (case find_row pj_id project_id (projects db) of
        None \<Rightarrow> Inr ()
      | Some pj \<Rightarrow> ensure (pj_gp_setup_ok pj \<noteq> Some False) GpSetupInvalidError (Inr ()))"

definition slip_item :: "uuid \<Rightarrow> cart_item \<Rightarrow> packing_slip_item" where
  "slip_item i item =
     \<lparr>psi_id = i, psi_opening_number = ca_opening_number item, psi_building = ca_building item,
      psi_floor = ca_floor item, psi_location = ca_location item,
      psi_hardware_category = ca_hardware_category item, psi_product_code = ca_product_code item,
      psi_quantity = ca_units item, psi_is_manual = ca_is_manual item\<rparr>"

fun slip_items :: "nat \<Rightarrow> cart_item list \<Rightarrow> packing_slip_item list" where
  "slip_items i [] = []"
| "slip_items i (item # items) = slip_item i item # slip_items (Suc i) items"

definition new_slip :: "uuid \<Rightarrow> string \<Rightarrow> uuid \<Rightarrow> string \<Rightarrow> datetime \<Rightarrow> packing_slip" where
  "new_slip i number project_id shipped_by now =
     \<lparr>ps_id = i, ps_packing_slip_number = number, ps_project_id = project_id, ps_load_id = None,
      ps_shipped_by = shipped_by, ps_shipped_at = now, ps_status = SCHEDULED, ps_pickup_date = None,
      ps_delivery_date = None, ps_weight_lbs = None, ps_form = [], ps_driver_user_id = None,
      ps_driver_name = None, ps_picked_up_at = None, ps_picked_up_by = None, ps_delivered_at = None,
      ps_delivered_by = None, ps_items = []\<rparr>"

text \<open>The guards of a confirmation, in the code's order.\<close>

definition check_cart :: "db \<Rightarrow> uuid \<Rightarrow> string \<Rightarrow> cart_item list \<Rightarrow> unit result" where
  "check_cart db project_id shipped_by items =
     bindr (require_gp_setup_ok db project_id) (\<lambda>_.
     ensure (shipped_by \<noteq> []) (ValidationError (Some ''shipped_by'')) (
     ensure (items \<noteq> []) (ValidationError (Some ''items'')) (
     ensure (list_all (\<lambda>i. case ca_quantity i of None \<Rightarrow> False | Some q \<Rightarrow> 1 \<le> q) items)
       (ValidationError (Some ''items'')) (
     let available = get_ship_ready_items db project_id in
     ensure (list_all (\<lambda>kv. snd kv \<le> dict_get available (fst kv)) (cart_agg items))
       (ValidationError (Some ''items'')) (Inr ())))))"

text \<open>The slip written: its number, its header, its truck, its lines, and the notice to the warehouse.\<close>

definition confirm_shipment ::
  "datetime \<Rightarrow> date \<Rightarrow> uuid \<Rightarrow> string \<Rightarrow> cart_item list \<Rightarrow> site_form option \<Rightarrow> uuid option \<Rightarrow>
   (string \<times> string) option \<Rightarrow> db \<Rightarrow> (uuid \<times> db) result" where
  "confirm_shipment now today project_id shipped_by items details load_id driver db =
     bindr (check_cart db project_id shipped_by items) (\<lambda>_.
     let minted = mint_packing_slip_number (project_company db project_id) db; number = fst minted in
     ensure (number \<notin> set (slip_numbers db)) (ConflictError (Some ''packing_slip_number'')) (
     let (i, db) = fresh (snd minted) in
     bindr (apply_site_form details (new_slip i number project_id shipped_by now)) (\<lambda>ps.
     let ps = apply_driver driver ps in
     bindr (choose_load today (find_row pj_id project_id (projects db)) load_id (ps_pickup_date ps) shipped_by db) (\<lambda>chosen.
     ensure (form_fits details) DataError (
     let db = snd chosen;
         ps = ps\<lparr>ps_load_id := Some (fst chosen), ps_items := slip_items (next_id db) items\<rparr>;
         db = db\<lparr>next_id := next_id db + length items, packing_slips := packing_slips db @ [ps]\<rparr> in
     bindr (create_notification now project_id (Some WAREHOUSE_RECIPIENT_ROLE) SHIPMENT_COMPLETED None None (Some i) db)
       (\<lambda>db. Inr (i, db)))))))"

section \<open>The truck's journey\<close>

definition locked_packing_slip :: "db \<Rightarrow> uuid \<Rightarrow> packing_slip result" where
  "locked_packing_slip db i =
     (case find_row ps_id i (packing_slips db) of None \<Rightarrow> Inl NotFoundError | Some ps \<Rightarrow> Inr ps)"

definition update_shipment_details ::
  "uuid \<Rightarrow> site_form \<Rightarrow> (string \<times> string) option \<Rightarrow> db \<Rightarrow> db result" where
  "update_shipment_details i details driver db =
     bindr (locked_packing_slip db i) (\<lambda>ps.
     ensure (ps_status ps = SCHEDULED) InvalidStateTransitionError (
     bindr (apply_site_form (Some details) ps) (\<lambda>filled.
     ensure (form_fits (Some details)) DataError (
     let filled = apply_driver driver filled; db = set_slip i (\<lambda>_. filled) db
     in Inr (if ps_pickup_date filled \<noteq> ps_pickup_date ps then follow_lone_slip_date filled db else db)))))"

definition mark_shipment_picked_up :: "datetime \<Rightarrow> uuid \<Rightarrow> string \<Rightarrow> db \<Rightarrow> db result" where
  "mark_shipment_picked_up now i actor db =
     bindr (locked_packing_slip db i) (\<lambda>ps.
     ensure (ps_status ps = SCHEDULED) InvalidStateTransitionError
       (Inr (set_slip i (\<lambda>ps. ps\<lparr>ps_status := PICKED_UP, ps_picked_up_at := Some now,
          ps_picked_up_by := Some actor\<rparr>) db)))"

definition mark_shipment_delivered :: "datetime \<Rightarrow> uuid \<Rightarrow> string \<Rightarrow> db \<Rightarrow> db result" where
  "mark_shipment_delivered now i actor db =
     bindr (locked_packing_slip db i) (\<lambda>ps.
     ensure (ps_status ps = PICKED_UP) InvalidStateTransitionError
       (Inr (set_slip i (\<lambda>ps. ps\<lparr>ps_status := DELIVERED, ps_delivered_at := Some now,
          ps_delivered_by := Some actor\<rparr>) db)))"

text \<open>What has come back of each line of a slip.\<close>

definition return_lines_of :: "db \<Rightarrow> uuid \<Rightarrow> shipment_return_item list" where
  "return_lines_of db slip =
     concat (map sr_items (filter (\<lambda>sr. sr_packing_slip_id sr = slip) (shipment_returns db)))"

definition returned_quantities :: "db \<Rightarrow> uuid \<Rightarrow> (uuid \<times> int) list" where
  "returned_quantities db slip = sum_by ri_packing_slip_item_id ri_quantity (return_lines_of db slip)"

definition cancel_slip :: "uuid \<Rightarrow> db \<Rightarrow> db" where
  "cancel_slip i db = withdraw_shipment_scheduled i (set_slip i (\<lambda>ps. ps\<lparr>ps_status := SHIPMENT_CANCELLED\<rparr>) db)"

definition cancel_shipment :: "uuid \<Rightarrow> db \<Rightarrow> db result" where
  "cancel_shipment i db =
     bindr (locked_packing_slip db i) (\<lambda>ps.
     ensure (ps_status ps = SCHEDULED) InvalidStateTransitionError (
     let returned = returned_quantities db i in
     ensure (list_all (\<lambda>psi. psi_is_manual psi \<or> psi_quantity psi \<le> dict_get returned (psi_id psi)) (ps_items ps))
       (ValidationError (Some ''id'')) (Inr (cancel_slip i db))))"

section \<open>What a returned unit is worth\<close>

definition USD :: string where
  "USD = ''USD''"

definition trim_blanks :: "string \<Rightarrow> string" where
  "trim_blanks s = rev (dropWhile (\<lambda>c. c = CHR '' '') (rev (dropWhile (\<lambda>c. c = CHR '' '') s)))"

definition row_is_usd :: "db \<Rightarrow> inventory_location \<Rightarrow> bool" where
  "row_is_usd db il =
     (case coalesce (Option.bind (po_line_of db il) po_line_currency) (il_cost_currency il) of
        None \<Rightarrow> False
      | Some currency \<Rightarrow> upper (trim_blanks currency) = USD)"

text \<open>
  The priced pick lines of a project's product: applied, off a row that knows its cost, for a pull still
  in progress or a completed shipping-out one. Each is its currency's flag, its cost and its units.
\<close>

definition priced_pull :: "db \<Rightarrow> uuid \<Rightarrow> pull_pick_line \<Rightarrow> bool" where
  "priced_pull db project_id l =
     (find_row pj_id project_id (projects db) \<noteq> None \<and>
      (case find_row pr_id (pk_pull_request_id l) (pull_requests db) of
         None \<Rightarrow> False
       | Some pr \<Rightarrow> pr_project_id pr = project_id \<and>
           ((pr_source pr = PULL_SHIPPING_OUT \<and> pr_status pr = PULL_COMPLETED) \<or> pr_status pr = PULL_IN_PROGRESS)))"

definition priced_line :: "db \<Rightarrow> pull_pick_line \<Rightarrow> (bool \<times> int \<times> int) option" where
  "priced_line db l =
     Option.bind (Option.bind (pk_inventory_location_id l) (\<lambda>i. find_row il_id i (inventory_locations db)))
       (\<lambda>il. map_option (\<lambda>cost. (row_is_usd db il, pk_quantity l * cost, pk_quantity l)) (effective_cost db il))"

definition picked_cost_rows :: "db \<Rightarrow> uuid \<Rightarrow> combo \<Rightarrow> (bool \<times> int \<times> int) list" where
  "picked_cost_rows db project_id c =
     List.map_filter (priced_line db)
       (filter (\<lambda>l. pk_state l = APPLIED \<and> pk_combo l = c \<and> priced_pull db project_id l) (pull_pick_lines db))"

definition cost_sums :: "bool \<Rightarrow> (bool \<times> int \<times> int) list \<Rightarrow> int \<times> int" where
  "cost_sums usd rows =
     (sum_list (map (\<lambda>r. fst (snd r)) (filter (\<lambda>r. fst r = usd) rows)),
      sum_list (map (\<lambda>r. snd (snd r)) (filter (\<lambda>r. fst r = usd) rows)))"

definition picked_unit_price :: "db \<Rightarrow> uuid \<Rightarrow> combo \<Rightarrow> (exact_cost \<times> string option) option" where
  "picked_unit_price db project_id c =
     (let rows = picked_cost_rows db project_id c; cad = cost_sums False rows; usd = cost_sums True rows in
      if rows = [] then None
      else if snd cad < snd usd then Some (usd, Some USD)
      else if snd cad \<noteq> 0 then Some (cad, None)
      else None)"

definition returned_price :: "db \<Rightarrow> uuid \<Rightarrow> combo \<Rightarrow> exact_cost option \<times> string option" where
  "returned_price db project_id c =
     (case picked_unit_price db project_id c of
        Some (cost, currency) \<Rightarrow> (Some cost, currency)
      | None \<Rightarrow>
          (let price = resolve_project_combo_price db project_id c in (map_option exactly (fst price), snd price)))"

section \<open>Returns\<close>

record return_line =
  rl_packing_slip_item_id :: uuid
  rl_quantity :: int
  rl_disposition :: return_disposition
  rl_rma_reference :: "string option"
  rl_reason_text :: "string option"

definition psi_of :: "packing_slip \<Rightarrow> uuid \<Rightarrow> packing_slip_item option" where
  "psi_of ps i = find_row psi_id i (ps_items ps)"

definition get_returnable_lines :: "db \<Rightarrow> uuid \<Rightarrow> (uuid \<times> int \<times> int \<times> int) list result" where
  "get_returnable_lines db i =
     bindr (locked_packing_slip db i) (\<lambda>ps.
       let already = returned_quantities db i in
       Inr (map (\<lambda>psi. (psi_id psi, psi_quantity psi, dict_get already (psi_id psi),
               psi_quantity psi - dict_get already (psi_id psi)))
         (filter (\<lambda>psi. \<not> psi_is_manual psi) (ps_items ps))))"

text \<open>A resend of a return that was written: the return its key names, on the same slip.\<close>

definition existing_return :: "db \<Rightarrow> uuid \<Rightarrow> string option \<Rightarrow> uuid option result" where
  "existing_return db slip key =
     (if blank key then Inr None
      else
        ensure (length (sent_text key) \<le> 100) (ValidationError (Some ''idempotency_key'')) (
        case List.find (\<lambda>sr. sr_create_idempotency_key sr = key) (shipment_returns db) of
          None \<Rightarrow> Inr None
        | Some sr \<Rightarrow>
            ensure (sr_packing_slip_id sr = slip) (ValidationError (Some ''idempotency_key'')) (Inr (Some (sr_id sr)))))"

definition check_return_line :: "packing_slip \<Rightarrow> return_line \<Rightarrow> unit result" where
  "check_return_line ps item =
     ensure (1 \<le> rl_quantity item) (ValidationError (Some ''quantity'')) (
     case psi_of ps (rl_packing_slip_item_id item) of
       None \<Rightarrow> Inl (ValidationError (Some ''packing_slip_item_id''))
     | Some psi \<Rightarrow>
         ensure (\<not> psi_is_manual psi) (ValidationError (Some ''packing_slip_item_id'')) (
         ensure (length (sent_text (rl_rma_reference item)) \<le> 100) (ValidationError (Some ''rma_reference'')) (Inr ())))"

fun check_return_lines :: "packing_slip \<Rightarrow> return_line list \<Rightarrow> unit result" where
  "check_return_lines ps [] = Inr ()"
| "check_return_lines ps (item # items) = bindr (check_return_line ps item) (\<lambda>_. check_return_lines ps items)"

definition requested_per_psi :: "return_line list \<Rightarrow> (uuid \<times> int) list" where
  "requested_per_psi items = tally (map (\<lambda>i. (rl_packing_slip_item_id i, rl_quantity i)) items)"

definition shipped_of :: "packing_slip \<Rightarrow> uuid \<Rightarrow> int" where
  "shipped_of ps i = (case psi_of ps i of None \<Rightarrow> 0 | Some psi \<Rightarrow> psi_quantity psi)"

definition check_return :: "db \<Rightarrow> packing_slip \<Rightarrow> return_line list \<Rightarrow> unit result" where
  "check_return db ps items =
     bindr (check_return_lines ps items) (\<lambda>_.
     let already = returned_quantities db (ps_id ps) in
     ensure (list_all (\<lambda>kv. snd kv \<le> shipped_of ps (fst kv) - dict_get already (fst kv)) (requested_per_psi items))
       (ValidationError (Some ''quantity'')) (Inr ()))"

definition disposition_name :: "return_disposition \<Rightarrow> string" where
  "disposition_name d = (case d of RETURN_TO_PROJECT \<Rightarrow> ''RETURN_TO_PROJECT'' | NON_STOCK \<Rightarrow> ''NON_STOCK''
     | RMA_DEFECTIVE \<Rightarrow> ''RMA_DEFECTIVE'')"

definition return_audit :: "uuid \<Rightarrow> packing_slip \<Rightarrow> packing_slip_item \<Rightarrow> return_line \<Rightarrow> json" where
  "return_audit sr ps psi item =
     JObj [(''shipmentReturnId'', JId sr), (''packingSlipId'', JId (ps_id ps)),
       (''packingSlipNumber'', JStr (ps_packing_slip_number ps)),
       (''disposition'', JStr (disposition_name (rl_disposition item))), (''quantity'', JInt (rl_quantity item)),
       (''hardwareCategory'', JStr (psi_hardware_category psi)), (''productCode'', JStr (psi_product_code psi)),
       (''rmaReference'', opt_str (rl_rma_reference item))]"

definition returned_row ::
  "uuid \<Rightarrow> datetime \<Rightarrow> uuid \<Rightarrow> uuid \<Rightarrow> combo \<Rightarrow> int \<Rightarrow> uuid \<Rightarrow> exact_cost option \<times> string option \<Rightarrow> inventory_location" where
  "returned_row i now project_id warehouse c qty return_item price =
     \<lparr>il_id = i, il_project_id = project_id, il_warehouse_id = warehouse, il_hardware_category = fst c,
      il_product_code = snd c, il_quantity = qty, il_deficient_quantity = 0, il_aisle = None, il_row = None,
      il_bay = None, il_po_line_item_id = None, il_receive_line_item_id = None, il_stock_item_id = None,
      il_shipment_return_item_id = Some return_item, il_entry_source = None,
      il_unit_cost = map_option column_cost (fst price), il_cost_currency = snd price, il_received_at = now\<rparr>"

definition add_to_pool :: "uuid \<Rightarrow> int \<Rightarrow> bool \<Rightarrow> db \<Rightarrow> db" where
  "add_to_pool i qty defective db =
     db\<lparr>stock_items := update_row st_id i (\<lambda>s. s\<lparr>st_quantity := st_quantity s + qty,
          st_deficient_quantity := (if defective then st_deficient_quantity s + qty else st_deficient_quantity s)\<rparr>)
        (stock_items db)\<rparr>"

definition psi_combo :: "packing_slip_item \<Rightarrow> combo" where
  "psi_combo i = (psi_hardware_category i, psi_product_code i)"

text \<open>One line routed: where it lands, the audit row, and the ids it leaves on the return line.\<close>

definition route_line ::
  "datetime \<Rightarrow> uuid \<Rightarrow> packing_slip \<Rightarrow> uuid \<Rightarrow> string \<Rightarrow> packing_slip_item \<Rightarrow> return_line \<Rightarrow> uuid \<Rightarrow> db \<Rightarrow>
   (uuid option \<times> uuid option) \<times> db" where
  "route_line now sr ps warehouse returned_by psi item ri db =
     (let price = returned_price db (ps_project_id ps) (psi_combo psi); detail = return_audit sr ps psi item in
      if rl_disposition item = RETURN_TO_PROJECT then
        (let (i, db) = fresh db;
             row = returned_row i now (ps_project_id ps) warehouse (psi_combo psi) (rl_quantity item) ri price;
             db = db\<lparr>inventory_locations := inventory_locations db @ [row]\<rparr>
         in ((Some i, None),
             log_audit_event (Some (ps_project_id ps)) INVENTORY_LOCATION i RETURN returned_by detail db))
      else
        (let (s, db) = find_or_create_stock_row now
               \<lparr>key_warehouse = warehouse, key_product = psi_combo psi, key_aisle = None, key_row = None,
                key_bay = None, key_kind = STOCK, key_unit_cost = fst price, key_cost_currency = snd price\<rparr> db;
             db = add_to_pool (st_id s) (rl_quantity item) (rl_disposition item = RMA_DEFECTIVE) db
         in ((None, Some (st_id s)), log_audit_event None STOCK_ITEM (st_id s) RETURN returned_by detail db)))"

definition return_item_row ::
  "uuid \<Rightarrow> packing_slip_item \<Rightarrow> return_line \<Rightarrow> uuid option \<times> uuid option \<Rightarrow> shipment_return_item" where
  "return_item_row ri psi item landed =
     \<lparr>ri_id = ri, ri_packing_slip_item_id = psi_id psi, ri_disposition = rl_disposition item,
      ri_quantity = rl_quantity item, ri_hardware_category = psi_hardware_category psi,
      ri_product_code = psi_product_code psi, ri_opening_number = psi_opening_number psi,
      ri_rma_reference = rl_rma_reference item, ri_reason_text = rl_reason_text item,
      ri_resulting_inventory_location_id = fst landed, ri_resulting_stock_item_id = snd landed\<rparr>"

definition add_return_item :: "uuid \<Rightarrow> shipment_return_item \<Rightarrow> db \<Rightarrow> db" where
  "add_return_item sr row db =
     db\<lparr>shipment_returns := update_row sr_id sr (\<lambda>r. r\<lparr>sr_items := sr_items r @ [row]\<rparr>) (shipment_returns db)\<rparr>"

fun route_lines ::
  "datetime \<Rightarrow> uuid \<Rightarrow> packing_slip \<Rightarrow> uuid \<Rightarrow> string \<Rightarrow> return_line list \<Rightarrow> db \<Rightarrow> db" where
  "route_lines now sr ps warehouse returned_by [] db = db"
| "route_lines now sr ps warehouse returned_by (item # items) db =
     (case psi_of ps (rl_packing_slip_item_id item) of
        None \<Rightarrow> db
      | Some psi \<Rightarrow>
          (let (ri, db) = fresh db; (landed, db) = route_line now sr ps warehouse returned_by psi item ri db
           in route_lines now sr ps warehouse returned_by items
                (add_return_item sr (return_item_row ri psi item landed) db)))"

definition new_return ::
  "uuid \<Rightarrow> uuid \<Rightarrow> uuid \<Rightarrow> string \<Rightarrow> datetime \<Rightarrow> string option \<Rightarrow> string option \<Rightarrow> shipment_return" where
  "new_return i slip warehouse returned_by now reference key =
     \<lparr>sr_id = i, sr_packing_slip_id = slip, sr_warehouse_id = warehouse, sr_returned_by = returned_by,
      sr_returned_at = now, sr_reference = reference,
      sr_create_idempotency_key = (if blank key then None else key), sr_items = []\<rparr>"

text \<open>A scheduled shipment with nothing left to return never left: it is cancelled.\<close>

definition settle_slip :: "packing_slip \<Rightarrow> db \<Rightarrow> db" where
  "settle_slip ps db =
     (let returned = returned_quantities db (ps_id ps); returnable = filter (\<lambda>psi. \<not> psi_is_manual psi) (ps_items ps) in
      if ps_status ps = SCHEDULED \<and> returnable \<noteq> [] \<and>
         list_all (\<lambda>psi. psi_quantity psi \<le> dict_get returned (psi_id psi)) returnable
      then cancel_slip (ps_id ps) db else db)"

definition create_shipment_return ::
  "datetime \<Rightarrow> uuid \<Rightarrow> uuid \<Rightarrow> string \<Rightarrow> string option \<Rightarrow> return_line list \<Rightarrow> string option \<Rightarrow> db \<Rightarrow>
   (uuid \<times> db) result" where
  "create_shipment_return now slip warehouse returned_by reference items key db =
     ensure (returned_by \<noteq> []) (ValidationError (Some ''returned_by'')) (
     ensure (items \<noteq> []) (ValidationError (Some ''items'')) (
     bindr (locked_packing_slip db slip) (\<lambda>ps.
     bindr (existing_return db slip key) (\<lambda>existing.
     case existing of
       Some sr \<Rightarrow> Inr (sr, db)
     | None \<Rightarrow>
         bindr (assert_usable_destination db warehouse (project_company db (ps_project_id ps)) ''warehouse_id'') (\<lambda>_.
         bindr (check_return db ps items) (\<lambda>_.
         let (sr, db) = fresh db;
             db = db\<lparr>shipment_returns := shipment_returns db @
               [new_return sr slip warehouse returned_by now (strip_or_none reference) key]\<rparr>
         in Inr (sr, settle_slip ps (route_lines now sr ps warehouse returned_by items db))))))))"

end
