(* ===== verification/Containers.thy ===== *)
theory Containers
  imports Shipments
begin

text \<open>
  Skids, carts and boxes (\<open>shipment_containers.py\<close>, with the photo bookkeeping of \<open>shipment_photos.py\<close>):
  how a project's staged pool is arranged for the truck. A container's lines are a field of it; every
  write is one transaction under the pool's lock, so the name index never fires after the name check.
\<close>

section \<open>Names\<close>

definition NAME_MAX :: nat where
  "NAME_MAX = 100"

definition clean_name :: "string option \<Rightarrow> string result" where
  "clean_name name =
     (let n = strip (sent_text name) in
      ensure (n \<noteq> []) (ValidationError (Some ''name'')) (
      ensure (length n \<le> NAME_MAX) (ValidationError (Some ''name'')) (Inr n)))"

definition check_name_free :: "db \<Rightarrow> uuid \<Rightarrow> string \<Rightarrow> unit result" where
  "check_name_free db project_id name =
     ensure (\<not> list_ex (\<lambda>c. sc_project_id c = project_id \<and> sc_packing_slip_id c = None \<and> sc_name c = name)
         (shipment_containers db))
       (ConflictError (Some ''name'')) (Inr ())"

definition open_container :: "db \<Rightarrow> uuid \<Rightarrow> shipment_container result" where
  "open_container db i =
     (case find_row sc_id i (shipment_containers db) of
        None \<Rightarrow> Inl NotFoundError
      | Some c \<Rightarrow> ensure (sc_packing_slip_id c = None) InvalidStateTransitionError (Inr c))"

definition set_container :: "uuid \<Rightarrow> (shipment_container \<Rightarrow> shipment_container) \<Rightarrow> db \<Rightarrow> db" where
  "set_container i f db = db\<lparr>shipment_containers := update_row sc_id i f (shipment_containers db)\<rparr>"

definition create_container ::
  "datetime \<Rightarrow> uuid \<Rightarrow> shipment_container_type \<Rightarrow> string option \<Rightarrow> string \<Rightarrow> db \<Rightarrow> (uuid \<times> db) result" where
  "create_container now project_id type name created_by db =
     bindr (clean_name name) (\<lambda>name.
     bindr (check_name_free db project_id name) (\<lambda>_.
     let (i, db) = fresh db
     in Inr (i, db\<lparr>shipment_containers := shipment_containers db @
          [\<lparr>sc_id = i, sc_project_id = project_id, sc_container_type = type, sc_name = name,
            sc_packing_slip_id = None, sc_created_by = created_by, sc_created_at = now, sc_items = []\<rparr>]\<rparr>)))"

definition rename_container :: "uuid \<Rightarrow> string option \<Rightarrow> db \<Rightarrow> db result" where
  "rename_container i name db =
     bindr (open_container db i) (\<lambda>c.
     bindr (clean_name name) (\<lambda>name.
     if name = sc_name c then Inr db
     else bindr (check_name_free db (sc_project_id c) name) (\<lambda>_. Inr (set_container i (\<lambda>c. c\<lparr>sc_name := name\<rparr>) db))))"

text \<open>A container broken down takes its lines and its photos with it; the keys of the photos go to the caller.\<close>

definition container_photo_keys :: "db \<Rightarrow> uuid \<Rightarrow> string list" where
  "container_photo_keys db i = map ph_s3_key (filter (\<lambda>ph. ph_container_id ph = Some i) (shipment_photos db))"

definition delete_container :: "uuid \<Rightarrow> db \<Rightarrow> (string list \<times> db) result" where
  "delete_container i db =
     bindr (open_container db i) (\<lambda>_.
     Inr (container_photo_keys db i,
       db\<lparr>shipment_containers := delete_rows (\<lambda>c. sc_id c = i) (shipment_containers db),
          shipment_photos := delete_rows (\<lambda>ph. ph_container_id ph = Some i) (shipment_photos db)\<rparr>))"

section \<open>The pool\<close>

text \<open>What is staged of a key, and how much of it sits in an open container.\<close>

type_synonym pool = "(staged_key \<times> int \<times> int) list"

fun pool_put :: "staged_key \<Rightarrow> int \<Rightarrow> int \<Rightarrow> pool \<Rightarrow> pool" where
  "pool_put k s p [] = [(k, s, p)]"
| "pool_put k s p (b # bs) =
     (if fst b = k then (k, fst (snd b) + s, snd (snd b) + p) # bs else b # pool_put k s p bs)"

definition bucket :: "pool \<Rightarrow> staged_key \<Rightarrow> int \<times> int" where
  "bucket pool k = (case map_of pool k of None \<Rightarrow> (0, 0) | Some b \<Rightarrow> b)"

definition ci_key :: "shipment_container_item \<Rightarrow> staged_key" where
  "ci_key i = loose_key (ci_opening_number i) (ci_hardware_category i) (ci_product_code i)"

definition placements :: "shipment_container \<Rightarrow> (staged_key \<times> int) list" where
  "placements c = map (\<lambda>i. (ci_key i, ci_quantity i)) (filter (\<lambda>i. \<not> ci_is_manual i) (sc_items c))"

definition get_containers :: "db \<Rightarrow> uuid \<Rightarrow> bool \<Rightarrow> shipment_container list" where
  "get_containers db project_id open_only =
     (let cs = sort_key sc_created_at (filter (\<lambda>c. sc_project_id c = project_id) (shipment_containers db))
      in if open_only then filter (\<lambda>c. sc_packing_slip_id c = None) cs else cs)"

fun place_all :: "(staged_key \<times> int) list \<Rightarrow> pool \<Rightarrow> pool" where
  "place_all [] pool = pool"
| "place_all (kv # kvs) pool = place_all kvs (pool_put (fst kv) 0 (snd kv) pool)"

fun stage_all :: "(staged_key \<times> int) list \<Rightarrow> pool \<Rightarrow> pool" where
  "stage_all [] pool = pool"
| "stage_all (kv # kvs) pool = stage_all kvs (pool_put (fst kv) (snd kv) 0 pool)"

definition build_staged_pool :: "db \<Rightarrow> uuid \<Rightarrow> pool" where
  "build_staged_pool db project_id =
     place_all (concat (map placements (get_containers db project_id True)))
       (stage_all (get_ship_ready_items db project_id) [])"

section \<open>Filling a container\<close>

record container_line =
  cl_opening_number :: "string option"
  cl_hardware_category :: string
  cl_product_code :: string
  cl_quantity :: int
  cl_is_manual :: bool

definition line_ok :: "container_line \<Rightarrow> bool" where
  "line_ok l \<longleftrightarrow> 1 \<le> cl_quantity l \<and>
     (cl_is_manual l \<longrightarrow> strip (cl_hardware_category l) \<noteq> [] \<and> strip (cl_product_code l) \<noteq> [])"

definition cl_key :: "container_line \<Rightarrow> staged_key" where
  "cl_key l = loose_key (cl_opening_number l) (cl_hardware_category l) (cl_product_code l)"

definition wanted_by :: "container_line list \<Rightarrow> (staged_key \<times> int) list" where
  "wanted_by items = tally (map (\<lambda>l. (cl_key l, cl_quantity l)) (filter (\<lambda>l. \<not> cl_is_manual l) items))"

definition check_available :: "shipment_container \<Rightarrow> (staged_key \<times> int) list \<Rightarrow> pool \<Rightarrow> unit result" where
  "check_available c wanted pool =
     (let held_here = tally (placements c) in
      ensure (list_all (\<lambda>kv. snd kv \<le> fst (bucket pool (fst kv)) - snd (bucket pool (fst kv)) + dict_get held_here (fst kv))
          wanted)
        (ValidationError (Some ''items'')) (Inr ()))"

fun container_items :: "uuid \<Rightarrow> nat \<Rightarrow> container_line list \<Rightarrow> shipment_container_item list" where
  "container_items i index [] = []"
| "container_items i index (l # ls) =
     \<lparr>ci_id = i, ci_opening_number = cl_opening_number l, ci_hardware_category = cl_hardware_category l,
      ci_product_code = cl_product_code l, ci_quantity = cl_quantity l, ci_position = index,
      ci_is_manual = cl_is_manual l\<rparr> # container_items (Suc i) (Suc index) ls"

definition put_items :: "uuid \<Rightarrow> container_line list \<Rightarrow> db \<Rightarrow> db" where
  "put_items i items db =
     set_container i (\<lambda>c. c\<lparr>sc_items := container_items (next_id db) 0 items\<rparr>)
       (db\<lparr>next_id := next_id db + length items\<rparr>)"

definition set_container_items :: "uuid \<Rightarrow> container_line list \<Rightarrow> db \<Rightarrow> db result" where
  "set_container_items i items db =
     bindr (open_container db i) (\<lambda>c.
     let pool = build_staged_pool db (sc_project_id c) in
     ensure (list_all line_ok items) (ValidationError (Some ''items'')) (
     bindr (check_available c (wanted_by items) pool) (\<lambda>_. Inr (put_items i items db))))"

definition move_between_containers ::
  "uuid \<Rightarrow> container_line list \<Rightarrow> uuid \<Rightarrow> container_line list \<Rightarrow> db \<Rightarrow> db result" where
  "move_between_containers source source_items target target_items db =
     ensure (source \<noteq> target) (ValidationError (Some ''target'')) (
     ensure (length (remdups (map sc_project_id
         (filter (\<lambda>c. sc_id c = source \<or> sc_id c = target) (shipment_containers db)))) = 1)
       (ValidationError (Some ''target'')) (
     bindr (set_container_items source source_items db) (set_container_items target target_items)))"

section \<open>Shipping containers\<close>

fun open_all :: "db \<Rightarrow> uuid list \<Rightarrow> shipment_container list result" where
  "open_all db [] = Inr []"
| "open_all db (i # is) = bindr (open_container db i) (\<lambda>c. bindr (open_all db is) (\<lambda>cs. Inr (c # cs)))"

definition check_container ::
  "uuid \<Rightarrow> (uuid \<times> uuid list) list option \<Rightarrow> shipment_container \<Rightarrow> unit result" where
  "check_container project_id expected c =
     ensure (sc_project_id c = project_id) (ValidationError (Some ''containerIds'')) (
     ensure (sc_items c \<noteq> []) (ValidationError (Some ''containerIds'')) (
     ensure (case expected of None \<Rightarrow> True
         | Some e \<Rightarrow> set (map ci_id (sc_items c)) = (case map_of e (sc_id c) of None \<Rightarrow> {} | Some ids \<Rightarrow> set ids))
       (ConflictError (Some ''containerIds'')) (Inr ())))"

fun check_containers ::
  "uuid \<Rightarrow> (uuid \<times> uuid list) list option \<Rightarrow> shipment_container list \<Rightarrow> unit result" where
  "check_containers project_id expected [] = Inr ()"
| "check_containers project_id expected (c # cs) =
     bindr (check_container project_id expected c) (\<lambda>_. check_containers project_id expected cs)"

definition cart_line :: "shipment_container_item \<Rightarrow> cart_item" where
  "cart_line i = \<lparr>ca_opening_number = ci_opening_number i, ca_building = None, ca_floor = None, ca_location = None,
     ca_hardware_category = ci_hardware_category i, ca_product_code = ci_product_code i,
     ca_quantity = Some (ci_quantity i), ca_is_manual = ci_is_manual i\<rparr>"

definition cart_of :: "shipment_container list \<Rightarrow> cart_item list" where
  "cart_of cs = concat (map (\<lambda>c. map cart_line (sort_key ci_position (sc_items c))) cs)"

definition stamp_slip :: "uuid list \<Rightarrow> uuid \<Rightarrow> db \<Rightarrow> db" where
  "stamp_slip ids slip db =
     db\<lparr>shipment_photos := map (\<lambda>ph. if ph_container_id ph \<in> Some ` set ids then ph\<lparr>ph_packing_slip_id := Some slip\<rparr> else ph)
          (shipment_photos db)\<rparr>"

definition stamp_containers :: "uuid list \<Rightarrow> uuid \<Rightarrow> db \<Rightarrow> db" where
  "stamp_containers ids slip db =
     db\<lparr>shipment_containers := map (\<lambda>c. if sc_id c \<in> set ids then c\<lparr>sc_packing_slip_id := Some slip\<rparr> else c)
          (shipment_containers db)\<rparr>"

definition confirm_shipment_from_containers ::
  "datetime \<Rightarrow> date \<Rightarrow> uuid \<Rightarrow> uuid list \<Rightarrow> string \<Rightarrow> site_form option \<Rightarrow> (uuid \<times> uuid list) list option \<Rightarrow>
   uuid option \<Rightarrow> (string \<times> string) option \<Rightarrow> db \<Rightarrow> (uuid \<times> db) result" where
  "confirm_shipment_from_containers now today project_id container_ids shipped_by details expected load_id driver db =
     ensure (container_ids \<noteq> []) (ValidationError (Some ''containerIds'')) (
     bindr (open_all db (sort (remdups container_ids))) (\<lambda>cs.
     bindr (check_containers project_id expected cs) (\<lambda>_.
     bindr (confirm_shipment now today project_id shipped_by (cart_of cs) details load_id driver db) (\<lambda>(slip, db).
     Inr (slip, stamp_slip (map sc_id cs) slip (stamp_containers (map sc_id cs) slip db))))))"

section \<open>Every project's pool at once\<close>

text \<open>The staging page, for a company or for all of them: the projects with something staged or an open container.\<close>

definition in_company :: "db \<Rightarrow> string option \<Rightarrow> uuid \<Rightarrow> bool" where
  "in_company db company project_id =
     (case company of None \<Rightarrow> True
      | Some c \<Rightarrow> list_ex (\<lambda>pj. pj_id pj = project_id \<and> pj_company pj = Some c) (projects db))"

definition fulfilled_by_project :: "db \<Rightarrow> string option \<Rightarrow> ((uuid \<times> staged_key) \<times> int) list" where
  "fulfilled_by_project db company =
     sum_by (\<lambda>pi. (fst pi, pi_key (snd pi))) (\<lambda>pi. pi_requested_quantity (snd pi))
       (concat (map (\<lambda>pr. map (Pair (pr_project_id pr)) (pr_items pr))
          (filter (\<lambda>pr. pr_source pr = PULL_SHIPPING_OUT \<and> pr_status pr = PULL_COMPLETED \<and>
             in_company db company (pr_project_id pr)) (pull_requests db))))"

definition shipped_by_project :: "db \<Rightarrow> string option \<Rightarrow> ((uuid \<times> staged_key) \<times> int) list" where
  "shipped_by_project db company =
     sum_by (\<lambda>pi. (fst pi, psi_key (snd pi))) (\<lambda>pi. psi_quantity (snd pi))
       (filter (\<lambda>pi. \<not> psi_is_manual (snd pi))
         (concat (map (\<lambda>ps. map (Pair (ps_project_id ps)) (ps_items ps))
            (filter (\<lambda>ps. in_company db company (ps_project_id ps)) (packing_slips db)))))"

definition open_containers :: "db \<Rightarrow> string option \<Rightarrow> shipment_container list" where
  "open_containers db company =
     filter (\<lambda>c. sc_packing_slip_id c = None \<and> in_company db company (sc_project_id c)) (shipment_containers db)"

definition overview_pool :: "db \<Rightarrow> string option \<Rightarrow> uuid \<Rightarrow> pool" where
  "overview_pool db company p =
     place_all (concat (map placements (filter (\<lambda>c. sc_project_id c = p) (open_containers db company))))
       (map (\<lambda>kv. (snd (fst kv), snd kv, 0))
         (filter (\<lambda>kv. fst (fst kv) = p \<and> 0 < snd kv)
           (map (\<lambda>kv. (fst kv, snd kv - dict_get (shipped_by_project db company) (fst kv)))
             (fulfilled_by_project db company))))"

definition overview_projects :: "db \<Rightarrow> string option \<Rightarrow> uuid list" where
  "overview_projects db company =
     remdups (map (\<lambda>kv. fst (fst kv))
         (filter (\<lambda>kv. 0 < snd kv - dict_get (shipped_by_project db company) (fst kv)) (fulfilled_by_project db company)) @
       map sc_project_id (open_containers db company))"

definition build_staging_overview :: "db \<Rightarrow> string option \<Rightarrow> (project \<times> pool \<times> nat) list" where
  "build_staging_overview db company =
     map (\<lambda>pj. (pj, overview_pool db company (pj_id pj),
            length (filter (\<lambda>c. sc_project_id c = pj_id pj) (open_containers db company))))
       (sort_key pj_number (filter (\<lambda>pj. pj_id pj \<in> set (overview_projects db company)) (projects db)))"

end
