(* ===== verification/ShipmentFacts.thy ===== *)
theory ShipmentFacts
  imports Shipments Demo CancellingFacts
begin

text \<open>
  Packing slips. What confirming a cart does to the staged pool and when it succeeds, what a return puts
  back and where, and the facts that hold of every slip: its number is free when it is minted, no line comes
  back more often than it left, a cancelled slip is empty.
\<close>

section \<open>The number of a slip\<close>

lemma walk_past_taken_free:
  "fst (walk_past_taken taken seq) \<notin> set taken \<and>
   (\<exists>n \<ge> seq. fst (walk_past_taken taken seq) = slip_number_of n \<and> snd (walk_past_taken taken seq) = n + 1 \<and>
     (\<forall>k \<in> {seq..<n}. slip_number_of k \<in> set taken))"
proof (induction taken seq rule: walk_past_taken.induct)
  case (1 taken seq)
  show ?case
  proof (cases "slip_number_of seq \<in> set taken")
    case True
    then have "walk_past_taken taken seq = walk_past_taken taken (seq + 1)"
      by (simp add: walk_past_taken.simps [of taken seq])
    moreover obtain n where "n \<ge> seq + 1" "fst (walk_past_taken taken (seq + 1)) = slip_number_of n"
      "snd (walk_past_taken taken (seq + 1)) = n + 1" and walked: "\<forall>k \<in> {seq + 1..<n}. slip_number_of k \<in> set taken"
      using "1.IH" [OF True] by blast
    moreover have "slip_number_of k \<in> set taken" if "k \<in> {seq..<n}" for k
      using walked True that by (cases "k = seq") auto
    ultimately show ?thesis using "1.IH" [OF True] by (intro conjI exI [of _ n]) simp_all
  next
    case False
    then have "walk_past_taken taken seq = (slip_number_of seq, seq + 1)"
      by (simp add: walk_past_taken.simps [of taken seq])
    with False show ?thesis by simp
  qed
qed

text \<open>The walk takes at most one step for every slip there is.\<close>

lemma walk_length:
  assumes "\<forall>k \<in> {seq..<n}. slip_number_of k \<in> set taken" and "0 \<le> seq"
  shows "n \<le> seq + int (length taken)"
proof -
  have "inj_on slip_number_of {seq..<n}" using assms(2) by (auto simp: inj_on_def slip_number_inj)
  then have "card {seq..<n} = card (slip_number_of ` {seq..<n})" by (simp add: card_image)
  also have "\<dots> \<le> card (set taken)" using assms(1) by (intro card_mono) auto
  also have "\<dots> \<le> length taken" by (rule card_length)
  finally show ?thesis by simp
qed

lemma demo_slip_suffix_minted:
  "0 \<le> i \<Longrightarrow> demo_slip_suffix (''PS-D'' @ zero_pad 5 i) = Some (numeral_value (zero_pad 5 i))"
  by (simp add: demo_slip_suffix_def is_numeral_zero_pad)

lemma demo_number_free: "mint_demo_packing_slip_number db \<notin> set (slip_numbers db)"
proof
  let ?used = "List.map_filter demo_slip_suffix (slip_numbers db)"
  let ?next = "int (if ?used = [] then 0 else Max (set ?used)) + 1"
  have minted: "mint_demo_packing_slip_number db = ''PS-D'' @ zero_pad 5 ?next"
    by (simp add: mint_demo_packing_slip_number_def Let_def)
  assume "mint_demo_packing_slip_number db \<in> set (slip_numbers db)"
  moreover have "demo_slip_suffix (mint_demo_packing_slip_number db) = Some (numeral_value (zero_pad 5 ?next))"
    unfolding minted by (rule demo_slip_suffix_minted) simp
  ultimately have mem: "numeral_value (zero_pad 5 ?next) \<in> set ?used"
    by (force simp: set_map_filter)
  then have "numeral_value (zero_pad 5 ?next) \<le> Max (set ?used)" "?used \<noteq> []" by auto
  then show False using numeral_value_zero_pad [of ?next 5] by simp
qed

text \<open>What minting a number changes: the counter, and only forward.\<close>

lemma mint_slip_frame:
  assumes "mint_packing_slip_number company db = (number, db')"
  shows "number \<notin> set (slip_numbers db)" "\<exists>n. db' = db\<lparr>packing_slip_counter := n\<rparr>"
proof -
  show "number \<notin> set (slip_numbers db)"
    using assms demo_number_free walk_past_taken_free
    by (auto simp: mint_packing_slip_number_def Let_def split: if_splits)
  have "db = db\<lparr>packing_slip_counter := packing_slip_counter db\<rparr>" by simp
  then show "\<exists>n. db' = db\<lparr>packing_slip_counter := n\<rparr>"
    using assms unfolding mint_packing_slip_number_def Let_def by (metis snd_conv)
qed

interpretation slip_numbering: number_source "\<lambda>(company, db). fst (mint_packing_slip_number company db)"
    "\<lambda>(company, db). slip_numbers db" "\<lambda>_. True"
  by unfold_locales (simp add: split_beta mint_slip_frame(1) [OF prod.collapse [symmetric]])

lemma check_cart_error: "check_cart db p by_whom items = Inl e \<Longrightarrow> (\<exists>f. e = ValidationError f) \<or> e = GpSetupInvalidError"
  by (auto simp: check_cart_def require_gp_setup_ok_def result_simps Let_def split: option.splits)

lemma apply_site_form_error: "apply_site_form details ps = Inl e \<Longrightarrow> \<exists>f. e = ValidationError f"
  by (auto simp: apply_site_form_def result_simps Let_def)

lemma choose_load_error:
  "choose_load today pj load day by_whom db = Inl e \<Longrightarrow>
     e \<in> {NotFoundError, PyAttributeError, InvalidStateTransitionError, IntegrityError}"
  by (auto simp: choose_load_def join_load_def start_load_def result_simps Let_def split_beta
      split: option.splits)

lemma notify_warehouse_total: "create_notification now p (Some WAREHOUSE_RECIPIENT_ROLE) ty pull None slip db \<noteq> Inl e"
  using create_notification_total [of "Some WAREHOUSE_RECIPIENT_ROLE" None now p ty pull slip db]
  by (auto simp: image_iff) (metis audience_roles(2) fst_conv imageE sum.distinct(1))

text \<open>
  C24. The loop that looks for a free packing-slip number ends, after at most one turn for every slip there
  is, and what it ends on is the first free number from the counter on: the number names no slip, every one
  before it does, the counter is left past it, and so the confirmation that mints it never runs into its own
  uniqueness guard.
\<close>

theorem packing_slip_number_free:
  "fst (mint_packing_slip_number company db) \<notin> set (slip_numbers db) \<and>
   (\<not> is_demo_company company \<longrightarrow>
     (\<exists>n. fst (mint_packing_slip_number company db) = slip_number_of n \<and>
        (case packing_slip_counter db of None \<Rightarrow> 1 | Some c \<Rightarrow> c) \<le> n \<and>
        packing_slip_counter (snd (mint_packing_slip_number company db)) = Some (n + 1) \<and>
        (\<forall>k \<in> {case packing_slip_counter db of None \<Rightarrow> 1 | Some c \<Rightarrow> c..<n}. slip_number_of k \<in> set (slip_numbers db)) \<and>
        (packing_slip_counter db \<noteq> None \<longrightarrow> 0 \<le> the (packing_slip_counter db) \<longrightarrow>
           n \<le> the (packing_slip_counter db) + int (length (packing_slips db))))) \<and>
   (\<forall>f. confirm_shipment now today p by_whom items details load driver db \<noteq> Inl (ConflictError f))"
proof (intro conjI impI allI)
  show "fst (mint_packing_slip_number company db) \<notin> set (slip_numbers db)"
    using mint_slip_frame(1) by (metis prod.collapse)
  assume "\<not> is_demo_company company"
  moreover obtain n where n: "(case packing_slip_counter db of None \<Rightarrow> 1 | Some c \<Rightarrow> c) \<le> n"
    "fst (walk_past_taken (slip_numbers db) (case packing_slip_counter db of None \<Rightarrow> 1 | Some c \<Rightarrow> c)) = slip_number_of n"
    "snd (walk_past_taken (slip_numbers db) (case packing_slip_counter db of None \<Rightarrow> 1 | Some c \<Rightarrow> c)) = n + 1"
    "\<forall>k \<in> {case packing_slip_counter db of None \<Rightarrow> 1 | Some c \<Rightarrow> c..<n}. slip_number_of k \<in> set (slip_numbers db)"
    using walk_past_taken_free by blast
  ultimately show "\<exists>n. fst (mint_packing_slip_number company db) = slip_number_of n \<and>
        (case packing_slip_counter db of None \<Rightarrow> 1 | Some c \<Rightarrow> c) \<le> n \<and>
        packing_slip_counter (snd (mint_packing_slip_number company db)) = Some (n + 1) \<and>
        (\<forall>k \<in> {case packing_slip_counter db of None \<Rightarrow> 1 | Some c \<Rightarrow> c..<n}. slip_number_of k \<in> set (slip_numbers db)) \<and>
        (packing_slip_counter db \<noteq> None \<longrightarrow> 0 \<le> the (packing_slip_counter db) \<longrightarrow>
           n \<le> the (packing_slip_counter db) + int (length (packing_slips db)))"
    using walk_length [OF n(4)]
    by (intro exI [of _ n]) (auto simp: mint_packing_slip_number_def slip_numbers_def Let_def)
next
  fix f
  show "confirm_shipment now today p by_whom items details load driver db \<noteq> Inl (ConflictError f)"
    using mint_slip_frame(1) [of "project_company db p" db]
    by (auto simp: confirm_shipment_def result_simps Let_def split_beta notify_warehouse_total
        dest!: check_cart_error apply_site_form_error choose_load_error) (metis prod.collapse)
qed

section \<open>Confirming\<close>

text \<open>What is staged and not yet on a slip.\<close>

definition staged_left :: "db \<Rightarrow> uuid \<Rightarrow> staged_key \<Rightarrow> int" where
  "staged_left db p k = dict_get (staged_fulfilled db p) k - dict_get (staged_shipped db p) k"

text \<open>The staged pool is never overdrawn.\<close>

definition pool_ok :: "db \<Rightarrow> uuid \<Rightarrow> bool" where
  "pool_ok db p \<longleftrightarrow> (\<forall>k. 0 \<le> staged_left db p k)"

lemma dict_get_mset:
  assumes "mset xs = mset ys" and "distinct (map fst ys)"
  shows "dict_get xs k = dict_get ys k"
proof -
  have "distinct (map fst xs)" using assms mset_eq_imp_distinct_iff [of "map fst xs" "map fst ys"] by simp
  then show ?thesis using dict_get_distinct [of xs k] dict_get_distinct [OF assms(2), of k] qty_of_mset [OF assms(1), of k]
    by simp
qed

lemma map_of_map_value: "map_of (map (\<lambda>kv. (fst kv, g kv)) d) k = map_option (\<lambda>v. g (k, v)) (map_of d k)"
  by (induction d) auto

lemma ship_ready_value:
  "dict_get (get_ship_ready_items db p) k =
     (if k \<in> fst ` set (staged_fulfilled db p) then max 0 (staged_left db p k) else 0)"
proof -
  let ?raw = "map (\<lambda>kv. (fst kv, snd kv - dict_get (staged_shipped db p) (fst kv))) (staged_fulfilled db p)"
  have dist: "distinct (map fst ?raw)" by (simp add: staged_fulfilled_def comp_def)
  have "mset (get_ship_ready_items db p) = mset (filter (\<lambda>li. 0 < snd li) ?raw)"
    by (simp add: get_ship_ready_items_def Let_def)
  moreover have "distinct (map fst (filter (\<lambda>li. 0 < snd li) ?raw))" by (rule distinct_map_filter [OF dist])
  ultimately have "dict_get (get_ship_ready_items db p) k = dict_get (filter (\<lambda>li. 0 < snd li) ?raw) k"
    by (rule dict_get_mset)
  also have "\<dots> = max 0 (dict_get ?raw k)" by (rule dict_get_filter_pos [OF dist])
  also have "dict_get ?raw k = (case map_of (staged_fulfilled db p) k of None \<Rightarrow> 0
      | Some v \<Rightarrow> v - dict_get (staged_shipped db p) k)"
    unfolding dict_get_def [of ?raw] map_of_map_value by (simp split: option.split)
  also have "\<dots> = (if k \<in> fst ` set (staged_fulfilled db p) then staged_left db p k else 0)"
    unfolding staged_left_def dict_get_def [of "staged_fulfilled db p"]
    using map_of_eq_None_iff [of "staged_fulfilled db p" k] by (cases "map_of (staged_fulfilled db p) k") simp_all
  finally show ?thesis by simp
qed

lemma ship_ready_bound:
  "0 < dict_get (get_ship_ready_items db p) k \<Longrightarrow> dict_get (get_ship_ready_items db p) k = staged_left db p k"
  unfolding ship_ready_value by (simp split: if_splits)

lemma slip_items_qty:
  "sum_list (map psi_quantity (filter (\<lambda>i. psi_key i = k) (filter (\<lambda>i. \<not> psi_is_manual i) (slip_items n items)))) =
   dict_get (cart_agg items) k"
  unfolding cart_agg_def dict_get_tally
  by (induction items arbitrary: n) (auto simp: slip_item_def psi_key_def ca_key_def)

lemma choose_load_Inr:
  assumes "choose_load today pj load day by_whom db = Inr (l, db')"
  obtains n ls where "db' = db\<lparr>next_id := n, shipment_loads := ls\<rparr>" "next_id db \<le> n"
    "(ls = shipment_loads db \<and> l \<in> ld_id ` set ls) \<or>
     (\<exists>ld. ls = shipment_loads db @ [ld] \<and> ld_id ld = l \<and> next_id db \<le> l \<and> l < n)"
proof (cases load)
  case (Some i)
  then have "db' = db" and "l \<in> ld_id ` set (shipment_loads db)"
    using assms find_row_Some [of ld_id i "shipment_loads db"]
    by (auto simp: choose_load_def join_load_def bindr_eq_Inr ensure_eq_Inr split: option.splits)
  then show ?thesis by (intro that [of "shipment_loads db" "next_id db"]) simp_all
next
  case None
  then show ?thesis using assms
    by (auto simp: choose_load_def start_load_def fresh_def Let_def bindr_eq_Inr ensure_eq_Inr split: option.splits
        intro: that)
qed

lemma apply_site_form_Inr:
  "apply_site_form details ps = Inr ps' \<Longrightarrow> \<exists>u d w f. ps' = ps\<lparr>ps_pickup_date := u, ps_delivery_date := d,
     ps_weight_lbs := w, ps_form := f\<rparr>"
  by (auto simp: apply_site_form_def Let_def ensure_eq_Inr)

lemma create_notification_eq:
  "create_notification now p role ty pull user slip db = Inr db' \<Longrightarrow>
     \<exists>n. db' = db\<lparr>next_id := Suc (next_id db), notifications := notifications db @ [n]\<rparr> \<and>
       no_type n = ty \<and> no_pull_request_id n = pull \<and> no_packing_slip_id n = slip"
  by (intro exI [of _ "\<lparr>no_id = next_id db, no_project_id = p, no_recipient_role = role,
      no_recipient_user_id = user, no_type = ty, no_pull_request_id = pull, no_packing_slip_id = slip, no_receive_draft_id = None,
      no_is_read = False, no_created_at = now\<rparr>"])
    (simp add: create_notification_def fresh_def Let_def split: if_splits)

lemma confirm_shipment_Inr:
  assumes "confirm_shipment now today p by_whom items details load driver db = Inr (i, db')"
  obtains ps n m ls c where
    "check_cart db p by_whom items = Inr ()" "i = next_id db"
    "ps_id ps = i" "ps_status ps = SCHEDULED" "ps_project_id ps = p"
    "\<exists>n. ps_items ps = slip_items n items \<and> next_id db < n \<and> n + length items < m"
    "ps_packing_slip_number ps \<notin> set (slip_numbers db)"
    "no_packing_slip_id n = Some i" "no_type n = SHIPMENT_COMPLETED"
    "db' = db\<lparr>next_id := m, packing_slips := packing_slips db @ [ps], shipment_loads := ls,
       packing_slip_counter := c, notifications := notifications db @ [n]\<rparr>"
    "\<exists>l. ps_load_id ps = Some l \<and> ((ls = shipment_loads db \<and> l \<in> ld_id ` set ls) \<or>
       (\<exists>ld. ls = shipment_loads db @ [ld] \<and> ld_id ld = l \<and> next_id db < l \<and> l < m))"
    "ps_picked_up_at ps = None" "ps_picked_up_by ps = None" "ps_delivered_at ps = None" "ps_delivered_by ps = None"
proof -
  obtain number db1 where mint: "mint_packing_slip_number (project_company db p) db = (number, db1)"
    by (cases "mint_packing_slip_number (project_company db p) db")
  then obtain c where db1: "db1 = db\<lparr>packing_slip_counter := c\<rparr>" and free: "number \<notin> set (slip_numbers db)"
    using mint_slip_frame by metis
  let ?db2 = "db1\<lparr>next_id := Suc (next_id db1)\<rparr>"
  obtain ps0 l db3 where ok: "check_cart db p by_whom items = Inr ()"
    and form: "apply_site_form details (new_slip (next_id db1) number p by_whom now) = Inr ps0"
    and load: "choose_load today (find_row pj_id p (projects ?db2)) load (ps_pickup_date (apply_driver driver ps0)) by_whom ?db2
      = Inr (l, db3)"
    and note_result: "create_notification now p (Some WAREHOUSE_RECIPIENT_ROLE) SHIPMENT_COMPLETED None None (Some (next_id db1))
      (db3\<lparr>next_id := next_id db3 + length items, packing_slips := packing_slips db3 @
        [(apply_driver driver ps0)\<lparr>ps_load_id := Some l, ps_items := slip_items (next_id db3) items\<rparr>]\<rparr>) = Inr db'"
    and i: "i = next_id db1"
    using assms unfolding confirm_shipment_def mint fresh_def Let_def
    by (auto simp: bindr_eq_Inr ensure_eq_Inr)
  obtain m ls where db3: "db3 = ?db2\<lparr>next_id := m, shipment_loads := ls\<rparr>" and m: "next_id ?db2 \<le> m"
    and rides: "(ls = shipment_loads ?db2 \<and> l \<in> ld_id ` set ls) \<or>
      (\<exists>ld. ls = shipment_loads ?db2 @ [ld] \<and> ld_id ld = l \<and> next_id ?db2 \<le> l \<and> l < m)"
    using load by (rule choose_load_Inr)
  let ?ps = "(apply_driver driver ps0)\<lparr>ps_load_id := Some l, ps_items := slip_items (next_id db3) items\<rparr>"
  obtain n where n: "no_packing_slip_id n = Some (next_id db1)" "no_type n = SHIPMENT_COMPLETED"
    "db' = db3\<lparr>packing_slips := packing_slips db3 @ [?ps], next_id := Suc (next_id db3 + length items),
       notifications := notifications db3 @ [n]\<rparr>"
    using create_notification_eq [OF note_result] by auto
  show ?thesis
  proof (rule that [of ?ps "Suc (next_id db3 + length items)" n c ls])
    show "check_cart db p by_whom items = Inr ()" by (fact ok)
    show "i = next_id db" using i db1 by simp
    show "ps_id ?ps = i" "ps_status ?ps = SCHEDULED" "ps_project_id ?ps = p"
      "ps_packing_slip_number ?ps \<notin> set (slip_numbers db)"
      using apply_site_form_Inr [OF form] i free by (auto simp: apply_driver_def new_slip_def)
    show "\<exists>n. ps_items ?ps = slip_items n items \<and> next_id db < n \<and> n + length items < Suc (next_id db3 + length items)"
      using m by (intro exI [of _ "next_id db3"]) (simp add: db3 db1)
    show "no_packing_slip_id n = Some i" "no_type n = SHIPMENT_COMPLETED" using n i by simp_all
    show "db' = db\<lparr>next_id := Suc (next_id db3 + length items), packing_slips := packing_slips db @ [?ps],
        shipment_loads := ls, packing_slip_counter := c, notifications := notifications db @ [n]\<rparr>"
      unfolding n(3) by (rule db.equality) (simp_all add: db3 db1)
    show "\<exists>l. ps_load_id ?ps = Some l \<and> ((ls = shipment_loads db \<and> l \<in> ld_id ` set ls) \<or>
       (\<exists>ld. ls = shipment_loads db @ [ld] \<and> ld_id ld = l \<and> next_id db < l \<and> l < Suc (next_id db3 + length items)))"
      using rides by (auto simp: db3 db1)
    show "ps_picked_up_at ?ps = None" "ps_picked_up_by ?ps = None" "ps_delivered_at ?ps = None" "ps_delivered_by ?ps = None"
      using apply_site_form_Inr [OF form] by (auto simp: apply_driver_def new_slip_def)
  qed
qed

lemma slip_items_units: "i \<in> set (slip_items n items) \<Longrightarrow> \<exists>item \<in> set items. psi_quantity i = ca_units item"
  by (induction items arbitrary: n) (auto simp: slip_item_def)

lemma shipped_lines_append:
  "packing_slips db' = packing_slips db @ [ps] \<Longrightarrow>
   shipped_lines db' q = shipped_lines db q @ (if ps_project_id ps = q then filter (\<lambda>i. \<not> psi_is_manual i) (ps_items ps) else [])"
  by (simp add: shipped_lines_def)

lemma cart_within_staged:
  assumes "check_cart db p by_whom items = Inr ()" and "0 < dict_get (cart_agg items) k"
  shows "dict_get (cart_agg items) k \<le> staged_left db p k"
proof -
  have all: "list_all (\<lambda>kv. snd kv \<le> dict_get (get_ship_ready_items db p) (fst kv)) (cart_agg items)"
    using assms(1) by (simp add: check_cart_def bindr_eq_Inr ensure_eq_Inr Let_def)
  have "k \<in> fst ` set (cart_agg items)" using assms(2) dict_get_notin by fastforce
  then obtain v where kv: "(k, v) \<in> set (cart_agg items)" by auto
  then have "v = dict_get (cart_agg items) k" by (simp add: cart_agg_def tally_mem tally_simps)
  moreover have "v \<le> dict_get (get_ship_ready_items db p) k" using all kv by (auto simp: list_all_iff)
  ultimately show ?thesis using ship_ready_bound [of db p k] assms(2) by linarith
qed

lemma staged_left_shipped:
  assumes "packing_slips db' = packing_slips db @ [ps]" and "pull_requests db' = pull_requests db"
    and "ps_items ps = slip_items n items"
  shows "staged_left db' q k = staged_left db q k - (if q = ps_project_id ps then dict_get (cart_agg items) k else 0)"
  using assms(2) slip_items_qty [of k n items]
  by (auto simp: staged_left_def staged_fulfilled_def staged_shipped_def dict_get_sum_by
      shipped_lines_append [OF assms(1)] assms(3))

lemma cart_agg_nonneg:
  assumes "check_cart db p by_whom items = Inr ()"
  shows "0 \<le> dict_get (cart_agg items) k"
proof -
  have "\<forall>i \<in> set items. 0 \<le> ca_units i"
    using assms by (auto simp: check_cart_def bindr_eq_Inr ensure_eq_Inr list_all_iff ca_units_def split: option.splits)
  then show ?thesis
    unfolding cart_agg_def dict_get_tally by (intro qty_of_nonneg) auto
qed

lemma confirm_shipment_cart: "confirm_shipment now today p by_whom items details load driver db = Inr x \<Longrightarrow>
    check_cart db p by_whom items = Inr ()"
  by (auto simp: confirm_shipment_def bindr_eq_Inr)

lemma confirm_shipment_left:
  assumes "confirm_shipment now today p by_whom items details load driver db = Inr (i, db')"
  shows "staged_left db' q k = staged_left db q k - (if q = p then dict_get (cart_agg items) k else 0)"
    and "pull_requests db' = pull_requests db" and "shipment_containers db' = shipment_containers db"
    and "next_id db < next_id db'"
    and "shipment_photos db' = shipment_photos db" and "same_stock db db'"
proof -
  obtain ps n m ls c where run: "check_cart db p by_whom items = Inr ()" "i = next_id db"
    "ps_id ps = i" "ps_status ps = SCHEDULED" "ps_project_id ps = p"
    "\<exists>n. ps_items ps = slip_items n items \<and> next_id db < n \<and> n + length items < m"
    "ps_packing_slip_number ps \<notin> set (slip_numbers db)"
    "no_packing_slip_id n = Some i" "no_type n = SHIPMENT_COMPLETED"
    "db' = db\<lparr>next_id := m, packing_slips := packing_slips db @ [ps], shipment_loads := ls,
       packing_slip_counter := c, notifications := notifications db @ [n]\<rparr>"
    using assms by (rule confirm_shipment_Inr)
  show "staged_left db' q k = staged_left db q k - (if q = p then dict_get (cart_agg items) k else 0)"
    using run(6) staged_left_shipped [of db' db ps _ items q k] by (auto simp: run(5,10))
  show "pull_requests db' = pull_requests db" "shipment_containers db' = shipment_containers db" "next_id db < next_id db'"
    "shipment_photos db' = shipment_photos db" "same_stock db db'"
    using run(6) unfolding run(10) same_stock_def by auto
qed

text \<open>
  C22. A confirmed shipment takes off the staged pool exactly what its cart names and never more than
  is there: line by line the units left drop by the cart's, a line that asks for any is covered by what
  was left, so a pool that was not overdrawn stays so - in every project. The shelf and the claims on
  it are not touched: the hardware left them when its pull was picked.
\<close>

theorem confirm_shipment_takes_staged:
  assumes "confirm_shipment now today p by_whom items details load driver db = Inr (i, db')"
  shows "(\<forall>q k. staged_left db' q k = staged_left db q k - (if q = p then dict_get (cart_agg items) k else 0)) \<and>
    (\<forall>k. 0 < dict_get (cart_agg items) k \<longrightarrow> dict_get (cart_agg items) k \<le> staged_left db p k) \<and>
    (\<forall>q. pool_ok db q \<longrightarrow> pool_ok db' q) \<and> same_stock db db'"
proof -
  note left = confirm_shipment_left(1) [OF assms] and cart = confirm_shipment_cart [OF assms]
  have within: "0 < dict_get (cart_agg items) k \<Longrightarrow> dict_get (cart_agg items) k \<le> staged_left db p k" for k
    by (rule cart_within_staged [OF cart])
  have "0 \<le> staged_left db' q k" if "pool_ok db q" for q k
  proof -
    have "0 \<le> staged_left db q k" using that unfolding pool_ok_def by blast
    then show ?thesis
      using left [of q k] within [of k] cart_agg_nonneg [OF cart, of k] by (cases "q = p"; fastforce)
  qed
  then show ?thesis using left within confirm_shipment_left(6) [OF assms] unfolding pool_ok_def by simp
qed

text \<open>A header the form's checks and its columns take.\<close>

definition form_ok :: "site_form option \<Rightarrow> bool" where
  "form_ok details \<longleftrightarrow> form_fits details \<and>
     (case details of None \<Rightarrow> True
      | Some d \<Rightarrow> (case sf_weight_lbs d of None \<Rightarrow> True | Some w \<Rightarrow> weight_allowed w) \<and>
          (case (sf_pickup_date d, sf_delivery_date d) of (Some a, Some b) \<Rightarrow> a \<le> b | _ \<Rightarrow> True))"

lemma apply_site_form_ok: "form_ok details \<Longrightarrow> \<exists>ps'. apply_site_form details ps = Inr ps'"
  by (cases details) (auto simp: form_ok_def apply_site_form_def Let_def empty_form_def ensure_def)

lemma numeral_no_backslash: "is_numeral s \<Longrightarrow> CHR 0x5C \<notin> set s"
  by (auto simp: is_numeral_def list_all_iff less_eq_char_def)

lemma date_stamp_no_backslash: "CHR 0x5C \<notin> set (date_stamp d)"
  using numeral_no_backslash [OF is_numeral_zero_pad] numeral_no_backslash [OF is_numeral_digits]
  by (auto simp: date_stamp_def split: prod.split)

lemma load_base_no_backslash: "CHR 0x5C \<notin> set n \<Longrightarrow> CHR 0x5C \<notin> set (load_number_base n day company)"
  using set_strip [of n] date_stamp_no_backslash by (auto simp: load_number_base_def)

lemma start_load_total:
  assumes "pj_company pj = Some company" and "CHR 0x5C \<notin> set (pj_number pj)"
  shows "\<exists>x. start_load today pj day by_whom db = Inr x"
proof -
  let ?day = "case day of None \<Rightarrow> today | Some d \<Rightarrow> d"
  have "mint_load_number db (load_number_base (pj_number pj) ?day (Some company)) company \<notin> set (company_load_numbers db company)"
    using mint_load_number_fresh [OF load_base_no_backslash [OF assms(2)]] by blast
  then show ?thesis using assms(1) by (simp add: start_load_def fresh_def Let_def)
qed

lemma confirm_shipment_total:
  assumes "find_row pj_id p (projects db) = Some pj" and "pj_company pj = Some company"
    and "pj_gp_setup_ok pj \<noteq> Some False" and "CHR 0x5C \<notin> set (pj_number pj)"
    and "by_whom \<noteq> []" and "items \<noteq> []"
    and "\<forall>i \<in> set items. \<exists>q \<ge> 1. ca_quantity i = Some q"
    and "\<forall>kv \<in> set (cart_agg items). snd kv \<le> dict_get (get_ship_ready_items db p) (fst kv)"
    and "form_ok details"
  obtains i db' where "confirm_shipment now today p by_whom items details None driver db = Inr (i, db')"
proof -
  have cart: "check_cart db p by_whom items = Inr ()"
    using assms by (auto simp: check_cart_def require_gp_setup_ok_def list_all_iff ensure_def Let_def)
  obtain number db1 where mint: "mint_packing_slip_number (project_company db p) db = (number, db1)"
    by (cases "mint_packing_slip_number (project_company db p) db")
  then obtain c where db1: "db1 = db\<lparr>packing_slip_counter := c\<rparr>" and free: "number \<notin> set (slip_numbers db)"
    using mint_slip_frame by metis
  obtain ps0 where form: "apply_site_form details (new_slip (next_id db1) number p by_whom now) = Inr ps0"
    using apply_site_form_ok [OF assms(9)] by blast
  obtain load where load: "start_load today pj (ps_pickup_date (apply_driver driver ps0)) by_whom
      (db1\<lparr>next_id := Suc (next_id db1)\<rparr>) = Inr load"
    using start_load_total [OF assms(2,4)] by blast
  have fits: "form_fits details" using assms(9) by (simp add: form_ok_def)
  have "\<exists>x. confirm_shipment now today p by_whom items details None driver db = Inr x"
    using cart mint free form load fits assms(1)
      create_notification_total [of "Some WAREHOUSE_RECIPIENT_ROLE" None now p SHIPMENT_COMPLETED None "Some (next_id db1)"]
    by (auto simp: confirm_shipment_def fresh_def Let_def choose_load_def db1) (metis bindr_Inr)
  then show ?thesis using that by auto
qed

text \<open>
  C23. What the staging screen offers can be shipped: a cart of positive lines within the pool it
  shows, for a project not on hold, with a header the form accepts, is confirmed onto a truck of its
  own - and the slip it makes is scheduled, carries the cart's lines, and stands behind the notice to
  the warehouse.
\<close>

theorem confirm_shipment_accepts:
  assumes "find_row pj_id p (projects db) = Some pj" and "pj_company pj = Some company"
    and "pj_gp_setup_ok pj \<noteq> Some False" and "CHR 0x5C \<notin> set (pj_number pj)"
    and "by_whom \<noteq> []" and "items \<noteq> []"
    and "\<forall>i \<in> set items. \<exists>q \<ge> 1. ca_quantity i = Some q"
    and "\<forall>kv \<in> set (cart_agg items). snd kv \<le> dict_get (get_ship_ready_items db p) (fst kv)"
    and "form_ok details"
  shows "\<exists>i db' ps. confirm_shipment now today p by_whom items details None driver db = Inr (i, db') \<and>
    ps \<in> set (packing_slips db') \<and> ps_id ps = i \<and> ps_status ps = SCHEDULED \<and> ps_project_id ps = p \<and>
    (\<exists>n. ps_items ps = slip_items n items) \<and>
    (\<exists>n \<in> set (notifications db'). no_packing_slip_id n = Some i \<and> no_type n = SHIPMENT_COMPLETED)"
proof -
  obtain i db' where run: "confirm_shipment now today p by_whom items details None driver db = Inr (i, db')"
    using assms by (rule confirm_shipment_total)
  obtain ps n m ls c where "ps_id ps = i" "ps_status ps = SCHEDULED" "ps_project_id ps = p"
    "\<exists>n. ps_items ps = slip_items n items \<and> next_id db < n \<and> n + length items < m" "no_packing_slip_id n = Some i" "no_type n = SHIPMENT_COMPLETED"
    "db' = db\<lparr>next_id := m, packing_slips := packing_slips db @ [ps], shipment_loads := ls,
       packing_slip_counter := c, notifications := notifications db @ [n]\<rparr>"
    using run by (rule confirm_shipment_Inr)
  then show ?thesis using run by (intro exI [of _ i] exI [of _ db'] exI [of _ ps]) auto
qed

text \<open>A project with five staged hinges for one opening and two for none, and its two buildings.\<close>

definition demo_staged_pull :: pull_request where
  "demo_staged_pull = demo_pull\<lparr>pr_id := 21, pr_source := PULL_SHIPPING_OUT, pr_status := PULL_COMPLETED,
     pr_items := [\<lparr>pi_opening_number = Some ''101'', pi_hardware_category = ''Hinges'',
        pi_product_code = ''BB1279'', pi_requested_quantity = 5\<rparr>,
       \<lparr>pi_opening_number = None, pi_hardware_category = ''Hinges'',
        pi_product_code = ''BB1279'', pi_requested_quantity = 2\<rparr>]\<rparr>"

definition demo_warehouse :: warehouse where
  "demo_warehouse = \<lparr>wh_id = 2, wh_code = ''MAIN'', wh_company = ''UBC'', wh_is_active = True, wh_is_primary = True,
     wh_created_at = 1\<rparr>"

definition demo_staged_db :: db where
  "demo_staged_db = demo_db\<lparr>pull_requests := [demo_staged_pull], shop_assembly_batches := [],
     inventory_reservations := [], projects := [\<lparr>pj_id = 1, pj_number = ''23093'', pj_company = Some ''UBC'',
       pj_gp_setup_ok = None, pj_gp_job_state = None\<rparr>], warehouses := [demo_warehouse]\<rparr>"

definition demo_cart :: "string option \<Rightarrow> int \<Rightarrow> cart_item" where
  "demo_cart opening q = \<lparr>ca_opening_number = opening, ca_building = None, ca_floor = None, ca_location = None,
     ca_hardware_category = ''Hinges'', ca_product_code = ''BB1279'', ca_quantity = Some q, ca_is_manual = False\<rparr>"

definition demo_shipped :: "uuid \<times> db" where
  "demo_shipped = value_of (confirm_shipment 9 (2026, 10, 15) 1 ''sam'' [demo_cart (Some ''101'') 3, demo_cart None 2]
     None None None demo_staged_db)"

lemma demo_shipped:
  "confirm_shipment 9 (2026, 10, 15) 1 ''sam'' [demo_cart (Some ''101'') 3, demo_cart None 2] None None None
     demo_staged_db = Inr (fst demo_shipped, snd demo_shipped)"
proof -
  have "\<not> raised (confirm_shipment 9 (2026, 10, 15) 1 ''sam'' [demo_cart (Some ''101'') 3, demo_cart None 2]
     None None None demo_staged_db)" by code_simp
  then show ?thesis unfolding demo_shipped_def by (simp add: value_of)
qed

theorem confirm_shipment_takes_staged_witness:
  "staged_left demo_staged_db 1 (Some ''101'', ''Hinges'', ''BB1279'') = 5 \<and>
   staged_left (snd demo_shipped) 1 (Some ''101'', ''Hinges'', ''BB1279'') = 2 \<and>
   staged_left (snd demo_shipped) 1 (None, ''Hinges'', ''BB1279'') = 0"
proof -
  have "staged_left demo_staged_db 1 (Some ''101'', ''Hinges'', ''BB1279'') = 5"
    "staged_left demo_staged_db 1 (None, ''Hinges'', ''BB1279'') = 2"
    "dict_get (cart_agg [demo_cart (Some ''101'') 3, demo_cart None 2]) (Some ''101'', ''Hinges'', ''BB1279'') = 3"
    "dict_get (cart_agg [demo_cart (Some ''101'') 3, demo_cart None 2]) (None, ''Hinges'', ''BB1279'') = 2" by code_simp+
  then show ?thesis using confirm_shipment_takes_staged [OF demo_shipped] by simp
qed

theorem confirm_shipment_accepts_witness:
  "\<exists>i db' ps. confirm_shipment 9 (2026, 10, 15) 1 ''sam'' [demo_cart (Some ''101'') 3, demo_cart None 2] None None None
     demo_staged_db = Inr (i, db') \<and> ps \<in> set (packing_slips db') \<and> ps_id ps = i \<and> ps_status ps = SCHEDULED"
proof -
  let ?items = "[demo_cart (Some ''101'') 3, demo_cart None 2]"
  let ?pj = "\<lparr>pj_id = 1, pj_number = ''23093'', pj_company = Some ''UBC'', pj_gp_setup_ok = None, pj_gp_job_state = None\<rparr>"
  have "find_row pj_id 1 (projects demo_staged_db) = Some ?pj" by code_simp
  moreover have "CHR 0x5C \<notin> set (pj_number ?pj)" by code_simp
  moreover have "\<forall>i \<in> set ?items. \<exists>q \<ge> 1. ca_quantity i = Some q" by (simp add: demo_cart_def)
  moreover have "\<forall>kv \<in> set (cart_agg ?items). snd kv \<le> dict_get (get_ship_ready_items demo_staged_db 1) (fst kv)"
    by code_simp
  moreover have "form_ok None" by code_simp
  ultimately show ?thesis
    using confirm_shipment_accepts [of 1 demo_staged_db ?pj "''UBC''" "''sam''" ?items None 9 "(2026, 10, 15)" None]
    by auto
qed

theorem packing_slip_number_free_witness:
  "mint_packing_slip_number (Some ''UBC'') (snd demo_shipped) = (''PS-00002'', snd demo_shipped\<lparr>packing_slip_counter := Some 3\<rparr>) \<and>
   fst (mint_packing_slip_number (Some ''UBC'') (snd demo_shipped)) \<notin> set (slip_numbers (snd demo_shipped))"
proof -
  have "mint_packing_slip_number (Some ''UBC'') (snd demo_shipped) = (''PS-00002'', snd demo_shipped\<lparr>packing_slip_counter := Some 3\<rparr>)"
    by code_simp
  then show ?thesis
    using packing_slip_number_free [of "Some ''UBC''" "snd demo_shipped" 9 "(2026, 10, 15)" 1 "''sam''" "[]" None None None] by blast
qed

section \<open>What comes back\<close>

definition st_combo :: "stock_item \<Rightarrow> combo" where
  "st_combo s = (st_hardware_category s, st_product_code s)"

text \<open>Units of a product the pool holds in a building, and how many of them are condemned.\<close>

definition pool_total :: "(stock_item \<Rightarrow> int) \<Rightarrow> db \<Rightarrow> uuid \<Rightarrow> combo \<Rightarrow> int" where
  "pool_total val db w c =
     sum_list (map val (filter (\<lambda>s. st_warehouse_id s = w \<and> st_combo s = c) (stock_items db)))"

text \<open>Ids name one row, and every id handed out is below the counter.\<close>

definition pool_ids_ok :: "db \<Rightarrow> bool" where
  "pool_ids_ok db \<longleftrightarrow> distinct (map st_id (stock_items db)) \<and> list_all (\<lambda>s. st_id s < next_id db) (stock_items db)"

definition return_ids_ok :: "db \<Rightarrow> bool" where
  "return_ids_ok db \<longleftrightarrow> list_all (\<lambda>r. sr_id r < next_id db) (shipment_returns db)"

lemma find_or_create_effect:
  assumes "find_or_create_stock_row t k db = (s, db')" and "pool_ids_ok db"
    and "val (new_stock_row (next_id db) t k) = 0"
  shows "pool_total val db' w c = pool_total val db w c \<and> pool_ids_ok db' \<and>
    s \<in> set (stock_items db') \<and> st_warehouse_id s = key_warehouse k \<and> st_combo s = pool_key.key_product k \<and>
    (\<exists>n. db' = db\<lparr>next_id := n, stock_items := stock_items db'\<rparr> \<and> next_id db \<le> n)"
proof (cases "find_stock_row db k")
  case (Some r)
  then have "s = r" "db' = db" using assms(1) by (simp_all add: find_or_create_stock_row_def)
  moreover have "\<exists>n. db = db\<lparr>next_id := n, stock_items := stock_items db\<rparr> \<and> next_id db \<le> n"
    by (intro exI [of _ "next_id db"]) simp
  moreover have "key_warehouse (stock_row_key r) = key_warehouse (canonical_key k)"
    "pool_key.key_product (stock_row_key r) = pool_key.key_product (canonical_key k)"
    using find_stock_row_Some [OF Some] by simp_all
  ultimately show ?thesis
    using find_stock_row_Some [OF Some] assms(2)
    by (simp add: stock_row_key_def canonical_key_def st_combo_def)
next
  case None
  let ?s = "new_stock_row (next_id db) t k"
  have run: "s = ?s" "db' = db\<lparr>next_id := Suc (next_id db), stock_items := stock_items db @ [?s]\<rparr>"
    using None assms(1) by (auto simp: find_or_create_stock_row_def fresh_def Let_def)
  have "st_id ?s = next_id db" "st_warehouse_id ?s = key_warehouse k" "st_combo ?s = pool_key.key_product k"
    by (simp_all add: new_stock_row_def st_combo_def)
  then show ?thesis
    using assms(2,3) by (auto simp: run pool_total_def pool_ids_ok_def list_all_iff)
qed

text \<open>A return writes the shelf, the pool, its own rows and the audit log, and nothing else.\<close>

definition return_frame :: "db \<Rightarrow> db \<Rightarrow> bool" where
  "return_frame a b \<longleftrightarrow> inventory_reservations a = inventory_reservations b \<and> pull_requests a = pull_requests b \<and>
     pull_pick_lines a = pull_pick_lines b \<and> packing_slips a = packing_slips b \<and>
     shipment_loads a = shipment_loads b \<and> projects a = projects b \<and> warehouses a = warehouses b \<and>
     notifications a = notifications b \<and> next_id a \<le> next_id b"

lemma return_frame_refl [simp]: "return_frame a a"
  by (simp add: return_frame_def)

lemma return_frame_trans: "return_frame a b \<Longrightarrow> return_frame b c \<Longrightarrow> return_frame a c"
  by (simp add: return_frame_def)

lemma pool_total_add:
  assumes "pool_ids_ok db" and "s \<in> set (stock_items db)"
  shows "pool_total st_quantity (add_to_pool (st_id s) q d db) w c =
      pool_total st_quantity db w c + (if st_warehouse_id s = w \<and> st_combo s = c then q else 0) \<and>
    pool_total st_deficient_quantity (add_to_pool (st_id s) q d db) w c =
      pool_total st_deficient_quantity db w c + (if d \<and> st_warehouse_id s = w \<and> st_combo s = c then q else 0)"
proof -
  have dist: "distinct (map st_id (stock_items db))" using assms(1) by (simp add: pool_ids_ok_def)
  then have row: "find_row st_id (st_id s) (stock_items db) = Some s" using assms(2) by (simp add: find_row_eq_Some)
  let ?f = "\<lambda>s. s\<lparr>st_quantity := st_quantity s + q,
      st_deficient_quantity := (if d then st_deficient_quantity s + q else st_deficient_quantity s)\<rparr>"
  let ?P = "\<lambda>s. st_warehouse_id s = w \<and> st_combo s = c"
  have "?P (?f r) = ?P r" for r by (simp add: st_combo_def)
  then show ?thesis
    using sum_update_row [OF dist row, of ?P ?f st_quantity] sum_update_row [OF dist row, of ?P ?f st_deficient_quantity]
    by (simp add: pool_total_def add_to_pool_def)
qed

lemma add_to_pool_frame [simp]:
  "next_id (add_to_pool i q d db) = next_id db" "shipment_returns (add_to_pool i q d db) = shipment_returns db"
  "inventory_locations (add_to_pool i q d db) = inventory_locations db" "return_frame db (add_to_pool i q d db)"
  by (simp_all add: add_to_pool_def return_frame_def)

lemma pool_ids_add [simp]: "pool_ids_ok (add_to_pool i q d db) = pool_ids_ok db"
proof -
  have ids: "map st_id (stock_items (add_to_pool i q d db)) = map st_id (stock_items db)"
    by (simp add: add_to_pool_def keys_update_row)
  have char: "pool_ids_ok x \<longleftrightarrow> distinct (map st_id (stock_items x)) \<and> list_all (\<lambda>j. j < next_id x) (map st_id (stock_items x))" for x
    by (simp add: pool_ids_ok_def list.pred_map comp_def)
  show ?thesis by (simp only: char ids add_to_pool_frame(1))
qed

lemma log_audit_event_tables [simp]:
  "stock_items (log_audit_event p ty i act who d db) = stock_items db"
  "inventory_locations (log_audit_event p ty i act who d db) = inventory_locations db"
  "shipment_returns (log_audit_event p ty i act who d db) = shipment_returns db"
  "return_frame db (log_audit_event p ty i act who d db)"
  "pool_ids_ok (log_audit_event p ty i act who d db) = pool_ids_ok db"
  "pool_total val (log_audit_event p ty i act who d db) w c = pool_total val db w c"
  "on_hand (log_audit_event p ty i act who d db) q c = on_hand db q c"
  by (simp_all add: log_audit_event_def return_frame_def pool_ids_ok_def pool_total_def on_hand_def)

lemma route_line_effect:
  assumes "route_line now sr ps w0 by_whom psi item ri db = (landed, db')" and "pool_ids_ok db"
  shows "(\<forall>q c. on_hand db' q c = on_hand db q c +
        (if rl_disposition item = RETURN_TO_PROJECT \<and> q = ps_project_id ps \<and> psi_combo psi = c then rl_quantity item else 0)) \<and>
    (\<forall>w c. pool_total st_quantity db' w c = pool_total st_quantity db w c +
        (if rl_disposition item \<noteq> RETURN_TO_PROJECT \<and> w = w0 \<and> psi_combo psi = c then rl_quantity item else 0)) \<and>
    (\<forall>w c. pool_total st_deficient_quantity db' w c = pool_total st_deficient_quantity db w c +
        (if rl_disposition item = RMA_DEFECTIVE \<and> w = w0 \<and> psi_combo psi = c then rl_quantity item else 0)) \<and>
    pool_ids_ok db' \<and> shipment_returns db' = shipment_returns db \<and> return_frame db db'"
proof (cases "rl_disposition item = RETURN_TO_PROJECT")
  case True
  let ?row = "returned_row (next_id db) now (ps_project_id ps) w0 (psi_combo psi) (rl_quantity item) ri
    (returned_price db (ps_project_id ps) (psi_combo psi))"
  have "il_project_id ?row = ps_project_id ps" "il_combo ?row = psi_combo psi" "il_free ?row = rl_quantity item"
    by (simp_all add: returned_row_def il_combo_def il_free_def psi_combo_def)
  moreover have "db' = log_audit_event (Some (ps_project_id ps)) INVENTORY_LOCATION (next_id db) RETURN by_whom
      (return_audit sr ps psi item)
      (db\<lparr>next_id := Suc (next_id db), inventory_locations := inventory_locations db @ [?row]\<rparr>)"
    using assms(1) True by (simp add: route_line_def fresh_def Let_def)
  ultimately obtain row where row: "il_project_id row = ps_project_id ps" "il_combo row = psi_combo psi"
      "il_free row = rl_quantity item"
    and db': "db' = log_audit_event (Some (ps_project_id ps)) INVENTORY_LOCATION (next_id db) RETURN by_whom
      (return_audit sr ps psi item)
      (db\<lparr>next_id := Suc (next_id db), inventory_locations := inventory_locations db @ [row]\<rparr>)" by blast
  have "on_hand db' q c = on_hand db q c +
      (if q = ps_project_id ps \<and> psi_combo psi = c then rl_quantity item else 0)" for q c
    by (auto simp: db' on_hand_def row)
  moreover have "return_frame db db'" by (simp add: db' return_frame_def log_audit_event_def)
  moreover have "pool_ids_ok db'" using assms(2) by (auto simp: db' pool_ids_ok_def list_all_iff)
  moreover have "pool_total val db' w c = pool_total val db w c" for val w c by (simp add: db' pool_total_def)
  moreover have "shipment_returns db' = shipment_returns db" by (simp add: db')
  ultimately show ?thesis using True by simp
next
  case False
  let ?k = "\<lparr>key_warehouse = w0, key_product = psi_combo psi, key_aisle = None, key_row = None,
    key_bay = None, key_kind = STOCK, key_unit_cost = fst (returned_price db (ps_project_id ps) (psi_combo psi)),
    key_cost_currency = snd (returned_price db (ps_project_id ps) (psi_combo psi))\<rparr>"
  obtain s db1 where found: "find_or_create_stock_row now ?k db = (s, db1)" by (cases "find_or_create_stock_row now ?k db")
  have "\<exists>a. db' = log_audit_event None STOCK_ITEM (st_id s) RETURN by_whom a
      (add_to_pool (st_id s) (rl_quantity item) (rl_disposition item = RMA_DEFECTIVE) db1)"
    using False assms(1) found by (auto simp: route_line_def Let_def)
  then obtain a where db': "db' = log_audit_event None STOCK_ITEM (st_id s) RETURN by_whom a
      (add_to_pool (st_id s) (rl_quantity item) (rl_disposition item = RMA_DEFECTIVE) db1)" ..
  have zero: "st_quantity (new_stock_row (next_id db) now ?k) = 0" "st_deficient_quantity (new_stock_row (next_id db) now ?k) = 0"
    by (simp_all add: new_stock_row_def)
  note e = find_or_create_effect [where val = st_quantity, OF found assms(2) zero(1)]
    find_or_create_effect [where val = st_deficient_quantity, OF found assms(2) zero(2)]
  obtain n where db1: "db1 = db\<lparr>next_id := n, stock_items := stock_items db1\<rparr>" "next_id db \<le> n" using e(1) by blast
  have frame: "inventory_locations db1 = inventory_locations db" "shipment_returns db1 = shipment_returns db" "return_frame db db1"
    using arg_cong [OF db1(1), of inventory_locations] arg_cong [OF db1(1), of shipment_returns] db1(2)
      arg_cong [OF db1(1), of "return_frame db"] arg_cong [OF db1(1), of next_id]
    by (simp_all add: return_frame_def)
  have mem: "s \<in> set (stock_items db1)" "st_warehouse_id s = w0" "st_combo s = psi_combo psi" "pool_ids_ok db1"
    using e(1) by simp_all
  have shelf: "on_hand db' q c = on_hand db q c" for q c
    by (simp add: db' on_hand_def frame)
  have pool: "pool_total st_quantity db' w c = pool_total st_quantity db w c +
      (if w = w0 \<and> psi_combo psi = c then rl_quantity item else 0)"
    "pool_total st_deficient_quantity db' w c = pool_total st_deficient_quantity db w c +
      (if rl_disposition item = RMA_DEFECTIVE \<and> w = w0 \<and> psi_combo psi = c then rl_quantity item else 0)" for w c
    using pool_total_add [OF mem(4,1), of "rl_quantity item" "rl_disposition item = RMA_DEFECTIVE" w c]
      e(1) [of w c] e(2) [of w c] mem(2,3)
    by (auto simp: db')
  have "return_frame db db'"
    unfolding db'
    by (rule return_frame_trans [OF frame(3) return_frame_trans [OF add_to_pool_frame(4) log_audit_event_tables(4)]])
  then show ?thesis using False shelf pool mem(4) by (simp add: db' frame)
qed

text \<open>Units of a product a list of return lines sends where \<open>to\<close> says, by the slip's lines.\<close>

definition line_combo :: "packing_slip \<Rightarrow> return_line \<Rightarrow> combo option" where
  "line_combo ps i = map_option psi_combo (psi_of ps (rl_packing_slip_item_id i))"

definition landed :: "packing_slip \<Rightarrow> (return_disposition \<Rightarrow> bool) \<Rightarrow> return_line list \<Rightarrow> combo \<Rightarrow> int" where
  "landed ps to items c =
     sum_list (map rl_quantity (filter (\<lambda>i. to (rl_disposition i) \<and> line_combo ps i = Some c) items))"

definition back_of :: "return_line list \<Rightarrow> uuid \<Rightarrow> int" where
  "back_of items i = sum_list (map rl_quantity (filter (\<lambda>l. rl_packing_slip_item_id l = i) items))"

lemma landed_Nil [simp]: "landed ps to [] c = 0"
  and landed_Cons: "landed ps to (item # items) c = (if to (rl_disposition item) \<and>
     line_combo ps item = Some c then rl_quantity item else 0) + landed ps to items c"
  by (simp_all add: landed_def)

lemma back_of_Nil [simp]: "back_of [] i = 0"
  and back_of_Cons: "back_of (item # items) i = (if rl_packing_slip_item_id item = i then rl_quantity item else 0) + back_of items i"
  by (simp_all add: back_of_def)

lemma back_of_tally: "dict_get (requested_per_psi items) i = back_of items i"
  unfolding requested_per_psi_def dict_get_tally by (induction items) (auto simp: back_of_Cons)

text \<open>The lines of one return.\<close>

definition ri_sum :: "shipment_return_item list \<Rightarrow> uuid \<Rightarrow> int" where
  "ri_sum ls i = sum_list (map ri_quantity (filter (\<lambda>l. ri_packing_slip_item_id l = i) ls))"

lemma route_lines_effect:
  assumes "\<forall>item \<in> set items. psi_of ps (rl_packing_slip_item_id item) \<noteq> None" and "pool_ids_ok db"
    and "distinct (map sr_id (shipment_returns db))" and "find_row sr_id sr (shipment_returns db) = Some r"
    and "route_lines now sr ps w0 by_whom items db = db'"
  shows "(\<forall>q c. on_hand db' q c = on_hand db q c +
        (if q = ps_project_id ps then landed ps (\<lambda>d. d = RETURN_TO_PROJECT) items c else 0)) \<and>
    (\<forall>w c. pool_total st_quantity db' w c = pool_total st_quantity db w c +
        (if w = w0 then landed ps (\<lambda>d. d \<noteq> RETURN_TO_PROJECT) items c else 0)) \<and>
    (\<forall>w c. pool_total st_deficient_quantity db' w c = pool_total st_deficient_quantity db w c +
        (if w = w0 then landed ps (\<lambda>d. d = RMA_DEFECTIVE) items c else 0)) \<and>
    pool_ids_ok db' \<and> return_frame db db' \<and>
    (\<exists>ls. shipment_returns db' = update_row sr_id sr (\<lambda>r. r\<lparr>sr_items := sr_items r @ ls\<rparr>) (shipment_returns db) \<and>
       (\<forall>i. ri_sum ls i = back_of items i))"
  using assms
proof (induction items arbitrary: db r)
  case Nil
  have "update_row sr_id sr (\<lambda>r. r\<lparr>sr_items := sr_items r @ []\<rparr>) (shipment_returns db) = shipment_returns db"
    by (simp add: update_row_def)
  with Nil show ?case by (auto simp: ri_sum_def intro: exI [of _ "[]"])
next
  case (Cons item items)
  obtain psi where psi: "psi_of ps (rl_packing_slip_item_id item) = Some psi" using Cons.prems(1) by auto
  let ?db1 = "db\<lparr>next_id := Suc (next_id db)\<rparr>"
  obtain to db2 where step: "route_line now sr ps w0 by_whom psi item (next_id db) ?db1 = (to, db2)"
    by (cases "route_line now sr ps w0 by_whom psi item (next_id db) ?db1")
  have ids: "pool_ids_ok ?db1" using Cons.prems(2) by (auto simp: pool_ids_ok_def list_all_iff)
  note e = route_line_effect [OF step ids]
  let ?row = "return_item_row (next_id db) psi item to"
  let ?db3 = "add_return_item sr ?row db2"
  have run: "route_lines now sr ps w0 by_whom items ?db3 = db'"
    using Cons.prems(5) psi step by (simp add: fresh_def Let_def)
  have frame: "return_frame db ?db3" "pool_ids_ok ?db3"
    using e by (simp_all add: add_return_item_def return_frame_def pool_ids_ok_def)
  have qty: "on_hand ?db3 q c = on_hand db2 q c" "pool_total val ?db3 w c = pool_total val db2 w c"
    "on_hand ?db1 q c = on_hand db q c" "pool_total val ?db1 w c = pool_total val db w c" for q c w val
    by (simp_all add: add_return_item_def on_hand_def pool_total_def)
  let ?f = "\<lambda>r. r\<lparr>sr_items := sr_items r @ [?row]\<rparr>"
  have rows: "shipment_returns ?db3 = update_row sr_id sr ?f (shipment_returns db)"
    using e by (simp add: add_return_item_def)
  have dist: "distinct (map sr_id (shipment_returns ?db3))"
    unfolding rows using Cons.prems(3) by (simp add: keys_update_row)
  have mine: "find_row sr_id sr (shipment_returns ?db3) = Some (?f r)"
    unfolding rows using Cons.prems(4) by (simp add: find_row_update)
  have lines: "\<forall>item \<in> set items. psi_of ps (rl_packing_slip_item_id item) \<noteq> None" using Cons.prems(1) by simp
  note ih = Cons.IH [OF lines frame(2) dist mine run]
  obtain ls where ls: "shipment_returns db' = update_row sr_id sr (\<lambda>r. r\<lparr>sr_items := sr_items r @ ls\<rparr>) (shipment_returns ?db3)"
    "\<forall>i. ri_sum ls i = back_of items i" using ih by blast
  have "shipment_returns db' = update_row sr_id sr (\<lambda>r. r\<lparr>sr_items := sr_items r @ (?row # ls)\<rparr>) (shipment_returns db)"
    unfolding ls(1) rows by (simp add: update_row_def)
  moreover have "ri_sum (?row # ls) i = back_of (item # items) i" for i
    using ls(2) psi find_row_Some [of psi_id "rl_packing_slip_item_id item" "ps_items ps" psi]
    by (auto simp: ri_sum_def back_of_Cons return_item_row_def psi_of_def)
  moreover have "return_frame db db'" using ih frame(1) return_frame_trans by blast
  moreover have "line_combo ps item = Some (psi_combo psi)" by (simp add: line_combo_def psi)
  ultimately show ?case using ih e by (intro conjI) (auto simp: qty landed_Cons)
qed

definition slip_ids_ok :: "db \<Rightarrow> bool" where
  "slip_ids_ok db \<longleftrightarrow> distinct (map ps_id (packing_slips db)) \<and>
     list_all (\<lambda>ps. distinct (map psi_id (ps_items ps))) (packing_slips db)"

lemma settle_slip_frame:
  "inventory_locations (settle_slip ps db) = inventory_locations db"
  "stock_items (settle_slip ps db) = stock_items db" "shipment_returns (settle_slip ps db) = shipment_returns db"
  "inventory_reservations (settle_slip ps db) = inventory_reservations db"
  "pull_requests (settle_slip ps db) = pull_requests db" "next_id (settle_slip ps db) = next_id db"
  by (simp_all add: settle_slip_def cancel_slip_def withdraw_shipment_scheduled_def set_slip_def Let_def)

lemma check_return_lines_ok:
  "check_return_lines ps items = Inr () \<Longrightarrow> \<forall>item \<in> set items. 1 \<le> rl_quantity item \<and>
     (\<exists>psi. psi_of ps (rl_packing_slip_item_id item) = Some psi \<and> \<not> psi_is_manual psi)"
  by (induction items) (auto simp: check_return_line_def bindr_eq_Inr ensure_eq_Inr split: option.splits)

lemma back_of_nonneg: "\<forall>item \<in> set items. 1 \<le> rl_quantity item \<Longrightarrow> 0 \<le> back_of items i"
  by (induction items) (auto simp: back_of_Cons)

lemma check_return_ok:
  assumes "check_return db ps items = Inr ()"
  shows "\<forall>item \<in> set items. 1 \<le> rl_quantity item \<and>
      (\<exists>psi. psi_of ps (rl_packing_slip_item_id item) = Some psi \<and> \<not> psi_is_manual psi)"
    and "0 < back_of items i \<Longrightarrow> back_of items i \<le> shipped_of ps i - dict_get (returned_quantities db (ps_id ps)) i"
proof -
  show "\<forall>item \<in> set items. 1 \<le> rl_quantity item \<and>
      (\<exists>psi. psi_of ps (rl_packing_slip_item_id item) = Some psi \<and> \<not> psi_is_manual psi)"
    using assms by (intro check_return_lines_ok) (simp add: check_return_def bindr_eq_Inr)
  assume "0 < back_of items i"
  then have "i \<in> fst ` set (requested_per_psi items)"
    using back_of_tally [of items i] dict_get_notin by fastforce
  then obtain v where "(i, v) \<in> set (requested_per_psi items)" by auto
  moreover from this have "v = back_of items i"
    using back_of_tally [of items i] by (simp add: requested_per_psi_def tally_mem tally_simps)
  ultimately show "back_of items i \<le> shipped_of ps i - dict_get (returned_quantities db (ps_id ps)) i"
    using assms by (auto simp: check_return_def bindr_eq_Inr ensure_eq_Inr Let_def list_all_iff)
qed

lemma create_return_Inr:
  assumes "create_shipment_return now slip w0 by_whom reference items key db = Inr (sr, db')"
    and "existing_return db slip key = Inr None"
  obtains ps where "find_row ps_id slip (packing_slips db) = Some ps" "check_return db ps items = Inr ()"
    "sr = next_id db" "by_whom \<noteq> []" "items \<noteq> []"
    "db' = settle_slip ps (route_lines now sr ps w0 by_whom items (db\<lparr>next_id := Suc (next_id db),
       shipment_returns := shipment_returns db @ [new_return sr slip w0 by_whom now (strip_or_none reference) key]\<rparr>))"
proof -
  obtain ps where ps: "find_row ps_id slip (packing_slips db) = Some ps"
    using assms(1) by (auto simp: create_shipment_return_def locked_packing_slip_def bindr_eq_Inr ensure_eq_Inr split: option.splits)
  show ?thesis
  proof (rule that [OF ps])
    show "check_return db ps items = Inr ()" "sr = next_id db" "by_whom \<noteq> []" "items \<noteq> []"
      "db' = settle_slip ps (route_lines now sr ps w0 by_whom items (db\<lparr>next_id := Suc (next_id db),
       shipment_returns := shipment_returns db @ [new_return sr slip w0 by_whom now (strip_or_none reference) key]\<rparr>))"
      using assms ps by (auto simp: create_shipment_return_def locked_packing_slip_def fresh_def Let_def bindr_eq_Inr ensure_eq_Inr)
  qed
qed

text \<open>A new return is booked whole before the slip is settled.\<close>

lemma create_return_run:
  assumes "create_shipment_return now slip w0 by_whom reference items key db = Inr (sr, db')"
    and "existing_return db slip key = Inr None"
    and "pool_ids_ok db" and "return_ids_ok db" and "distinct (map sr_id (shipment_returns db))"
  obtains ps db2 ls where "find_row ps_id slip (packing_slips db) = Some ps" "check_return db ps items = Inr ()"
    "db' = settle_slip ps db2" "return_frame db db2" "pool_ids_ok db2"
    "\<forall>q c. on_hand db2 q c = on_hand db q c +
        (if q = ps_project_id ps then landed ps (\<lambda>d. d = RETURN_TO_PROJECT) items c else 0)"
    "\<forall>w c. pool_total st_quantity db2 w c = pool_total st_quantity db w c +
        (if w = w0 then landed ps (\<lambda>d. d \<noteq> RETURN_TO_PROJECT) items c else 0)"
    "\<forall>w c. pool_total st_deficient_quantity db2 w c = pool_total st_deficient_quantity db w c +
        (if w = w0 then landed ps (\<lambda>d. d = RMA_DEFECTIVE) items c else 0)"
    "shipment_returns db2 = shipment_returns db @
        [new_return sr slip w0 by_whom now (strip_or_none reference) key\<lparr>sr_items := ls\<rparr>]"
    "\<forall>i. ri_sum ls i = back_of items i"
proof -
  let ?new = "new_return sr slip w0 by_whom now (strip_or_none reference) key"
  let ?db1 = "db\<lparr>next_id := Suc (next_id db), shipment_returns := shipment_returns db @ [?new]\<rparr>"
  obtain ps where ps: "find_row ps_id slip (packing_slips db) = Some ps" and check: "check_return db ps items = Inr ()"
    and sr: "sr = next_id db" and db': "db' = settle_slip ps (route_lines now sr ps w0 by_whom items ?db1)"
    using assms(1,2) by (rule create_return_Inr)
  let ?db2 = "route_lines now sr ps w0 by_whom items ?db1"
  have new: "\<forall>r \<in> set (shipment_returns db). sr_id r \<noteq> sr"
    using assms(4) sr by (auto simp: return_ids_ok_def list_all_iff)
  have id: "sr_id ?new = sr" by (simp add: new_return_def)
  then have dist: "distinct (map sr_id (shipment_returns ?db1))" using assms(5) new by auto
  have mine: "find_row sr_id sr (shipment_returns ?db1) = Some ?new"
    unfolding find_row_eq_Some [OF dist] using id by simp
  have known: "\<forall>item \<in> set items. psi_of ps (rl_packing_slip_item_id item) \<noteq> None" using check_return_ok(1) [OF check] by force
  have ids: "pool_ids_ok ?db1" using assms(3) by (auto simp: pool_ids_ok_def list_all_iff)
  have "route_lines now sr ps w0 by_whom items ?db1 = ?db2" by (rule refl)
  note e = route_lines_effect [OF known ids dist mine this]
  obtain ls where ls: "shipment_returns ?db2 = update_row sr_id sr (\<lambda>r. r\<lparr>sr_items := sr_items r @ ls\<rparr>) (shipment_returns ?db1)"
    "\<forall>i. ri_sum ls i = back_of items i" using e by blast
  have "update_row sr_id sr (\<lambda>r. r\<lparr>sr_items := sr_items r @ ls\<rparr>) (shipment_returns db) = shipment_returns db"
    using new by (intro update_row_notin) auto
  then have rows: "shipment_returns ?db2 = shipment_returns db @ [?new\<lparr>sr_items := ls\<rparr>]"
    unfolding ls(1) by (simp add: update_row_append) (simp add: update_row_def new_return_def)
  have base: "on_hand ?db1 q c = on_hand db q c" "pool_total val ?db1 w c = pool_total val db w c" for q c w val
    by (simp_all add: on_hand_def pool_total_def)
  have frame: "return_frame db ?db2" using e by (simp add: return_frame_def)
  show ?thesis
    using that [OF ps check db' frame] e rows ls(2) unfolding base by blast
qed

text \<open>
  C25. A return puts every unit back once and where its line says: the slip's project gains on its shelf
  exactly the lines sent to the project, the building's pool gains the rest, and of those exactly the
  defective ones are condemned. No claim on inventory changes.
\<close>

theorem return_lands_units:
  assumes "create_shipment_return now slip w0 by_whom reference items key db = Inr (sr, db')"
    and "existing_return db slip key = Inr None"
    and "pool_ids_ok db" and "return_ids_ok db" and "distinct (map sr_id (shipment_returns db))"
    and "find_row ps_id slip (packing_slips db) = Some ps"
  shows "(\<forall>q c. on_hand db' q c = on_hand db q c +
        (if q = ps_project_id ps then landed ps (\<lambda>d. d = RETURN_TO_PROJECT) items c else 0)) \<and>
    (\<forall>w c. pool_total st_quantity db' w c = pool_total st_quantity db w c +
        (if w = w0 then landed ps (\<lambda>d. d \<noteq> RETURN_TO_PROJECT) items c else 0)) \<and>
    (\<forall>w c. pool_total st_deficient_quantity db' w c = pool_total st_deficient_quantity db w c +
        (if w = w0 then landed ps (\<lambda>d. d = RMA_DEFECTIVE) items c else 0)) \<and>
    inventory_reservations db' = inventory_reservations db"
proof -
  obtain ps' db2 where "find_row ps_id slip (packing_slips db) = Some ps'" "db' = settle_slip ps' db2"
    and frame: "return_frame db db2" and qty:
    "\<forall>q c. on_hand db2 q c = on_hand db q c + (if q = ps_project_id ps' then landed ps' (\<lambda>d. d = RETURN_TO_PROJECT) items c else 0)"
    "\<forall>w c. pool_total st_quantity db2 w c = pool_total st_quantity db w c + (if w = w0 then landed ps' (\<lambda>d. d \<noteq> RETURN_TO_PROJECT) items c else 0)"
    "\<forall>w c. pool_total st_deficient_quantity db2 w c = pool_total st_deficient_quantity db w c + (if w = w0 then landed ps' (\<lambda>d. d = RMA_DEFECTIVE) items c else 0)"
    by (rule create_return_run [OF assms(1-5)])
  then have ps: "ps' = ps" and db': "db' = settle_slip ps db2" using assms(6) by simp_all
  have "on_hand db' q c = on_hand db2 q c" "pool_total val db' w c = pool_total val db2 w c" for q c w val
    by (simp_all add: db' on_hand_def pool_total_def settle_slip_frame)
  moreover have "inventory_reservations db' = inventory_reservations db"
    using frame by (simp add: db' settle_slip_frame return_frame_def)
  ultimately show ?thesis using qty ps by auto
qed

text \<open>A slip with nothing left on it: every line that was hardware has come back whole.\<close>

definition nothing_left :: "db \<Rightarrow> packing_slip \<Rightarrow> bool" where
  "nothing_left db ps \<longleftrightarrow> (\<forall>psi \<in> set (ps_items ps).
     psi_is_manual psi \<or> psi_quantity psi \<le> dict_get (returned_quantities db (ps_id ps)) (psi_id psi))"

text \<open>What the books say has come back of each line.\<close>

lemma return_lines_append:
  "shipment_returns db' = shipment_returns db @ [r] \<Longrightarrow>
   return_lines_of db' s = return_lines_of db s @ (if sr_packing_slip_id r = s then sr_items r else [])"
  by (simp add: return_lines_of_def)

lemma returned_after:
  assumes "create_shipment_return now slip w0 by_whom reference items key db = Inr (sr, db')"
    and "existing_return db slip key = Inr None"
    and "pool_ids_ok db" and "return_ids_ok db" and "distinct (map sr_id (shipment_returns db))"
  shows "dict_get (returned_quantities db' s) i =
    dict_get (returned_quantities db s) i + (if s = slip then back_of items i else 0)"
proof -
  obtain ps db2 ls where "db' = settle_slip ps db2" "shipment_returns db2 = shipment_returns db @
      [new_return sr slip w0 by_whom now (strip_or_none reference) key\<lparr>sr_items := ls\<rparr>]" "\<forall>i. ri_sum ls i = back_of items i"
    by (rule create_return_run [OF assms])
  then show ?thesis
    using return_lines_append [of db' db _ s]
    by (auto simp: settle_slip_frame returned_quantities_def dict_get_sum_by new_return_def ri_sum_def)
qed

text \<open>No line of any slip has come back more often than it left.\<close>

definition returns_ok :: "db \<Rightarrow> bool" where
  "returns_ok db \<longleftrightarrow> (\<forall>ps \<in> set (packing_slips db). \<forall>psi \<in> set (ps_items ps).
     dict_get (returned_quantities db (ps_id ps)) (psi_id psi) \<le> psi_quantity psi)"

lemma create_return_slips:
  assumes "create_shipment_return now slip w0 by_whom reference items key db = Inr (sr, db')"
    and "existing_return db slip key = Inr None"
    and "pool_ids_ok db" and "return_ids_ok db" and "distinct (map sr_id (shipment_returns db))"
  shows "packing_slips db' = packing_slips db \<or>
    (packing_slips db' = update_row ps_id slip (\<lambda>ps. ps\<lparr>ps_status := SHIPMENT_CANCELLED\<rparr>) (packing_slips db) \<and>
     (\<exists>ps. find_row ps_id slip (packing_slips db) = Some ps \<and> ps_status ps = SCHEDULED \<and> nothing_left db' ps))"
proof -
  obtain ps db2 where ps: "find_row ps_id slip (packing_slips db) = Some ps"
    and db': "db' = settle_slip ps db2" and frame: "return_frame db db2"
    by (rule create_return_run [OF assms])
  have "ps_id ps = slip" using find_row_Some [OF ps] by simp
  then show ?thesis
    using frame ps settle_slip_frame(3) [of ps db2]
    by (auto simp: db' settle_slip_def cancel_slip_def set_slip_def withdraw_shipment_scheduled_def Let_def return_frame_def
        nothing_left_def list_all_iff returned_quantities_def return_lines_of_def)
qed

lemma slip_rows_after:
  assumes "packing_slips db' = packing_slips db \<or>
    packing_slips db' = update_row ps_id slip (\<lambda>ps. ps\<lparr>ps_status := st\<rparr>) (packing_slips db)"
    and "ps' \<in> set (packing_slips db')"
  shows "\<exists>ps \<in> set (packing_slips db). ps_id ps' = ps_id ps \<and> ps_items ps' = ps_items ps \<and>
    ps_project_id ps' = ps_project_id ps \<and> (ps_status ps' = ps_status ps \<or> (ps_id ps = slip \<and> ps_status ps' = st))"
  using assms(1)
proof
  assume "packing_slips db' = packing_slips db"
  then show ?thesis using assms(2) by auto
next
  assume "packing_slips db' = update_row ps_id slip (\<lambda>ps. ps\<lparr>ps_status := st\<rparr>) (packing_slips db)"
  then obtain r where r: "r \<in> set (packing_slips db)" "ps' = (if ps_id r = slip then r\<lparr>ps_status := st\<rparr> else r)"
    using assms(2) by (auto simp: update_row_def)
  then show ?thesis by (intro bexI [of _ r]) simp_all
qed

lemma create_return_returns_ok:
  assumes "create_shipment_return now slip w0 by_whom reference items key db = Inr (sr, db')"
    and "pool_ids_ok db" and "return_ids_ok db" and "distinct (map sr_id (shipment_returns db))"
    and "slip_ids_ok db" and "returns_ok db"
  shows "returns_ok db'"
proof (cases "existing_return db slip key = Inr None")
  case False
  then have "db' = db"
    using assms(1) by (auto simp: create_shipment_return_def bindr_eq_Inr ensure_eq_Inr split: option.splits)
  then show ?thesis using assms(6) by simp
next
  case True
  obtain ps where ps: "find_row ps_id slip (packing_slips db) = Some ps" and check: "check_return db ps items = Inr ()"
    using assms(1) True by (rule create_return_Inr)
  have "ps \<in> set (packing_slips db)" "ps_id ps = slip" using find_row_Some [OF ps] by simp_all
  have bound: "dict_get (returned_quantities db' (ps_id r)) (psi_id psi) \<le> psi_quantity psi"
    if r: "r \<in> set (packing_slips db)" and psi: "psi \<in> set (ps_items r)" for r psi
  proof (cases "ps_id r = slip")
    case False
    then show ?thesis
      using returned_after [OF assms(1) True assms(2-4), of "ps_id r" "psi_id psi"] r psi assms(6)
      by (auto simp: returns_ok_def)
  next
    case slip: True
    have "r = ps"
      using assms(5) r slip ps find_row_eq_Some [of ps_id "packing_slips db" slip r] by (simp add: slip_ids_ok_def)
    have "distinct (map psi_id (ps_items r))" using assms(5) r by (auto simp: slip_ids_ok_def list_all_iff)
    then have "shipped_of r (psi_id psi) = psi_quantity psi"
      using psi by (simp add: shipped_of_def psi_of_def find_row_eq_Some [THEN iffD2])
    moreover have "dict_get (returned_quantities db slip) (psi_id psi) \<le> psi_quantity psi"
      using assms(6) r psi slip by (auto simp: returns_ok_def)
    moreover have "0 \<le> back_of items (psi_id psi)"
      using check_return_ok(1) [OF check] by (intro back_of_nonneg) blast
    ultimately show ?thesis
      using returned_after [OF assms(1) True assms(2-4), of slip "psi_id psi"] check_return_ok(2) [OF check, of "psi_id psi"]
        \<open>r = ps\<close> slip by fastforce
  qed
  show ?thesis
    unfolding returns_ok_def
    using slip_rows_after [of db' db slip SHIPMENT_CANCELLED] create_return_slips [OF assms(1) True assms(2-4)] bound by metis
qed

text \<open>
  Over-returning is impossible: whatever sequence of returns a shipment takes - several lines of one
  call for the same item included - the books never say that more units of a line came back than left
  on it.
\<close>

theorem returns_never_exceed_shipped:
  assumes "create_shipment_return now slip w0 by_whom reference items key db = Inr (sr, db')"
    and "pool_ids_ok db" and "return_ids_ok db" and "distinct (map sr_id (shipment_returns db))"
    and "slip_ids_ok db" and "returns_ok db"
  shows "returns_ok db'"
  using create_return_returns_ok [OF assms] .

text \<open>
  C26. A resend books nothing twice: sending a return again under the key it was written with - whatever
  the second message holds - hands back the return of the first and leaves the database alone.
\<close>

theorem return_resend_changes_nothing:
  assumes "create_shipment_return now slip w0 by_whom reference items key db = Inr (sr, db')"
    and "pool_ids_ok db" and "return_ids_ok db" and "distinct (map sr_id (shipment_returns db))"
    and "\<not> blank key" and "by_whom' \<noteq> []" and "items' \<noteq> []"
  shows "create_shipment_return now' slip w1 by_whom' reference' items' key db' = Inr (sr, db')"
proof (cases "existing_return db slip key = Inr None")
  case False
  then have "db' = db" "existing_return db slip key = Inr (Some sr)" "locked_packing_slip db slip \<noteq> Inl NotFoundError"
    using assms(1) by (auto simp: create_shipment_return_def bindr_eq_Inr ensure_eq_Inr split: option.splits)
  then show ?thesis
    using assms(6,7) by (auto simp: create_shipment_return_def locked_packing_slip_def split: option.splits)
next
  case True
  let ?new = "new_return sr slip w0 by_whom now (strip_or_none reference) key"
  obtain ps db2 ls where ps: "find_row ps_id slip (packing_slips db) = Some ps"
    and "db' = settle_slip ps db2" "shipment_returns db2 = shipment_returns db @ [?new\<lparr>sr_items := ls\<rparr>]"
    by (rule create_return_run [OF assms(1) True assms(2-4)])
  then have rows: "shipment_returns db' = shipment_returns db @ [?new\<lparr>sr_items := ls\<rparr>]"
    by (simp add: settle_slip_frame)
  have none: "List.find (\<lambda>sr. sr_create_idempotency_key sr = key) (shipment_returns db) = None"
    and short: "length (sent_text key) \<le> 100"
    using True assms(5) by (auto simp: existing_return_def ensure_eq_Inr split: option.splits)
  have "sr_create_idempotency_key (?new\<lparr>sr_items := ls\<rparr>) = key" "sr_packing_slip_id (?new\<lparr>sr_items := ls\<rparr>) = slip"
    "sr_id (?new\<lparr>sr_items := ls\<rparr>) = sr"
    using assms(5) by (simp_all add: new_return_def)
  then have "existing_return db' slip key = Inr (Some sr)"
    using none short assms(5) by (simp add: existing_return_def rows find_append)
  moreover have "find_row ps_id slip (packing_slips db') \<noteq> None"
  proof -
    have "map ps_id (packing_slips db') = map ps_id (packing_slips db)"
      using create_return_slips [OF assms(1) True assms(2-4)] by (auto simp: keys_update_row)
    then have "ps_id ` set (packing_slips db') = ps_id ` set (packing_slips db)" by (metis set_map)
    then show ?thesis using find_row_Some [OF ps] by (auto simp: find_row_None)
  qed
  ultimately show ?thesis
    using assms(6,7) by (auto simp: create_shipment_return_def locked_packing_slip_def split: option.splits)
qed

lemma back_of_pos:
  "\<forall>item \<in> set items. 1 \<le> rl_quantity item \<Longrightarrow> item \<in> set items \<Longrightarrow> 0 < back_of items (rl_packing_slip_item_id item)"
proof (induction items)
  case (Cons x items)
  have "0 \<le> back_of items i" for i using Cons.prems(1) by (intro back_of_nonneg) simp
  then show ?case using Cons by (cases "item = x") (auto simp: back_of_Cons intro: add_pos_nonneg add_nonneg_pos)
qed simp

section \<open>Cancelled shipments\<close>

definition cancelled_empty :: "db \<Rightarrow> bool" where
  "cancelled_empty db \<longleftrightarrow> (\<forall>ps \<in> set (packing_slips db). ps_status ps = SHIPMENT_CANCELLED \<longrightarrow> nothing_left db ps)"

lemma returned_mono:
  assumes "create_shipment_return now slip w0 by_whom reference items key db = Inr (sr, db')"
    and "existing_return db slip key = Inr None"
    and "pool_ids_ok db" and "return_ids_ok db" and "distinct (map sr_id (shipment_returns db))"
  shows "dict_get (returned_quantities db s) i \<le> dict_get (returned_quantities db' s) i"
proof -
  obtain ps where "check_return db ps items = Inr ()" using assms(1,2) by (rule create_return_Inr)
  then have "0 \<le> back_of items i" using check_return_ok(1) by (intro back_of_nonneg) blast
  then show ?thesis using returned_after [OF assms, of s i] by simp
qed

lemma cancelled_empty_step:
  assumes "cancelled_empty db"
    and "packing_slips db' = packing_slips db \<or>
      packing_slips db' = update_row ps_id slip (\<lambda>ps. ps\<lparr>ps_status := SHIPMENT_CANCELLED\<rparr>) (packing_slips db) \<and>
      (\<exists>ps. find_row ps_id slip (packing_slips db) = Some ps \<and> nothing_left db' ps)"
    and "distinct (map ps_id (packing_slips db))"
    and "\<forall>s i. dict_get (returned_quantities db s) i \<le> dict_get (returned_quantities db' s) i"
  shows "cancelled_empty db'"
proof -
  have keep: "nothing_left db' r" if "nothing_left db r" for r
    using that assms(4) order_trans unfolding nothing_left_def by blast
  have "nothing_left db' ps'" if "ps' \<in> set (packing_slips db')" "ps_status ps' = SHIPMENT_CANCELLED" for ps'
  proof -
    note row = that
    obtain r where r: "r \<in> set (packing_slips db)" "ps_id ps' = ps_id r" "ps_items ps' = ps_items r"
      "ps_status ps' = ps_status r \<or> ps_id r = slip \<and> packing_slips db' \<noteq> packing_slips db"
    proof (cases "packing_slips db' = packing_slips db")
      case True
      then show ?thesis using row(1) by (intro that [of ps']) auto
    next
      case False
      then have rows: "packing_slips db' = update_row ps_id slip (\<lambda>ps. ps\<lparr>ps_status := SHIPMENT_CANCELLED\<rparr>) (packing_slips db)"
        using assms(2) by blast
      show ?thesis using slip_rows_after [OF disjI2, OF rows row(1)] False that by blast
    qed
    from r(4) show ?thesis
    proof
      assume "ps_status ps' = ps_status r"
      then have "nothing_left db' r" using row(2) r(1) assms(1) keep by (simp add: cancelled_empty_def)
      then show ?thesis using r(2,3) by (simp add: nothing_left_def)
    next
      assume "ps_id r = slip \<and> packing_slips db' \<noteq> packing_slips db"
      then obtain ps where ps: "find_row ps_id slip (packing_slips db) = Some ps" "nothing_left db' ps" "ps_id r = slip"
        using assms(2) by blast
      then have "ps = r" using r(1) find_row_eq_Some [OF assms(3), of slip r] by simp
      then have "nothing_left db' r" using ps(2) by simp
      then show ?thesis using r(2,3) by (simp add: nothing_left_def)
    qed
  qed
  then show ?thesis by (simp add: cancelled_empty_def)
qed

text \<open>
  A cancelled shipment has nothing left on it, and so takes no return: whichever way a slip comes
  to be cancelled - directly, or by its last return - all its hardware is back, later returns of other
  slips keep it so, and a new return against it is refused, as the documentation of returns promises.
\<close>

theorem cancelled_slip_is_empty:
  assumes "cancelled_empty db" and "slip_ids_ok db"
    and "pool_ids_ok db" and "return_ids_ok db" and "distinct (map sr_id (shipment_returns db))"
  shows "(\<forall>i db'. cancel_shipment i db = Inr db' \<longrightarrow> cancelled_empty db') \<and>
    (\<forall>now slip w0 by_whom reference items key sr db'.
       create_shipment_return now slip w0 by_whom reference items key db = Inr (sr, db') \<longrightarrow> cancelled_empty db') \<and>
    (\<forall>now slip w0 by_whom reference items ps. find_row ps_id slip (packing_slips db) = Some ps \<and>
       ps_status ps = SHIPMENT_CANCELLED \<longrightarrow>
       raised (create_shipment_return now slip w0 by_whom reference items None db))"
proof (intro conjI allI impI)
  have ids: "distinct (map ps_id (packing_slips db))" using assms(2) by (simp add: slip_ids_ok_def)
  {
    fix i db' assume run: "cancel_shipment i db = Inr db'"
    then obtain ps where ps: "find_row ps_id i (packing_slips db) = Some ps" and left: "nothing_left db ps"
      and db': "db' = cancel_slip i db"
      using find_row_Some [of ps_id i "packing_slips db"]
      by (auto simp: cancel_shipment_def locked_packing_slip_def bindr_eq_Inr ensure_eq_Inr Let_def nothing_left_def
          list_all_iff split: option.splits)
    have rows: "packing_slips db' = update_row ps_id i (\<lambda>ps. ps\<lparr>ps_status := SHIPMENT_CANCELLED\<rparr>) (packing_slips db)"
      and same: "returned_quantities db' = returned_quantities db"
      by (auto simp: db' cancel_slip_def withdraw_shipment_scheduled_def set_slip_def Let_def returned_quantities_def return_lines_of_def fun_eq_iff)
    show "cancelled_empty db'"
      by (rule cancelled_empty_step [OF assms(1) _ ids]) (use rows ps left same in \<open>auto simp: nothing_left_def\<close>)
  next
    fix now slip w0 by_whom reference items key sr db'
    assume run: "create_shipment_return now slip w0 by_whom reference items key db = Inr (sr, db')"
    show "cancelled_empty db'"
    proof (cases "existing_return db slip key = Inr None")
      case False
      then have "db' = db"
        using run by (auto simp: create_shipment_return_def bindr_eq_Inr ensure_eq_Inr split: option.splits)
      then show ?thesis using assms(1) by simp
    next
      case True
      show ?thesis
        by (rule cancelled_empty_step [OF assms(1) _ ids])
          (use create_return_slips [OF run True assms(3-5)] returned_mono [OF run True assms(3-5)] in blast)+
    qed
  next
    fix now slip w0 by_whom reference items ps
    assume slip: "find_row ps_id slip (packing_slips db) = Some ps \<and> ps_status ps = SHIPMENT_CANCELLED"
    then have left: "nothing_left db ps"
      using assms(1) find_row_Some [of ps_id slip "packing_slips db"] by (auto simp: cancelled_empty_def)
    have none: "existing_return db slip None = Inr None" by (simp add: existing_return_def blank_def)
    show "raised (create_shipment_return now slip w0 by_whom reference items None db)"
    proof (rule ccontr)
      assume "\<not> raised (create_shipment_return now slip w0 by_whom reference items None db)"
      then obtain sr db' where "create_shipment_return now slip w0 by_whom reference items None db = Inr (sr, db')"
        by (auto simp: raised_def split: sum.splits)
      then obtain check: "check_return db ps items = Inr ()" and "items \<noteq> []"
        using slip none by (elim create_return_Inr) auto
      then obtain item psi where item: "item \<in> set items" and psi: "psi_of ps (rl_packing_slip_item_id item) = Some psi"
        "\<not> psi_is_manual psi"
        using check_return_ok(1) [OF check] by (metis list.set_intros(1) neq_Nil_conv)
      let ?i = "rl_packing_slip_item_id item"
      have "psi \<in> set (ps_items ps)" "psi_id psi = ?i" using find_row_Some [OF psi(1) [unfolded psi_of_def]] by simp_all
      then have "shipped_of ps ?i \<le> dict_get (returned_quantities db (ps_id ps)) ?i"
        using left psi by (auto simp: nothing_left_def shipped_of_def)
      moreover have "0 < back_of items ?i"
        using item check_return_ok(1) [OF check] by (intro back_of_pos) auto
      ultimately show False using check_return_ok(2) [OF check, of ?i] by simp
    qed
  }
qed

text \<open>A slip with three hinges, all of which come back broken.\<close>

definition demo_return_line :: "uuid \<Rightarrow> int \<Rightarrow> return_disposition \<Rightarrow> return_line" where
  "demo_return_line i q d = \<lparr>rl_packing_slip_item_id = i, rl_quantity = q, rl_disposition = d, rl_rma_reference = None,
     rl_reason_text = None\<rparr>"

definition demo_lines :: "return_line list" where
  "demo_lines = [demo_return_line 102 3 RMA_DEFECTIVE]"

definition demo_slip_db :: db where
  "demo_slip_db = demo_staged_db\<lparr>next_id := 105, packing_slips := [(new_slip 100 ''PS-00001'' 1 ''sam'' 9)
     \<lparr>ps_items := slip_items 102 [demo_cart (Some ''101'') 3]\<rparr>]\<rparr>"

definition demo_returned :: "uuid \<times> db" where
  "demo_returned = value_of (create_shipment_return 12 100 2 ''sam'' None demo_lines (Some ''k1'') demo_slip_db)"

lemma demo_returned:
  "create_shipment_return 12 100 2 ''sam'' None demo_lines (Some ''k1'') demo_slip_db =
     Inr (fst demo_returned, snd demo_returned)"
proof -
  have "\<not> raised (create_shipment_return 12 100 2 ''sam'' None demo_lines (Some ''k1'') demo_slip_db)" by code_simp
  then show ?thesis unfolding demo_returned_def by (simp add: value_of)
qed

lemma demo_slip_ok:
  "pool_ids_ok demo_slip_db" "return_ids_ok demo_slip_db"
  "distinct (map sr_id (shipment_returns demo_slip_db))"
  "existing_return demo_slip_db 100 (Some ''k1'') = Inr None" by code_simp+

lemma demo_returned_facts:
  "ps_status (hd (packing_slips (snd demo_returned))) = SHIPMENT_CANCELLED"
  "fst demo_returned = 105" by code_simp+

theorem return_lands_units_witness:
  "pool_total st_deficient_quantity (snd demo_returned) 2 (''Hinges'', ''BB1279'') = 3 \<and>
   on_hand (snd demo_returned) 1 (''Hinges'', ''BB1279'') = on_hand demo_slip_db 1 (''Hinges'', ''BB1279'')"
proof -
  let ?ps = "hd (packing_slips demo_slip_db)"
  have "find_row ps_id 100 (packing_slips demo_slip_db) = Some ?ps" by code_simp
  note land = return_lands_units [OF demo_returned demo_slip_ok(4,1,2,3) this]
  have "pool_total st_deficient_quantity demo_slip_db 2 (''Hinges'', ''BB1279'') = 0"
    "landed ?ps (\<lambda>d. d = RMA_DEFECTIVE) demo_lines (''Hinges'', ''BB1279'') = 3"
    "landed ?ps (\<lambda>d. d = RETURN_TO_PROJECT) demo_lines (''Hinges'', ''BB1279'') = 0" by code_simp+
  then show ?thesis using land by simp
qed

lemma demo_slip_books: "slip_ids_ok demo_slip_db" "returns_ok demo_slip_db" "cancelled_empty demo_slip_db"
  by code_simp+

theorem returns_never_exceed_shipped_witness: "returns_ok (snd demo_returned)"
  by (rule returns_never_exceed_shipped [OF demo_returned demo_slip_ok(1,2,3) demo_slip_books(1,2)])

theorem return_resend_changes_nothing_witness:
  "create_shipment_return 14 100 3 ''kim'' None [demo_return_line 102 1 NON_STOCK] (Some ''k1'') (snd demo_returned) =
     Inr (fst demo_returned, snd demo_returned)"
  by (rule return_resend_changes_nothing [OF demo_returned demo_slip_ok(1,2,3)]) (simp_all add: blank_def)

theorem cancelled_slip_is_empty_witness:
  "cancelled_empty (snd demo_returned) \<and> ps_status (hd (packing_slips (snd demo_returned))) = SHIPMENT_CANCELLED"
  using cancelled_slip_is_empty [OF demo_slip_books(3,1) demo_slip_ok(1,2,3)] demo_returned demo_returned_facts(1)
  by blast

section \<open>The weight of a truck\<close>

text \<open>
  C27. The weight check lets through a weight its column cannot hold: 99,999,999.995 pounds is below the
  limit, rounds up to it when it is stored, and the update of a scheduled slip ends in a database error
  rather than in the validation error the check is there to give. Every weight of whole hundredths that
  passes the check is stored.
\<close>

theorem weight_guard_admits_overflow:
  assumes "find_row ps_id i (packing_slips db) = Some ps" and "ps_status ps = SCHEDULED"
  shows "update_shipment_details i (empty_form\<lparr>sf_weight_lbs := Some (99999999995, 10)\<rparr>) driver db = Inl DataError \<and>
    (\<forall>n. weight_allowed (n, 1) \<longrightarrow> (\<exists>db'. update_shipment_details i (empty_form\<lparr>sf_weight_lbs := Some (n, 1)\<rparr>) driver db = Inr db'))"
  using assms
  by (auto simp: update_shipment_details_def locked_packing_slip_def apply_site_form_def weight_allowed_def weight_fits_def
      form_fits_def MAX_WEIGHT_LBS_def column_cost_def empty_form_def bindr_def ensure_def Let_def)

theorem weight_guard_admits_overflow_witness:
  "update_shipment_details 100 (empty_form\<lparr>sf_weight_lbs := Some (99999999995, 10)\<rparr>) None demo_slip_db = Inl DataError"
proof -
  have "find_row ps_id 100 (packing_slips demo_slip_db) = Some (hd (packing_slips demo_slip_db))"
    "ps_status (hd (packing_slips demo_slip_db)) = SCHEDULED" by code_simp+
  then show ?thesis using weight_guard_admits_overflow by blast
qed

end
