(* ===== verification/ContainerFacts.thy ===== *)
theory ContainerFacts
  imports Containers ShipmentFacts Contracts
begin

text \<open>
  Containers. The pool is exactly what is staged and what open containers hold of it; no save places more
  than is staged, so what was placed can be shipped; a container that has shipped never changes.
\<close>

section \<open>The pool and its arithmetic\<close>

text \<open>What a container holds of a key, what a project's open containers hold together, and what is staged.\<close>

definition holds :: "staged_key \<Rightarrow> shipment_container \<Rightarrow> int" where
  "holds k c = qty_of (placements c) k"

definition open_in :: "uuid \<Rightarrow> shipment_container \<Rightarrow> bool" where
  "open_in p c \<longleftrightarrow> sc_project_id c = p \<and> sc_packing_slip_id c = None"

definition placed :: "db \<Rightarrow> uuid \<Rightarrow> staged_key \<Rightarrow> int" where
  "placed db p k = sum_list (map (holds k) (filter (open_in p) (shipment_containers db)))"

definition ready :: "db \<Rightarrow> uuid \<Rightarrow> staged_key \<Rightarrow> int" where
  "ready db p k = dict_get (get_ship_ready_items db p) k"

text \<open>No more is placed than is staged, anywhere.\<close>

definition placed_ok :: "db \<Rightarrow> bool" where
  "placed_ok db \<longleftrightarrow> (\<forall>p k. placed db p k \<le> ready db p k)"

text \<open>The rows' own constraints: primary keys, drawn from the source of ids, and positive lines.\<close>

definition containers_ok :: "db \<Rightarrow> bool" where
  "containers_ok db \<longleftrightarrow> distinct (map sc_id (shipment_containers db)) \<and>
     list_all (\<lambda>c. sc_id c < next_id db \<and> list_all (\<lambda>i. 1 \<le> ci_quantity i) (sc_items c)) (shipment_containers db)"

lemma bucket_put: "bucket (pool_put k s p pool) k' =
  (fst (bucket pool k') + (if k' = k then s else 0), snd (bucket pool k') + (if k' = k then p else 0))"
  by (induction pool) (auto simp: bucket_def split: option.splits)

lemma bucket_place_all:
  "bucket (place_all kvs pool) k = (fst (bucket pool k), snd (bucket pool k) + qty_of kvs k)"
  by (induction kvs arbitrary: pool) (auto simp: bucket_put)

lemma bucket_stage_all:
  "bucket (stage_all kvs pool) k = (fst (bucket pool k) + qty_of kvs k, snd (bucket pool k))"
  by (induction kvs arbitrary: pool) (auto simp: bucket_put)

lemma ready_nonneg: "0 \<le> ready db p k"
  by (simp add: ready_def ship_ready_value)

lemma ready_distinct: "distinct (map fst (get_ship_ready_items db p))"
proof -
  let ?raw = "map (\<lambda>kv. (fst kv, snd kv - dict_get (staged_shipped db p) (fst kv))) (staged_fulfilled db p)"
  have "distinct (map fst ?raw)" by (simp add: staged_fulfilled_def comp_def)
  then have "distinct (map fst (filter (\<lambda>li. 0 < snd li) ?raw))" by (rule distinct_map_filter)
  moreover have "mset (get_ship_ready_items db p) = mset (filter (\<lambda>li. 0 < snd li) ?raw)"
    by (simp add: get_ship_ready_items_def Let_def)
  then have "mset (map fst (get_ship_ready_items db p)) = mset (map fst (filter (\<lambda>li. 0 < snd li) ?raw))"
    by (simp only: mset_map)
  ultimately show ?thesis using mset_eq_imp_distinct_iff by blast
qed

lemma qty_of_concat: "qty_of (concat (map f xs)) k = sum_list (map (\<lambda>x. qty_of (f x) k) xs)"
  by (induction xs) simp_all

lemma placements_sorted: "qty_of (concat (map placements (get_containers db p True))) k = placed db p k"
proof -
  have "mset (get_containers db p True) = mset (filter (open_in p) (shipment_containers db))"
    by (simp add: get_containers_def open_in_def Let_def filter_filter_mset)
  then have "mset (map (holds k) (get_containers db p True)) = mset (map (holds k) (filter (open_in p) (shipment_containers db)))"
    by (simp only: mset_map)
  then have "sum_list (map (holds k) (get_containers db p True)) = placed db p k" unfolding placed_def by (rule sum_list_mset)
  moreover have "(\<lambda>c. qty_of (placements c) k) = holds k" by (simp add: holds_def fun_eq_iff)
  ultimately show ?thesis by (simp add: qty_of_concat)
qed

lemma bucket_pool: "bucket (build_staged_pool db p) k = (ready db p k, placed db p k)"
  unfolding build_staged_pool_def bucket_place_all bucket_stage_all placements_sorted ready_def
  by (simp add: dict_get_distinct [OF ready_distinct] bucket_def)

lemma holds_nonneg: "containers_ok db \<Longrightarrow> c \<in> set (shipment_containers db) \<Longrightarrow> 0 \<le> holds k c"
  unfolding holds_def placements_def
  by (intro qty_of_nonneg) (fastforce simp: containers_ok_def list_all_iff)

lemma placed_nonneg: "containers_ok db \<Longrightarrow> 0 \<le> placed db p k"
  unfolding placed_def by (intro sum_list_nonneg) (auto intro: holds_nonneg)

lemma placed_update:
  assumes "containers_ok db" and "find_row sc_id i (shipment_containers db) = Some c"
    and "\<And>c. sc_project_id (f c) = sc_project_id c" and "\<And>c. sc_packing_slip_id (f c) = sc_packing_slip_id c"
  shows "placed (set_container i f db) p k = placed db p k + (if open_in p c then holds k (f c) - holds k c else 0)"
  unfolding placed_def set_container_def using assms
  by (simp add: containers_ok_def open_in_def sum_update_row)

lemma open_container_Inr:
  "open_container db i = Inr c \<longleftrightarrow>
     find_row sc_id i (shipment_containers db) = Some c \<and> sc_packing_slip_id c = None"
  by (auto simp: open_container_def ensure_eq_Inr split: option.splits)

section \<open>Filling\<close>

lemma holds_items: "qty_of (placements (c\<lparr>sc_items := container_items i n items\<rparr>)) k = dict_get (wanted_by items) k"
  unfolding wanted_by_def dict_get_tally placements_def
  by (induction items arbitrary: i n) (auto simp: ci_key_def cl_key_def)

lemma wanted_nonneg: "list_all line_ok items \<Longrightarrow> 0 \<le> dict_get (wanted_by items) k"
  unfolding wanted_by_def dict_get_tally by (intro qty_of_nonneg) (auto simp: list_all_iff line_ok_def)

lemma ready_same:
  "pull_requests db' = pull_requests db \<Longrightarrow> packing_slips db' = packing_slips db \<Longrightarrow> ready db' p k = ready db p k"
  by (simp add: ready_def ship_ready_value staged_left_def staged_fulfilled_def staged_shipped_def shipped_lines_def)

lemma placed_same: "shipment_containers db' = shipment_containers db \<Longrightarrow> placed db' p k = placed db p k"
  by (simp add: placed_def)

lemma set_container_items_Inr:
  assumes "set_container_items i items db = Inr db'"
  obtains c where "find_row sc_id i (shipment_containers db) = Some c" "sc_packing_slip_id c = None"
    "list_all line_ok items" "db' = put_items i items db"
    "\<And>k. k \<in> fst ` set (wanted_by items) \<Longrightarrow>
       dict_get (wanted_by items) k \<le> ready db (sc_project_id c) k - placed db (sc_project_id c) k + holds k c"
proof -
  obtain c where c: "find_row sc_id i (shipment_containers db) = Some c" "sc_packing_slip_id c = None"
      "list_all line_ok items" "db' = put_items i items db"
    and avail: "check_available c (wanted_by items) (build_staged_pool db (sc_project_id c)) = Inr ()"
    using assms by (auto simp: set_container_items_def bindr_eq_Inr ensure_eq_Inr open_container_Inr Let_def)
  show ?thesis
  proof (rule that [OF c])
    fix k assume "k \<in> fst ` set (wanted_by items)"
    then obtain v where "(k, v) \<in> set (wanted_by items)" by auto
    moreover from this have "v = dict_get (wanted_by items) k" by (simp add: wanted_by_def tally_mem tally_simps)
    ultimately show "dict_get (wanted_by items) k \<le> ready db (sc_project_id c) k - placed db (sc_project_id c) k + holds k c"
      using avail by (auto simp: check_available_def ensure_eq_Inr list_all_iff Let_def bucket_pool holds_def dict_get_tally)
  qed
qed

lemma put_items_ok:
  assumes "containers_ok db" and "list_all line_ok items"
  shows "containers_ok (put_items i items db)"
proof -
  have "list_all (\<lambda>i. 1 \<le> ci_quantity i) (container_items n m items)" for n m
    using assms(2) by (induction items arbitrary: n m) (auto simp: line_ok_def)
  then show ?thesis
    using assms(1) by (auto simp: containers_ok_def put_items_def set_container_def keys_update_row list_all_iff set_update_row)
qed

lemma placed_put:
  assumes "containers_ok db" and "find_row sc_id i (shipment_containers db) = Some c" and "sc_packing_slip_id c = None"
  shows "placed (put_items i items db) p k = placed db p k +
    (if p = sc_project_id c then dict_get (wanted_by items) k - holds k c else 0)"
proof -
  let ?db1 = "db\<lparr>next_id := next_id db + length items\<rparr>"
  have "containers_ok ?db1" using assms(1) by (fastforce simp: containers_ok_def list_all_iff)
  then have "placed (put_items i items db) p k = placed ?db1 p k +
    (if open_in p c then holds k (c\<lparr>sc_items := container_items (next_id db) 0 items\<rparr>) - holds k c else 0)"
    unfolding put_items_def using assms(2) by (intro placed_update) simp_all
  then show ?thesis using assms(3) by (simp add: placed_def open_in_def holds_def holds_items eq_commute)
qed

lemma ready_put: "ready (put_items i items db) p k = ready db p k"
  by (rule ready_same) (simp_all add: put_items_def set_container_def)

lemma set_items_placed_ok:
  assumes "set_container_items i items db = Inr db'" and "containers_ok db" and "placed_ok db"
  shows "placed_ok db'"
proof -
  obtain c where c: "find_row sc_id i (shipment_containers db) = Some c" "sc_packing_slip_id c = None"
    "list_all line_ok items" "db' = put_items i items db"
    and avail: "\<And>k. k \<in> fst ` set (wanted_by items) \<Longrightarrow>
       dict_get (wanted_by items) k \<le> ready db (sc_project_id c) k - placed db (sc_project_id c) k + holds k c"
    using assms(1) by (rule set_container_items_Inr) blast
  have "0 \<le> holds k c" for k using find_row_Some [OF c(1)] by (intro holds_nonneg [OF assms(2)]) simp
  then have "placed db' p k \<le> ready db' p k" for p k
    using assms(3) avail [of k] dict_get_notin [of k "wanted_by items"] spec [OF spec [OF assms(3) [unfolded placed_ok_def], of p], of k]
    unfolding c(4) placed_put [OF assms(2) c(1,2)] ready_put
    by (smt (verit, best))
  then show ?thesis by (simp add: placed_ok_def)
qed

text \<open>
  A save never places more than is staged: rewriting a container's lines puts in it exactly the lines
  sent, in the order sent, leaves every other container as it was, and a project whose placements were
  within its staged pool stays so; the shelf, the slips and the claims are not touched.
\<close>

theorem set_container_items_within_pool:
  assumes "set_container_items i items db = Inr db'" and "containers_ok db"
  shows "(placed_ok db \<longrightarrow> placed_ok db') \<and> containers_ok db' \<and> same_stock db db' \<and>
    (\<exists>c. find_row sc_id i (shipment_containers db') = Some c \<and> (\<forall>k. holds k c = dict_get (wanted_by items) k) \<and>
       map ci_position (sc_items c) = [0..<length items]) \<and>
    (\<forall>j. j \<noteq> i \<longrightarrow> find_row sc_id j (shipment_containers db') = find_row sc_id j (shipment_containers db))"
proof -
  obtain c where c: "find_row sc_id i (shipment_containers db) = Some c" "list_all line_ok items" "db' = put_items i items db"
    using assms(1) by (rule set_container_items_Inr)
  have pos: "map ci_position (container_items n m items) = [m..<m + length items]" for n m
    by (induction items arbitrary: n m) (auto simp: upt_conv_Cons simp del: upt_Suc)
  have "find_row sc_id j (shipment_containers db') = (if j = i then Some (c\<lparr>sc_items := container_items (next_id db) 0 items\<rparr>)
      else find_row sc_id j (shipment_containers db))" for j
    using c(1) by (simp add: c(3) put_items_def set_container_def find_row_update)
  then show ?thesis
    using set_items_placed_ok [OF assms] put_items_ok [OF assms(2) c(2), of i]
    by (simp add: holds_def holds_items pos same_stock_def c(3)) (simp add: put_items_def set_container_def)
qed

section \<open>Moving\<close>

lemma distinct_one: "set xs = {x} \<Longrightarrow> distinct xs \<Longrightarrow> xs = [x]"
  by (cases xs) (auto simp: subset_singleton_iff insert_ident)

lemma set_items_accepts:
  assumes "containers_ok db" and "find_row sc_id i (shipment_containers db) = Some c" and "sc_packing_slip_id c = None"
    and "list_all line_ok items"
    and "\<And>k. dict_get (wanted_by items) k \<le> ready db (sc_project_id c) k - placed db (sc_project_id c) k + holds k c"
  shows "set_container_items i items db = Inr (put_items i items db)"
proof -
  have "check_available c (wanted_by items) (build_staged_pool db (sc_project_id c)) = Inr ()"
  proof -
    have "snd kv = dict_get (wanted_by items) (fst kv)" if "kv \<in> set (wanted_by items)" for kv
      using that tally_mem [of "fst kv" "snd kv"] by (simp add: wanted_by_def dict_get_tally)
    then show ?thesis
      using assms(5) by (simp add: check_available_def list_all_iff Let_def bucket_pool holds_def [symmetric] dict_get_tally)
  qed
  moreover have "open_container db i = Inr c" using assms(2,3) by (simp add: open_container_Inr)
  ultimately show ?thesis using assms(4) by (simp add: set_container_items_def Let_def)
qed

text \<open>
  Moving between two containers is never refused for what they already hold: when the two rewritten
  lists together ask for no more of any product than the two open containers of one project held before,
  and nothing was over-placed, the move goes through, both containers hold what was sent, and nothing
  is over-placed afterwards. Gating the target before the source had given its units up would refuse it.
\<close>

theorem move_within_held_accepted:
  assumes "containers_ok db" and "placed_ok db" and "source \<noteq> target"
    and "find_row sc_id source (shipment_containers db) = Some s" and "find_row sc_id target (shipment_containers db) = Some t"
    and "sc_packing_slip_id s = None" and "sc_packing_slip_id t = None" and "sc_project_id s = sc_project_id t"
    and "list_all line_ok s_items" and "list_all line_ok t_items"
    and "\<forall>k. dict_get (wanted_by s_items) k + dict_get (wanted_by t_items) k \<le> holds k s + holds k t"
    and "\<forall>k. dict_get (wanted_by s_items) k \<le> holds k s"
  shows "\<exists>db'. move_between_containers source s_items target t_items db = Inr db' \<and> placed_ok db' \<and>
    (\<exists>s' t'. find_row sc_id source (shipment_containers db') = Some s' \<and> (\<forall>k. holds k s' = dict_get (wanted_by s_items) k) \<and>
       find_row sc_id target (shipment_containers db') = Some t' \<and> (\<forall>k. holds k t' = dict_get (wanted_by t_items) k))"
proof -
  let ?p = "sc_project_id s"
  let ?db1 = "put_items source s_items db"
  let ?db2 = "put_items target t_items ?db1"
  have within: "placed db ?p k \<le> ready db ?p k" for k using assms(2) unfolding placed_ok_def by blast
  have ids: "distinct (map sc_id (shipment_containers db))" using assms(1) by (simp add: containers_ok_def)
  have one: "set_container_items source s_items db = Inr ?db1"
    by (rule set_items_accepts [OF assms(1,4,6,9)]) (use within assms(12) in \<open>smt (verit)\<close>)
  have ok1: "containers_ok ?db1" by (rule put_items_ok [OF assms(1,9)])
  have t1: "find_row sc_id target (shipment_containers ?db1) = Some t"
    using assms(3,5) by (simp add: put_items_def set_container_def find_row_update)
  have room: "dict_get (wanted_by t_items) k \<le> ready ?db1 (sc_project_id t) k - placed ?db1 (sc_project_id t) k + holds k t" for k
    using within [of k] assms(8) spec [OF assms(11), of k]
    by (simp add: ready_put placed_put [OF assms(1,4,6)])
  have two: "set_container_items target t_items ?db1 = Inr ?db2"
    by (rule set_items_accepts [OF ok1 t1 assms(7,10) room])
  have same: "remdups (map sc_project_id (filter (\<lambda>c. sc_id c = source \<or> sc_id c = target) (shipment_containers db))) = [?p]"
  proof -
    let ?cs = "filter (\<lambda>c. sc_id c = source \<or> sc_id c = target) (shipment_containers db)"
    have "sc_project_id c = ?p" if "c \<in> set ?cs" for c
      using that find_row_eq_Some [OF ids, of source c] find_row_eq_Some [OF ids, of target c] assms(4,5,8) by auto
    moreover have "s \<in> set ?cs" using find_row_Some [OF assms(4)] by simp
    ultimately have "sc_project_id ` set ?cs = {?p}" by blast
    then have "set (map sc_project_id ?cs) = {?p}" by (simp only: set_map)
    then have "set (remdups (map sc_project_id ?cs)) = {?p}" by simp
    then show ?thesis by (rule distinct_one) simp
  qed
  have run: "move_between_containers source s_items target t_items db = Inr ?db2"
    using assms(3) same one two by (simp add: move_between_containers_def)
  have "placed_ok ?db2" by (rule set_items_placed_ok [OF two ok1 set_items_placed_ok [OF one assms(1,2)]])
  moreover have "find_row sc_id source (shipment_containers ?db2) = Some (s\<lparr>sc_items := container_items (next_id db) 0 s_items\<rparr>)"
    "find_row sc_id target (shipment_containers ?db2) = Some (t\<lparr>sc_items := container_items (next_id ?db1) 0 t_items\<rparr>)"
    using assms(3,4) t1 by (simp_all add: put_items_def set_container_def find_row_update)
  ultimately show ?thesis using run by (simp add: holds_def holds_items)
qed

section \<open>Shipping\<close>

lemma open_all_Inr:
  "open_all db is = Inr cs \<longleftrightarrow>
     map sc_id cs = is \<and> (\<forall>c \<in> set cs. find_row sc_id (sc_id c) (shipment_containers db) = Some c \<and> sc_packing_slip_id c = None)"
proof (induction "is" arbitrary: cs)
  case Nil
  then show ?case by auto
next
  case (Cons i "is")
  have "open_all db (i # is) = Inr cs \<longleftrightarrow>
     (\<exists>c cs'. open_container db i = Inr c \<and> open_all db is = Inr cs' \<and> cs = c # cs')"
    by (auto simp: bindr_eq_Inr)
  also have "\<dots> \<longleftrightarrow> (\<exists>c cs'. find_row sc_id i (shipment_containers db) = Some c \<and> sc_packing_slip_id c = None \<and>
     map sc_id cs' = is \<and> cs = c # cs' \<and>
     (\<forall>c \<in> set cs'. find_row sc_id (sc_id c) (shipment_containers db) = Some c \<and> sc_packing_slip_id c = None))"
    unfolding open_container_Inr Cons.IH by blast
  also have "\<dots> \<longleftrightarrow> map sc_id cs = i # is \<and>
     (\<forall>c \<in> set cs. find_row sc_id (sc_id c) (shipment_containers db) = Some c \<and> sc_packing_slip_id c = None)"
    by (cases cs) (auto dest: find_row_Some)
  finally show ?case .
qed

lemma check_containers_Inr:
  "check_containers p expected cs = Inr () \<longleftrightarrow> (\<forall>c \<in> set cs. check_container p expected c = Inr ())"
  by (induction cs) (auto simp: bindr_eq_Inr)

lemma qty_of_sorted: "qty_of (map (\<lambda>i. (f i, g i)) (filter P (sort_key h xs))) k = qty_of (map (\<lambda>i. (f i, g i)) (filter P xs)) k"
  by (rule qty_of_mset) (simp add: mset_map)

lemma cart_of_qty: "dict_get (cart_agg (cart_of cs)) k = sum_list (map (holds k) cs)"
proof -
  have "qty_of (map (\<lambda>i. (ca_key i, ca_units i)) (filter (\<lambda>i. \<not> ca_is_manual i) (map cart_line (sort_key ci_position (sc_items c))))) k
    = holds k c" for c
  proof -
    have "map (\<lambda>i. (ca_key i, ca_units i)) (filter (\<lambda>i. \<not> ca_is_manual i) (map cart_line xs)) =
      map (\<lambda>i. (ci_key i, ci_quantity i)) (filter (\<lambda>i. \<not> ci_is_manual i) xs)" for xs
      by (induction xs) (auto simp: cart_line_def ca_key_def ca_units_def ci_key_def)
    then show ?thesis by (simp add: qty_of_sorted holds_def placements_def)
  qed
  then show ?thesis
    unfolding cart_agg_def dict_get_tally cart_of_def by (induction cs) simp_all
qed

text \<open>A selection of a project's open containers, and what the project holds outside it.\<close>

lemma placed_split:
  assumes "containers_ok db" and "distinct (map sc_id cs)"
    and "\<forall>c \<in> set cs. c \<in> set (shipment_containers db) \<and> open_in p c"
  shows "placed db p k = sum_list (map (holds k) cs) +
    sum_list (map (holds k) (filter (\<lambda>c. sc_id c \<notin> sc_id ` set cs) (filter (open_in p) (shipment_containers db))))"
proof -
  let ?rows = "filter (open_in p) (shipment_containers db)"
  have dist: "distinct (map sc_id (shipment_containers db))" using assms(1) by (simp add: containers_ok_def)
  then have "inj_on sc_id (set (shipment_containers db))" by (simp add: distinct_map)
  then have "set (filter (\<lambda>c. sc_id c \<in> sc_id ` set cs) ?rows) = set cs" using assms(3) by (auto dest: inj_onD)
  moreover have "distinct (filter (\<lambda>c. sc_id c \<in> sc_id ` set cs) ?rows)" "distinct cs"
    using dist assms(2) by (simp_all add: distinct_map)
  ultimately have "mset (filter (\<lambda>c. sc_id c \<in> sc_id ` set cs) ?rows) = mset cs" using set_eq_iff_mset_eq_distinct by blast
  then have "mset (map (holds k) (filter (\<lambda>c. sc_id c \<in> sc_id ` set cs) ?rows)) = mset (map (holds k) cs)" by (simp only: mset_map)
  then have "sum_list (map (holds k) (filter (\<lambda>c. sc_id c \<in> sc_id ` set cs) ?rows)) = sum_list (map (holds k) cs)"
    by (rule sum_list_mset)
  moreover have "sum_list (map f xs) = sum_list (map f (filter P xs)) + sum_list (map f (filter (\<lambda>x. \<not> P x) xs))"
    for f :: "shipment_container \<Rightarrow> int" and P xs by (induction xs) auto
  ultimately show ?thesis unfolding placed_def by metis
qed

lemma selection_within_placed:
  assumes "containers_ok db" and "distinct (map sc_id cs)"
    and "\<forall>c \<in> set cs. c \<in> set (shipment_containers db) \<and> open_in p c"
  shows "sum_list (map (holds k) cs) \<le> placed db p k"
proof -
  have "0 \<le> sum_list (map (holds k) (filter (\<lambda>c. sc_id c \<notin> sc_id ` set cs) (filter (open_in p) (shipment_containers db))))"
    by (intro sum_list_nonneg) (auto intro: holds_nonneg [OF assms(1)])
  then show ?thesis using placed_split [OF assms, of k] by linarith
qed

lemma placed_stamped:
  assumes "containers_ok db" and "distinct (map sc_id cs)"
    and "\<forall>c \<in> set cs. c \<in> set (shipment_containers db) \<and> open_in p c"
    and "shipment_containers db' = map (\<lambda>c. if sc_id c \<in> sc_id ` set cs then c\<lparr>sc_packing_slip_id := Some slip\<rparr> else c)
      (shipment_containers db)"
  shows "placed db' q k = placed db q k - (if q = p then sum_list (map (holds k) cs) else 0)"
proof -
  have "placed db' q k = sum_list (map (holds k) (filter (\<lambda>c. sc_id c \<notin> sc_id ` set cs) (filter (open_in q) (shipment_containers db))))"
  proof -
    have "filter (open_in q) (map (\<lambda>c. if sc_id c \<in> ids then c\<lparr>sc_packing_slip_id := Some slip\<rparr> else c) rows) =
      filter (\<lambda>c. sc_id c \<notin> ids) (filter (open_in q) rows)" for ids rows
      by (induction rows) (auto simp: open_in_def)
    then show ?thesis unfolding placed_def assms(4) by simp
  qed
  moreover have "placed db q k = sum_list (map (holds k) (filter (\<lambda>c. sc_id c \<notin> sc_id ` set cs) (filter (open_in q) (shipment_containers db))))"
    if "q \<noteq> p"
  proof -
    have "inj_on sc_id (set (shipment_containers db))" using assms(1) by (simp add: containers_ok_def distinct_map)
    then have "filter (\<lambda>c. sc_id c \<notin> sc_id ` set cs) (filter (open_in q) (shipment_containers db)) = filter (open_in q) (shipment_containers db)"
      using assms(3) that by (intro filter_True) (auto simp: open_in_def dest: inj_onD)
    then show ?thesis unfolding placed_def by simp
  qed
  ultimately show ?thesis using placed_split [OF assms(1-3), of k] by (cases "q = p") simp_all
qed

lemma ready_confirmed:
  assumes "confirm_shipment now today p by_whom items details load driver db = Inr (i, db')"
  shows "ready db' q k = ready db q k - (if q = p then dict_get (cart_agg items) k else 0)"
proof -
  note left = confirm_shipment_left(1,2) [OF assms] and cart = confirm_shipment_cart [OF assms]
  have same: "staged_fulfilled db' q = staged_fulfilled db q" using left(2) by (simp add: staged_fulfilled_def)
  show ?thesis
  proof (cases "q = p \<and> 0 < dict_get (cart_agg items) k")
    case True
    have "k \<in> fst ` set (cart_agg items)" using True dict_get_notin by fastforce
    then obtain v where "(k, v) \<in> set (cart_agg items)" by auto
    moreover from this have "v = dict_get (cart_agg items) k" by (simp add: cart_agg_def tally_mem tally_simps)
    ultimately have "dict_get (cart_agg items) k \<le> ready db p k"
      using cart by (auto simp: check_cart_def bindr_eq_Inr ensure_eq_Inr Let_def list_all_iff ready_def)
    then show ?thesis
      using True left(1) [of p k] unfolding ready_def ship_ready_value same by (auto split: if_splits)
  next
    case False
    then have "staged_left db' q k = staged_left db q k" and "(if q = p then dict_get (cart_agg items) k else 0) = 0"
      using left(1) [of q k] cart_agg_nonneg [OF cart, of k] by (auto simp: not_less)
    then show ?thesis unfolding ready_def ship_ready_value same by simp
  qed
qed

lemma confirm_containers_Inr:
  assumes "confirm_shipment_from_containers now today p ids by_whom details expected load driver db = Inr (slip, db')"
  obtains cs db1 where "map sc_id cs = sort (remdups ids)"
    "\<forall>c \<in> set cs. find_row sc_id (sc_id c) (shipment_containers db) = Some c \<and> open_in p c \<and> check_container p expected c = Inr ()"
    "confirm_shipment now today p by_whom (cart_of cs) details load driver db = Inr (slip, db1)"
    "db' = stamp_slip (map sc_id cs) slip (stamp_containers (map sc_id cs) slip db1)"
  using assms
  by (auto simp: confirm_shipment_from_containers_def bindr_eq_Inr ensure_eq_Inr open_all_Inr check_containers_Inr
      open_in_def check_container_def)

lemma confirm_containers_effect:
  assumes "confirm_shipment_from_containers now today p ids by_whom details expected load driver db = Inr (slip, db')"
    and "containers_ok db"
  shows "placed_ok db \<Longrightarrow> placed_ok db'" and "containers_ok db'"
    and "shipment_containers db' = map (\<lambda>c. if sc_id c \<in> set ids then c\<lparr>sc_packing_slip_id := Some slip\<rparr> else c) (shipment_containers db)"
proof -
  obtain cs db1 where ids: "map sc_id cs = sort (remdups ids)"
    and cs: "\<forall>c \<in> set cs. find_row sc_id (sc_id c) (shipment_containers db) = Some c \<and> open_in p c \<and> check_container p expected c = Inr ()"
    and run: "confirm_shipment now today p by_whom (cart_of cs) details load driver db = Inr (slip, db1)"
    and db': "db' = stamp_slip (map sc_id cs) slip (stamp_containers (map sc_id cs) slip db1)"
    using assms(1) by (rule confirm_containers_Inr)
  have set_ids: "sc_id ` set cs = set ids" using arg_cong [OF ids, of set] by simp
  note kept = confirm_shipment_left(2-4) [OF run]
  show rows: "shipment_containers db' = map (\<lambda>c. if sc_id c \<in> set ids then c\<lparr>sc_packing_slip_id := Some slip\<rparr> else c) (shipment_containers db)"
    using kept(2) set_ids by (simp add: db' stamp_slip_def stamp_containers_def)
  have "map sc_id (shipment_containers db') = map sc_id (shipment_containers db)" unfolding rows by simp
  moreover have "list_all (\<lambda>c. sc_id c < next_id db' \<and> list_all (\<lambda>i. 1 \<le> ci_quantity i) (sc_items c)) (shipment_containers db')"
  proof -
    have "next_id db < next_id db'" using kept(3) by (simp add: db' stamp_slip_def stamp_containers_def)
    then show ?thesis using assms(2) unfolding rows by (auto simp: containers_ok_def list_all_iff intro: less_trans)
  qed
  ultimately show "containers_ok db'" using assms(2) by (simp add: containers_ok_def)
  have "distinct (map sc_id cs)" unfolding ids by simp
  moreover have "\<forall>c \<in> set cs. c \<in> set (shipment_containers db) \<and> open_in p c" using cs find_row_Some by fast
  moreover have "shipment_containers db' = map (\<lambda>c. if sc_id c \<in> sc_id ` set cs then c\<lparr>sc_packing_slip_id := Some slip\<rparr> else c) (shipment_containers db)"
    unfolding set_ids by (rule rows)
  ultimately have placed: "placed db' q k = placed db q k - (if q = p then sum_list (map (holds k) cs) else 0)" for q k
    by (rule placed_stamped [OF assms(2)])
  have "ready db' q k = ready db1 q k" for q k
    by (rule ready_same) (simp_all add: db' stamp_slip_def stamp_containers_def)
  then have "ready db' q k = ready db q k - (if q = p then sum_list (map (holds k) cs) else 0)" for q k
    by (simp add: ready_confirmed [OF run] cart_of_qty)
  then show "placed_ok db \<Longrightarrow> placed_ok db'" unfolding placed_ok_def using placed by simp
qed

inductive container_step :: "db \<Rightarrow> db \<Rightarrow> bool" where
  create: "create_container now p type name by_whom db = Inr (i, db') \<Longrightarrow> container_step db db'"
| rename: "rename_container i name db = Inr db' \<Longrightarrow> container_step db db'"
| break_down: "delete_container i db = Inr (keys, db') \<Longrightarrow> container_step db db'"
| fill: "set_container_items i items db = Inr db' \<Longrightarrow> container_step db db'"
| move: "move_between_containers s s_items t t_items db = Inr db' \<Longrightarrow> container_step db db'"
| ship: "confirm_shipment_from_containers now today p ids by_whom details expected load driver db = Inr (slip, db') \<Longrightarrow>
    container_step db db'"
| elsewhere: "shipment_containers db' = shipment_containers db \<Longrightarrow> next_id db \<le> next_id db' \<Longrightarrow>
    \<forall>p k. ready db p k \<le> ready db' p k \<Longrightarrow> container_step db db'"

inductive_cases container_stepE: "container_step db db'"

definition open_names :: "db \<Rightarrow> (uuid \<times> string) list" where
  "open_names db = map (\<lambda>c. (sc_project_id c, sc_name c)) (filter (\<lambda>c. sc_packing_slip_id c = None) (shipment_containers db))"

definition containers_inv :: "db \<Rightarrow> bool" where
  "containers_inv db \<longleftrightarrow> containers_ok db \<and> placed_ok db \<and> distinct (open_names db)"

lemma name_free: "check_name_free db p n = Inr () \<longleftrightarrow> (p, n) \<notin> set (open_names db)"
  by (auto simp: check_name_free_def ensure_eq_Inr open_names_def list_ex_iff)

lemma open_names_mem: "(p, n) \<in> set (open_names db) \<longleftrightarrow>
    (\<exists>r \<in> set (shipment_containers db). sc_packing_slip_id r = None \<and> sc_project_id r = p \<and> sc_name r = n)"
  by (auto simp: open_names_def image_iff)

lemma create_container_Inr:
  assumes "create_container now p type name by_whom db = Inr (i, db')"
  obtains n where "(p, n) \<notin> set (open_names db)" "i = next_id db"
    "db' = db\<lparr>next_id := Suc (next_id db), shipment_containers := shipment_containers db @
       [\<lparr>sc_id = next_id db, sc_project_id = p, sc_container_type = type, sc_name = n, sc_packing_slip_id = None,
         sc_created_by = by_whom, sc_created_at = now, sc_items = []\<rparr>]\<rparr>"
  using assms
  by (auto simp: create_container_def name_free bindr_eq_Inr fresh_def Let_def)

lemma rename_container_Inr:
  assumes "rename_container i name db = Inr db'"
  obtains "db' = db"
  | c n where "find_row sc_id i (shipment_containers db) = Some c" "sc_packing_slip_id c = None"
    "(sc_project_id c, n) \<notin> set (open_names db)" "db' = set_container i (\<lambda>c. c\<lparr>sc_name := n\<rparr>) db"
  using assms by (auto simp: rename_container_def name_free bindr_eq_Inr open_container_Inr split: if_splits)

lemma delete_container_Inr:
  assumes "delete_container i db = Inr (keys, db')"
  obtains c where "find_row sc_id i (shipment_containers db) = Some c" "sc_packing_slip_id c = None"
    "db' = db\<lparr>shipment_containers := delete_rows (\<lambda>c. sc_id c = i) (shipment_containers db),
       shipment_photos := delete_rows (\<lambda>ph. ph_container_id ph = Some i) (shipment_photos db)\<rparr>"
  using assms by (auto simp: delete_container_def bindr_eq_Inr open_container_Inr)

lemma move_containers_Inr:
  assumes "move_between_containers s s_items t t_items db = Inr db'"
  obtains db1 where "set_container_items s s_items db = Inr db1" "set_container_items t t_items db1 = Inr db'"
  using assms by (auto simp: move_between_containers_def bindr_eq_Inr ensure_eq_Inr)

section \<open>Runs of the staging floor\<close>

text \<open>Names among the open containers.\<close>

lemma open_names_put:
  assumes "find_row sc_id i (shipment_containers db) = Some c" and "distinct (map sc_id (shipment_containers db))"
  shows "open_names (put_items i items db) = open_names db"
proof -
  have "map (\<lambda>c. (sc_project_id c, sc_name c)) (filter (\<lambda>c. sc_packing_slip_id c = None) (update_row sc_id i (\<lambda>c. c\<lparr>sc_items := ls\<rparr>) rows))
    = map (\<lambda>c. (sc_project_id c, sc_name c)) (filter (\<lambda>c. sc_packing_slip_id c = None) rows)" for ls rows
    by (induction rows) (auto simp: update_row_def)
  then show ?thesis by (simp add: open_names_def put_items_def set_container_def)
qed

lemma open_names_rename:
  assumes "distinct (map (\<lambda>c. (sc_project_id c, sc_name c)) (filter (\<lambda>c. sc_packing_slip_id c = None) rows))"
    and "find_row sc_id i rows = Some c" and "distinct (map sc_id rows)"
    and "\<forall>r \<in> set rows. sc_packing_slip_id r = None \<longrightarrow> (sc_project_id r, sc_name r) \<noteq> (sc_project_id c, n)"
  shows "distinct (map (\<lambda>c. (sc_project_id c, sc_name c)) (filter (\<lambda>c. sc_packing_slip_id c = None)
    (update_row sc_id i (\<lambda>c. c\<lparr>sc_name := n\<rparr>) rows)))"
  using assms
proof (induction rows)
  case Nil
  then show ?case by (simp add: update_row_def)
next
  case (Cons r rows)
  show ?case
  proof (cases "sc_id r = i")
    case True
    then have "c = r" "update_row sc_id i (\<lambda>c. c\<lparr>sc_name := n\<rparr>) rows = rows"
      using Cons.prems(2,3) by (auto simp: find_row_def intro: update_row_notin)
    then have "update_row sc_id i (\<lambda>c. c\<lparr>sc_name := n\<rparr>) (r # rows) = r\<lparr>sc_name := n\<rparr> # rows"
      using True by (simp add: update_row_def)
    then show ?thesis using Cons.prems(1,4) \<open>c = r\<close> by (auto split: if_splits)
  next
    case False
    then have c: "find_row sc_id i rows = Some c" using Cons.prems(2) by (simp add: find_row_def)
    have head: "update_row sc_id i (\<lambda>c. c\<lparr>sc_name := n\<rparr>) (r # rows) = r # update_row sc_id i (\<lambda>c. c\<lparr>sc_name := n\<rparr>) rows"
      using False by (simp add: update_row_def)
    have tail: "distinct (map (\<lambda>c. (sc_project_id c, sc_name c)) (filter (\<lambda>c. sc_packing_slip_id c = None)
      (update_row sc_id i (\<lambda>c. c\<lparr>sc_name := n\<rparr>) rows)))"
      using Cons.prems c by (intro Cons.IH) (auto split: if_splits)
    have "x = c" if "x \<in> set rows" "sc_id x = i" for x
      using that c Cons.prems(3) find_row_eq_Some [of sc_id rows i x] by auto
    then have "(sc_project_id r, sc_name r) \<notin> (\<lambda>c. (sc_project_id c, sc_name c)) `
        {x \<in> set (update_row sc_id i (\<lambda>c. c\<lparr>sc_name := n\<rparr>) rows). sc_packing_slip_id x = None}"
      if "sc_packing_slip_id r = None"
      using that Cons.prems(1,4) by (fastforce simp: set_update_row)
    then show ?thesis unfolding head using tail by auto
  qed
qed

lemma create_keeps:
  assumes "create_container now p type name by_whom db = Inr (i, db')" and "containers_inv db"
  shows "containers_inv db'"
proof -
  obtain n where n: "(p, n) \<notin> set (open_names db)"
    and db': "db' = db\<lparr>next_id := Suc (next_id db), shipment_containers := shipment_containers db @
       [\<lparr>sc_id = next_id db, sc_project_id = p, sc_container_type = type, sc_name = n, sc_packing_slip_id = None,
         sc_created_by = by_whom, sc_created_at = now, sc_items = []\<rparr>]\<rparr>"
    using assms(1) by (rule create_container_Inr)
  have "containers_ok db'" using assms(2) by (fastforce simp: db' containers_inv_def containers_ok_def list_all_iff)
  moreover have "placed db' q k = placed db q k" for q k by (simp add: db' placed_def holds_def placements_def)
  moreover have "ready db' q k = ready db q k" for q k by (rule ready_same) (simp_all add: db')
  moreover have "open_names db' = open_names db @ [(p, n)]" by (simp add: db' open_names_def)
  ultimately show ?thesis using assms(2) n unfolding containers_inv_def placed_ok_def by simp
qed

lemma rename_keeps:
  assumes "rename_container i name db = Inr db'" and "containers_inv db"
  shows "containers_inv db'"
  using assms(1)
proof (cases rule: rename_container_Inr)
  case 1
  then show ?thesis using assms(2) by simp
next
  case (2 c n)
  have ok: "containers_ok db" and names: "distinct (open_names db)" and ids: "distinct (map sc_id (shipment_containers db))"
    using assms(2) by (simp_all add: containers_inv_def containers_ok_def)
  have "containers_ok db'"
    using ok by (auto simp: 2 containers_ok_def set_container_def keys_update_row list_all_iff set_update_row)
  moreover have "placed db' q k = placed db q k" for q k
    unfolding 2 by (subst placed_update [OF ok 2(1)]) (simp_all add: holds_def placements_def)
  moreover have "ready db' q k = ready db q k" for q k by (rule ready_same) (simp_all add: 2 set_container_def)
  moreover have "distinct (open_names db')"
  proof -
    have "\<forall>r \<in> set (shipment_containers db). sc_packing_slip_id r = None \<longrightarrow> (sc_project_id r, sc_name r) \<noteq> (sc_project_id c, n)"
      using 2(3) by (auto simp: open_names_mem)
    from open_names_rename [OF names [unfolded open_names_def] 2(1) ids this]
    show ?thesis by (simp add: 2(4) open_names_def set_container_def)
  qed
  ultimately show ?thesis using assms(2) unfolding containers_inv_def placed_ok_def by simp
qed

lemma delete_keeps:
  assumes "delete_container i db = Inr (keys, db')" and "containers_inv db"
  shows "containers_inv db'"
proof -
  obtain c where c: "find_row sc_id i (shipment_containers db) = Some c" "sc_packing_slip_id c = None"
    "db' = db\<lparr>shipment_containers := delete_rows (\<lambda>c. sc_id c = i) (shipment_containers db),
       shipment_photos := delete_rows (\<lambda>ph. ph_container_id ph = Some i) (shipment_photos db)\<rparr>"
    using assms(1) by (rule delete_container_Inr)
  have ok: "containers_ok db" using assms(2) by (simp add: containers_inv_def)
  have "containers_ok db'"
    using ok distinct_delete_rows [of sc_id "shipment_containers db"] by (auto simp: c(3) containers_ok_def list_all_iff set_delete_rows)
  moreover have "placed db' q k \<le> placed db q k" for q k
  proof -
    have "sum_list (map f (filter P (delete_rows Q rows))) \<le> sum_list (map f (filter P rows))"
      if "\<forall>r \<in> set rows. (0::int) \<le> f r" for f P Q and rows :: "shipment_container list"
      using that by (induction rows) (auto simp: delete_rows_def)
    then show ?thesis using holds_nonneg [OF ok] by (simp add: placed_def c(3))
  qed
  moreover have "ready db' q k = ready db q k" for q k by (rule ready_same) (simp_all add: c(3))
  moreover have "distinct (open_names db')"
  proof -
    have "open_names db' = map (\<lambda>c. (sc_project_id c, sc_name c)) (filter (\<lambda>c. sc_id c \<noteq> i)
      (filter (\<lambda>c. sc_packing_slip_id c = None) (shipment_containers db)))"
      by (simp add: open_names_def c(3) delete_rows_def conj_commute)
    moreover have "distinct (map (\<lambda>c. (sc_project_id c, sc_name c)) (filter (\<lambda>c. sc_packing_slip_id c = None) (shipment_containers db)))"
      using assms(2) by (simp add: containers_inv_def open_names_def)
    ultimately show ?thesis by (simp only: distinct_map_filter)
  qed
  ultimately show ?thesis using assms(2) order_trans unfolding containers_inv_def placed_ok_def by metis
qed

lemma fill_keeps:
  assumes "set_container_items i items db = Inr db'" and "containers_inv db"
  shows "containers_inv db'"
proof -
  have inv: "containers_ok db" "placed_ok db" "distinct (open_names db)" "distinct (map sc_id (shipment_containers db))"
    using assms(2) by (simp_all add: containers_inv_def containers_ok_def)
  obtain c where c: "find_row sc_id i (shipment_containers db) = Some c" "list_all line_ok items" "db' = put_items i items db"
    using assms(1) by (rule set_container_items_Inr)
  show ?thesis
    using set_items_placed_ok [OF assms(1) inv(1,2)] put_items_ok [OF inv(1) c(2)] open_names_put [OF c(1) inv(4)] inv(3)
    by (simp add: containers_inv_def c(3))
qed

lemma ship_keeps:
  assumes "confirm_shipment_from_containers now today p ids by_whom details expected load driver db = Inr (slip, db')"
    and "containers_inv db"
  shows "containers_inv db'"
proof -
  have inv: "containers_ok db" "placed_ok db" "distinct (open_names db)" using assms(2) by (simp_all add: containers_inv_def)
  note ship = confirm_containers_effect [OF assms(1) inv(1)]
  have "open_names db' = map (\<lambda>c. (sc_project_id c, sc_name c)) (filter (\<lambda>c. sc_id c \<notin> set ids)
    (filter (\<lambda>c. sc_packing_slip_id c = None) (shipment_containers db)))"
  proof -
    have "map (\<lambda>c. (sc_project_id c, sc_name c)) (filter (\<lambda>c. sc_packing_slip_id c = None)
        (map (\<lambda>c. if sc_id c \<in> J then c\<lparr>sc_packing_slip_id := Some slip\<rparr> else c) rows)) =
      map (\<lambda>c. (sc_project_id c, sc_name c)) (filter (\<lambda>c. sc_id c \<notin> J) (filter (\<lambda>c. sc_packing_slip_id c = None) rows))" for J rows
      by (induction rows) auto
    then show ?thesis unfolding open_names_def ship(3) .
  qed
  then have "distinct (open_names db')" using distinct_map_filter [OF inv(3) [unfolded open_names_def]] by simp
  then show ?thesis using ship(1,2) inv(2) by (simp add: containers_inv_def)
qed

lemma elsewhere_keeps:
  assumes "shipment_containers db' = shipment_containers db" and "next_id db \<le> next_id db'"
    and "\<forall>p k. ready db p k \<le> ready db' p k" and "containers_inv db"
  shows "containers_inv db'"
proof -
  have "containers_ok db'" using assms by (auto simp: containers_inv_def containers_ok_def list_all_iff intro: less_le_trans)
  moreover have "placed db' p k \<le> ready db' p k" for p k
    using assms(3,4) placed_same [OF assms(1), of p k] order_trans unfolding containers_inv_def placed_ok_def by metis
  moreover have "open_names db' = open_names db" using assms(1) by (simp add: open_names_def)
  ultimately show ?thesis using assms(4) by (simp add: containers_inv_def placed_ok_def)
qed

lemma container_step_keeps: "container_step db db' \<Longrightarrow> containers_inv db \<Longrightarrow> containers_inv db'"
  by (induction rule: container_step.induct)
    (blast intro: create_keeps rename_keeps delete_keeps fill_keeps ship_keeps elsewhere_keeps elim: move_containers_Inr)+

interpretation floor: invariant_run container_step containers_inv
  by unfold_locales (rule container_step_keeps)

text \<open>A container that has shipped.\<close>

lemma set_items_shipped:
  "set_container_items i items db = Inr db' \<Longrightarrow> c \<in> set (shipment_containers db) \<Longrightarrow> sc_packing_slip_id c \<noteq> None \<Longrightarrow>
   distinct (map sc_id (shipment_containers db)) \<Longrightarrow> c \<in> set (shipment_containers db')"
  by (erule set_container_items_Inr)
    (use find_row_eq_Some [of sc_id "shipment_containers db" i c] in \<open>auto simp: put_items_def set_container_def set_update_row\<close>)

lemma shipped_stays:
  assumes "container_step db db'" and "containers_inv db"
    and "c \<in> set (shipment_containers db) \<and> sc_packing_slip_id c \<noteq> None"
  shows "c \<in> set (shipment_containers db') \<and> sc_packing_slip_id c \<noteq> None"
proof -
  have ids: "distinct (map sc_id (shipment_containers db))" using assms(2) by (simp add: containers_inv_def containers_ok_def)
  have mine: "find_row sc_id i (shipment_containers db) = Some r \<Longrightarrow> sc_packing_slip_id r = None \<Longrightarrow> sc_id c \<noteq> i" for i r
    using assms(3) find_row_eq_Some [OF ids, of i c] by auto
  have "c \<in> set (shipment_containers db')"
    using assms(1)
  proof cases
    case (create now p type name by_whom i)
    then show ?thesis using assms(3) by (auto elim!: create_container_Inr)
  next
    case (rename i name)
    then show ?thesis using assms(3) mine
      by (elim rename_container_Inr) (auto simp: set_container_def set_update_row)
  next
    case (break_down i keys)
    then show ?thesis using assms(3) mine by (elim delete_container_Inr) (auto simp: set_delete_rows)
  next
    case (fill i items)
    then show ?thesis using assms(3) ids by (auto intro: set_items_shipped)
  next
    case (move s s_items t t_items)
    then obtain db1 where one: "set_container_items s s_items db = Inr db1" and two: "set_container_items t t_items db1 = Inr db'"
      by (rule move_containers_Inr)
    have "containers_inv db1" using one assms(2) by (rule fill_keeps)
    then show ?thesis
      using set_items_shipped [OF two] set_items_shipped [OF one] assms(3) ids by (simp add: containers_inv_def containers_ok_def)
  next
    case (ship now today p ids by_whom details expected load driver slip)
    have ok: "containers_ok db" using assms(2) by (simp add: containers_inv_def)
    obtain cs db1 where "map sc_id cs = sort (remdups ids)"
      "\<forall>c \<in> set cs. find_row sc_id (sc_id c) (shipment_containers db) = Some c \<and> open_in p c \<and> check_container p expected c = Inr ()"
      using ship by (rule confirm_containers_Inr)
    note cs = this
    have "sc_id ` set cs = set ids" using arg_cong [OF cs(1), of set] by simp
    moreover have "sc_id r \<noteq> sc_id c" if "r \<in> set cs" for r
      using mine [of "sc_id r" r] cs(2) that by (auto simp: open_in_def)
    ultimately have "sc_id c \<notin> set ids" by (metis imageE)
    then show ?thesis using assms(3) by (auto simp: confirm_containers_effect(3) [OF ship ok] image_iff)
  next
    case elsewhere
    then show ?thesis using assms(3) by simp
  qed
  then show ?thesis using assms(3) by simp
qed

interpretation shipped: lasting_fact container_step containers_inv
    "\<lambda>db. c \<in> set (shipment_containers db) \<and> sc_packing_slip_id c \<noteq> None" for c
  by unfold_locales (rule shipped_stays)

text \<open>
  C28. However the floor works - containers started, renamed, broken down, filled, rearranged and shipped
  in any order, while pulls and other steps only add to what is staged - no project ever has more placed
  in open containers than it has staged, and no two of its open containers share a name.
\<close>

theorem floor_never_over_placed:
  assumes "container_step\<^sup>*\<^sup>* db db'" and "containers_inv db"
  shows "(\<forall>p k. snd (bucket (build_staged_pool db' p) k) \<le> fst (bucket (build_staged_pool db' p) k)) \<and>
    (\<forall>c \<in> set (shipment_containers db'). \<forall>d \<in> set (shipment_containers db').
       sc_packing_slip_id c = None \<and> sc_packing_slip_id d = None \<and> sc_project_id c = sc_project_id d \<and>
       sc_name c = sc_name d \<longrightarrow> c = d)"
proof -
  have inv: "containers_inv db'" using assms by (rule floor.along)
  then have names: "distinct (map (\<lambda>c. (sc_project_id c, sc_name c)) (filter (\<lambda>c. sc_packing_slip_id c = None) (shipment_containers db')))"
    by (simp add: containers_inv_def open_names_def)
  have "c = d" if "c \<in> set (shipment_containers db')" "d \<in> set (shipment_containers db')" "sc_packing_slip_id c = None"
    "sc_packing_slip_id d = None" "sc_project_id c = sc_project_id d" "sc_name c = sc_name d" for c d
    using names that by (simp add: distinct_map inj_on_def)
  moreover have "placed db' p k \<le> ready db' p k" for p k using inv unfolding containers_inv_def placed_ok_def by blast
  ultimately show ?thesis by (auto simp: bucket_pool)
qed

text \<open>
  C29. A container that has shipped is part of its slip's record: whatever happens on the floor afterwards,
  its row is still there and still exactly what it was.
\<close>

theorem shipped_container_is_fixed:
  assumes "container_step\<^sup>*\<^sup>* db db'" and "containers_inv db"
    and "c \<in> set (shipment_containers db)" and "sc_packing_slip_id c = Some slip"
  shows "c \<in> set (shipment_containers db')"
  using shipped.lasts [OF assms(1,2), of c] assms(3,4) by simp

text \<open>A line as the paper shows it: where it goes, what it is, how many, and whether it was typed in by hand.\<close>

type_synonym shown_line = "string option \<times> string option \<times> string option \<times> string option \<times> string \<times> string \<times> int \<times> bool"

definition slip_line :: "packing_slip_item \<Rightarrow> shown_line" where
  "slip_line i = (psi_opening_number i, psi_building i, psi_floor i, psi_location i, psi_hardware_category i, psi_product_code i,
     psi_quantity i, psi_is_manual i)"

definition packed_line :: "shipment_container_item \<Rightarrow> shown_line" where
  "packed_line i = (ci_opening_number i, None, None, None, ci_hardware_category i, ci_product_code i, ci_quantity i, ci_is_manual i)"

definition packed_lines :: "db \<Rightarrow> uuid \<Rightarrow> shown_line list" where
  "packed_lines db i = (case find_row sc_id i (shipment_containers db) of None \<Rightarrow> []
     | Some c \<Rightarrow> map packed_line (sort_key ci_position (sc_items c)))"

lemma slip_items_lines: "map slip_line (slip_items n items) = map (\<lambda>i. slip_line (slip_item 0 i)) items"
  by (induction items arbitrary: n) (simp_all add: slip_line_def slip_item_def)

lemma slip_items_ids: "map psi_id (slip_items n items) = [n..<n + length items]"
  by (induction items arbitrary: n) (simp_all add: slip_item_def upt_rec)

lemma cart_of_lines: "map (\<lambda>i. slip_line (slip_item 0 i)) (cart_of cs) = concat (map (\<lambda>c. map packed_line (sort_key ci_position (sc_items c))) cs)"
proof -
  have "slip_line (slip_item 0 (cart_line i)) = packed_line i" for i
    by (simp add: cart_line_def slip_item_def slip_line_def packed_line_def ca_units_def)
  then show ?thesis by (simp add: cart_of_def map_concat comp_def)
qed

text \<open>
  C30. Shipping containers ships what is in them, once: one slip is added, and its lines are, one for one and in order,
  the lines of the named containers, hand-typed ones and staged ones alike, each column as it was packed. Each of the
  containers was open and is now stamped with the slip; every other container is as it was, and what is still placed
  elsewhere is still within what is still staged.
\<close>

theorem confirm_ships_the_containers:
  assumes "confirm_shipment_from_containers now today p ids by_whom details expected load driver db = Inr (slip, db')"
    and "containers_ok db" and "placed_ok db"
  shows "placed_ok db' \<and>
    (\<forall>i \<in> set ids. \<exists>c. find_row sc_id i (shipment_containers db) = Some c \<and> open_in p c \<and>
       find_row sc_id i (shipment_containers db') = Some (c\<lparr>sc_packing_slip_id := Some slip\<rparr>)) \<and>
    (\<forall>i. i \<notin> set ids \<longrightarrow> find_row sc_id i (shipment_containers db') = find_row sc_id i (shipment_containers db)) \<and>
    (\<exists>ps. packing_slips db' = packing_slips db @ [ps] \<and> ps_id ps = slip \<and> distinct (map psi_id (ps_items ps)) \<and>
       map slip_line (ps_items ps) = concat (map (packed_lines db) (sort (remdups ids))))"
proof -
  obtain cs db1 where ids: "map sc_id cs = sort (remdups ids)"
    and cs: "\<forall>c \<in> set cs. find_row sc_id (sc_id c) (shipment_containers db) = Some c \<and> open_in p c \<and> check_container p expected c = Inr ()"
    and run: "confirm_shipment now today p by_whom (cart_of cs) details load driver db = Inr (slip, db1)"
    and db': "db' = stamp_slip (map sc_id cs) slip (stamp_containers (map sc_id cs) slip db1)"
    using assms(1) by (rule confirm_containers_Inr)
  have set_ids: "sc_id ` set cs = set ids" using arg_cong [OF ids, of set] by simp
  note rows = confirm_containers_effect(3) [OF assms(1,2)]
  have found: "find_row sc_id i (shipment_containers db') =
      map_option (\<lambda>c. if i \<in> set ids then c\<lparr>sc_packing_slip_id := Some slip\<rparr> else c) (find_row sc_id i (shipment_containers db))" for i
  proof -
    have "find_row sc_id i (map (\<lambda>c. if sc_id c \<in> J then c\<lparr>sc_packing_slip_id := Some slip\<rparr> else c) xs) =
      map_option (\<lambda>c. if i \<in> J then c\<lparr>sc_packing_slip_id := Some slip\<rparr> else c) (find_row sc_id i xs)" for J xs
      by (induction xs) (auto simp: find_row_def)
    then show ?thesis unfolding rows .
  qed
  have shipped: "\<exists>c. find_row sc_id i (shipment_containers db) = Some c \<and> open_in p c \<and>
      find_row sc_id i (shipment_containers db') = Some (c\<lparr>sc_packing_slip_id := Some slip\<rparr>)" if "i \<in> set ids" for i
  proof -
    have "i \<in> sc_id ` set cs" using that by (simp add: set_ids)
    then obtain c where "c \<in> set cs" "sc_id c = i" by blast
    then show ?thesis using cs that by (intro exI [of _ c]) (auto simp: found)
  qed
  have rest: "find_row sc_id i (shipment_containers db') = find_row sc_id i (shipment_containers db)" if "i \<notin> set ids" for i
    using that by (simp add: found option.map_id0 [unfolded id_def])
  obtain ps n where ps: "packing_slips db1 = packing_slips db @ [ps]" "ps_id ps = slip" "ps_items ps = slip_items n (cart_of cs)"
    using run by (elim confirm_shipment_Inr) auto
  have "map (packed_lines db) (sort (remdups ids)) = map (\<lambda>c. map packed_line (sort_key ci_position (sc_items c))) cs"
    unfolding ids [symmetric] using cs by (simp add: packed_lines_def)
  then have "map slip_line (ps_items ps) = concat (map (packed_lines db) (sort (remdups ids)))"
    by (simp add: ps(3) slip_items_lines cart_of_lines)
  moreover have "distinct (map psi_id (ps_items ps))" by (simp add: ps(3) slip_items_ids)
  moreover have "packing_slips db' = packing_slips db @ [ps]" using ps(1) by (simp add: db' stamp_slip_def stamp_containers_def)
  ultimately show ?thesis using confirm_containers_effect(1) [OF assms] shipped rest ps(2) by blast
qed

lemma containers_confirm_total:
  assumes "containers_ok db" and "placed_ok db" and "ids \<noteq> []" and "by_whom \<noteq> []" and "form_ok details"
    and "find_row pj_id p (projects db) = Some pj" and "pj_company pj = Some company"
    and "pj_gp_setup_ok pj \<noteq> Some False" and "CHR 0x5C \<notin> set (pj_number pj)"
    and "\<forall>i \<in> set ids. \<exists>c. find_row sc_id i (shipment_containers db) = Some c \<and> open_in p c \<and> sc_items c \<noteq> [] \<and>
      (case expected of None \<Rightarrow> True | Some e \<Rightarrow> map_of e i = Some (map ci_id (sc_items c)))"
  shows "\<exists>slip db'. confirm_shipment_from_containers now today p ids by_whom details expected None driver db = Inr (slip, db')"
proof -
  let ?cs = "map (\<lambda>i. the (find_row sc_id i (shipment_containers db))) (sort (remdups ids))"
  have the: "find_row sc_id i (shipment_containers db) = Some c \<Longrightarrow> sc_id c = i" for i c
    using find_row_Some [of sc_id i "shipment_containers db" c] by simp
  have cs: "\<forall>c \<in> set ?cs. find_row sc_id (sc_id c) (shipment_containers db) = Some c \<and> open_in p c \<and> sc_items c \<noteq> [] \<and>
      (case expected of None \<Rightarrow> True | Some e \<Rightarrow> map_of e (sc_id c) = Some (map ci_id (sc_items c)))"
  proof
    fix c assume "c \<in> set ?cs"
    then obtain i where "i \<in> set ids" and c: "c = the (find_row sc_id i (shipment_containers db))" by auto
    then obtain d where d: "find_row sc_id i (shipment_containers db) = Some d" "open_in p d" "sc_items d \<noteq> []"
        "case expected of None \<Rightarrow> True | Some e \<Rightarrow> map_of e i = Some (map ci_id (sc_items d))"
      using bspec [OF assms(10)] by blast
    have "c = d" "sc_id d = i" using c d(1) the by simp_all
    then show "find_row sc_id (sc_id c) (shipment_containers db) = Some c \<and> open_in p c \<and> sc_items c \<noteq> [] \<and>
      (case expected of None \<Rightarrow> True | Some e \<Rightarrow> map_of e (sc_id c) = Some (map ci_id (sc_items c)))"
      unfolding \<open>c = d\<close> \<open>sc_id d = i\<close> using d by blast
  qed
  have "sc_id (the (find_row sc_id i (shipment_containers db))) = i" if "i \<in> set ids" for i
    using bspec [OF assms(10) that] the by (metis option.sel)
  then have keys: "map sc_id ?cs = sort (remdups ids)" unfolding map_map by (intro map_idI) simp
  have opened: "open_all db (sort (remdups ids)) = Inr ?cs" using keys cs by (simp add: open_all_Inr open_in_def)
  have checked: "check_containers p expected ?cs = Inr ()"
    unfolding check_containers_Inr using cs by (auto simp: check_container_def open_in_def ensure_eq_Inr split: option.splits)
  have rows: "\<forall>c \<in> set ?cs. c \<in> set (shipment_containers db) \<and> open_in p c" using cs find_row_Some by fast
  moreover have "distinct (map sc_id ?cs)" unfolding keys by simp
  ultimately have within: "sum_list (map (holds k) ?cs) \<le> ready db p k" for k
    using selection_within_placed [OF assms(1)] assms(2) order_trans unfolding placed_ok_def by blast
  have fits: "\<forall>kv \<in> set (cart_agg (cart_of ?cs)). snd kv \<le> dict_get (get_ship_ready_items db p) (fst kv)"
  proof
    fix kv assume "kv \<in> set (cart_agg (cart_of ?cs))"
    then have "snd kv = dict_get (cart_agg (cart_of ?cs)) (fst kv)"
      using tally_mem [of "fst kv" "snd kv"] by (simp add: cart_agg_def dict_get_tally)
    then show "snd kv \<le> dict_get (get_ship_ready_items db p) (fst kv)"
      using within [of "fst kv"] by (simp only: cart_of_qty ready_def)
  qed
  obtain i where "i \<in> set ids" using assms(3) by (cases ids) auto
  then have "the (find_row sc_id i (shipment_containers db)) \<in> set ?cs" by simp
  then have "cart_of ?cs \<noteq> []"
  proof -
    have "cart_of xs \<noteq> []" if "c \<in> set xs" "sc_items c \<noteq> []" for c xs
    proof -
      have "set (sort_key ci_position (sc_items c)) \<noteq> {}" using that(2) by simp
      then show ?thesis using that(1) unfolding cart_of_def concat_eq_Nil_conv by fastforce
    qed
    moreover have "sc_items (the (find_row sc_id i (shipment_containers db))) \<noteq> []"
      using bspec [OF assms(10) \<open>i \<in> set ids\<close>] by auto
    ultimately show ?thesis using \<open>the (find_row sc_id i (shipment_containers db)) \<in> set ?cs\<close> by blast
  qed
  moreover have "\<forall>i \<in> set (cart_of ?cs). \<exists>q \<ge> 1. ca_quantity i = Some q"
  proof
    fix i assume "i \<in> set (cart_of ?cs)"
    then obtain c l where "c \<in> set ?cs" "l \<in> set (sc_items c)" "i = cart_line l" by (auto simp: cart_of_def)
    note l = this
    then have "c \<in> set (shipment_containers db)" using rows by blast
    then have "1 \<le> ci_quantity l" using assms(1) l(2) by (simp add: containers_ok_def list_all_iff)
    then show "\<exists>q \<ge> 1. ca_quantity i = Some q" using l(3) by (simp add: cart_line_def)
  qed
  ultimately obtain slip db1 where
    "confirm_shipment now today p by_whom (cart_of ?cs) details None driver db = Inr (slip, db1)"
    using confirm_shipment_total [OF assms(6-9,4) _ _ fits assms(5)] by blast
  then show ?thesis
    using assms(3) opened checked by (simp add: confirm_shipment_from_containers_def)
qed

text \<open>
  C31. What the staging rules accepted is never refused at the truck: for a project not on hold, any
  selection of its open, filled containers, with a form the columns take and the contents the dialog
  showed, ships - no placement that a save allowed can be more than what is there when it is confirmed.
\<close>

theorem staged_containers_ship:
  assumes "containers_ok db" and "placed_ok db" and "ids \<noteq> []" and "by_whom \<noteq> []" and "form_ok details"
    and "find_row pj_id p (projects db) = Some pj" and "pj_company pj = Some company"
    and "pj_gp_setup_ok pj \<noteq> Some False" and "CHR 0x5C \<notin> set (pj_number pj)"
    and "\<forall>i \<in> set ids. \<exists>c. find_row sc_id i (shipment_containers db) = Some c \<and> open_in p c \<and> sc_items c \<noteq> [] \<and>
      (case expected of None \<Rightarrow> True | Some e \<Rightarrow> map_of e i = Some (map ci_id (sc_items c)))"
  shows "\<exists>slip db'. confirm_shipment_from_containers now today p ids by_whom details expected None driver db = Inr (slip, db') \<and>
    placed_ok db'"
  using containers_confirm_total [OF assms, of now today driver] confirm_containers_effect(1) [OF _ assms(1,2)] by blast

section \<open>The staging page\<close>

lemma pair_rows:
  "filter (\<lambda>x. (fst x, key (snd x)) = (p, k)) (concat (map (\<lambda>r. map (Pair (proj r)) (items r)) rs)) =
   map (Pair p) (filter (\<lambda>i. key i = k) (concat (map items (filter (\<lambda>r. proj r = p) rs))))"
proof (induction rs)
  case Nil
  then show ?case by simp
next
  case (Cons r rs)
  have "filter (\<lambda>x. (fst x, key (snd x)) = (p, k)) (map (Pair q) xs) =
    (if q = p then map (Pair p) (filter (\<lambda>i. key i = k) xs) else [])" for q xs
    by (induction xs) auto
  then show ?case using Cons by simp
qed

lemma map_of_filter_pos:
  "bucket (map (\<lambda>kv. (snd (fst kv), snd kv, 0)) (filter (\<lambda>kv. fst (fst kv) = p \<and> 0 < snd kv) xs)) k =
     (dict_get (filter (\<lambda>kv. 0 < snd kv) xs) (p, k), 0)"
  by (induction xs) (auto simp: bucket_def)

lemma fulfilled_of:
  "(p, k) \<in> fst ` set (fulfilled_by_project db company) \<longleftrightarrow> in_company db company p \<and> k \<in> fst ` set (staged_fulfilled db p)"
  "in_company db company p \<Longrightarrow> dict_get (fulfilled_by_project db company) (p, k) = dict_get (staged_fulfilled db p) k"
proof -
  show "(p, k) \<in> fst ` set (fulfilled_by_project db company) \<longleftrightarrow> in_company db company p \<and> k \<in> fst ` set (staged_fulfilled db p)"
    by (auto simp: fulfilled_by_project_def staged_fulfilled_def keys_sum_by image_iff)
  assume "in_company db company p"
  then have same: "filter (\<lambda>pr. pr_project_id pr = p) (filter (\<lambda>pr. pr_source pr = PULL_SHIPPING_OUT \<and> pr_status pr = PULL_COMPLETED \<and>
      in_company db company (pr_project_id pr)) (pull_requests db)) =
    filter (\<lambda>pr. pr_source pr = PULL_SHIPPING_OUT \<and> pr_status pr = PULL_COMPLETED \<and> pr_project_id pr = p) (pull_requests db)"
    by (auto intro!: filter_cong)
  show "dict_get (fulfilled_by_project db company) (p, k) = dict_get (staged_fulfilled db p) k"
    unfolding fulfilled_by_project_def staged_fulfilled_def dict_get_sum_by pair_rows same by (simp add: comp_def)
qed

lemma shipped_of_project:
  assumes "in_company db company p"
  shows "dict_get (shipped_by_project db company) (p, k) = dict_get (staged_shipped db p) k"
proof -
  have same: "filter (\<lambda>ps. ps_project_id ps = p) (filter (\<lambda>ps. in_company db company (ps_project_id ps)) (packing_slips db)) =
    filter (\<lambda>ps. ps_project_id ps = p) (packing_slips db)"
    using assms by (auto intro!: filter_cong)
  have swap: "filter P (filter Q xs) = filter Q (filter P xs)" for P Q and xs :: "(uuid \<times> packing_slip_item) list"
    by (simp add: conj_commute)
  show ?thesis
    unfolding shipped_by_project_def staged_shipped_def shipped_lines_def dict_get_sum_by swap [of "\<lambda>r. (fst r, psi_key (snd r)) = (p, k)"]
      pair_rows same by (simp add: filter_map comp_def conj_commute)
qed

lemma overview_bucket:
  assumes "in_company db company p"
  shows "bucket (overview_pool db company p) k = bucket (build_staged_pool db p) k"
proof -
  let ?raw = "map (\<lambda>kv. (fst kv, snd kv - dict_get (shipped_by_project db company) (fst kv))) (fulfilled_by_project db company)"
  have dist: "distinct (map fst ?raw)" by (simp add: fulfilled_by_project_def comp_def)
  have "dict_get (filter (\<lambda>kv. 0 < snd kv) ?raw) (p, k) = max 0 (dict_get ?raw (p, k))" by (rule dict_get_filter_pos [OF dist])
  also have "dict_get ?raw (p, k) = (case map_of (fulfilled_by_project db company) (p, k) of None \<Rightarrow> 0
      | Some v \<Rightarrow> v - dict_get (shipped_by_project db company) (p, k))"
    unfolding dict_get_def [of ?raw] map_of_map_value by (simp split: option.split)
  also have "\<dots> = (if (p, k) \<in> fst ` set (fulfilled_by_project db company)
      then dict_get (fulfilled_by_project db company) (p, k) - dict_get (shipped_by_project db company) (p, k) else 0)"
    unfolding dict_get_def [of "fulfilled_by_project db company"]
    using map_of_eq_None_iff [of "fulfilled_by_project db company" "(p, k)"]
    by (cases "map_of (fulfilled_by_project db company) (p, k)") simp_all
  also have "\<dots> = (if k \<in> fst ` set (staged_fulfilled db p) then staged_left db p k else 0)"
    using assms by (simp only: fulfilled_of shipped_of_project staged_left_def simp_thms)
  finally have staged: "dict_get (filter (\<lambda>kv. 0 < snd kv) ?raw) (p, k) = ready db p k"
    by (simp add: ready_def ship_ready_value)
  have open_rows: "filter (\<lambda>c. sc_project_id c = p) (open_containers db company) = filter (open_in p) (shipment_containers db)"
    using assms by (auto simp: open_containers_def open_in_def intro!: filter_cong)
  have "qty_of (concat (map placements (filter (\<lambda>c. sc_project_id c = p) (open_containers db company)))) k = placed db p k"
    unfolding open_rows qty_of_concat placed_def by (simp add: holds_def [abs_def])
  then show ?thesis
    unfolding overview_pool_def bucket_place_all map_of_filter_pos staged bucket_pool by simp
qed

text \<open>
  C32. The staging page and a project's own workspace agree on every line: whatever company it is drawn for,
  each row of the page shows, for every product, the staged and the placed quantity the workspace computes
  from the project's own reads, and its count of open containers; and every project of the company
  with something staged or a container open has its row.
\<close>

theorem overview_agrees_with_workspace:
  assumes "pj \<in> set (projects db)" and "in_company db company (pj_id pj)"
  shows "((pj, pool, n) \<in> set (build_staging_overview db company) \<longrightarrow>
      (\<forall>k. bucket pool k = bucket (build_staged_pool db (pj_id pj)) k) \<and> n = length (get_containers db (pj_id pj) True)) \<and>
    ((\<exists>k. 0 < fst (bucket (build_staged_pool db (pj_id pj)) k)) \<or> get_containers db (pj_id pj) True \<noteq> [] \<longrightarrow>
      pj \<in> fst ` set (build_staging_overview db company))"
proof (intro conjI impI)
  let ?p = "pj_id pj"
  have "mset (get_containers db ?p True) = mset (filter (open_in ?p) (shipment_containers db))"
    by (simp add: get_containers_def open_in_def Let_def filter_filter_mset)
  then have count: "length (get_containers db ?p True) = length (filter (open_in ?p) (shipment_containers db))"
    by (rule mset_eq_length)
  have open_rows: "filter (\<lambda>c. sc_project_id c = ?p) (open_containers db company) = filter (open_in ?p) (shipment_containers db)"
    using assms by (auto simp: open_containers_def open_in_def intro!: filter_cong)
  {
    assume "(pj, pool, n) \<in> set (build_staging_overview db company)"
    then have "pool = overview_pool db company ?p" "n = length (filter (\<lambda>c. sc_project_id c = ?p) (open_containers db company))"
      by (auto simp: build_staging_overview_def)
    then show "\<forall>k. bucket pool k = bucket (build_staged_pool db ?p) k" "n = length (get_containers db ?p True)"
      using overview_bucket [OF assms(2)] open_rows count by simp_all
  next
    assume some: "(\<exists>k. 0 < fst (bucket (build_staged_pool db ?p) k)) \<or> get_containers db ?p True \<noteq> []"
    have "?p \<in> set (overview_projects db company)"
      using some
    proof
      assume "\<exists>k. 0 < fst (bucket (build_staged_pool db ?p) k)"
      then obtain k where k: "0 < ready db ?p k" by (auto simp: bucket_pool)
      then have key: "k \<in> fst ` set (staged_fulfilled db ?p)" and left: "0 < staged_left db ?p k"
        by (auto simp: ready_def ship_ready_value split: if_splits)
      then have "(?p, k) \<in> fst ` set (fulfilled_by_project db company)" using assms(2) by (simp add: fulfilled_of)
      then obtain v where v: "((?p, k), v) \<in> set (fulfilled_by_project db company)" by auto
      then have "v = dict_get (fulfilled_by_project db company) (?p, k)"
        using dict_get_distinct [of "fulfilled_by_project db company"] by (simp add: fulfilled_by_project_def sum_by_def tally_mem dict_get_tally)
      then have "0 < v - dict_get (shipped_by_project db company) (?p, k)"
        using left assms(2) by (simp add: fulfilled_of shipped_of_project staged_left_def)
      then show ?thesis using v by (force simp: overview_projects_def)
    next
      assume "get_containers db ?p True \<noteq> []"
      then have "filter (open_in ?p) (shipment_containers db) \<noteq> []" using count by (metis length_0_conv)
      then have "filter (\<lambda>c. sc_project_id c = ?p) (open_containers db company) \<noteq> []" unfolding open_rows .
      then obtain c where "c \<in> set (open_containers db company)" "sc_project_id c = ?p" by (auto simp: filter_empty_conv)
      then have "?p \<in> sc_project_id ` set (open_containers db company)" by force
      then show ?thesis by (simp add: overview_projects_def)
    qed
    then show "pj \<in> fst ` set (build_staging_overview db company)"
      using assms(1) by (force simp: build_staging_overview_def)
  }
qed

section \<open>A floor\<close>

lemma placed_okI:
  assumes "\<forall>c \<in> set (shipment_containers db). \<forall>kv \<in> set (placements c).
      placed db (sc_project_id c) (fst kv) \<le> ready db (sc_project_id c) (fst kv)"
  shows "placed_ok db"
proof -
  have "placed db p k \<le> ready db p k" for p k
  proof (cases "\<exists>c \<in> set (shipment_containers db). open_in p c \<and> k \<in> fst ` set (placements c)")
    case True
    then show ?thesis using assms by (auto simp: open_in_def)
  next
    case False
    then have "\<forall>c \<in> set (filter (open_in p) (shipment_containers db)). holds k c = 0"
      by (auto simp: holds_def qty_of_notin)
    moreover have "sum_list (map (holds k) xs) = 0" if "\<forall>c \<in> set xs. holds k c = 0" for xs
      using that by (induction xs) auto
    ultimately have "placed db p k = 0" unfolding placed_def by blast
    then show ?thesis by (simp add: ready_nonneg)
  qed
  then show ?thesis by (simp add: placed_ok_def)
qed

text \<open>A skid with four of the five hinges staged for one opening, and an empty box, and the skid that left before.\<close>

definition demo_container :: "uuid \<Rightarrow> string \<Rightarrow> container_line list \<Rightarrow> shipment_container" where
  "demo_container i name items =
     \<lparr>sc_id = i, sc_project_id = 1, sc_container_type = SKID, sc_name = name, sc_packing_slip_id = None,
      sc_created_by = ''sam'', sc_created_at = i, sc_items = container_items (10 * i) 0 items\<rparr>"

definition demo_hinges :: "int \<Rightarrow> container_line" where
  "demo_hinges q = \<lparr>cl_opening_number = Some ''101'', cl_hardware_category = ''Hinges'', cl_product_code = ''BB1279'',
     cl_quantity = q, cl_is_manual = False\<rparr>"

definition demo_floor :: db where
  "demo_floor = demo_staged_db\<lparr>shipment_containers :=
     [demo_container 3 ''Skid 1'' [demo_hinges 4], demo_container 4 ''Box 1'' [],
      (demo_container 5 ''Skid 1'' [demo_hinges 2])\<lparr>sc_packing_slip_id := Some 9\<rparr>]\<rparr>"

lemma demo_floor_ok: "containers_ok demo_floor" "placed_ok demo_floor" "distinct (open_names demo_floor)"
proof -
  show "containers_ok demo_floor" "distinct (open_names demo_floor)" by code_simp+
  show "placed_ok demo_floor" by (rule placed_okI) code_simp
qed

lemma demo_floor_inv: "containers_inv demo_floor"
  using demo_floor_ok by (simp add: containers_inv_def)

lemma demo_fill: "set_container_items 3 [demo_hinges 5] demo_floor = Inr (put_items 3 [demo_hinges 5] demo_floor)"
  by code_simp

lemma demo_run: "container_step\<^sup>*\<^sup>* demo_floor (put_items 3 [demo_hinges 5] demo_floor)"
  by (rule r_into_rtranclp, rule container_step.fill, rule demo_fill)

theorem set_container_items_within_pool_witness:
  "placed_ok (put_items 3 [demo_hinges 5] demo_floor) \<and> raised (set_container_items 4 [demo_hinges 2] demo_floor)"
proof
  show "placed_ok (put_items 3 [demo_hinges 5] demo_floor)"
    using set_container_items_within_pool [OF demo_fill demo_floor_ok(1)] demo_floor_ok(2) by blast
  show "raised (set_container_items 4 [demo_hinges 2] demo_floor)" by code_simp
qed

lemma wanted_demo:
  "dict_get (wanted_by [demo_hinges q]) k = (if k = (Some ''101'', ''Hinges'', ''BB1279'') then q else 0)"
  by (auto simp: wanted_by_def dict_get_tally demo_hinges_def cl_key_def loose_key_def)

lemma holds_demo: "holds k (demo_container i name items) = dict_get (wanted_by items) k"
  using holds_items [where c = "demo_container i name []" and i = "10 * i" and n = 0]
  by (simp add: holds_def placements_def demo_container_def)

theorem move_within_held_accepted_witness:
  "\<exists>db'. move_between_containers 3 [demo_hinges 1] 4 [demo_hinges 3] demo_floor = Inr db' \<and> placed_ok db'"
proof -
  have rows: "find_row sc_id 3 (shipment_containers demo_floor) = Some (demo_container 3 ''Skid 1'' [demo_hinges 4])"
    "find_row sc_id 4 (shipment_containers demo_floor) = Some (demo_container 4 ''Box 1'' [])" by code_simp+
  have "list_all line_ok [demo_hinges 1]" "list_all line_ok [demo_hinges 3]"
    "sc_packing_slip_id (demo_container 3 ''Skid 1'' [demo_hinges 4]) = None" "sc_packing_slip_id (demo_container 4 ''Box 1'' []) = None"
    "sc_project_id (demo_container 3 ''Skid 1'' [demo_hinges 4]) = sc_project_id (demo_container 4 ''Box 1'' [])"
    by code_simp+
  note checks = this
  have "\<forall>k. dict_get (wanted_by [demo_hinges 1]) k + dict_get (wanted_by [demo_hinges 3]) k \<le>
      holds k (demo_container 3 ''Skid 1'' [demo_hinges 4]) + holds k (demo_container 4 ''Box 1'' [])"
    "\<forall>k. dict_get (wanted_by [demo_hinges 1]) k \<le> holds k (demo_container 3 ''Skid 1'' [demo_hinges 4])"
    unfolding holds_demo wanted_demo by (simp_all add: wanted_by_def)
  then show ?thesis
    using move_within_held_accepted [OF demo_floor_ok(1,2) _ rows checks(3,4,5,1,2)] by fastforce
qed

theorem floor_never_over_placed_witness:
  "snd (bucket (build_staged_pool (put_items 3 [demo_hinges 5] demo_floor) 1) (Some ''101'', ''Hinges'', ''BB1279'')) \<le>
   fst (bucket (build_staged_pool (put_items 3 [demo_hinges 5] demo_floor) 1) (Some ''101'', ''Hinges'', ''BB1279''))"
  using floor_never_over_placed [OF demo_run demo_floor_inv] by blast

theorem shipped_container_is_fixed_witness:
  "(demo_container 5 ''Skid 1'' [demo_hinges 2])\<lparr>sc_packing_slip_id := Some 9\<rparr> \<in>
     set (shipment_containers (put_items 3 [demo_hinges 5] demo_floor))"
  by (rule shipped_container_is_fixed [OF demo_run demo_floor_inv, where slip = 9]) (simp_all add: demo_floor_def)

lemma demo_ship_ready:
  "find_row pj_id 1 (projects demo_floor) = Some \<lparr>pj_id = 1, pj_number = ''23093'', pj_company = Some ''UBC'', pj_gp_setup_ok = None, pj_gp_job_state = None\<rparr>"
  "find_row sc_id 3 (shipment_containers demo_floor) = Some (demo_container 3 ''Skid 1'' [demo_hinges 4])"
  "form_ok None" by code_simp+

lemma demo_selection: "\<forall>i \<in> set [3]. \<exists>c. find_row sc_id i (shipment_containers demo_floor) = Some c \<and> open_in 1 c \<and>
    sc_items c \<noteq> [] \<and> (case None of None \<Rightarrow> True | Some e \<Rightarrow> map_of e i = Some (map ci_id (sc_items c)))"
  using demo_ship_ready(2) by (simp add: open_in_def demo_container_def)

theorem staged_containers_ship_witness:
  "\<exists>slip db'. confirm_shipment_from_containers 9 (2026, 10, 15) 1 [3] ''sam'' None None None None demo_floor = Inr (slip, db') \<and>
    placed_ok db'"
  by (rule staged_containers_ship [OF demo_floor_ok(1,2) _ _ demo_ship_ready(3,1) _ _ _ demo_selection, where company = "''UBC''"])
    (simp_all)

theorem confirm_ships_the_containers_witness:
  "\<exists>slip (db' :: db). find_row sc_id 3 (shipment_containers db') =
     Some ((demo_container 3 ''Skid 1'' [demo_hinges 4])\<lparr>sc_packing_slip_id := Some slip\<rparr>) \<and>
     (\<exists>ps. packing_slips db' = packing_slips demo_floor @ [ps] \<and>
        map slip_line (ps_items ps) = [(Some ''101'', None, None, None, ''Hinges'', ''BB1279'', 4, False)])"
proof -
  obtain slip db' where run: "confirm_shipment_from_containers 9 (2026, 10, 15) 1 [3] ''sam'' None None None None demo_floor = Inr (slip, db')"
    using containers_confirm_total [OF demo_floor_ok(1,2) _ _ demo_ship_ready(3,1) _ _ _ demo_selection, of "''sam''" "''UBC''" 9 "(2026, 10, 15)" None]
    by auto
  note ships = confirm_ships_the_containers [OF run demo_floor_ok(1,2)]
  have "packed_lines demo_floor 3 = [(Some ''101'', None, None, None, ''Hinges'', ''BB1279'', 4, False)]" by code_simp
  with ships demo_ship_ready(2) show ?thesis by (intro exI [of _ slip] exI [of _ db']) auto
qed

theorem overview_agrees_with_workspace_witness:
  "\<lparr>pj_id = 1, pj_number = ''23093'', pj_company = Some ''UBC'', pj_gp_setup_ok = None, pj_gp_job_state = None\<rparr> \<in>
     fst ` set (build_staging_overview demo_floor (Some ''UBC''))"
proof -
  let ?pj = "\<lparr>pj_id = 1, pj_number = ''23093'', pj_company = Some ''UBC'', pj_gp_setup_ok = None, pj_gp_job_state = None\<rparr>"
  have "?pj \<in> set (projects demo_floor)" by (simp add: demo_floor_def demo_staged_db_def)
  moreover have "in_company demo_floor (Some ''UBC'') (pj_id ?pj)" by code_simp
  moreover have "get_containers demo_floor (pj_id ?pj) True \<noteq> []" by code_simp
  ultimately show ?thesis using overview_agrees_with_workspace by blast
qed

end
