(* ===== verification/ShipmentLife.thy ===== *)
theory ShipmentLife
  imports ContainerFacts
begin

text \<open>
  The life of a packing slip. What its books promise is written once, as a ledger of rows that are
  issued and then only move along the shipment's journey; every operation of the program that touches
  slips is shown to be a step of the ledger, and the invariant of the books is kept along any run.
\<close>

section \<open>The journey\<close>

text \<open>Where a shipment can still get to, as the order of its statuses.\<close>

instantiation shipment_status :: order
begin

definition less_eq_shipment_status :: "shipment_status \<Rightarrow> shipment_status \<Rightarrow> bool" where
  "less_eq_shipment_status a b \<longleftrightarrow> a = b \<or> a = SCHEDULED \<or> (a = PICKED_UP \<and> b = DELIVERED)"

definition less_shipment_status :: "shipment_status \<Rightarrow> shipment_status \<Rightarrow> bool" where
  "less_shipment_status a b \<longleftrightarrow> a \<noteq> b \<and> (a = SCHEDULED \<or> (a = PICKED_UP \<and> b = DELIVERED))"

instance
  by standard (auto simp: less_eq_shipment_status_def less_shipment_status_def)

end

text \<open>The stamps a slip bears are those of its status.\<close>

definition stamps_match :: "packing_slip \<Rightarrow> bool" where
  "stamps_match ps \<longleftrightarrow>
     (ps_picked_up_at ps \<noteq> None \<longleftrightarrow> ps_status ps \<in> {PICKED_UP, DELIVERED}) \<and>
     (ps_picked_up_by ps = None \<longleftrightarrow> ps_picked_up_at ps = None) \<and>
     (ps_delivered_at ps \<noteq> None \<longleftrightarrow> ps_status ps = DELIVERED) \<and>
     (ps_delivered_by ps = None \<longleftrightarrow> ps_delivered_at ps = None)"

inductive slip_leg :: "packing_slip \<Rightarrow> packing_slip \<Rightarrow> bool" where
  amend: "ps_status ps = SCHEDULED \<Longrightarrow> slip_leg ps (ps\<lparr>ps_pickup_date := u, ps_delivery_date := d,
    ps_weight_lbs := w, ps_form := f, ps_driver_user_id := x, ps_driver_name := y\<rparr>)"
| reload: "ps_status ps = SCHEDULED \<Longrightarrow> slip_leg ps (ps\<lparr>ps_load_id := Some l\<rparr>)"
| pick_up: "ps_status ps = SCHEDULED \<Longrightarrow>
    slip_leg ps (ps\<lparr>ps_status := PICKED_UP, ps_picked_up_at := Some now, ps_picked_up_by := Some who\<rparr>)"
| deliver: "ps_status ps = PICKED_UP \<Longrightarrow>
    slip_leg ps (ps\<lparr>ps_status := DELIVERED, ps_delivered_at := Some now, ps_delivered_by := Some who\<rparr>)"
| call_off: "ps_status ps = SCHEDULED \<Longrightarrow> slip_leg ps (ps\<lparr>ps_status := SHIPMENT_CANCELLED\<rparr>)"

inductive_cases slip_legE: "slip_leg ps ps'"

text \<open>What a slip's row fixes for good when it is issued, and what it fixes when the truck leaves.\<close>

definition issued_part :: "packing_slip \<Rightarrow> packing_slip" where
  "issued_part ps = ps\<lparr>ps_load_id := None, ps_status := SCHEDULED, ps_pickup_date := None,
     ps_delivery_date := None, ps_weight_lbs := None, ps_form := [], ps_driver_user_id := None,
     ps_driver_name := None, ps_picked_up_at := None, ps_picked_up_by := None, ps_delivered_at := None,
     ps_delivered_by := None\<rparr>"

definition loaded_part :: "packing_slip \<Rightarrow> packing_slip" where
  "loaded_part ps = ps\<lparr>ps_status := SCHEDULED, ps_delivered_at := None, ps_delivered_by := None\<rparr>"

definition descends :: "packing_slip \<Rightarrow> packing_slip \<Rightarrow> bool" where
  "descends ps ps' \<longleftrightarrow> issued_part ps' = issued_part ps \<and> ps_status ps \<le> ps_status ps' \<and>
     (ps_status ps \<noteq> SCHEDULED \<longrightarrow> loaded_part ps' = loaded_part ps) \<and>
     (ps_status ps \<in> {DELIVERED, SHIPMENT_CANCELLED} \<longrightarrow> ps' = ps)"

lemma descends_refl [simp]: "descends ps ps"
  by (simp add: descends_def)

lemma leg_descends: "slip_leg ps ps' \<Longrightarrow> descends ps ps'"
  by (erule slip_leg.cases) (auto simp: descends_def issued_part_def loaded_part_def less_eq_shipment_status_def)

lemma descends_trans: "descends a b \<Longrightarrow> descends b c \<Longrightarrow> descends a c"
  unfolding descends_def less_eq_shipment_status_def by auto

lemma issued_fields:
  assumes "issued_part a = issued_part b"
  shows "ps_id a = ps_id b" "ps_packing_slip_number a = ps_packing_slip_number b" "ps_items a = ps_items b"
    "ps_project_id a = ps_project_id b" "ps_shipped_by a = ps_shipped_by b" "ps_shipped_at a = ps_shipped_at b"
  using arg_cong [OF assms, of ps_id] arg_cong [OF assms, of ps_packing_slip_number] arg_cong [OF assms, of ps_items]
    arg_cong [OF assms, of ps_project_id] arg_cong [OF assms, of ps_shipped_by] arg_cong [OF assms, of ps_shipped_at]
  by (simp_all add: issued_part_def)

lemmas leg_fields = issued_fields [OF conjunct1 [OF leg_descends [unfolded descends_def]]]

lemma leg_stamps: "slip_leg ps ps' \<Longrightarrow> stamps_match ps \<Longrightarrow> stamps_match ps'"
  by (erule slip_leg.cases) (auto simp: stamps_match_def)

section \<open>The ledger\<close>

text \<open>
  The abstract specification: a ledger of slips, where a slip is issued under a new id and an unused
  number, and an issued slip only takes a leg of its journey.
\<close>

inductive ledger_step :: "packing_slip list \<Rightarrow> packing_slip list \<Rightarrow> bool" where
  issue: "ps_id ps \<notin> ps_id ` set rows \<Longrightarrow> ps_packing_slip_number ps \<notin> ps_packing_slip_number ` set rows \<Longrightarrow>
    ps_status ps = SCHEDULED \<Longrightarrow> stamps_match ps \<Longrightarrow> ledger_step rows (rows @ [ps])"
| advance: "find_row ps_id i rows = Some ps \<Longrightarrow> slip_leg ps ps' \<Longrightarrow> ledger_step rows (update_row ps_id i (\<lambda>_. ps') rows)"
| idle: "ledger_step rows rows"

definition ledger_ok :: "packing_slip list \<Rightarrow> bool" where
  "ledger_ok rows \<longleftrightarrow> distinct (map ps_id rows) \<and> distinct (map ps_packing_slip_number rows) \<and> list_all stamps_match rows"

lemma update_row_const:
  "find_row key i rows = Some r \<Longrightarrow> distinct (map key rows) \<Longrightarrow> update_row key i f rows = update_row key i (\<lambda>_. f r) rows"
  by (auto simp: update_row_def distinct_map inj_on_def dest: find_row_Some)

lemma map_update_row_same: "(\<And>r. r \<in> set rows \<Longrightarrow> key r = i \<Longrightarrow> g (f r) = g r) \<Longrightarrow> map g (update_row key i f rows) = map g rows"
  by (auto simp: update_row_def)

lemma advance_maps:
  assumes "find_row ps_id i rows = Some ps" and "slip_leg ps ps'" and "distinct (map ps_id rows)"
  shows "map ps_id (update_row ps_id i (\<lambda>_. ps') rows) = map ps_id rows"
    and "map ps_packing_slip_number (update_row ps_id i (\<lambda>_. ps') rows) = map ps_packing_slip_number rows"
    and "r \<in> set (update_row ps_id i (\<lambda>_. ps') rows) \<longleftrightarrow> (r \<in> set rows \<and> ps_id r \<noteq> i) \<or> r = ps'"
proof -
  have only: "r = ps" if "r \<in> set rows" "ps_id r = i" for r
    using that find_row_eq_Some [OF assms(3), of i r] assms(1) by auto
  show "map ps_id (update_row ps_id i (\<lambda>_. ps') rows) = map ps_id rows"
    "map ps_packing_slip_number (update_row ps_id i (\<lambda>_. ps') rows) = map ps_packing_slip_number rows"
    using only leg_fields [OF assms(2)] by (auto intro!: map_update_row_same)
  show "r \<in> set (update_row ps_id i (\<lambda>_. ps') rows) \<longleftrightarrow> (r \<in> set rows \<and> ps_id r \<noteq> i) \<or> r = ps'"
    using find_row_Some [OF assms(1)] by (auto simp: set_update_row)
qed

lemma ledger_step_ok: "ledger_step rows rows' \<Longrightarrow> ledger_ok rows \<Longrightarrow> ledger_ok rows'"
proof (induction rule: ledger_step.induct)
  case (advance i rows ps ps')
  then have "stamps_match ps" using find_row_Some [of ps_id i rows ps] by (auto simp: ledger_ok_def list_all_iff)
  then show ?case
    using advance leg_stamps [OF advance(2)] unfolding ledger_ok_def list_all_iff
    by (auto simp: advance_maps simp del: map_eq_conv)
qed (auto simp: ledger_ok_def)

text \<open>A slip of the ledger stays in it and descends from what it was.\<close>

lemma ledger_step_row:
  assumes "ledger_step rows rows'" and "ledger_ok rows" and "find_row ps_id i rows = Some ps"
  shows "\<exists>ps'. find_row ps_id i rows' = Some ps' \<and> descends ps ps'"
  using assms
proof (induction rule: ledger_step.induct)
  case (issue new rows)
  then show ?case by (auto simp: find_row_append)
next
  case (advance j rows old new)
  show ?case
  proof (cases "i = j")
    case True
    then have "ps = old" using advance by simp
    moreover have "find_row ps_id i (update_row ps_id i (\<lambda>_. new) rows) = Some new"
      using True advance leg_fields(1) [OF advance(2)] find_row_Some [of ps_id i rows ps]
        find_row_eq_Some [of ps_id "update_row ps_id i (\<lambda>_. new) rows" i new]
      by (auto simp: advance_maps ledger_ok_def)
    ultimately show ?thesis using True leg_descends [OF advance(2)] by auto
  next
    case False
    then have "find_row ps_id i (update_row ps_id j (\<lambda>_. new) rows) = Some ps"
      using advance leg_fields(1) [OF advance(2)] find_row_Some [of ps_id j rows old] find_row_Some [of ps_id i rows ps]
        find_row_eq_Some [of ps_id "update_row ps_id j (\<lambda>_. new) rows" i ps]
      by (auto simp: advance_maps ledger_ok_def)
    then show ?thesis by simp
  qed
qed auto

interpretation ledger: invariant_run ledger_step ledger_ok
  by unfold_locales (rule ledger_step_ok)

interpretation slip_life: lasting_fact ledger_step ledger_ok
    "\<lambda>rows. \<exists>ps'. find_row ps_id (ps_id ps) rows = Some ps' \<and> descends ps ps'" for ps
  by unfold_locales (use ledger_step_row descends_trans in blast)

section \<open>Every operation on slips\<close>

text \<open>
  The operations that touch a slip, a return or a load, and whatever the rest of the program does
  besides: it leaves those tables alone, only draws on the counter, and keeps the pool's ids.
\<close>

inductive slip_step :: "db \<Rightarrow> db \<Rightarrow> bool" where
  confirm: "confirm_shipment now today p by_whom items details load driver db = Inr (i, db') \<Longrightarrow> slip_step db db'"
| confirm_containers: "confirm_shipment_from_containers now today p ids by_whom details expected load driver db = Inr (i, db') \<Longrightarrow>
    slip_step db db'"
| details: "update_shipment_details i form driver db = Inr db' \<Longrightarrow> slip_step db db'"
| picked_up: "mark_shipment_picked_up now i who db = Inr db' \<Longrightarrow> slip_step db db'"
| delivered: "mark_shipment_delivered now i who db = Inr db' \<Longrightarrow> slip_step db db'"
| cancelled: "cancel_shipment i db = Inr db' \<Longrightarrow> slip_step db db'"
| returned: "create_shipment_return now i w by_whom reference lines key db = Inr (sr, db') \<Longrightarrow> slip_step db db'"
| moved: "find_row ps_id i (packing_slips db) = Some ps \<Longrightarrow>
    move_slip_to_load today ps load by_whom day db = Inr (l, db') \<Longrightarrow> slip_step db db'"
| elsewhere: "packing_slips db' = packing_slips db \<Longrightarrow> shipment_returns db' = shipment_returns db \<Longrightarrow>
    shipment_loads db' = shipment_loads db \<Longrightarrow> next_id db \<le> next_id db' \<Longrightarrow> pool_ids_ok db' \<Longrightarrow> slip_step db db'"

inductive_cases slip_stepE: "slip_step db db'"

text \<open>Every slip is on a load, and every load carries a slip.\<close>

definition loads_ok :: "db \<Rightarrow> bool" where
  "loads_ok db \<longleftrightarrow> distinct (map ld_id (shipment_loads db)) \<and> list_all (\<lambda>i. i < next_id db) (map ld_id (shipment_loads db)) \<and>
     set (map ps_load_id (packing_slips db)) = Some ` set (map ld_id (shipment_loads db))"

definition slip_rows_ok :: "db \<Rightarrow> bool" where
  "slip_rows_ok db \<longleftrightarrow> ledger_ok (packing_slips db) \<and> list_all (\<lambda>ps. ps_id ps < next_id db) (packing_slips db) \<and>
     slip_ids_ok db"

definition return_rows_ok :: "db \<Rightarrow> bool" where
  "return_rows_ok db \<longleftrightarrow> pool_ids_ok db \<and> return_ids_ok db \<and> distinct (map sr_id (shipment_returns db)) \<and>
     set (map sr_packing_slip_id (shipment_returns db)) \<subseteq> set (map ps_id (packing_slips db))"

definition slips_inv :: "db \<Rightarrow> bool" where
  "slips_inv db \<longleftrightarrow> slip_rows_ok db \<and> return_rows_ok db \<and> loads_ok db \<and> returns_ok db \<and> cancelled_empty db"

lemmas books_defs = slip_rows_ok_def return_rows_ok_def slips_inv_def ledger_ok_def slip_ids_ok_def

lemma same_returns:
  assumes "shipment_returns db' = shipment_returns db"
  shows "returned_quantities db' = returned_quantities db" "nothing_left db' = nothing_left db"
proof -
  show eq: "returned_quantities db' = returned_quantities db"
    by (rule ext) (simp add: returned_quantities_def return_lines_of_def assms)
  show "nothing_left db' = nothing_left db"
    by (rule ext) (simp add: nothing_left_def eq)
qed

text \<open>One row takes a leg: what the books lose or keep.\<close>

lemma leg_keeps_rows:
  assumes "packing_slips db' = update_row ps_id i (\<lambda>_. ps') (packing_slips db)"
    and "find_row ps_id i (packing_slips db) = Some ps" and "slip_leg ps ps'"
    and "next_id db \<le> next_id db'" and "slip_rows_ok db"
  shows "slip_rows_ok db'" and "map ps_id (packing_slips db') = map ps_id (packing_slips db)"
    and "r \<in> set (packing_slips db') \<longleftrightarrow> (r \<in> set (packing_slips db) \<and> ps_id r \<noteq> i) \<or> r = ps'"
proof -
  have ids: "distinct (map ps_id (packing_slips db))" using assms(5) by (simp add: slip_rows_ok_def ledger_ok_def)
  note maps = advance_maps [OF assms(2,3) ids, folded assms(1)]
  have ps: "ps \<in> set (packing_slips db)" "ps_id ps = i" using find_row_Some [OF assms(2)] by simp_all
  have "ledger_step (packing_slips db) (packing_slips db')"
    unfolding assms(1) by (rule ledger_step.advance [OF assms(2,3)])
  then have "ledger_ok (packing_slips db')" using assms(5) ledger_step_ok by (simp add: slip_rows_ok_def)
  moreover have "list_all (\<lambda>ps. ps_id ps < next_id db') (packing_slips db')"
  proof -
    have "ps_id r < next_id db'" if "r \<in> set (packing_slips db)" for r
      using that assms(4,5) less_le_trans unfolding slip_rows_ok_def list_all_iff by blast
    then show ?thesis using ps leg_fields(1) [OF assms(3)] by (auto simp: list_all_iff maps(3))
  qed
  moreover have "slip_ids_ok db'"
    using assms(5) ps leg_fields(3) [OF assms(3)] by (auto simp: slip_rows_ok_def slip_ids_ok_def list_all_iff maps)
  ultimately show "slip_rows_ok db'" by (simp add: slip_rows_ok_def)
  show "map ps_id (packing_slips db') = map ps_id (packing_slips db)" by (rule maps(1))
  show "r \<in> set (packing_slips db') \<longleftrightarrow> (r \<in> set (packing_slips db) \<and> ps_id r \<noteq> i) \<or> r = ps'" by (rule maps(3))
qed

lemma leg_keeps_books:
  assumes "packing_slips db' = update_row ps_id i (\<lambda>_. ps') (packing_slips db)"
    and "find_row ps_id i (packing_slips db) = Some ps" and "slip_leg ps ps'"
    and "next_id db \<le> next_id db'" and "shipment_returns db' = shipment_returns db" and "pool_ids_ok db'"
    and "loads_ok db'" and "ps_status ps' = SHIPMENT_CANCELLED \<Longrightarrow> nothing_left db ps"
    and "slips_inv db"
  shows "slips_inv db'"
proof -
  have rows: "slip_rows_ok db" using assms(9) by (simp add: slips_inv_def)
  note kept = leg_keeps_rows [OF assms(1-4) rows]
  have ps: "ps \<in> set (packing_slips db)" "ps_id ps = i" using find_row_Some [OF assms(2)] by simp_all
  have "return_rows_ok db'"
    using assms(4-6,9) kept(2)
    by (auto simp: slips_inv_def return_rows_ok_def return_ids_ok_def list_all_iff simp del: set_map intro: less_le_trans)
  moreover have "returns_ok db'"
    using assms(9) ps leg_fields [OF assms(3)]
    by (auto simp: slips_inv_def returns_ok_def kept(3) same_returns [OF assms(5)])
  moreover have "cancelled_empty db'"
    using assms(8,9) ps leg_fields [OF assms(3)]
    by (auto simp: slips_inv_def cancelled_empty_def kept(3) same_returns [OF assms(5)]) (simp add: nothing_left_def)
  ultimately show ?thesis using kept(1) assms(7) by (simp add: slips_inv_def)
qed

text \<open>A new slip: what a confirmation adds to the books.\<close>

lemma issue_keeps_books:
  assumes "packing_slips db' = packing_slips db @ [ps]" and "shipment_returns db' = shipment_returns db"
    and "ps_id ps = next_id db" and "next_id db < next_id db'" and "ps_packing_slip_number ps \<notin> set (slip_numbers db)"
    and "ps_status ps = SCHEDULED" and "stamps_match ps" and "distinct (map psi_id (ps_items ps))"
    and "\<forall>psi \<in> set (ps_items ps). 0 \<le> psi_quantity psi" and "pool_ids_ok db'" and "loads_ok db'" and "slips_inv db"
  shows "slips_inv db'"
proof -
  have new: "ps_id ps \<notin> set (map ps_id (packing_slips db))"
    using assms(3,12) by (auto simp: books_defs list_all_iff)
  have "slip_rows_ok db'"
    using assms(1,3-5,7,8,12) new by (auto simp: books_defs slip_numbers_def list_all_iff)
  moreover have "return_rows_ok db'"
    using assms(1,2,4,10,12) by (auto simp: books_defs return_ids_ok_def list_all_iff)
  moreover have "returned_quantities db' (ps_id ps) = []"
  proof -
    have "filter (\<lambda>sr. sr_packing_slip_id sr = ps_id ps) (shipment_returns db) = []"
    proof -
      have "set (map sr_packing_slip_id (shipment_returns db)) \<subseteq> set (map ps_id (packing_slips db))"
        using assms(12) by (simp add: slips_inv_def return_rows_ok_def)
      then have "\<forall>sr \<in> set (shipment_returns db). sr_packing_slip_id sr \<noteq> ps_id ps"
        using new unfolding set_map by (metis image_eqI subsetD)
      then show ?thesis by (simp add: filter_empty_conv)
    qed
    then show ?thesis
      by (simp add: same_returns [OF assms(2)] returned_quantities_def return_lines_of_def sum_by_def tally_def)
  qed
  then have "returns_ok db'"
    using assms(1,9,12) by (auto simp: slips_inv_def returns_ok_def same_returns [OF assms(2)])
  moreover have "cancelled_empty db'"
    using assms(1,6,12) by (auto simp: slips_inv_def cancelled_empty_def same_returns [OF assms(2)])
  ultimately show ?thesis using assms(11) by (simp add: slips_inv_def)
qed

lemma row_unique: "distinct (map key rows) \<Longrightarrow> find_row key i rows = Some r \<Longrightarrow> r' \<in> set rows \<Longrightarrow> key r' = i \<Longrightarrow> r' = r"
  using find_row_eq_Some [of key rows i r'] by simp

lemma map_update_const:
  "distinct (map key rows) \<Longrightarrow> find_row key i rows = Some r \<Longrightarrow> g r' = g r \<Longrightarrow> map g (update_row key i (\<lambda>_. r') rows) = map g rows"
  by (rule map_update_row_same) (auto dest: row_unique)

lemma loads_ok_same:
  assumes "loads_ok db" and "map ps_load_id (packing_slips db') = map ps_load_id (packing_slips db)"
    and "map ld_id (shipment_loads db') = map ld_id (shipment_loads db)" and "next_id db \<le> next_id db'"
  shows "loads_ok db'"
proof -
  have "list_all (\<lambda>i. i < next_id db') is" if "list_all (\<lambda>i. i < next_id db) is" for "is"
    using that assms(4) less_le_trans unfolding list_all_iff by blast
  then show ?thesis using assms(1) unfolding loads_ok_def assms(2,3) by blast
qed

text \<open>The operations that rewrite one slip in place.\<close>

lemma leg_run:
  assumes "packing_slips db' = update_row ps_id i (\<lambda>_. ps') (packing_slips db)"
    and "find_row ps_id i (packing_slips db) = Some ps" and "slip_leg ps ps'" and "ps_load_id ps' = ps_load_id ps"
    and "map ld_id (shipment_loads db') = map ld_id (shipment_loads db)"
    and "next_id db' = next_id db" and "shipment_returns db' = shipment_returns db" and "stock_items db' = stock_items db"
    and "ps_status ps' = SHIPMENT_CANCELLED \<Longrightarrow> nothing_left db ps" and "slips_inv db"
  shows "ledger_step (packing_slips db) (packing_slips db') \<and> slips_inv db'"
proof
  have ids: "distinct (map ps_id (packing_slips db))" using assms(10) by (simp add: books_defs)
  have "loads_ok db'"
  proof (rule loads_ok_same)
    show "loads_ok db" using assms(10) by (simp add: slips_inv_def)
    show "map ps_load_id (packing_slips db') = map ps_load_id (packing_slips db)"
      unfolding assms(1) by (rule map_update_const [OF ids assms(2,4)])
  qed (simp_all add: assms(5,6))
  moreover have "pool_ids_ok db'" using assms(6,8,10) by (simp add: slips_inv_def return_rows_ok_def pool_ids_ok_def)
  ultimately show "slips_inv db'" using assms(6,7,9,10) by (intro leg_keeps_books [OF assms(1-3)]) simp_all
  show "ledger_step (packing_slips db) (packing_slips db')"
    unfolding assms(1) by (rule ledger_step.advance [OF assms(2,3)])
qed

lemma follow_frame [simp]:
  "packing_slips (follow_lone_slip_date ps db) = packing_slips db" "next_id (follow_lone_slip_date ps db) = next_id db"
  "shipment_returns (follow_lone_slip_date ps db) = shipment_returns db"
  "stock_items (follow_lone_slip_date ps db) = stock_items db"
  "map ld_id (shipment_loads (follow_lone_slip_date ps db)) = map ld_id (shipment_loads db)"
  by (simp_all add: follow_lone_slip_date_def set_load_def keys_update_row split: option.split)

lemma details_run:
  assumes "update_shipment_details i form driver db = Inr db'" and "slips_inv db"
  shows "ledger_step (packing_slips db) (packing_slips db') \<and> slips_inv db'"
proof -
  obtain ps filled where ps: "find_row ps_id i (packing_slips db) = Some ps" "ps_status ps = SCHEDULED"
    and filled: "apply_site_form (Some form) ps = Inr filled"
    and db': "db' = (let db = set_slip i (\<lambda>_. apply_driver driver filled) db in
      if ps_pickup_date filled \<noteq> ps_pickup_date ps then follow_lone_slip_date (apply_driver driver filled) db else db)"
    using assms(1) by (auto simp: update_shipment_details_def locked_packing_slip_def bindr_eq_Inr ensure_eq_Inr
        apply_driver_def Let_def split: option.splits)
  obtain u d w f where "filled = ps\<lparr>ps_pickup_date := u, ps_delivery_date := d, ps_weight_lbs := w, ps_form := f\<rparr>"
    using apply_site_form_Inr [OF filled] by blast
  then have new: "apply_driver driver filled = ps\<lparr>ps_pickup_date := u, ps_delivery_date := d, ps_weight_lbs := w, ps_form := f,
      ps_driver_user_id := map_option fst driver, ps_driver_name := map_option snd driver\<rparr>"
    by (simp add: apply_driver_def)
  show ?thesis
  proof (rule leg_run [OF _ ps(1)])
    show "packing_slips db' = update_row ps_id i (\<lambda>_. apply_driver driver filled) (packing_slips db)"
      by (simp add: db' set_slip_def Let_def)
    show "slip_leg ps (apply_driver driver filled)" unfolding new by (rule slip_leg.amend [OF ps(2)])
    show "ps_load_id (apply_driver driver filled) = ps_load_id ps" by (simp add: new)
    show "ps_status (apply_driver driver filled) = SHIPMENT_CANCELLED \<Longrightarrow> nothing_left db ps" by (simp add: new ps)
  qed (simp_all add: db' set_slip_def Let_def assms(2))
qed

lemma set_slip_run:
  assumes "find_row ps_id i (packing_slips db) = Some ps" and "slip_leg ps (f ps)" and "ps_load_id (f ps) = ps_load_id ps"
    and "ps_status (f ps) = SHIPMENT_CANCELLED \<Longrightarrow> nothing_left db ps" and "slips_inv db"
    and "db' = set_slip i f db\<lparr>notifications := ns\<rparr>"
  shows "ledger_step (packing_slips db) (packing_slips db') \<and> slips_inv db'"
proof (rule leg_run [OF _ assms(1-3)])
  have "distinct (map ps_id (packing_slips db))" using assms(5) by (simp add: books_defs)
  then show "packing_slips db' = update_row ps_id i (\<lambda>_. f ps) (packing_slips db)"
    using update_row_const [OF assms(1)] by (simp add: assms(6) set_slip_def)
qed (use assms(4,5) in \<open>simp_all add: assms(6) set_slip_def\<close>)

lemma picked_up_run:
  assumes "mark_shipment_picked_up now i who db = Inr db'" and "slips_inv db"
  shows "ledger_step (packing_slips db) (packing_slips db') \<and> slips_inv db'"
proof -
  obtain ps where ps: "find_row ps_id i (packing_slips db) = Some ps" "ps_status ps = SCHEDULED"
    and db': "db' = set_slip i (\<lambda>ps. ps\<lparr>ps_status := PICKED_UP, ps_picked_up_at := Some now, ps_picked_up_by := Some who\<rparr>) db"
    using assms(1) by (auto simp: mark_shipment_picked_up_def locked_packing_slip_def bindr_eq_Inr ensure_eq_Inr split: option.splits)
  have "slip_leg ps (ps\<lparr>ps_status := PICKED_UP, ps_picked_up_at := Some now, ps_picked_up_by := Some who\<rparr>)"
    using ps(2) by (rule slip_leg.pick_up)
  then show ?thesis
    by (rule set_slip_run [where f = "\<lambda>ps. ps\<lparr>ps_status := PICKED_UP, ps_picked_up_at := Some now, ps_picked_up_by := Some who\<rparr>"
        and ns = "notifications db", OF ps(1)]) (simp_all add: db' assms(2) set_slip_def)
qed

lemma delivered_run:
  assumes "mark_shipment_delivered now i who db = Inr db'" and "slips_inv db"
  shows "ledger_step (packing_slips db) (packing_slips db') \<and> slips_inv db'"
proof -
  obtain ps where ps: "find_row ps_id i (packing_slips db) = Some ps" "ps_status ps = PICKED_UP"
    and db': "db' = set_slip i (\<lambda>ps. ps\<lparr>ps_status := DELIVERED, ps_delivered_at := Some now, ps_delivered_by := Some who\<rparr>) db"
    using assms(1) by (auto simp: mark_shipment_delivered_def locked_packing_slip_def bindr_eq_Inr ensure_eq_Inr split: option.splits)
  have "slip_leg ps (ps\<lparr>ps_status := DELIVERED, ps_delivered_at := Some now, ps_delivered_by := Some who\<rparr>)"
    using ps(2) by (rule slip_leg.deliver)
  then show ?thesis
    by (rule set_slip_run [where f = "\<lambda>ps. ps\<lparr>ps_status := DELIVERED, ps_delivered_at := Some now, ps_delivered_by := Some who\<rparr>"
        and ns = "notifications db", OF ps(1)]) (simp_all add: db' assms(2) set_slip_def)
qed

lemma cancel_run:
  assumes "cancel_shipment i db = Inr db'" and "slips_inv db"
  shows "ledger_step (packing_slips db) (packing_slips db') \<and> slips_inv db'"
proof -
  obtain ps where ps: "find_row ps_id i (packing_slips db) = Some ps" "ps_status ps = SCHEDULED"
    and left: "nothing_left db ps" and db': "db' = cancel_slip i db"
    using assms(1) find_row_Some [of ps_id i "packing_slips db"]
    by (auto simp: cancel_shipment_def locked_packing_slip_def bindr_eq_Inr ensure_eq_Inr Let_def nothing_left_def
        list_all_iff split: option.splits)
  have "slip_leg ps (ps\<lparr>ps_status := SHIPMENT_CANCELLED\<rparr>)" using ps(2) by (rule slip_leg.call_off)
  then show ?thesis
    by (rule set_slip_run [where f = "\<lambda>ps. ps\<lparr>ps_status := SHIPMENT_CANCELLED\<rparr>" and ns = "notifications db'", OF ps(1)])
      (simp_all add: db' assms(2) left cancel_slip_def withdraw_shipment_scheduled_def set_slip_def)
qed

text \<open>The operations that open, reload or settle a slip.\<close>

lemma slip_item_ids: "map psi_id (slip_items n items) = [n..<n + length items]"
  by (induction items arbitrary: n) (simp_all add: slip_item_def upt_conv_Cons del: upt_Suc)

lemma confirm_run:
  assumes "confirm_shipment now today p by_whom items details load driver db = Inr (i, db')" and "slips_inv db"
  shows "ledger_step (packing_slips db) (packing_slips db') \<and> slips_inv db'"
proof -
  obtain ps n m ls c where check: "check_cart db p by_whom items = Inr ()" and i: "i = next_id db"
    and ps: "ps_id ps = i" "ps_status ps = SCHEDULED"
    and lines: "\<exists>n. ps_items ps = slip_items n items \<and> next_id db < n \<and> n + length items < m"
    and number: "ps_packing_slip_number ps \<notin> set (slip_numbers db)"
    and db': "db' = db\<lparr>next_id := m, packing_slips := packing_slips db @ [ps], shipment_loads := ls,
       packing_slip_counter := c, notifications := notifications db @ [n]\<rparr>"
    and rides: "\<exists>l. ps_load_id ps = Some l \<and> ((ls = shipment_loads db \<and> l \<in> ld_id ` set ls) \<or>
       (\<exists>ld. ls = shipment_loads db @ [ld] \<and> ld_id ld = l \<and> next_id db < l \<and> l < m))"
    and stamps: "ps_picked_up_at ps = None" "ps_picked_up_by ps = None" "ps_delivered_at ps = None" "ps_delivered_by ps = None"
    using assms(1) by (rule confirm_shipment_Inr)
  have m: "next_id db < m" using lines by auto
  have match: "stamps_match ps" using ps stamps by (simp add: stamps_match_def)
  have new: "ps_id ps \<notin> ps_id ` set (packing_slips db)"
    using assms(2) ps i by (auto simp: books_defs list_all_iff)
  have "loads_ok db'"
  proof -
    obtain l where l: "ps_load_id ps = Some l" and cases: "(ls = shipment_loads db \<and> l \<in> ld_id ` set ls) \<or>
       (\<exists>ld. ls = shipment_loads db @ [ld] \<and> ld_id ld = l \<and> next_id db < l \<and> l < m)"
      using rides by blast
    have old: "distinct (map ld_id (shipment_loads db))" "\<forall>i \<in> ld_id ` set (shipment_loads db). i < next_id db"
      "ps_load_id ` set (packing_slips db) = Some ` ld_id ` set (shipment_loads db)"
      using assms(2) by (simp_all add: slips_inv_def loads_ok_def list_all_iff)
    have below: "\<forall>i \<in> ld_id ` set (shipment_loads db). i < m" using old(2) m less_trans by blast
    from cases show ?thesis
    proof
      assume "ls = shipment_loads db \<and> l \<in> ld_id ` set ls"
      then show ?thesis using old below l by (auto simp: db' loads_ok_def list_all_iff)
    next
      assume "\<exists>ld. ls = shipment_loads db @ [ld] \<and> ld_id ld = l \<and> next_id db < l \<and> l < m"
      then obtain ld where ld: "ls = shipment_loads db @ [ld]" "ld_id ld = l" "next_id db < l" "l < m" by blast
      then have "l \<notin> ld_id ` set (shipment_loads db)" using old(2) by fastforce
      then show ?thesis using old below l ld by (simp add: db' loads_ok_def list_all_iff)
    qed
  qed
  moreover have "pool_ids_ok db'"
    using assms(2) m less_trans unfolding slips_inv_def return_rows_ok_def pool_ids_ok_def list_all_iff by (simp add: db') blast
  moreover have "\<forall>psi \<in> set (ps_items ps). 0 \<le> psi_quantity psi"
  proof
    fix psi assume "psi \<in> set (ps_items ps)"
    then obtain item where "item \<in> set items" "psi_quantity psi = ca_units item" using lines slip_items_units by metis
    then show "0 \<le> psi_quantity psi"
      using check by (fastforce simp: check_cart_def bindr_eq_Inr ensure_eq_Inr Let_def list_all_iff ca_units_def split: option.splits)
  qed
  moreover have "distinct (map psi_id (ps_items ps))" using lines by (auto simp: slip_item_ids)
  ultimately have "slips_inv db'"
    using ps i m number match assms(2) by (intro issue_keeps_books [of db' db ps]) (simp_all add: db')
  moreover have "ledger_step (packing_slips db) (packing_slips db')"
    using number new ps match by (simp add: db' slip_numbers_def ledger_step.issue)
  ultimately show ?thesis by blast
qed

lemma elsewhere_run:
  assumes "packing_slips db' = packing_slips db" and "shipment_returns db' = shipment_returns db"
    and "shipment_loads db' = shipment_loads db" and "next_id db \<le> next_id db'" and "pool_ids_ok db'" and "slips_inv db"
  shows "ledger_step (packing_slips db) (packing_slips db') \<and> slips_inv db'"
proof
  have "loads_ok db'" by (rule loads_ok_same [OF _ _ _ assms(4)]) (use assms in \<open>simp_all add: slips_inv_def\<close>)
  moreover have "slip_rows_ok db'" "return_rows_ok db'"
    using assms(6) order.strict_trans2 [OF _ assms(4)]
    by (simp_all add: books_defs return_ids_ok_def list_all_iff assms(1,2,5))
  ultimately show "slips_inv db'"
    using assms(6) by (simp add: slips_inv_def returns_ok_def cancelled_empty_def assms(1) same_returns [OF assms(2)])
  show "ledger_step (packing_slips db) (packing_slips db')" by (simp add: assms(1) ledger_step.idle)
qed

lemma confirm_containers_run:
  assumes "confirm_shipment_from_containers now today p ids by_whom details expected load driver db = Inr (i, db')"
    and "slips_inv db"
  shows "ledger_step (packing_slips db) (packing_slips db') \<and> slips_inv db'"
proof -
  obtain cs db1 where run: "confirm_shipment now today p by_whom (cart_of cs) details load driver db = Inr (i, db1)"
    and db': "db' = stamp_slip (map sc_id cs) i (stamp_containers (map sc_id cs) i db1)"
    using assms(1) by (rule confirm_containers_Inr)
  note step = confirm_run [OF run assms(2)]
  have "packing_slips db' = packing_slips db1" by (simp add: db' stamp_slip_def stamp_containers_def)
  moreover have "slips_inv db'"
    by (rule conjunct2 [OF elsewhere_run [of db' db1]])
      (use step in \<open>simp_all add: db' stamp_slip_def stamp_containers_def slips_inv_def return_rows_ok_def pool_ids_ok_def\<close>)
  ultimately show ?thesis using step by simp
qed

lemma create_return_counter:
  assumes "create_shipment_return now slip w0 by_whom reference items key db = Inr (sr, db')"
    and "existing_return db slip key = Inr None"
    and "pool_ids_ok db" and "return_ids_ok db" and "distinct (map sr_id (shipment_returns db))"
  shows "next_id db < next_id db'"
proof -
  let ?new = "new_return sr slip w0 by_whom now (strip_or_none reference) key"
  let ?db = "db\<lparr>next_id := Suc (next_id db), shipment_returns := shipment_returns db @ [?new]\<rparr>"
  obtain ps where check: "check_return db ps items = Inr ()" and sr: "sr = next_id db"
    and db': "db' = settle_slip ps (route_lines now sr ps w0 by_whom items ?db)"
    using assms(1,2) by (rule create_return_Inr)
  have below: "\<forall>r \<in> set (shipment_returns db). sr_id r < next_id db"
    using assms(4) by (simp add: return_ids_ok_def list_all_iff)
  have dist: "distinct (map sr_id (shipment_returns ?db))" using assms(5) below sr by (auto simp: new_return_def)
  have "pool_ids_ok ?db" using assms(3) by (auto simp: pool_ids_ok_def list_all_iff)
  moreover have "find_row sr_id sr (shipment_returns ?db) = Some ?new"
    using find_row_eq_Some [OF dist, of sr ?new] by (simp add: new_return_def)
  moreover have "\<forall>item \<in> set items. psi_of ps (rl_packing_slip_item_id item) \<noteq> None"
    using check_return_ok(1) [OF check] by auto
  ultimately have "return_frame ?db (route_lines now sr ps w0 by_whom items ?db)"
    using route_lines_effect [OF _ _ dist] by blast
  then show ?thesis by (simp add: db' settle_slip_frame return_frame_def)
qed

lemma return_run:
  assumes "create_shipment_return now i w by_whom reference lines key db = Inr (sr, db')" and "slips_inv db"
  shows "ledger_step (packing_slips db) (packing_slips db') \<and> slips_inv db'"
proof (cases "existing_return db i key = Inr None")
  case False
  then have "db' = db"
    using assms(1) by (auto simp: create_shipment_return_def bindr_eq_Inr ensure_eq_Inr split: option.splits)
  then show ?thesis using assms(2) ledger_step.idle by simp
next
  case True
  have inv: "slip_rows_ok db" "pool_ids_ok db" "return_ids_ok db" "distinct (map sr_id (shipment_returns db))" "slip_ids_ok db"
    "returns_ok db" "cancelled_empty db" "distinct (map ps_id (packing_slips db))" "loads_ok db"
    "set (map sr_packing_slip_id (shipment_returns db)) \<subseteq> set (map ps_id (packing_slips db))"
    using assms(2) by (simp_all add: books_defs)
  obtain ps db2 ls where ps: "find_row ps_id i (packing_slips db) = Some ps" and db': "db' = settle_slip ps db2"
    and frame: "return_frame db db2" and pool: "pool_ids_ok db2"
    and rets: "shipment_returns db2 = shipment_returns db @
      [new_return sr i w by_whom now (strip_or_none reference) key\<lparr>sr_items := ls\<rparr>]"
    by (rule create_return_run [OF assms(1) True inv(2-4)])
  have sr: "sr = next_id db" using assms(1) True by (rule create_return_Inr)
  have ids: "next_id db' = next_id db2" "next_id db \<le> next_id db2" "shipment_returns db' = shipment_returns db2"
    "stock_items db' = stock_items db2" "shipment_loads db' = shipment_loads db"
    using frame by (simp_all add: db' settle_slip_frame return_frame_def)
      (simp add: settle_slip_def cancel_slip_def set_slip_def withdraw_shipment_scheduled_def Let_def)
  have later: "sr < next_id db'"
    using create_return_counter [OF assms(1) True inv(2-4)] sr by simp
  have rows: "ledger_step (packing_slips db) (packing_slips db') \<and> slip_rows_ok db' \<and>
      map ps_id (packing_slips db') = map ps_id (packing_slips db) \<and>
      map ps_load_id (packing_slips db') = map ps_load_id (packing_slips db)"
  proof (cases "packing_slips db' = packing_slips db")
    case same: True
    then show ?thesis
      using inv(1) ids(1,2) order.strict_trans2 by (auto simp: slip_rows_ok_def slip_ids_ok_def list_all_iff ledger_step.idle)
  next
    case False
    then obtain old where old: "find_row ps_id i (packing_slips db) = Some old" "ps_status old = SCHEDULED"
      and upd: "packing_slips db' = update_row ps_id i (\<lambda>ps. ps\<lparr>ps_status := SHIPMENT_CANCELLED\<rparr>) (packing_slips db)"
      using create_return_slips [OF assms(1) True inv(2-4)] by blast
    let ?new = "old\<lparr>ps_status := SHIPMENT_CANCELLED\<rparr>"
    have upd': "packing_slips db' = update_row ps_id i (\<lambda>_. ?new) (packing_slips db)"
      unfolding upd by (rule update_row_const [OF old(1) inv(8)])
    have leg: "slip_leg old ?new" using old(2) by (rule slip_leg.call_off)
    have "next_id db \<le> next_id db'" using ids(1,2) by simp
    note kept = leg_keeps_rows [OF upd' old(1) leg this inv(1)]
    have "ledger_step (packing_slips db) (packing_slips db')" unfolding upd' by (rule ledger_step.advance [OF old(1) leg])
    moreover have "map ps_load_id (packing_slips db') = map ps_load_id (packing_slips db)"
      unfolding upd' by (rule map_update_const [OF inv(8) old(1)]) simp
    ultimately show ?thesis using kept(1,2) by blast
  qed
  have "return_rows_ok db'"
  proof -
    have "i \<in> set (map ps_id (packing_slips db))" using find_row_Some [OF ps] by auto
    moreover have "pool_ids_ok db'" using pool ids(1,4) by (simp add: pool_ids_ok_def)
    moreover have "\<forall>r \<in> set (shipment_returns db). sr_id r < next_id db" using inv(3) by (simp add: return_ids_ok_def list_all_iff)
    moreover have "\<forall>r \<in> set (shipment_returns db). sr_id r < next_id db'"
      using calculation(3) ids(1,2) order.strict_trans2 by fastforce
    moreover have "distinct (map sr_id (shipment_returns db'))" using inv(4) calculation(3) sr by (auto simp: ids rets new_return_def)
    ultimately show ?thesis
      using rows inv(10) later by (auto simp: return_rows_ok_def return_ids_ok_def list_all_iff ids rets new_return_def)
  qed
  moreover have "loads_ok db'" by (rule loads_ok_same [OF inv(9)]) (use rows ids in simp_all)
  moreover have "returns_ok db'" by (rule create_return_returns_ok [OF assms(1) inv(2-6)])
  moreover have "cancelled_empty db'"
    by (rule cancelled_empty_step [OF inv(7) _ inv(8)])
      (use create_return_slips [OF assms(1) True inv(2-4)] returned_mono [OF assms(1) True inv(2-4)] in blast)+
  ultimately show ?thesis using rows by (simp add: slips_inv_def)
qed

text \<open>A slip that changes trucks: the load it leaves goes with it when it was the last.\<close>

lemma drop_empty_frame [simp]:
  "packing_slips (drop_empty_load i db) = packing_slips db" "next_id (drop_empty_load i db) = next_id db"
  "shipment_returns (drop_empty_load i db) = shipment_returns db" "stock_items (drop_empty_load i db) = stock_items db"
  by (simp_all add: drop_empty_load_def split: option.split)

lemma moved_loads_ok:
  assumes old: "loads_ok db" and ids: "distinct (map ps_id (packing_slips db))"
    and ps: "find_row ps_id i (packing_slips db) = Some ps"
    and n: "next_id db \<le> n"
    and ls: "(ls = shipment_loads db \<and> l \<in> ld_id ` set ls) \<or>
      (\<exists>ld. ls = shipment_loads db @ [ld] \<and> ld_id ld = l \<and> next_id db \<le> l \<and> l < n)"
    and db1: "packing_slips db1 = update_row ps_id i (\<lambda>_. ps\<lparr>ps_load_id := Some l\<rparr>) (packing_slips db)"
    and db1': "shipment_loads db1 = ls" "next_id db1 = n"
  shows "loads_ok (drop_empty_load (ps_load_id ps) db1)"
proof -
  let ?A = "ps_load_id ` {r \<in> set (packing_slips db). ps_id r \<noteq> i}"
  have mem: "ps \<in> set (packing_slips db)" "ps_id ps = i" using find_row_Some [OF ps] by simp_all
  have "r \<in> set (packing_slips db) \<longleftrightarrow> r = ps \<or> r \<in> set (packing_slips db) \<and> ps_id r \<noteq> i" for r
    using mem row_unique [OF ids ps, of r] by (cases "ps_id r = i") auto
  then have "set (packing_slips db) = insert ps {r \<in> set (packing_slips db). ps_id r \<noteq> i}" by blast
  from arg_cong [OF this, of "image ps_load_id"] have was: "insert (ps_load_id ps) ?A = Some ` ld_id ` set (shipment_loads db)"
    using old by (simp add: loads_ok_def)
  have keys: "distinct (map ld_id ls)" "\<forall>i \<in> ld_id ` set ls. i < n" "ld_id ` set ls = insert l (ld_id ` set (shipment_loads db))"
  proof -
    have dist: "distinct (map ld_id (shipment_loads db))" and below: "\<forall>i \<in> ld_id ` set (shipment_loads db). i < next_id db"
      using old by (simp_all add: loads_ok_def list_all_iff)
    have bound: "\<forall>i \<in> ld_id ` set (shipment_loads db). i < n" using below n less_le_trans by blast
    from ls show "distinct (map ld_id ls)" using dist below by fastforce
    from ls show "\<forall>i \<in> ld_id ` set ls. i < n" using bound by auto
    from ls show "ld_id ` set ls = insert l (ld_id ` set (shipment_loads db))" by auto
  qed
  have "set (packing_slips db1) = insert (ps\<lparr>ps_load_id := Some l\<rparr>) {r \<in> set (packing_slips db). ps_id r \<noteq> i}"
    unfolding db1 update_row_def set_map using mem by (auto intro: rev_image_eqI)
  from arg_cong [OF this, of "image ps_load_id"] have now_rows: "ps_load_id ` set (packing_slips db1) = insert (Some l) ?A"
    by simp
  obtain l0 where l0: "ps_load_id ps = Some l0" using was by blast
  have carried: "list_ex (\<lambda>ps. ps_load_id ps = Some l0) rows \<longleftrightarrow> Some l0 \<in> ps_load_id ` set rows" for rows
    by (force simp: list_ex_iff image_iff)
  show ?thesis
  proof (cases "Some l0 \<in> insert (Some l) ?A")
    case True
    then have "list_ex (\<lambda>ps. ps_load_id ps = Some l0) (packing_slips db1)" by (simp only: carried now_rows)
    moreover have "insert (Some l) ?A = Some ` ld_id ` set ls" using True was l0 by (auto simp: keys(3))
    ultimately show ?thesis
      using keys now_rows by (simp add: drop_empty_load_def l0 loads_ok_def db1' list_all_iff)
  next
    case False
    then have "\<not> list_ex (\<lambda>ps. ps_load_id ps = Some l0) (packing_slips db1)" by (simp only: carried now_rows not_False_eq_True)
    moreover have "insert (Some l) ?A = Some ` (ld_id ` set ls - {l0})"
    proof -
      have "?A = insert (Some l0) ?A - {Some l0}" using False by blast
      also have "\<dots> = Some ` (ld_id ` set (shipment_loads db) - {l0})" using was l0 by auto
      finally show ?thesis using False by (auto simp: keys(3))
    qed
    moreover have "ld_id ` set (delete_rows (\<lambda>l. ld_id l = l0) ls) = ld_id ` set ls - {l0}"
      by (auto simp: delete_rows_def)
    moreover have "distinct (map ld_id (delete_rows (\<lambda>l. ld_id l = l0) ls))"
      using keys(1) by (simp add: delete_rows_def distinct_map_filter)
    moreover have "\<forall>i \<in> ld_id ` set ls - {l0}. i < n" using keys(2) by blast
    ultimately show ?thesis
      using now_rows by (simp add: drop_empty_load_def l0 loads_ok_def db1' list_all_iff)
  qed
qed

lemma move_run:
  assumes "find_row ps_id i (packing_slips db) = Some ps"
    and "move_slip_to_load today ps load by_whom day db = Inr (l, db')" and "slips_inv db"
  shows "ledger_step (packing_slips db) (packing_slips db') \<and> slips_inv db'"
proof -
  have "ps_id ps = i" using find_row_Some [OF assms(1)] by simp
  have ids: "distinct (map ps_id (packing_slips db))" using assms(3) by (simp add: books_defs)
  obtain db2 where scheduled: "ps_status ps = SCHEDULED"
    and chosen: "choose_load today (find_row pj_id (ps_project_id ps) (projects db)) load
      (coalesce day (ps_pickup_date ps)) by_whom db = Inr (l, db2)"
    and db': "db' = drop_empty_load (ps_load_id ps) (set_slip i (\<lambda>ps. ps\<lparr>ps_load_id := Some l\<rparr>) db2)"
    using assms(2) \<open>ps_id ps = i\<close> by (auto simp: move_slip_to_load_def bindr_eq_Inr ensure_eq_Inr Let_def)
  obtain ls n where db2: "db2 = db\<lparr>next_id := n, shipment_loads := ls\<rparr>" and n: "next_id db \<le> n"
    and rides: "(ls = shipment_loads db \<and> l \<in> ld_id ` set ls) \<or>
      (\<exists>ld. ls = shipment_loads db @ [ld] \<and> ld_id ld = l \<and> next_id db \<le> l \<and> l < n)"
    using chosen by (rule choose_load_Inr)
  let ?new = "ps\<lparr>ps_load_id := Some l\<rparr>"
  have rows: "packing_slips db' = update_row ps_id i (\<lambda>_. ?new) (packing_slips db)"
    using update_row_const [OF assms(1) ids] by (simp add: db' db2 set_slip_def)
  have leg: "slip_leg ps ?new" using scheduled by (rule slip_leg.reload)
  have same: "next_id db' = n" "shipment_returns db' = shipment_returns db" "stock_items db' = stock_items db"
    by (simp_all add: db' db2 set_slip_def)
  have "loads_ok db'" unfolding db'
    by (rule moved_loads_ok [OF _ ids assms(1) n rides])
      (use assms(3) rows in \<open>simp_all add: slips_inv_def db' db2 set_slip_def\<close>)
  moreover have "pool_ids_ok db'"
    using assms(3) n less_le_trans unfolding slips_inv_def return_rows_ok_def pool_ids_ok_def list_all_iff same by blast
  ultimately have "slips_inv db'"
    using n assms(3) scheduled by (intro leg_keeps_books [OF rows assms(1) leg]) (simp_all add: same)
  moreover have "ledger_step (packing_slips db) (packing_slips db')"
    unfolding rows by (rule ledger_step.advance [OF assms(1) leg])
  ultimately show ?thesis by blast
qed

lemmas slip_runs = confirm_run confirm_containers_run details_run picked_up_run delivered_run cancel_run return_run
  move_run elsewhere_run

lemma slip_step_run: "slip_step db db' \<Longrightarrow> slips_inv db \<Longrightarrow> ledger_step (packing_slips db) (packing_slips db') \<and> slips_inv db'"
  by (induction rule: slip_step.induct)
    (erule (1) confirm_run confirm_containers_run details_run picked_up_run delivered_run cancel_run return_run |
     erule (2) move_run | (rule elsewhere_run; assumption))+

interpretation books: invariant_run slip_step slips_inv
  by unfold_locales (use slip_step_run in blast)

lemma runs_refine: "slip_step\<^sup>*\<^sup>* db db' \<Longrightarrow> slips_inv db \<Longrightarrow> ledger_step\<^sup>*\<^sup>* (packing_slips db) (packing_slips db')"
proof (induction rule: rtranclp_induct)
  case (step db' db'')
  have "slips_inv db'" using step books.along by blast
  then have "ledger_step (packing_slips db') (packing_slips db'')" using slip_step_run [OF step(2)] by blast
  then show ?case using step by (meson rtranclp.rtrancl_into_rtrancl)
qed simp

section \<open>What holds of every slip\<close>

lemma slip_along:
  assumes "slip_step\<^sup>*\<^sup>* db db'" and "slips_inv db" and "find_row ps_id i (packing_slips db) = Some ps"
  obtains ps' where "find_row ps_id i (packing_slips db') = Some ps'" "descends ps ps'"
proof -
  have i: "ps_id ps = i" using find_row_Some [OF assms(3)] by simp
  have "ledger_ok (packing_slips db)" using assms(2) by (simp add: slips_inv_def slip_rows_ok_def)
  then have "\<exists>ps'. find_row ps_id i (packing_slips db') = Some ps' \<and> descends ps ps'"
    using slip_life.lasts [OF runs_refine [OF assms(1,2)], of ps] assms(3) i by auto
  then show ?thesis using that by blast
qed

text \<open>
  C33. The program's slips are a ledger: whatever sequence of confirmations, edits, pick-ups, deliveries,
  cancellations, returns and moves between trucks is run, what the slip table goes through is a run of
  the abstract ledger, in which a slip is issued once, under a new id and an unused number, and
  afterwards only takes legs of its journey.
\<close>

theorem slips_refine_ledger:
  assumes "slip_step\<^sup>*\<^sup>* db db'" and "slips_inv db"
  shows "ledger_step\<^sup>*\<^sup>* (packing_slips db) (packing_slips db')"
  using runs_refine [OF assms] .

text \<open>
  C34. A slip never goes back and is never rewritten: whatever happens later, the slip is still there, with
  the number, the project, the author and the lines it was issued with, at a status its journey leads
  to; once the truck has left, its load, its driver and its site form are fixed; and a delivered or
  cancelled slip does not change at all.
\<close>

theorem slip_journey_goes_forward:
  assumes "slip_step\<^sup>*\<^sup>* db db'" and "slips_inv db" and "find_row ps_id i (packing_slips db) = Some ps"
  shows "\<exists>ps'. find_row ps_id i (packing_slips db') = Some ps' \<and>
    ps_packing_slip_number ps' = ps_packing_slip_number ps \<and> ps_project_id ps' = ps_project_id ps \<and>
    ps_shipped_by ps' = ps_shipped_by ps \<and> ps_items ps' = ps_items ps \<and> ps_status ps \<le> ps_status ps' \<and>
    (ps_status ps \<noteq> SCHEDULED \<longrightarrow> ps_load_id ps' = ps_load_id ps \<and> ps_driver_name ps' = ps_driver_name ps \<and>
       ps_form ps' = ps_form ps \<and> ps_weight_lbs ps' = ps_weight_lbs ps) \<and>
    (ps_status ps \<in> {DELIVERED, SHIPMENT_CANCELLED} \<longrightarrow> ps' = ps)"
proof -
  obtain ps' where ps': "find_row ps_id i (packing_slips db') = Some ps'" and d: "descends ps ps'"
    using slip_along [OF assms] .
  have "ps_load_id ps' = ps_load_id ps \<and> ps_driver_name ps' = ps_driver_name ps \<and>
      ps_form ps' = ps_form ps \<and> ps_weight_lbs ps' = ps_weight_lbs ps" if "ps_status ps \<noteq> SCHEDULED"
  proof -
    have l: "loaded_part ps' = loaded_part ps" using that d by (simp add: descends_def)
    show ?thesis
      using arg_cong [OF l, of ps_load_id] arg_cong [OF l, of ps_driver_name] arg_cong [OF l, of ps_form]
        arg_cong [OF l, of ps_weight_lbs] by (simp add: loaded_part_def)
  qed
  moreover have "issued_part ps' = issued_part ps" using d by (simp add: descends_def)
  note this [THEN issued_fields(2)] this [THEN issued_fields(3)] this [THEN issued_fields(4)] this [THEN issued_fields(5)]
  ultimately show ?thesis using ps' d by (intro exI [of _ ps']) (simp add: descends_def)
qed

text \<open>
  C35. The shipping books stay right along any run: ids and packing-slip numbers stay distinct, every slip
  bears the stamps of its status, every slip rides a load there is and every load carries a slip, every
  return is of a slip there is and returns no line past what left on it, and a cancelled slip is empty.
\<close>

theorem shipping_books_stay_right:
  assumes "slip_step\<^sup>*\<^sup>* db db'" and "slips_inv db"
  shows "distinct (slip_numbers db') \<and> list_all stamps_match (packing_slips db') \<and>
    set (map ps_load_id (packing_slips db')) = Some ` set (map ld_id (shipment_loads db')) \<and>
    set (map sr_packing_slip_id (shipment_returns db')) \<subseteq> set (map ps_id (packing_slips db')) \<and>
    returns_ok db' \<and> cancelled_empty db' \<and> slips_inv db'"
  using books.along [OF assms] by (simp add: books_defs slip_numbers_def loads_ok_def)

section \<open>An instance\<close>

lemma demo_books: "slips_inv demo_staged_db"
proof -
  have "packing_slips demo_staged_db = []" "shipment_loads demo_staged_db = []" "shipment_returns demo_staged_db = []"
    "pool_ids_ok demo_staged_db"
    by code_simp+
  then show ?thesis
    by (simp add: books_defs loads_ok_def return_ids_ok_def returns_ok_def cancelled_empty_def)
qed

lemma demo_confirmed: "slip_step demo_staged_db (snd demo_shipped)"
  by (rule slip_step.confirm [OF demo_shipped])

lemma demo_driven:
  obtains ps db' where "find_row ps_id (fst demo_shipped) (packing_slips (snd demo_shipped)) = Some ps"
    "ps_status ps = SCHEDULED" "slip_step\<^sup>*\<^sup>* (snd demo_shipped) db'"
    "map_option ps_status (find_row ps_id (fst demo_shipped) (packing_slips db')) = Some PICKED_UP"
proof -
  have none: "packing_slips demo_staged_db = []" by code_simp
  obtain ps n m ls c where "ps_id ps = fst demo_shipped" and scheduled: "ps_status ps = SCHEDULED"
    and "snd demo_shipped = demo_staged_db\<lparr>next_id := m, packing_slips := packing_slips demo_staged_db @ [ps], shipment_loads := ls,
       packing_slip_counter := c, notifications := notifications demo_staged_db @ [n]\<rparr>"
    using demo_shipped by (rule confirm_shipment_Inr)
  then have ps: "find_row ps_id (fst demo_shipped) (packing_slips (snd demo_shipped)) = Some ps" by (simp add: none)
  have run: "mark_shipment_picked_up 10 (fst demo_shipped) ''dan'' (snd demo_shipped) =
      Inr (set_slip (fst demo_shipped) (\<lambda>ps. ps\<lparr>ps_status := PICKED_UP, ps_picked_up_at := Some 10,
        ps_picked_up_by := Some ''dan''\<rparr>) (snd demo_shipped))" (is "_ = Inr ?db'")
    using ps scheduled by (simp add: mark_shipment_picked_up_def locked_packing_slip_def ensure_def)
  have "slip_step\<^sup>*\<^sup>* (snd demo_shipped) ?db'" using slip_step.picked_up [OF run] by (rule r_into_rtranclp)
  moreover have "map_option ps_status (find_row ps_id (fst demo_shipped) (packing_slips ?db')) = Some PICKED_UP"
    using ps by (simp add: set_slip_def find_row_update)
  ultimately show ?thesis using that [OF ps scheduled] by blast
qed

theorem slips_refine_ledger_witness:
  "slip_step demo_staged_db (snd demo_shipped) \<and> ledger_step\<^sup>*\<^sup>* (packing_slips demo_staged_db) (packing_slips (snd demo_shipped))"
  using demo_confirmed slips_refine_ledger [OF r_into_rtranclp [where r = slip_step, OF demo_confirmed] demo_books] by blast

theorem slip_journey_goes_forward_witness:
  "\<exists>db' ps'. slip_step\<^sup>*\<^sup>* (snd demo_shipped) db' \<and> find_row ps_id (fst demo_shipped) (packing_slips db') = Some ps' \<and>
     SCHEDULED \<le> ps_status ps' \<and> ps_status ps' = PICKED_UP"
proof -
  obtain ps db' where ps: "find_row ps_id (fst demo_shipped) (packing_slips (snd demo_shipped)) = Some ps"
      "ps_status ps = SCHEDULED" and run: "slip_step\<^sup>*\<^sup>* (snd demo_shipped) db'"
    and picked: "map_option ps_status (find_row ps_id (fst demo_shipped) (packing_slips db')) = Some PICKED_UP"
    by (rule demo_driven)
  have "slips_inv (snd demo_shipped)" by (rule books.keeps [OF demo_confirmed demo_books])
  from slip_journey_goes_forward [OF run this ps(1)] show ?thesis using run picked ps(2) by auto
qed

theorem shipping_books_stay_right_witness:
  "slip_step demo_staged_db (snd demo_shipped) \<and> slips_inv (snd demo_shipped)"
  using demo_confirmed shipping_books_stay_right [OF r_into_rtranclp [where r = slip_step, OF demo_confirmed] demo_books] by blast

end
