(* ===== verification/Shelves.thy ===== *)
theory Shelves
  imports Cancelling
begin

text \<open>
  \<open>warehouse/locations.py\<close>: the registry of put-away locations, in natural order for the pickers, and
  the operations that change where a project's row lies - move, take off the shelf, put away, split. A
  shelf is the triple aisle, row, bay; all three are null on a row nobody has put away.
\<close>

type_synonym shelf = "string option \<times> string option \<times> string option"

definition il_shelf :: "inventory_location \<Rightarrow> shelf" where
  "il_shelf il = (il_aisle il, il_row il, il_bay il)"

definition st_shelf :: "stock_item \<Rightarrow> shelf" where
  "st_shelf s = (st_aisle s, st_row s, st_bay s)"

section \<open>Labels\<close>

definition label_fits :: "string \<Rightarrow> bool" where
  "label_fits v \<longleftrightarrow> 1 \<le> length v \<and> length v \<le> 20"

definition canonical_label :: "string \<Rightarrow> string" where
  "canonical_label v = sent_text (normalize_location_value (Some v))"

definition normalize_and_validate_location_fields :: "string \<Rightarrow> string \<Rightarrow> string \<Rightarrow> shelf result" where
  "normalize_and_validate_location_fields aisle row bay =
     (let a = canonical_label aisle; b = canonical_label row; c = canonical_label bay in
      ensure (label_fits a) (ValidationError (Some ''aisle'')) (
      ensure (label_fits b) (ValidationError (Some ''row'')) (
      ensure (label_fits c) (ValidationError (Some ''bay'')) (Inr (Some a, Some b, Some c)))))"

definition location_detail :: "shelf \<Rightarrow> uuid \<Rightarrow> json" where
  "location_detail s warehouse_id =
     (case s of (a, r, b) \<Rightarrow>
        JObj [(''aisle'', opt_str a), (''row'', opt_str r), (''bay'', opt_str b), (''warehouseId'', JId warehouse_id)])"

section \<open>The registry\<close>

definition wl_shelf :: "warehouse_location \<Rightarrow> shelf" where
  "wl_shelf l = (Some (wl_aisle l), Some (wl_row l), Some (wl_bay l))"

definition registered :: "db \<Rightarrow> uuid \<Rightarrow> shelf \<Rightarrow> bool" where
  "registered db warehouse_id s =
     list_ex (\<lambda>l. wl_warehouse_id l = warehouse_id \<and> wl_shelf l = s \<and> wl_active l) (warehouse_locations db)"

definition ensure_registered_location :: "db \<Rightarrow> uuid \<Rightarrow> shelf \<Rightarrow> unit result" where
  "ensure_registered_location db warehouse_id s =
     ensure (registered db warehouse_id s) (ValidationError (Some ''location'')) (Inr ())"

text \<open>
  \<open>re.split\<close> on digit runs: text and numbers alternate, starting with text. Parts of one index are of
  one kind, so any order between the kinds will do.
\<close>

datatype key_part = Digits nat | Text string

instantiation key_part :: linorder
begin

fun less_eq_key_part :: "key_part \<Rightarrow> key_part \<Rightarrow> bool" where
  "less_eq_key_part (Digits m) (Digits n) = (m \<le> n)"
| "less_eq_key_part (Digits m) (Text t) = True"
| "less_eq_key_part (Text s) (Digits n) = False"
| "less_eq_key_part (Text s) (Text t) = (s \<le> t)"

definition less_key_part :: "key_part \<Rightarrow> key_part \<Rightarrow> bool" where
  "less_key_part a b \<longleftrightarrow> a \<le> b \<and> \<not> b \<le> a"

instance
proof
  fix a b c :: key_part
  show "(a < b) = (a \<le> b \<and> \<not> b \<le> a)" by (rule less_key_part_def)
  show "a \<le> a" by (cases a) simp_all
  show "a \<le> b \<Longrightarrow> b \<le> c \<Longrightarrow> a \<le> c" by (cases a; cases b; cases c) auto
  show "a \<le> b \<Longrightarrow> b \<le> a \<Longrightarrow> a = b" by (cases a; cases b) auto
  show "a \<le> b \<or> b \<le> a" by (cases a; cases b) auto
qed

end

definition is_digit_char :: "char \<Rightarrow> bool" where
  "is_digit_char c \<longleftrightarrow> CHR ''0'' \<le> c \<and> c \<le> CHR ''9''"

definition fold_char :: "char \<Rightarrow> char" where
  "fold_char c = (if CHR ''A'' \<le> c \<and> c \<le> CHR ''Z'' then char_of (of_char c + 32 :: nat) else c)"

function key_parts :: "string \<Rightarrow> key_part list" where
  "key_parts s =
     (let lead = takeWhile (\<lambda>c. \<not> is_digit_char c) s; rest = dropWhile (\<lambda>c. \<not> is_digit_char c) s in
      if rest = [] then [Text lead]
      else Text lead # Digits (numeral_value (takeWhile is_digit_char rest)) # key_parts (dropWhile is_digit_char rest))"
  by auto

termination
proof (relation "measure length")
  fix s lead rest
  assume "lead = takeWhile (\<lambda>c. \<not> is_digit_char c) s" and rest: "rest = dropWhile (\<lambda>c. \<not> is_digit_char c) s"
    and "rest \<noteq> []"
  then have "is_digit_char (hd rest)" by (metis hd_dropWhile)
  then have "length (dropWhile is_digit_char rest) < length rest"
    using \<open>rest \<noteq> []\<close> length_dropWhile_le [of is_digit_char "tl rest"] by (cases rest) auto
  also have "length rest \<le> length s" unfolding rest by (rule length_dropWhile_le)
  finally show "(dropWhile is_digit_char rest, s) \<in> measure length" by simp
qed simp

declare key_parts.simps [simp del]

definition natural_key :: "string \<Rightarrow> key_part list" where
  "natural_key value = key_parts (map fold_char value)"

definition company_owns :: "db \<Rightarrow> string option \<Rightarrow> uuid \<Rightarrow> bool" where
  "company_owns db company warehouse_id \<longleftrightarrow> company = None \<or>
     list_ex (\<lambda>w. wh_id w = warehouse_id \<and> company = Some (wh_company w)) (warehouses db)"

definition get_warehouse_locations :: "db \<Rightarrow> uuid option \<Rightarrow> bool \<Rightarrow> string option \<Rightarrow> warehouse_location list" where
  "get_warehouse_locations db warehouse_id active_only company =
     sort_key (\<lambda>l. (natural_key (wl_aisle l), natural_key (wl_row l), natural_key (wl_bay l)))
       (filter (\<lambda>l. (warehouse_id = None \<or> warehouse_id = Some (wl_warehouse_id l)) \<and>
          (\<not> active_only \<or> wl_active l) \<and> company_owns db company (wl_warehouse_id l)) (warehouse_locations db))"

definition set_wl_active :: "uuid \<Rightarrow> bool \<Rightarrow> db \<Rightarrow> db" where
  "set_wl_active i active db =
     db\<lparr>warehouse_locations := update_row wl_id i (\<lambda>l. l\<lparr>wl_active := active\<rparr>) (warehouse_locations db)\<rparr>"

text \<open>A location defined again is the row it was.\<close>

definition create_warehouse_location :: "uuid \<Rightarrow> string \<Rightarrow> string \<Rightarrow> string \<Rightarrow> db \<Rightarrow> (uuid \<times> db) result" where
  "create_warehouse_location warehouse_id aisle row bay db =
     ensure (find_row wh_id warehouse_id (warehouses db) \<noteq> None) NotFoundError (
     bindr (normalize_and_validate_location_fields aisle row bay) (\<lambda>s.
     case List.find (\<lambda>l. wl_warehouse_id l = warehouse_id \<and> wl_shelf l = s) (warehouse_locations db) of
       Some l \<Rightarrow> ensure (\<not> wl_active l) (ConflictError None) (Inr (wl_id l, set_wl_active (wl_id l) True db))
     | None \<Rightarrow>
         (let (i, db) = fresh db;
              l = \<lparr>wl_id = i, wl_warehouse_id = warehouse_id, wl_aisle = sent_text (fst s),
                   wl_row = sent_text (fst (snd s)), wl_bay = sent_text (snd (snd s)), wl_active = True\<rparr>
          in Inr (i, db\<lparr>warehouse_locations := warehouse_locations db @ [l]\<rparr>))))"

definition deactivate_warehouse_location :: "uuid \<Rightarrow> db \<Rightarrow> db result" where
  "deactivate_warehouse_location i db =
     ensure (find_row wl_id i (warehouse_locations db) \<noteq> None) NotFoundError (Inr (set_wl_active i False db))"

section \<open>A row's place\<close>

definition lock_row :: "db \<Rightarrow> uuid \<Rightarrow> inventory_location result" where
  "lock_row db i = (case find_row il_id i (inventory_locations db) of None \<Rightarrow> Inl NotFoundError | Some il \<Rightarrow> Inr il)"

definition set_il :: "uuid \<Rightarrow> (inventory_location \<Rightarrow> inventory_location) \<Rightarrow> db \<Rightarrow> db" where
  "set_il i f db = db\<lparr>inventory_locations := update_row il_id i f (inventory_locations db)\<rparr>"

definition on_shelf :: "shelf \<Rightarrow> inventory_location \<Rightarrow> inventory_location" where
  "on_shelf s il = il\<lparr>il_aisle := fst s, il_row := fst (snd s), il_bay := snd (snd s)\<rparr>"

text \<open>
  A row derived from another keeps its project, its product and the seven origin fields
  \<open>clone_origin_fields\<close> copies; its place, its units and its date are its own.
\<close>

definition derived_row ::
  "inventory_location \<Rightarrow> uuid \<Rightarrow> uuid \<Rightarrow> int \<Rightarrow> shelf \<Rightarrow> datetime \<Rightarrow> inventory_location" where
  "derived_row source i warehouse_id quantity s received_at =
     on_shelf s (source\<lparr>il_id := i, il_warehouse_id := warehouse_id, il_quantity := quantity, il_deficient_quantity := 0,
       il_received_at := received_at\<rparr>)"

definition add_il :: "inventory_location \<Rightarrow> db \<Rightarrow> db" where
  "add_il il db = db\<lparr>inventory_locations := inventory_locations db @ [il]\<rparr>"

definition log_il :: "inventory_location \<Rightarrow> audit_action \<Rightarrow> string \<Rightarrow> json \<Rightarrow> db \<Rightarrow> db" where
  "log_il il action performed_by detail db =
     log_audit_event (Some (il_project_id il)) INVENTORY_LOCATION (il_id il) action performed_by detail db"

definition move_inventory_location ::
  "uuid \<Rightarrow> string \<Rightarrow> string \<Rightarrow> string \<Rightarrow> string \<Rightarrow> db \<Rightarrow> db result" where
  "move_inventory_location i new_aisle new_row new_bay performed_by db =
     bindr (lock_row db i) (\<lambda>il.
     bindr (normalize_and_validate_location_fields new_aisle new_row new_bay) (\<lambda>s.
     bindr (ensure_registered_location db (il_warehouse_id il) s) (\<lambda>_.
     Inr (log_il il MOVE performed_by
       (JObj [(''fromLocation'', location_detail (il_shelf il) (il_warehouse_id il)),
          (''toLocation'', location_detail s (il_warehouse_id il))])
       (set_il i (on_shelf s) db)))))"

definition mark_inventory_unlocated :: "uuid \<Rightarrow> string \<Rightarrow> db \<Rightarrow> db result" where
  "mark_inventory_unlocated i performed_by db =
     bindr (lock_row db i) (\<lambda>il.
     Inr (log_il il UNLOCATE performed_by
       (JObj [(''fromLocation'', location_detail (il_shelf il) (il_warehouse_id il))])
       (set_il i (on_shelf (None, None, None)) db)))"

definition refuse_if_already_located :: "shelf \<Rightarrow> unit result" where
  "refuse_if_already_located s = ensure (fst s = None) (ConflictError None) (Inr ())"

definition assign_inventory_location ::
  "uuid \<Rightarrow> string \<Rightarrow> string \<Rightarrow> string \<Rightarrow> string \<Rightarrow> db \<Rightarrow> db result" where
  "assign_inventory_location i aisle row bay performed_by db =
     bindr (normalize_and_validate_location_fields aisle row bay) (\<lambda>s.
     bindr (lock_row db i) (\<lambda>il.
     bindr (refuse_if_already_located (il_shelf il)) (\<lambda>_.
     bindr (ensure_registered_location db (il_warehouse_id il) s) (\<lambda>_.
     Inr (log_il il PUT_AWAY performed_by (JObj [(''toLocation'', location_detail s (il_warehouse_id il))])
       (set_il i (on_shelf s) db))))))"

text \<open>The sound units that leave are a new row, not yet put away; the condemned ones stay.\<close>

definition split_inventory_location :: "uuid \<Rightarrow> int \<Rightarrow> string \<Rightarrow> db \<Rightarrow> (uuid \<times> db) result" where
  "split_inventory_location i quantity performed_by db =
     ensure (1 \<le> quantity) (ValidationError (Some ''quantity'')) (
     bindr (lock_row db i) (\<lambda>il.
     bindr (refuse_if_already_located (il_shelf il)) (\<lambda>_.
     ensure (quantity < il_quantity il) (ValidationError (Some ''quantity'')) (
     ensure (quantity \<le> il_free il) (ValidationError (Some ''quantity'')) (
     let (j, db) = fresh db;
         remainder = derived_row il j (il_warehouse_id il) quantity (None, None, None) (il_received_at il);
         db = add_il remainder (set_il i (\<lambda>r. r\<lparr>il_quantity := il_quantity r - quantity\<rparr>) db);
         db = log_il il ADJUSTMENT performed_by
           (JObj [(''reason'', JStr ''split''), (''splitInto'', JId j), (''quantity'', JInt quantity),
              (''adjustment'', JInt (- quantity)), (''oldQuantity'', JInt (il_quantity il)),
              (''newQuantity'', JInt (il_quantity il - quantity))]) db;
         db = log_il remainder PUT_AWAY performed_by
           (JObj [(''reason'', JStr ''split''), (''splitFrom'', JId i), (''quantity'', JInt quantity)]) db
     in Inr (j, db))))))"

end
