(* ===== verification/Counts.thy ===== *)
theory Counts
  imports Shelves
begin

text \<open>
  The quantity corrections of \<open>warehouse/inventory.py\<close>: a spot check or adjustment by a difference, and
  an override to an absolute count. What is on the shelf is recorded even when requests have claimed
  more, but then only by a Warehouse Manager who confirmed it, and the holders of the claims are told.
\<close>

definition check_expected_quantity :: "int \<Rightarrow> int option \<Rightarrow> unit result" where
  "check_expected_quantity current expected =
     ensure (expected = None \<or> expected = Some current) (ConflictError (Some ''expected_quantity'')) (Inr ())"

definition check_expected_deficient_quantity :: "int \<Rightarrow> int option \<Rightarrow> unit result" where
  "check_expected_deficient_quantity current expected =
     ensure (expected = None \<or> expected = Some current) (ConflictError (Some ''expected_deficient_quantity'')) (Inr ())"

definition reason_ok :: "string \<Rightarrow> bool" where
  "reason_ok reason \<longleftrightarrow> reason \<noteq> [] \<and> length reason \<le> 500"

text \<open>The reserved total when the write strands a claim, 0 otherwise.\<close>

definition gate_reservation_shortfall ::
  "db \<Rightarrow> inventory_location \<Rightarrow> int \<Rightarrow> bool \<Rightarrow> bool \<Rightarrow> string \<Rightarrow> int result" where
  "gate_reservation_shortfall db il removed caller_is_manager confirm_below_reserved field =
     (let c = il_combo il in
      if removed \<le> 0 then Inr 0
      else if removed \<le> dict_get (get_available_quantities db (il_project_id il) [c]) c then Inr 0
      else
        ensure confirm_below_reserved (ValidationError (Some field)) (
        ensure caller_is_manager (ValidationError (Some field)) (
        Inr (dict_get (get_reserved_quantities db (il_project_id il) (Some [c]) None) c))))"

text \<open>A holder as the notice names it: its number, and its pull where it has one.\<close>

definition holder_label :: "db \<Rightarrow> reservation \<Rightarrow> string option \<times> uuid option" where
  "holder_label db r =
     (let batch = Option.bind (rs_shop_assembly_batch_id r) (\<lambda>i. find_row sb_id i (shop_assembly_batches db));
          request = Option.bind (rs_shipping_out_request_id r) (\<lambda>i. find_row sor_id i (shipping_out_requests db))
      in (coalesce (map_option sb_batch_number batch) (map_option sor_request_number request),
          coalesce (Option.bind batch sb_pull_request_id) (Option.bind request sor_pull_request_id)))"

definition stranded_holders :: "db \<Rightarrow> uuid \<Rightarrow> combo \<Rightarrow> ((string option \<times> uuid option) \<times> int) list" where
  "stranded_holders db project_id c =
     sum_by (holder_label db) rs_quantity
       (filter (\<lambda>r. rs_project_id r = project_id \<and> rs_combo r = c) (inventory_reservations db))"

fun notify_holders :: "datetime \<Rightarrow> uuid \<Rightarrow> ((string option \<times> uuid option) \<times> int) list \<Rightarrow> db \<Rightarrow> db result" where
  "notify_holders now project_id [] db = Inr db"
| "notify_holders now project_id (h # hs) db =
     bindr (create_notification now project_id (Some WAREHOUSE_MANAGER_RECIPIENT_ROLE) INVENTORY_SHORTFALL
         (snd (fst h)) None None db)
       (notify_holders now project_id hs)"

definition flag_stranded_holders :: "datetime \<Rightarrow> inventory_location \<Rightarrow> db \<Rightarrow> db result" where
  "flag_stranded_holders now il db =
     notify_holders now (il_project_id il) (stranded_holders db (il_project_id il) (il_combo il)) db"

definition adjust_inventory_quantity ::
  "datetime \<Rightarrow> uuid \<Rightarrow> int \<Rightarrow> string \<Rightarrow> string \<Rightarrow> bool \<Rightarrow> bool \<Rightarrow> bool \<Rightarrow> int option \<Rightarrow> db \<Rightarrow> db result" where
  "adjust_inventory_quantity now i adjustment reason performed_by spot_check caller_is_manager
      confirm_below_reserved expected_quantity db =
     ensure (reason_ok reason) (ValidationError (Some ''reason'')) (
     bindr (lock_row db i) (\<lambda>il.
     bindr (check_expected_quantity (il_quantity il) expected_quantity) (\<lambda>_.
     let new_quantity = il_quantity il + adjustment in
     ensure (0 \<le> new_quantity) (ValidationError (Some ''adjustment'')) (
     ensure (il_deficient_quantity il \<le> new_quantity) (ValidationError (Some ''adjustment'')) (
     bindr (gate_reservation_shortfall db il (- adjustment) caller_is_manager confirm_below_reserved ''adjustment'')
       (\<lambda>stranded.
     let db = set_il i (\<lambda>r. r\<lparr>il_quantity := new_quantity\<rparr>) db;
         counted = (if spot_check then [(''systemQuantity'', JInt (il_quantity il)), (''physicalQuantity'', JInt new_quantity)]
                    else []);
         db = log_il il (if spot_check then SPOT_CHECK else ADJUSTMENT) performed_by
           (JObj ([(''oldQuantity'', JInt (il_quantity il)), (''newQuantity'', JInt new_quantity),
              (''adjustment'', JInt adjustment), (''reason'', JStr reason)] @ counted)) db
     in if stranded \<noteq> 0 then flag_stranded_holders now il db else Inr db))))))"

section \<open>Overriding a count\<close>

record destination =
  de_aisle :: string
  de_row :: string
  de_bay :: string
  de_quantity :: int

text \<open>The destinations checked and normalized, in order.\<close>

fun normalize_destinations :: "db \<Rightarrow> inventory_location \<Rightarrow> destination list \<Rightarrow> (shelf \<times> int) list result" where
  "normalize_destinations db il [] = Inr []"
| "normalize_destinations db il (d # ds) =
     ensure (1 \<le> de_quantity d) (ValidationError (Some ''destinations'')) (
     bindr (normalize_and_validate_location_fields (de_aisle d) (de_row d) (de_bay d)) (\<lambda>s.
     bindr (if s = il_shelf il then Inr () else ensure_registered_location db (il_warehouse_id il) s) (\<lambda>_.
     bindr (normalize_destinations db il ds) (\<lambda>rest. Inr ((s, de_quantity d) # rest)))))"

definition placed_units :: "(shelf \<times> int) list \<Rightarrow> int" where
  "placed_units ds = sum_list (map snd ds)"

text \<open>Units spots on the row's own shelf stay on it; any other shelf gets a new row. The new rows come back.\<close>

fun place_destinations ::
  "datetime \<Rightarrow> inventory_location \<Rightarrow> (shelf \<times> int) list \<Rightarrow> db \<Rightarrow> inventory_location list \<times> db" where
  "place_destinations now il [] db = ([], db)"
| "place_destinations now il (d # ds) db =
     (if fst d = il_shelf il
      then place_destinations now il ds (set_il (il_id il) (\<lambda>r. r\<lparr>il_quantity := il_quantity r + snd d\<rparr>) db)
      else
        (let (j, db) = fresh db; row = derived_row il j (il_warehouse_id il) (snd d) (fst d) now;
             (rows, db) = place_destinations now il ds (add_il row db)
         in (row # rows, db)))"

definition destination_json :: "shelf \<times> int \<Rightarrow> json" where
  "destination_json d =
     JObj [(''aisle'', opt_str (fst (fst d))), (''row'', opt_str (fst (snd (fst d)))),
       (''bay'', opt_str (snd (snd (fst d)))), (''quantity'', JInt (snd d))]"

definition own_units :: "inventory_location \<Rightarrow> (shelf \<times> int) list \<Rightarrow> int" where
  "own_units il ds = placed_units (filter (\<lambda>d. fst d = il_shelf il) ds)"

fun log_created :: "inventory_location \<Rightarrow> string \<Rightarrow> string \<Rightarrow> inventory_location list \<Rightarrow> db \<Rightarrow> db" where
  "log_created il performed_by reason [] db = db"
| "log_created il performed_by reason (row # rows) db =
     log_created il performed_by reason rows
       (log_il row ADJUSTMENT performed_by
         (JObj [(''createdByOverrideOf'', JId (il_id il)), (''oldQuantity'', JInt 0),
            (''newQuantity'', JInt (il_quantity row)), (''adjustment'', JInt (il_quantity row)),
            (''quantity'', JInt (il_quantity row)), (''location'', location_detail (il_shelf row) (il_warehouse_id row)),
            (''reason'', JStr reason)]) db)"

definition override_detail :: "inventory_location \<Rightarrow> int \<Rightarrow> int \<Rightarrow> string \<Rightarrow> (shelf \<times> int) list \<Rightarrow> json" where
  "override_detail il now_on_row new_quantity reason spots =
     JObj [(''oldQuantity'', JInt (il_quantity il)), (''newQuantity'', JInt now_on_row),
       (''adjustment'', JInt (now_on_row - il_quantity il)), (''requestedQuantity'', JInt new_quantity),
       (''delta'', JInt (new_quantity - il_quantity il)), (''reason'', JStr reason), (''override'', JBool True),
       (''destinations'', JList (map destination_json spots))]"

text \<open>The decrease writes the lost units off; the increase places the units that were found.\<close>

definition override_inventory_quantity ::
  "datetime \<Rightarrow> uuid \<Rightarrow> int \<Rightarrow> string \<Rightarrow> destination list \<Rightarrow> string \<Rightarrow> bool \<Rightarrow> bool \<Rightarrow> int option \<Rightarrow> db \<Rightarrow> db result" where
  "override_inventory_quantity now i new_quantity reason destinations performed_by caller_is_manager
      confirm_below_reserved expected_quantity db =
     ensure (reason_ok reason) (ValidationError (Some ''reason_text'')) (
     ensure (0 \<le> new_quantity) (ValidationError (Some ''new_quantity'')) (
     bindr (lock_row db i) (\<lambda>il.
     bindr (check_expected_quantity (il_quantity il) expected_quantity) (\<lambda>_.
     let delta = new_quantity - il_quantity il in
     ensure (delta \<noteq> 0) (ValidationError (Some ''new_quantity'')) (
     if delta < 0 then
       ensure (il_deficient_quantity il \<le> new_quantity) (ValidationError (Some ''new_quantity'')) (
       bindr (gate_reservation_shortfall db il (- delta) caller_is_manager confirm_below_reserved ''new_quantity'')
         (\<lambda>stranded.
       let db = log_il il ADJUSTMENT performed_by (override_detail il new_quantity new_quantity reason [])
                  (set_il i (\<lambda>r. r\<lparr>il_quantity := new_quantity\<rparr>) db)
       in if stranded \<noteq> 0 then flag_stranded_holders now il db else Inr db))
     else
       ensure (destinations \<noteq> []) (ValidationError (Some ''destinations'')) (
       bindr (normalize_destinations db il destinations) (\<lambda>spots.
       ensure (placed_units spots = delta) (ValidationError (Some ''destinations'')) (
       let (rows, db) = place_destinations now il spots db;
           db = log_il il ADJUSTMENT performed_by
             (override_detail il (il_quantity il + own_units il spots) new_quantity reason spots) db
       in Inr (log_created il performed_by reason rows db)))))))))"

end
