(* ===== verification/PoolRows.thy ===== *)
theory PoolRows
  imports Counts
begin

text \<open>
  Rows of the shared stock pool (\<open>stock/common.py\<close>, \<open>stock/items.py\<close>, and the merge of two shelves of
  \<open>warehouse/locations.py\<close>). A pool row is one product on one shelf at one price and of one kind; a row that
  comes to lie where its key already is folds into the row there.
\<close>

section \<open>Reading, writing and logging a row\<close>

definition lock_stock_item :: "db \<Rightarrow> uuid \<Rightarrow> stock_item result" where
  "lock_stock_item db i = (case find_row st_id i (stock_items db) of None \<Rightarrow> Inl NotFoundError | Some s \<Rightarrow> Inr s)"

definition set_st :: "uuid \<Rightarrow> (stock_item \<Rightarrow> stock_item) \<Rightarrow> db \<Rightarrow> db" where
  "set_st i f db = db\<lparr>stock_items := update_row st_id i f (stock_items db)\<rparr>"

definition log_st :: "uuid \<Rightarrow> audit_action \<Rightarrow> string \<Rightarrow> json \<Rightarrow> db \<Rightarrow> db" where
  "log_st i action performed_by detail db = log_audit_event None STOCK_ITEM i action performed_by detail db"

definition st_free :: "stock_item \<Rightarrow> int" where
  "st_free s = st_quantity s - st_deficient_quantity s"

definition put_on :: "shelf \<Rightarrow> stock_item \<Rightarrow> stock_item" where
  "put_on s r = r\<lparr>st_aisle := fst s, st_row := fst (snd s), st_bay := snd (snd s)\<rparr>"

text \<open>The key of a row elsewhere: on another shelf, as another product, of the other kind, in another building.\<close>

definition key_on :: "shelf \<Rightarrow> stock_item \<Rightarrow> pool_key" where
  "key_on s r = stock_row_key (put_on s r)"

definition key_as :: "combo \<Rightarrow> stock_item \<Rightarrow> pool_key" where
  "key_as c r = (stock_row_key r)\<lparr>pool_key.key_product := c\<rparr>"

definition key_of_kind :: "pool_kind \<Rightarrow> stock_item \<Rightarrow> pool_key" where
  "key_of_kind k r = (stock_row_key r)\<lparr>key_kind := k\<rparr>"

definition key_at :: "uuid \<Rightarrow> shelf \<Rightarrow> stock_item \<Rightarrow> pool_key" where
  "key_at w s r = (key_on s r)\<lparr>key_warehouse := w\<rparr>"

definition validate_location_fields :: "shelf \<Rightarrow> unit result" where
  "validate_location_fields s =
     (let fits = (\<lambda>v. case v of None \<Rightarrow> True | Some t \<Rightarrow> label_fits t) in
      ensure (fits (fst s)) (ValidationError (Some ''aisle'')) (
      ensure (fits (fst (snd s))) (ValidationError (Some ''row'')) (
      ensure (fits (snd (snd s))) (ValidationError (Some ''bay'')) (Inr ()))))"

definition normalize_optional_location_fields :: "shelf \<Rightarrow> shelf result" where
  "normalize_optional_location_fields s =
     (let s = (normalize_location_value (fst s), normalize_location_value (fst (snd s)), normalize_location_value (snd (snd s)))
      in bindr (validate_location_fields s) (\<lambda>_. Inr s))"

section \<open>Folding\<close>

definition stock_row_is_referenced :: "db \<Rightarrow> uuid \<Rightarrow> bool" where
  "stock_row_is_referenced db i \<longleftrightarrow>
     list_ex (\<lambda>il. il_stock_item_id il = Some i) (inventory_locations db) \<or>
     list_ex (\<lambda>r. dr_stock_item_id r = Some i) (deficiency_reviews db) \<or>
     list_ex (\<lambda>r. dr_resulting_stock_item_id r = Some i) (deficiency_reviews db) \<or>
     list_ex (\<lambda>sr. list_ex (\<lambda>ri. ri_resulting_stock_item_id ri = Some i) (sr_items sr)) (shipment_returns db)"

definition delete_stock_row :: "uuid \<Rightarrow> db \<Rightarrow> db" where
  "delete_stock_row i db = db\<lparr>stock_items := delete_rows (\<lambda>s. st_id s = i) (stock_items db)\<rparr>"

definition drop_if_unreferenced :: "uuid \<Rightarrow> db \<Rightarrow> db" where
  "drop_if_unreferenced i db = (if stock_row_is_referenced db i then db else delete_stock_row i db)"

definition pour :: "stock_item \<Rightarrow> stock_item \<Rightarrow> db \<Rightarrow> db" where
  "pour si target db =
     set_st (st_id si) (\<lambda>s. s\<lparr>st_quantity := 0, st_deficient_quantity := 0\<rparr>)
       (set_st (st_id target) (\<lambda>t. t\<lparr>st_quantity := st_quantity t + st_quantity si,
          st_deficient_quantity := st_deficient_quantity t + st_deficient_quantity si\<rparr>) db)"

definition fold_into_same_key_row :: "stock_item \<Rightarrow> shelf \<Rightarrow> db \<Rightarrow> (stock_item \<times> db) option" where
  "fold_into_same_key_row si s db =
     (case find_stock_row db (key_on s si) of
        None \<Rightarrow> None
      | Some target \<Rightarrow>
          if st_id target = st_id si then None
          else Some (target, drop_if_unreferenced (st_id si) (pour si target db)))"

definition log_stock_shelf_event ::
  "stock_item \<Rightarrow> stock_item option \<Rightarrow> audit_action \<Rightarrow> string \<Rightarrow> (string \<times> json) list \<Rightarrow> db \<Rightarrow> db" where
  "log_stock_shelf_event source target action performed_by detail db =
     (case target of
        None \<Rightarrow> log_st (st_id source) action performed_by (JObj detail) db
      | Some t \<Rightarrow>
          (let detail = detail @ [(''foldedIntoStockItemId'', JId (st_id t)), (''quantity'', JInt (st_quantity source)),
                 (''deficientQuantity'', JInt (st_deficient_quantity source))]
           in log_st (st_id t) action performed_by (JObj (detail @ [(''foldedFromStockItemId'', JId (st_id source))]))
                (log_st (st_id source) action performed_by (JObj detail) db)))"

text \<open>
  A row comes onto a shelf: folded into the row of its key there, or moved; the id is of the row that
  holds its units now.
\<close>

definition shelve ::
  "stock_item \<Rightarrow> shelf \<Rightarrow> audit_action \<Rightarrow> string \<Rightarrow> (string \<times> json) list \<Rightarrow> db \<Rightarrow> uuid \<times> db" where
  "shelve si s action performed_by detail db =
     (case fold_into_same_key_row si s db of
        None \<Rightarrow> (st_id si, log_stock_shelf_event si None action performed_by detail (set_st (st_id si) (put_on s) db))
      | Some (target, db) \<Rightarrow> (st_id target, log_stock_shelf_event si (Some target) action performed_by detail db))"

section \<open>Operations on a row\<close>

definition adjust_stock_quantity :: "uuid \<Rightarrow> int \<Rightarrow> string \<Rightarrow> string \<Rightarrow> int option \<Rightarrow> db \<Rightarrow> db result" where
  "adjust_stock_quantity i new_quantity reason_text performed_by expected_quantity db =
     ensure (reason_ok reason_text) (ValidationError (Some ''reason_text'')) (
     ensure (0 \<le> new_quantity) (ValidationError (Some ''new_quantity'')) (
     bindr (lock_stock_item db i) (\<lambda>si.
     bindr (check_expected_quantity (st_quantity si) expected_quantity) (\<lambda>_.
     ensure (st_deficient_quantity si \<le> new_quantity) (ValidationError (Some ''new_quantity'')) (
     Inr (log_st i ADJUSTMENT performed_by
       (JObj [(''oldQuantity'', JInt (st_quantity si)), (''newQuantity'', JInt new_quantity),
          (''adjustment'', JInt (new_quantity - st_quantity si)), (''reasonText'', JStr reason_text)])
       (set_st i (\<lambda>s. s\<lparr>st_quantity := new_quantity\<rparr>) db)))))))"

definition shelf_of_labels :: "string option \<Rightarrow> string option \<Rightarrow> string option \<Rightarrow> shelf" where
  "shelf_of_labels a r b =
     (Some (sent_text (normalize_location_value a)), Some (sent_text (normalize_location_value r)),
      Some (sent_text (normalize_location_value b)))"

definition move_stock_location ::
  "uuid \<Rightarrow> string option \<Rightarrow> string option \<Rightarrow> string option \<Rightarrow> string \<Rightarrow> db \<Rightarrow> (uuid \<times> db) result" where
  "move_stock_location i new_aisle new_row new_bay performed_by db =
     ensure (new_aisle \<noteq> None \<and> new_row \<noteq> None \<and> new_bay \<noteq> None) (ValidationError (Some ''location'')) (
     let s = shelf_of_labels new_aisle new_row new_bay in
     bindr (validate_location_fields s) (\<lambda>_.
     bindr (lock_stock_item db i) (\<lambda>si.
     bindr (ensure_registered_location db (st_warehouse_id si) s) (\<lambda>_.
     Inr (shelve si s MOVE performed_by
       [(''fromLocation'', location_detail (st_shelf si) (st_warehouse_id si)),
        (''toLocation'', location_detail s (st_warehouse_id si))] db)))))"

definition mark_stock_item_unlocated :: "uuid \<Rightarrow> string \<Rightarrow> db \<Rightarrow> (uuid \<times> db) result" where
  "mark_stock_item_unlocated i performed_by db =
     ensure (performed_by \<noteq> []) (ValidationError (Some ''performed_by'')) (
     bindr (lock_stock_item db i) (\<lambda>si.
     Inr (shelve si (None, None, None) UNLOCATE performed_by
       [(''fromLocation'', location_detail (st_shelf si) (st_warehouse_id si))] db)))"

definition assign_stock_item_location ::
  "uuid \<Rightarrow> string option \<Rightarrow> string option \<Rightarrow> string option \<Rightarrow> string \<Rightarrow> db \<Rightarrow> (uuid \<times> db) result" where
  "assign_stock_item_location i aisle row bay performed_by db =
     ensure (performed_by \<noteq> []) (ValidationError (Some ''performed_by'')) (
     let s = shelf_of_labels aisle row bay in
     bindr (validate_location_fields s) (\<lambda>_.
     bindr (lock_stock_item db i) (\<lambda>si.
     bindr (refuse_if_already_located (st_shelf si)) (\<lambda>_.
     bindr (ensure_registered_location db (st_warehouse_id si) s) (\<lambda>_.
     Inr (shelve si s PUT_AWAY performed_by [(''toLocation'', location_detail s (st_warehouse_id si))] db))))))"

section \<open>Changing what a row is\<close>

definition product_json :: "combo \<Rightarrow> json" where
  "product_json c = JObj [(''hardwareCategory'', JStr (fst c)), (''productCode'', JStr (snd c))]"

definition stock_combo :: "stock_item \<Rightarrow> combo" where
  "stock_combo s = (st_hardware_category s, st_product_code s)"

definition add_st_units :: "uuid \<Rightarrow> int \<Rightarrow> db \<Rightarrow> db" where
  "add_st_units i q db = set_st i (\<lambda>s. s\<lparr>st_quantity := st_quantity s + q\<rparr>) db"

definition reclassify_detail :: "uuid \<Rightarrow> uuid \<Rightarrow> combo \<Rightarrow> combo \<Rightarrow> int \<Rightarrow> string option \<Rightarrow> (string \<times> json) list" where
  "reclassify_detail original new from_c to_c quantity reason_text =
     [(''originalStockItemId'', JId original), (''newStockItemId'', JId new), (''from'', product_json from_c),
      (''to'', product_json to_c), (''quantity'', JInt quantity), (''reasonText'', opt_str reason_text)]"

definition fold_reclassified_row ::
  "stock_item \<Rightarrow> stock_item \<Rightarrow> combo \<Rightarrow> string option \<Rightarrow> string \<Rightarrow> db \<Rightarrow> (uuid \<times> uuid option) \<times> db" where
  "fold_reclassified_row si target c reason_text performed_by db =
     (let detail = JObj (reclassify_detail (st_id si) (st_id target) (stock_combo si) c (st_quantity si) reason_text @
            [(''foldedIntoStockItemId'', JId (st_id target))]);
          db = set_st (st_id si) (\<lambda>s. s\<lparr>st_quantity := 0\<rparr>) (add_st_units (st_id target) (st_quantity si) db);
          db = log_st (st_id target) RECLASSIFY performed_by detail (log_st (st_id si) RECLASSIFY performed_by detail db)
      in if stock_row_is_referenced db (st_id si) then ((st_id target, Some (st_id si)), db)
         else ((st_id target, None), delete_stock_row (st_id si) db))"

definition reclassify_stock_item ::
  "datetime \<Rightarrow> uuid \<Rightarrow> combo \<Rightarrow> int \<Rightarrow> string option \<Rightarrow> string \<Rightarrow> int option \<Rightarrow> db \<Rightarrow>
   ((uuid \<times> uuid option) \<times> db) result" where
  "reclassify_stock_item now i c quantity reason_text performed_by expected_quantity db =
     ensure (1 \<le> quantity) (ValidationError (Some ''quantity'')) (
     ensure (fst c \<noteq> []) (ValidationError (Some ''new_hardware_category'')) (
     ensure (snd c \<noteq> []) (ValidationError (Some ''new_product_code'')) (
     bindr (lock_stock_item db i) (\<lambda>si.
     bindr (check_expected_quantity (st_quantity si) expected_quantity) (\<lambda>_.
     ensure (quantity \<le> st_quantity si) (ValidationError (Some ''quantity'')) (
     ensure (quantity \<le> st_free si) (ValidationError (Some ''quantity'')) (
     if quantity = st_quantity si then
       (let in_place = ((i, None),
              log_st i RECLASSIFY performed_by
                (JObj [(''from'', product_json (stock_combo si)), (''to'', product_json c),
                   (''quantity'', JInt quantity), (''reasonText'', opt_str reason_text)])
                (set_st i (\<lambda>s. s\<lparr>st_hardware_category := fst c, st_product_code := snd c\<rparr>) db))
        in case find_stock_row db (key_as c si) of
             None \<Rightarrow> Inr in_place
           | Some target \<Rightarrow>
               if st_id target = i then Inr in_place
               else Inr (fold_reclassified_row si target c reason_text performed_by db))
     else
       (let db = add_st_units i (- quantity) db;
            (new, db) = find_or_create_stock_row now (key_as c si) db;
            db = add_st_units (st_id new) quantity db;
            detail = JObj (reclassify_detail i (st_id new) (stock_combo si) c quantity reason_text);
            db = log_st (st_id new) RECLASSIFY performed_by detail (log_st i RECLASSIFY performed_by detail db)
        in Inr ((st_id new, Some i), db)))))))))"

definition kind_name :: "pool_kind \<Rightarrow> string" where
  "kind_name k = (case k of STOCK \<Rightarrow> ''STOCK'' | OVERHEAD \<Rightarrow> ''OVERHEAD'')"

definition kind_detail :: "stock_item \<Rightarrow> pool_kind \<Rightarrow> int \<Rightarrow> (string \<times> json) list" where
  "kind_detail si kind quantity =
     [(''fromKind'', JStr (kind_name (st_kind si))), (''toKind'', JStr (kind_name kind)), (''quantity'', JInt quantity),
      (''hardwareCategory'', JStr (st_hardware_category si)), (''productCode'', JStr (st_product_code si)),
      (''location'', location_detail (st_shelf si) (st_warehouse_id si))]"

definition set_stock_item_kind ::
  "uuid \<Rightarrow> pool_kind \<Rightarrow> int \<Rightarrow> string \<Rightarrow> int option \<Rightarrow> db \<Rightarrow> ((uuid \<times> uuid option) \<times> db) result" where
  "set_stock_item_kind i kind quantity performed_by expected_quantity db =
     ensure (1 \<le> quantity) (ValidationError (Some ''quantity'')) (
     ensure (performed_by \<noteq> []) (ValidationError (Some ''performed_by'')) (
     bindr (lock_stock_item db i) (\<lambda>si.
     bindr (check_expected_quantity (st_quantity si) expected_quantity) (\<lambda>_.
     ensure (st_kind si \<noteq> kind) (ValidationError (Some ''kind'')) (
     ensure (quantity \<le> st_free si) (ValidationError (Some ''quantity'')) (
     if find_stock_row db (key_of_kind kind si) = None \<and> quantity = st_quantity si then
       Inr ((i, None),
         log_st i POOL_KIND_CHANGE performed_by (JObj (kind_detail si kind quantity))
           (set_st i (\<lambda>s. s\<lparr>st_kind := kind\<rparr>) db))
     else
       (let (target, db) = find_or_create_stock_row (st_received_at si) (key_of_kind kind si) db;
            db = add_st_units (st_id target) quantity (add_st_units i (- quantity) db);
            detail = JObj (kind_detail si kind quantity @
              [(''originalStockItemId'', JId i), (''newStockItemId'', JId (st_id target))]);
            db = log_st (st_id target) POOL_KIND_CHANGE performed_by detail
              (log_st i POOL_KIND_CHANGE performed_by detail db)
        in Inr ((st_id target, Some i), db))))))))"

section \<open>Merging two shelves\<close>

text \<open>A missing row or bay is sent as an empty string and matches a null column.\<close>

definition matches_from :: "string option \<Rightarrow> string option \<Rightarrow> bool" where
  "matches_from col value = (if value = None \<or> value = Some [] then col = None \<or> col = Some [] else col = value)"

definition from_shelf :: "shelf \<Rightarrow> shelf \<Rightarrow> bool" where
  "from_shelf from_s s \<longleftrightarrow> fst s = fst from_s \<and> matches_from (fst (snd s)) (fst (snd from_s)) \<and>
     matches_from (snd (snd s)) (snd (snd from_s))"

definition merge_il :: "uuid \<Rightarrow> shelf \<Rightarrow> inventory_location \<Rightarrow> bool" where
  "merge_il w from_s il \<longleftrightarrow> il_warehouse_id il = w \<and> from_shelf from_s (il_shelf il) \<and> 0 < il_quantity il"

definition merge_st :: "uuid \<Rightarrow> shelf \<Rightarrow> stock_item \<Rightarrow> bool" where
  "merge_st w from_s s \<longleftrightarrow> st_warehouse_id s = w \<and> from_shelf from_s (st_shelf s) \<and>
     0 < st_quantity s + st_deficient_quantity s"

definition merge_detail :: "uuid \<Rightarrow> shelf \<Rightarrow> shelf \<Rightarrow> (string \<times> json) list" where
  "merge_detail w from_s to_s =
     [(''fromLocation'', location_detail from_s w), (''toLocation'', location_detail to_s w),
      (''reason'', JStr ''location_merge'')]"

fun merge_inventory_rows :: "uuid \<Rightarrow> shelf \<Rightarrow> shelf \<Rightarrow> string \<Rightarrow> inventory_location list \<Rightarrow> db \<Rightarrow> db" where
  "merge_inventory_rows w from_s to_s performed_by [] db = db"
| "merge_inventory_rows w from_s to_s performed_by (il # rows) db =
     merge_inventory_rows w from_s to_s performed_by rows
       (log_il il MOVE performed_by (JObj (merge_detail w from_s to_s)) (set_il (il_id il) (on_shelf to_s) db))"

text \<open>Each pool row is taken as it is when its turn comes: an earlier one may have folded into it.\<close>

fun merge_stock_rows :: "uuid \<Rightarrow> shelf \<Rightarrow> shelf \<Rightarrow> string \<Rightarrow> uuid list \<Rightarrow> db \<Rightarrow> db" where
  "merge_stock_rows w from_s to_s performed_by [] db = db"
| "merge_stock_rows w from_s to_s performed_by (i # is) db =
     merge_stock_rows w from_s to_s performed_by is
       (case find_row st_id i (stock_items db) of
          None \<Rightarrow> db
        | Some si \<Rightarrow> snd (shelve si to_s MOVE performed_by (merge_detail w from_s to_s) db))"

definition merge_locations ::
  "uuid \<Rightarrow> shelf \<Rightarrow> string \<Rightarrow> string \<Rightarrow> string \<Rightarrow> string \<Rightarrow> db \<Rightarrow> ((nat \<times> nat) \<times> db) result" where
  "merge_locations w from_s to_aisle to_row to_bay performed_by db =
     ensure (performed_by \<noteq> []) (ValidationError (Some ''performed_by'')) (
     ensure (strip (sent_text (fst from_s)) \<noteq> []) (ValidationError (Some ''from_aisle'')) (
     bindr (normalize_and_validate_location_fields to_aisle to_row to_bay) (\<lambda>to_s.
     bindr (ensure_registered_location db w to_s) (\<lambda>_.
     let rows = filter (merge_il w from_s) (inventory_locations db);
         db = merge_inventory_rows w from_s to_s performed_by rows db;
         found = map st_id (filter (merge_st w from_s) (stock_items db))
     in Inr ((length rows, length found), merge_stock_rows w from_s to_s performed_by found db)))))"

end
