(* ===== verification/PoolMoves.thy ===== *)
theory PoolMoves
  imports PoolRows
begin

text \<open>
  How units enter, leave and cross the pool (\<open>stock/movements.py\<close>): a destock takes units off a project's
  row, an allocation gives pool units to a project, a receipt books a vendor's delivery, a transfer carries
  units of either kind to another shelf or building.
\<close>

section \<open>The price units carry into the pool\<close>

definition destock_unit_cost :: "db \<Rightarrow> inventory_location \<Rightarrow> destock_cost option \<Rightarrow> int option result" where
  "destock_unit_cost db il cost =
     (case cost of
        None \<Rightarrow> Inl (ValidationError (Some ''destock_cost''))
      | Some ZERO \<Rightarrow> Inr (Some 0)
      | Some KEEP \<Rightarrow> Inr (effective_cost db il))"

text \<open>An empty currency is no currency: \<open>po.currency or il.cost_currency\<close>.\<close>

definition row_cost_currency :: "db \<Rightarrow> inventory_location \<Rightarrow> string option" where
  "row_cost_currency db il =
     (case po_line_of db il of
        None \<Rightarrow> cost_currency_of (il_cost_currency il)
      | Some line \<Rightarrow>
          cost_currency_of (if blank (po_line_currency line) then il_cost_currency il else po_line_currency line))"

definition destock_cost_currency :: "db \<Rightarrow> inventory_location \<Rightarrow> destock_cost option \<Rightarrow> string option" where
  "destock_cost_currency db il cost = (if cost = Some ZERO then None else row_cost_currency db il)"

definition pool_key_of :: "uuid \<Rightarrow> combo \<Rightarrow> shelf \<Rightarrow> pool_kind \<Rightarrow> int option \<Rightarrow> string option \<Rightarrow> pool_key" where
  "pool_key_of w c s kind cost currency =
     \<lparr>key_warehouse = w, key_product = c, key_aisle = fst s, key_row = fst (snd s), key_bay = snd (snd s),
      key_kind = kind, key_unit_cost = map_option exactly cost, key_cost_currency = currency\<rparr>"

section \<open>Destocking\<close>

definition source_name :: "destock_source \<Rightarrow> string" where
  "source_name s = (case s of CANCELLATION \<Rightarrow> ''CANCELLATION'' | DEFICIENT_SWAP \<Rightarrow> ''DEFICIENT_SWAP''
     | OVERAGE \<Rightarrow> ''OVERAGE'' | OTHER_SOURCE \<Rightarrow> ''OTHER'')"

definition cost_name :: "destock_cost \<Rightarrow> string" where
  "cost_name c = (case c of ZERO \<Rightarrow> ''ZERO'' | KEEP \<Rightarrow> ''KEEP'')"

definition opt_int :: "int option \<Rightarrow> json" where
  "opt_int v = (case v of None \<Rightarrow> JNull | Some n \<Rightarrow> JInt n)"

text \<open>
  Condemned units are swapped out of what is condemned, sound ones out of what is sound and unclaimed.
\<close>

definition check_destock :: "db \<Rightarrow> inventory_location \<Rightarrow> int \<Rightarrow> destock_source \<Rightarrow> unit result" where
  "check_destock db il quantity source =
     (let c = il_combo il in
      if source = DEFICIENT_SWAP then
        ensure (quantity \<le> il_deficient_quantity il) (ValidationError (Some ''quantity'')) (Inr ())
      else
        ensure (quantity \<le> il_free il) (ValidationError (Some ''quantity'')) (
        ensure (quantity \<le> dict_get (get_available_quantities db (il_project_id il) [c]) c)
          (ValidationError (Some ''quantity'')) (Inr ())))"

text \<open>A target is all three labels or none; none is the row's own shelf.\<close>

definition destock_shelf :: "db \<Rightarrow> inventory_location \<Rightarrow> shelf \<Rightarrow> shelf result" where
  "destock_shelf db il target =
     (let given = filter (\<lambda>v. v \<noteq> None) [fst target, fst (snd target), snd (snd target)] in
      ensure (given = [] \<or> length given = 3) (ValidationError (Some ''target_location'')) (
      if given = [] then Inr (il_shelf il)
      else bindr (normalize_optional_location_fields target) (\<lambda>s.
           bindr (ensure_registered_location db (il_warehouse_id il) s) (\<lambda>_. Inr s))))"

definition destock_detail ::
  "inventory_location \<Rightarrow> int \<Rightarrow> destock_source \<Rightarrow> destock_cost option \<Rightarrow> int option \<Rightarrow> string option \<Rightarrow> shelf \<Rightarrow> uuid \<Rightarrow> json" where
  "destock_detail il quantity source cost pool_cost reason_text s stock =
     JObj [(''fromInventoryLocationId'', JId (il_id il)), (''projectId'', JId (il_project_id il)),
       (''hardwareCategory'', JStr (il_hardware_category il)), (''productCode'', JStr (il_product_code il)),
       (''quantity'', JInt quantity), (''source'', JStr (source_name source)),
       (''destockCost'', opt_str (map_option cost_name cost)), (''unitCost'', opt_int pool_cost),
       (''reasonText'', opt_str reason_text), (''targetLocation'', location_detail s (il_warehouse_id il)),
       (''stockItemId'', JId stock)]"

definition destock_inventory ::
  "datetime \<Rightarrow> uuid \<Rightarrow> int \<Rightarrow> destock_source \<Rightarrow> string option \<Rightarrow> shelf \<Rightarrow> string \<Rightarrow> destock_cost option \<Rightarrow> int option \<Rightarrow>
   db \<Rightarrow> (uuid \<times> db) result" where
  "destock_inventory now i quantity source reason_text target performed_by cost expected_quantity db =
     ensure (1 \<le> quantity) (ValidationError (Some ''quantity'')) (
     ensure (performed_by \<noteq> []) (ValidationError (Some ''performed_by'')) (
     bindr (validate_location_fields target) (\<lambda>_.
     bindr (lock_row db i) (\<lambda>il.
     bindr (check_expected_quantity (il_quantity il) expected_quantity) (\<lambda>_.
     bindr (destock_unit_cost db il cost) (\<lambda>pool_cost.
     bindr (check_destock db il quantity source) (\<lambda>_.
     bindr (destock_shelf db il target) (\<lambda>s.
     let (stock, db) = find_or_create_stock_row now
           (pool_key_of (il_warehouse_id il) (il_combo il) s STOCK pool_cost (destock_cost_currency db il cost)) db;
         db = set_il i (\<lambda>r. r\<lparr>il_quantity := il_quantity r - quantity,
                il_deficient_quantity := (if source = DEFICIENT_SWAP then max 0 (il_deficient_quantity r - quantity)
                  else il_deficient_quantity r)\<rparr>) db;
         db = add_st_units (st_id stock) quantity db;
         detail = destock_detail il quantity source cost pool_cost reason_text s (st_id stock);
         db = log_st (st_id stock) DESTOCK performed_by detail (log_il il DESTOCK performed_by detail db)
     in Inr (st_id stock, db)))))))))"

section \<open>Allocating to a project\<close>

definition warehouse_company :: "db \<Rightarrow> uuid \<Rightarrow> string option" where
  "warehouse_company db w = map_option wh_company (find_row wh_id w (warehouses db))"

definition non_schedule_type_codes :: "db \<Rightarrow> string option \<Rightarrow> string list" where
  "non_schedule_type_codes db company =
     map snd (filter (\<lambda>t. company = Some (fst t)) (inventory_item_types db))"

definition get_scheduled_pairs :: "db \<Rightarrow> uuid \<Rightarrow> bool \<Rightarrow> combo list" where
  "get_scheduled_pairs db project_id still_scheduled =
     remdups (map (\<lambda>h. (hw_hardware_category h, hw_product_code h))
       (filter (\<lambda>h. hw_project_id h = project_id \<and>
          (\<not> still_scheduled \<or> hw_beyond_schedule_quantity h < hw_item_quantity h)) (hardware_items db)))"

definition refuse_a_pair_off_the_schedule :: "db \<Rightarrow> project \<Rightarrow> combo \<Rightarrow> unit result" where
  "refuse_a_pair_off_the_schedule db project c =
     (if fst c \<in> set (non_schedule_type_codes db (pj_company project)) then Inr ()
      else if get_scheduled_pairs db (pj_id project) False = [] then Inr ()
      else ensure (c \<in> set (get_scheduled_pairs db (pj_id project) True))
             (ValidationError (Some ''target_product_code'')) (Inr ()))"

text \<open>The project's row keeps the pool row as its origin, and its price.\<close>

definition allocated_row ::
  "uuid \<Rightarrow> datetime \<Rightarrow> uuid \<Rightarrow> combo \<Rightarrow> stock_item \<Rightarrow> inventory_entry_source \<Rightarrow> int \<Rightarrow> shelf \<Rightarrow> inventory_location" where
  "allocated_row i now project_id c si entry_source quantity s =
     \<lparr>il_id = i, il_project_id = project_id, il_warehouse_id = st_warehouse_id si, il_hardware_category = fst c,
      il_product_code = snd c, il_quantity = quantity, il_deficient_quantity = 0, il_aisle = fst s,
      il_row = fst (snd s), il_bay = snd (snd s), il_po_line_item_id = None, il_receive_line_item_id = None,
      il_stock_item_id = Some (st_id si), il_shipment_return_item_id = None, il_entry_source = Some entry_source,
      il_unit_cost = st_unit_cost si, il_cost_currency = st_cost_currency si, il_received_at = now\<rparr>"

definition allocate_stock_to_project ::
  "datetime \<Rightarrow> uuid \<Rightarrow> uuid \<Rightarrow> combo \<Rightarrow> int \<Rightarrow> shelf \<Rightarrow> string \<Rightarrow> inventory_entry_source \<Rightarrow> int option \<Rightarrow> db \<Rightarrow>
   (uuid \<times> db) result" where
  "allocate_stock_to_project now i project_id c quantity target performed_by entry_source expected_quantity db =
     ensure (1 \<le> quantity) (ValidationError (Some ''quantity'')) (
     ensure (fst c \<noteq> []) (ValidationError (Some ''target_hardware_category'')) (
     ensure (snd c \<noteq> []) (ValidationError (Some ''target_product_code'')) (
     bindr (normalize_optional_location_fields target) (\<lambda>s.
     let given = filter (\<lambda>v. v \<noteq> None) [fst s, fst (snd s), snd (snd s)] in
     ensure (given = [] \<or> length given = 3) (ValidationError (Some ''target_location'')) (
     bindr (lock_stock_item db i) (\<lambda>si.
     bindr (check_expected_quantity (st_quantity si) expected_quantity) (\<lambda>_.
     bindr (if given = [] then Inr () else ensure_registered_location db (st_warehouse_id si) s) (\<lambda>_.
     ensure (quantity \<le> st_free si) (ValidationError (Some ''quantity'')) (
     case find_row pj_id project_id (projects db) of
       None \<Rightarrow> Inl NotFoundError
     | Some project \<Rightarrow>
         ensure (warehouse_company db (st_warehouse_id si) = pj_company project) (ValidationError (Some ''project_id'')) (
         bindr (refuse_a_pair_off_the_schedule db project c) (\<lambda>_.
         let (j, db) = fresh db;
             row = allocated_row j now project_id c si entry_source quantity s;
             db = add_st_units i (- quantity) (add_il row db);
             detail = JObj [(''sourceStockItemId'', JId i), (''projectId'', JId project_id),
               (''targetHardwareCategory'', JStr (fst c)), (''targetProductCode'', JStr (snd c)),
               (''quantity'', JInt quantity), (''targetLocation'', location_detail s (st_warehouse_id si)),
               (''newInventoryLocationId'', JId j)];
             db = log_il row ALLOCATE_FROM_STOCK performed_by detail (log_st i ALLOCATE_FROM_STOCK performed_by detail db)
         in Inr (j, db))))))))))))"

section \<open>Receiving into the pool\<close>

definition cost_json :: "exact_cost option \<Rightarrow> json" where
  "cost_json c = (case c of None \<Rightarrow> JNull | Some c \<Rightarrow> JList [JInt (fst c), JInt (snd c)])"

definition receiving_warehouse :: "db \<Rightarrow> uuid option \<Rightarrow> string option \<Rightarrow> uuid result" where
  "receiving_warehouse db warehouse_id company =
     (case warehouse_id of
        Some w \<Rightarrow> Inr w
      | None \<Rightarrow>
          ensure (\<not> blank company) (ValidationError (Some ''warehouse_id'')) (get_primary_warehouse_id db company))"

definition receive_into_stock ::
  "datetime \<Rightarrow> uuid option \<Rightarrow> combo \<Rightarrow> int \<Rightarrow> int \<Rightarrow> shelf \<Rightarrow> string \<Rightarrow> string option \<Rightarrow> exact_cost option \<Rightarrow> pool_kind \<Rightarrow>
   string option \<Rightarrow> string option \<Rightarrow> db \<Rightarrow> (uuid \<times> db) result" where
  "receive_into_stock received_at warehouse_id c quantity deficient_quantity s received_by po_number unit_cost kind
      company cost_currency db =
     ensure (1 \<le> quantity) (ValidationError (Some ''quantity'')) (
     ensure (0 \<le> deficient_quantity \<and> deficient_quantity \<le> quantity) (ValidationError (Some ''deficient_quantity'')) (
     bindr (receiving_warehouse db warehouse_id company) (\<lambda>w.
     let (stock, db) = find_or_create_stock_row received_at
           \<lparr>key_warehouse = w, key_product = c, key_aisle = fst s, key_row = fst (snd s), key_bay = snd (snd s),
            key_kind = kind, key_unit_cost = unit_cost, key_cost_currency = cost_currency\<rparr> db;
         db = set_st (st_id stock) (\<lambda>r. r\<lparr>st_quantity := st_quantity r + quantity,
                st_deficient_quantity := st_deficient_quantity r + deficient_quantity\<rparr>) db
     in Inr (st_id stock, log_st (st_id stock) RECEIVE received_by
          (JObj [(''quantity'', JInt quantity), (''deficientQuantity'', JInt deficient_quantity),
             (''hardwareCategory'', JStr (fst c)), (''productCode'', JStr (snd c)), (''poNumber'', opt_str po_number),
             (''kind'', JStr (kind_name kind)), (''unitCost'', cost_json unit_cost),
             (''location'', location_detail s w)]) db))))"

section \<open>Transferring\<close>

text \<open>The destination row that takes a project's units: of the same origin, on that shelf.\<close>

definition same_origin :: "inventory_location \<Rightarrow> inventory_location \<Rightarrow> bool" where
  "same_origin a b \<longleftrightarrow> il_project_id a = il_project_id b \<and> il_combo a = il_combo b \<and>
     il_po_line_item_id a = il_po_line_item_id b \<and> il_receive_line_item_id a = il_receive_line_item_id b \<and>
     il_stock_item_id a = il_stock_item_id b \<and> il_shipment_return_item_id a = il_shipment_return_item_id b \<and>
     il_entry_source a = il_entry_source b"

definition find_matching_inventory_location :: "db \<Rightarrow> inventory_location \<Rightarrow> uuid \<Rightarrow> shelf \<Rightarrow> inventory_location option" where
  "find_matching_inventory_location db src w s =
     List.find (\<lambda>il. il_id il \<noteq> il_id src \<and> il_warehouse_id il = w \<and> same_origin il src \<and> il_shelf il = s)
       (inventory_locations db)"

definition transfer_detail :: "uuid \<Rightarrow> shelf \<Rightarrow> uuid \<Rightarrow> shelf \<Rightarrow> int \<Rightarrow> string \<times> json \<Rightarrow> json" where
  "transfer_detail from_w from_s to_w to_s quantity target =
     JObj [(''fromWarehouseId'', JId from_w), (''fromLocation'', location_detail from_s from_w),
       (''toWarehouseId'', JId to_w), (''toLocation'', location_detail to_s to_w), (''quantity'', JInt quantity), target]"

definition transfer_project_row ::
  "uuid \<Rightarrow> int \<Rightarrow> uuid \<Rightarrow> shelf \<Rightarrow> string \<Rightarrow> int option \<Rightarrow> db \<Rightarrow> db result" where
  "transfer_project_row i quantity w s performed_by expected_quantity db =
     bindr (lock_row db i) (\<lambda>il.
     bindr (check_expected_quantity (il_quantity il) expected_quantity) (\<lambda>_.
     ensure (quantity \<le> il_free il) (ValidationError (Some ''quantity'')) (
     ensure (\<not> (il_warehouse_id il = w \<and> il_shelf il = s)) (ValidationError (Some ''destination'')) (
     bindr (assert_usable_destination db w (project_company db (il_project_id il)) ''dest_warehouse_id'') (\<lambda>_.
     let db = set_il i (\<lambda>r. r\<lparr>il_quantity := il_quantity r - quantity\<rparr>) db in
     let (j, db) =
       (case find_matching_inventory_location db il w s of
          Some target \<Rightarrow>
            (il_id target, set_il (il_id target) (\<lambda>r. r\<lparr>il_quantity := il_quantity r + quantity,
               il_unit_cost := (if il_unit_cost il \<noteq> None \<and> il_unit_cost r = None then il_unit_cost il else il_unit_cost r),
               il_cost_currency := (if il_unit_cost il \<noteq> None \<and> il_unit_cost r = None then il_cost_currency il
                 else il_cost_currency r)\<rparr>) db)
        | None \<Rightarrow>
            (let (j, db) = fresh db in (j, add_il (derived_row il j w quantity s (il_received_at il)) db)))
     in Inr (log_il il TRANSFER performed_by
          (transfer_detail (il_warehouse_id il) (il_shelf il) w s quantity (''targetInventoryLocationId'', JId j)) db))))))"

definition transfer_pool_row ::
  "uuid \<Rightarrow> int \<Rightarrow> uuid \<Rightarrow> shelf \<Rightarrow> string \<Rightarrow> int option \<Rightarrow> db \<Rightarrow> db result" where
  "transfer_pool_row i quantity w s performed_by expected_quantity db =
     bindr (lock_stock_item db i) (\<lambda>si.
     bindr (check_expected_quantity (st_quantity si) expected_quantity) (\<lambda>_.
     ensure (quantity \<le> st_free si) (ValidationError (Some ''quantity'')) (
     ensure (\<not> (st_warehouse_id si = w \<and> st_shelf si = s)) (ValidationError (Some ''destination'')) (
     bindr (assert_usable_destination db w (warehouse_company db (st_warehouse_id si)) ''dest_warehouse_id'') (\<lambda>_.
     let db = add_st_units i (- quantity) db;
         (target, db) = find_or_create_stock_row (st_received_at si) (key_at w s si) db;
         db = add_st_units (st_id target) quantity db
     in Inr (log_st i TRANSFER performed_by
          (transfer_detail (st_warehouse_id si) (st_shelf si) w s quantity (''targetStockItemId'', JId (st_id target))) db))))))"

definition transfer_inventory ::
  "string \<Rightarrow> uuid \<Rightarrow> int \<Rightarrow> uuid \<Rightarrow> shelf \<Rightarrow> string \<Rightarrow> int option \<Rightarrow> db \<Rightarrow> db result" where
  "transfer_inventory source_type i quantity w dest performed_by expected_quantity db =
     ensure (1 \<le> quantity) (ValidationError (Some ''quantity'')) (
     ensure (performed_by \<noteq> []) (ValidationError (Some ''performed_by'')) (
     ensure (strip (sent_text (fst dest)) \<noteq> [] \<and> strip (sent_text (fst (snd dest))) \<noteq> [] \<and>
         strip (sent_text (snd (snd dest))) \<noteq> []) (ValidationError (Some ''destination'')) (
     bindr (normalize_optional_location_fields dest) (\<lambda>s.
     bindr (assert_usable_destination db w None ''dest_warehouse_id'') (\<lambda>_.
     bindr (ensure_registered_location db w s) (\<lambda>_.
     if source_type = ''INVENTORY_LOCATION'' then transfer_project_row i quantity w s performed_by expected_quantity db
     else if source_type = ''STOCK_ITEM'' then transfer_pool_row i quantity w s performed_by expected_quantity db
     else Inl (ValidationError (Some ''source_type''))))))))"

end
