(* ===== verification/Deficiency.thy ===== *)
theory Deficiency
  imports PoolMoves
begin

text \<open>
  \<open>stock/deficiency.py\<close>: units of a row are condemned, and a review settles condemned units - sent to the
  pool, scrapped, repaired, returned to the vendor, or left as they are.
\<close>

section \<open>Condemning units\<close>

definition report_detail :: "int \<Rightarrow> int \<Rightarrow> string option \<Rightarrow> combo \<Rightarrow> json" where
  "report_detail quantity new_deficient reason_text c =
     JObj [(''quantity'', JInt quantity), (''newDeficientQuantity'', JInt new_deficient),
       (''reasonText'', opt_str reason_text), (''hardwareCategory'', JStr (fst c)), (''productCode'', JStr (snd c))]"

definition report_inventory_deficiency ::
  "uuid \<Rightarrow> int \<Rightarrow> string option \<Rightarrow> string \<Rightarrow> int option \<Rightarrow> db \<Rightarrow> db result" where
  "report_inventory_deficiency i quantity reason_text performed_by expected_deficient_quantity db =
     ensure (1 \<le> quantity) (ValidationError (Some ''quantity'')) (
     bindr (lock_row db i) (\<lambda>il.
     bindr (check_expected_deficient_quantity (il_deficient_quantity il) expected_deficient_quantity) (\<lambda>_.
     let new_deficient = il_deficient_quantity il + quantity in
     ensure (new_deficient \<le> il_quantity il) (ValidationError (Some ''quantity'')) (
     Inr (log_il il REPORT_DEFICIENT performed_by (report_detail quantity new_deficient reason_text (il_combo il))
       (set_il i (\<lambda>r. r\<lparr>il_deficient_quantity := new_deficient\<rparr>) db))))))"

definition report_stock_deficiency ::
  "uuid \<Rightarrow> int \<Rightarrow> string option \<Rightarrow> string \<Rightarrow> int option \<Rightarrow> db \<Rightarrow> db result" where
  "report_stock_deficiency i quantity reason_text performed_by expected_deficient_quantity db =
     ensure (1 \<le> quantity) (ValidationError (Some ''quantity'')) (
     bindr (lock_stock_item db i) (\<lambda>si.
     bindr (check_expected_deficient_quantity (st_deficient_quantity si) expected_deficient_quantity) (\<lambda>_.
     let new_deficient = st_deficient_quantity si + quantity in
     ensure (new_deficient \<le> st_quantity si) (ValidationError (Some ''quantity'')) (
     Inr (log_st i REPORT_DEFICIENT performed_by (report_detail quantity new_deficient reason_text (stock_combo si))
       (set_st i (\<lambda>s. s\<lparr>st_deficient_quantity := new_deficient\<rparr>) db))))))"

section \<open>Reviewing condemned units\<close>

text \<open>The units leave the row, leave its condemned count, or neither.\<close>

definition leaves_row :: "deficiency_resolution \<Rightarrow> bool" where
  "leaves_row r \<longleftrightarrow> r \<in> {SEND_TO_STOCK, SCRAP, RETURN_TO_VENDOR}"

definition clears_flag :: "deficiency_resolution \<Rightarrow> bool" where
  "clears_flag r \<longleftrightarrow> r \<noteq> LEAVE_AS_DEFICIENT"

definition settle_il :: "deficiency_resolution \<Rightarrow> int \<Rightarrow> inventory_location \<Rightarrow> inventory_location" where
  "settle_il r quantity il =
     il\<lparr>il_quantity := (if leaves_row r then il_quantity il - quantity else il_quantity il),
        il_deficient_quantity := (if clears_flag r then il_deficient_quantity il - quantity else il_deficient_quantity il)\<rparr>"

definition settle_st :: "deficiency_resolution \<Rightarrow> int \<Rightarrow> stock_item \<Rightarrow> stock_item" where
  "settle_st r quantity s =
     s\<lparr>st_quantity := (if r \<in> {SCRAP, RETURN_TO_VENDOR} then st_quantity s - quantity else st_quantity s),
       st_deficient_quantity := (if clears_flag r then st_deficient_quantity s - quantity else st_deficient_quantity s)\<rparr>"

definition resolution_name :: "deficiency_resolution \<Rightarrow> string" where
  "resolution_name r = (case r of SEND_TO_STOCK \<Rightarrow> ''SEND_TO_STOCK'' | SCRAP \<Rightarrow> ''SCRAP'' | REPAIR \<Rightarrow> ''REPAIR''
     | RETURN_TO_VENDOR \<Rightarrow> ''RETURN_TO_VENDOR'' | LEAVE_AS_DEFICIENT \<Rightarrow> ''LEAVE_AS_DEFICIENT'')"

definition tell_purchasing_of_return :: "datetime \<Rightarrow> inventory_location \<Rightarrow> db \<Rightarrow> db result" where
  "tell_purchasing_of_return now il db =
     create_notification now (il_project_id il) (Some PO_RECIPIENT_ROLE) INVENTORY_SHORTFALL None None None db"

text \<open>A project's row: the pool row the units went to, if any, and the price they carry.\<close>

definition resolve_il ::
  "datetime \<Rightarrow> inventory_location \<Rightarrow> deficiency_resolution \<Rightarrow> int \<Rightarrow> destock_cost option \<Rightarrow> db \<Rightarrow>
   ((uuid option \<times> int option) \<times> db) result" where
  "resolve_il now il r quantity cost db =
     (if r = SEND_TO_STOCK then
        bindr (destock_unit_cost db il cost) (\<lambda>pool_cost.
        let currency = destock_cost_currency db il cost;
            db = set_il (il_id il) (settle_il r quantity) db;
            (stock, db) = find_or_create_stock_row now
              (pool_key_of (il_warehouse_id il) (il_combo il) (il_shelf il) STOCK pool_cost currency) db;
            db = set_st (st_id stock) (\<lambda>s. s\<lparr>st_quantity := st_quantity s + quantity,
                   st_deficient_quantity := st_deficient_quantity s + quantity\<rparr>) db
        in Inr ((Some (st_id stock), pool_cost), db))
      else if r = RETURN_TO_VENDOR then
        bindr (tell_purchasing_of_return now il (set_il (il_id il) (settle_il r quantity) db))
          (\<lambda>db. Inr ((None, None), db))
      else Inr ((None, None), set_il (il_id il) (settle_il r quantity) db))"

definition review_detail ::
  "deficiency_review \<Rightarrow> destock_source option \<Rightarrow> destock_cost option \<Rightarrow> int option \<Rightarrow> combo \<Rightarrow> json" where
  "review_detail dr source cost pool_cost c =
     JObj [(''resolution'', JStr (resolution_name (dr_resolution dr))), (''quantity'', JInt (dr_quantity dr)),
       (''reasonText'', opt_str (dr_reason_text dr)), (''rmaReference'', opt_str (dr_rma_reference dr)),
       (''destockSource'', opt_str (map_option source_name source)),
       (''destockCost'', if dr_resulting_stock_item_id dr \<noteq> None \<and> dr_inventory_location_id dr \<noteq> None
          then opt_str (map_option cost_name cost) else JNull),
       (''unitCost'', opt_int pool_cost),
       (''resultingStockItemId'', case dr_resulting_stock_item_id dr of None \<Rightarrow> JNull | Some i \<Rightarrow> JId i),
       (''hardwareCategory'', JStr (fst c)), (''productCode'', JStr (snd c))]"

definition check_review ::
  "uuid option \<Rightarrow> uuid option \<Rightarrow> deficiency_resolution \<Rightarrow> int \<Rightarrow> string option \<Rightarrow> string \<Rightarrow> unit result" where
  "check_review il st r quantity rma_reference reviewed_by =
     ensure ((il = None) \<noteq> (st = None)) (ValidationError (Some ''source'')) (
     ensure (1 \<le> quantity) (ValidationError (Some ''quantity'')) (
     ensure (reviewed_by \<noteq> []) (ValidationError (Some ''reviewed_by'')) (
     ensure (r \<noteq> RETURN_TO_VENDOR \<or> \<not> blank rma_reference) (ValidationError (Some ''rma_reference'')) (
     ensure (length (sent_text rma_reference) \<le> 100) (ValidationError (Some ''rma_reference'')) (Inr ())))))"

definition add_review :: "deficiency_review \<Rightarrow> db \<Rightarrow> db" where
  "add_review dr db = db\<lparr>deficiency_reviews := deficiency_reviews db @ [dr]\<rparr>"

definition resolve_deficiency ::
  "datetime \<Rightarrow> uuid option \<Rightarrow> uuid option \<Rightarrow> deficiency_resolution \<Rightarrow> int \<Rightarrow> string option \<Rightarrow> string option \<Rightarrow>
   destock_source option \<Rightarrow> string \<Rightarrow> destock_cost option \<Rightarrow> int option \<Rightarrow> db \<Rightarrow> (uuid \<times> db) result" where
  "resolve_deficiency now il_target st_target r quantity reason_text rma_reference source reviewed_by cost
      expected_deficient_quantity db =
     bindr (check_review il_target st_target r quantity rma_reference reviewed_by) (\<lambda>_.
     let source = (if r = SEND_TO_STOCK \<and> source = None then Some DEFICIENT_SWAP else source);
         review = (\<lambda>i resulting. \<lparr>dr_id = i, dr_inventory_location_id = il_target, dr_stock_item_id = st_target,
           dr_resolution = r, dr_quantity = quantity, dr_reason_text = reason_text, dr_rma_reference = rma_reference,
           dr_reviewed_by = reviewed_by, dr_reviewed_at = now, dr_resulting_stock_item_id = resulting\<rparr>) in
     case (il_target, st_target) of
       (Some i, _) \<Rightarrow>
         bindr (lock_row db i) (\<lambda>il.
         bindr (check_expected_deficient_quantity (il_deficient_quantity il) expected_deficient_quantity) (\<lambda>_.
         ensure (quantity \<le> il_deficient_quantity il) (ValidationError (Some ''quantity'')) (
         bindr (resolve_il now il r quantity cost db) (\<lambda>(outcome, db).
         let (j, db) = fresh db; dr = review j (fst outcome)
         in Inr (j, log_il il RESOLVE_DEFICIENT reviewed_by
              (review_detail dr source cost (snd outcome) (il_combo il)) (add_review dr db))))))
     | (None, Some i) \<Rightarrow>
         bindr (lock_stock_item db i) (\<lambda>si.
         bindr (check_expected_deficient_quantity (st_deficient_quantity si) expected_deficient_quantity) (\<lambda>_.
         ensure (quantity \<le> st_deficient_quantity si) (ValidationError (Some ''quantity'')) (
         let db = set_st i (settle_st r quantity) db;
             (j, db) = fresh db; dr = review j (if r = SEND_TO_STOCK then Some i else None)
         in Inr (j, log_st i RESOLVE_DEFICIENT reviewed_by
              (review_detail dr source cost None (stock_combo si)) (add_review dr db)))))
     | (None, None) \<Rightarrow> Inl (ValidationError (Some ''source'')))"

section \<open>The queue\<close>

datatype deficient_item_source = PROJECT_INVENTORY | STOCK_POOL

record deficient_item =
  df_source :: deficient_item_source
  df_inventory_location_id :: "uuid option"
  df_stock_item_id :: "uuid option"
  df_project_id :: "uuid option"
  df_product :: combo
  df_quantity :: int
  df_shelf :: shelf

definition project_owns :: "db \<Rightarrow> string option \<Rightarrow> uuid \<Rightarrow> bool" where
  "project_owns db company p \<longleftrightarrow> company = None \<or>
     list_ex (\<lambda>pj. pj_id pj = p \<and> pj_company pj = company) (projects db)"

definition get_deficient_items ::
  "db \<Rightarrow> uuid option \<Rightarrow> deficient_item_source option \<Rightarrow> string option \<Rightarrow> deficient_item list" where
  "get_deficient_items db project_id source company =
     (if source \<noteq> Some STOCK_POOL then
        map (\<lambda>il. \<lparr>df_source = PROJECT_INVENTORY, df_inventory_location_id = Some (il_id il), df_stock_item_id = None,
               df_project_id = Some (il_project_id il), df_product = il_combo il,
               df_quantity = il_deficient_quantity il, df_shelf = il_shelf il\<rparr>)
          (sort_key (\<lambda>il. (il_project_id il, il_hardware_category il, il_product_code il))
            (filter (\<lambda>il. 0 < il_deficient_quantity il \<and> (project_id = None \<or> project_id = Some (il_project_id il)) \<and>
               project_owns db company (il_project_id il)) (inventory_locations db)))
      else []) @
     (if source \<noteq> Some PROJECT_INVENTORY \<and> project_id = None then
        map (\<lambda>s. \<lparr>df_source = STOCK_POOL, df_inventory_location_id = None, df_stock_item_id = Some (st_id s),
               df_project_id = None, df_product = stock_combo s, df_quantity = st_deficient_quantity s,
               df_shelf = st_shelf s\<rparr>)
          (sort_key (\<lambda>s. (st_hardware_category s, st_product_code s))
            (filter (\<lambda>s. 0 < st_deficient_quantity s \<and> company_owns db company (st_warehouse_id s)) (stock_items db)))
      else [])"

end
