(* ===== verification/Weights.thy ===== *)
theory Weights
  imports Deficiency ShipmentLife
begin

text \<open>
  The floor's two tables, project rows and pool rows, as one quantity: every count of units is a weight, the
  invariant of the tables is \<open>stock_ok\<close>, and a change of the floor is \<open>moves d\<close>, which keeps the invariant and
  the claims and changes each weight by \<open>d\<close>. The shelf operations are the first to be read so.
\<close>

section \<open>Weighing the two tables\<close>

text \<open>
  Every count of the floor is a weight: what one unit, and what one condemned unit, counts for, given its
  owner (a project, or nobody in the pool) and its product.
\<close>

type_synonym scale = "uuid option \<Rightarrow> combo \<Rightarrow> int \<times> int"

definition worth :: "scale \<Rightarrow> uuid option \<Rightarrow> combo \<Rightarrow> int \<Rightarrow> int \<Rightarrow> int" where
  "worth a owner c q d = fst (a owner c) * q + snd (a owner c) * d"

definition il_worth :: "scale \<Rightarrow> inventory_location \<Rightarrow> int" where
  "il_worth a il = worth a (Some (il_project_id il)) (il_combo il) (il_quantity il) (il_deficient_quantity il)"

definition st_worth :: "scale \<Rightarrow> stock_item \<Rightarrow> int" where
  "st_worth a s = worth a None (stock_combo s) (st_quantity s) (st_deficient_quantity s)"

definition tot :: "('r \<Rightarrow> int) \<Rightarrow> 'r list \<Rightarrow> int" where
  "tot f rows = sum_list (map f rows)"

definition weigh :: "scale \<Rightarrow> db \<Rightarrow> int" where
  "weigh a db = tot (il_worth a) (inventory_locations db) + tot (st_worth a) (stock_items db)"

definition units_of :: "combo \<Rightarrow> scale" where
  "units_of c owner c' = (if c' = c then (1, 0) else (0, 0))"

definition condemned_of :: "combo \<Rightarrow> scale" where
  "condemned_of c owner c' = (if c' = c then (0, 1) else (0, 0))"

definition sound_of :: "uuid \<Rightarrow> combo \<Rightarrow> scale" where
  "sound_of p c owner c' = (if owner = Some p \<and> c' = c then (1, -1) else (0, 0))"

lemma tot_simps [simp]: "tot f [] = 0" "tot f (r # rows) = f r + tot f rows" "tot f (rows @ rows') = tot f rows + tot f rows'"
  by (simp_all add: tot_def)

lemma tot_filter: "sum_list (map val (filter P rows)) = tot (\<lambda>r. if P r then val r else 0) rows"
  by (induction rows) simp_all

lemma tot_update:
  assumes "distinct (map key rows)" and "find_row key i rows = Some r"
  shows "tot f (update_row key i g rows) = tot f rows + (f (g r) - f r)"
  using assms
proof (induction rows)
  case Nil
  then show ?case by (simp add: find_row_def)
next
  case (Cons a rows)
  show ?case
  proof (cases "key a = i")
    case True
    with Cons.prems have "a = r" and "update_row key i g rows = rows"
      by (auto simp: find_row_def intro: update_row_notin)
    with True show ?thesis by (simp add: update_row_def)
  next
    case False
    with Cons show ?thesis by (simp add: find_row_def update_row_def)
  qed
qed

lemma tot_delete:
  assumes "distinct (map key rows)" and "find_row key i rows = Some r"
  shows "tot f (delete_rows (\<lambda>r. key r = i) rows) = tot f rows - f r"
  using assms
proof (induction rows)
  case Nil
  then show ?case by (simp add: find_row_def)
next
  case (Cons a rows)
  have "delete_rows (\<lambda>r. key r = i) rows = rows" if "i \<notin> key ` set rows"
    using that by (auto simp: delete_rows_def filter_id_conv)
  then show ?case using Cons by (cases "key a = i") (auto simp: find_row_def delete_rows_def)
qed

lemma on_hand_weigh: "on_hand db p c = weigh (sound_of p c) db"
proof -
  have "tot (st_worth (sound_of p c)) rows = 0" for rows
    by (induction rows) (simp_all add: st_worth_def worth_def sound_of_def)
  moreover have "(if il_project_id il = p \<and> il_combo il = c then il_free il else 0) = il_worth (sound_of p c) il" for il
    by (simp add: il_worth_def worth_def sound_of_def il_free_def)
  ultimately show ?thesis by (simp add: on_hand_def tot_filter weigh_def)
qed

lemma worth_zero [simp]: "worth a owner c 0 0 = 0"
  by (simp add: worth_def)

section \<open>The invariant of the two tables\<close>

definition stock_row_ok :: "stock_item \<Rightarrow> bool" where
  "stock_row_ok s \<longleftrightarrow> 0 \<le> st_deficient_quantity s \<and> st_deficient_quantity s \<le> st_quantity s"

definition has_origin :: "inventory_location \<Rightarrow> bool" where
  "has_origin il \<longleftrightarrow> (il_po_line_item_id il \<noteq> None \<and> il_receive_line_item_id il \<noteq> None) \<or>
     il_stock_item_id il \<noteq> None \<or> il_shipment_return_item_id il \<noteq> None"

text \<open>A pool row is stored under its canonical key.\<close>

definition canonical_row :: "stock_item \<Rightarrow> bool" where
  "canonical_row s \<longleftrightarrow> canonical_key (stock_row_key s) = stock_row_key s"

definition tables_ok :: "db \<Rightarrow> bool" where
  "tables_ok db \<longleftrightarrow> distinct (map il_id (inventory_locations db)) \<and> list_all (\<lambda>i. i < next_id db) (map il_id (inventory_locations db)) \<and>
     distinct (map st_id (stock_items db)) \<and> list_all (\<lambda>i. i < next_id db) (map st_id (stock_items db)) \<and>
     list_all (\<lambda>il. inventory_row_ok il \<and> has_origin il) (inventory_locations db) \<and>
     list_all stock_row_ok (stock_items db)"

definition pool_ok_keys :: "db \<Rightarrow> bool" where
  "pool_ok_keys db \<longleftrightarrow> pool_keys_unique db \<and> list_all canonical_row (stock_items db)"

definition stock_ok :: "db \<Rightarrow> bool" where
  "stock_ok db \<longleftrightarrow> tables_ok db \<and> pool_ok_keys db"

lemmas stock_ok_defs = stock_ok_def tables_ok_def pool_ok_keys_def pool_keys_unique_def

lemma stock_log [simp]:
  "weigh a (log_il il x who d db) = weigh a db" "weigh a (log_st i x who d db) = weigh a db"
  "stock_ok (log_il il x who d db) = stock_ok db" "stock_ok (log_st i x who d db) = stock_ok db"
  "inventory_locations (log_il il x who d db) = inventory_locations db" "stock_items (log_il il x who d db) = stock_items db"
  "inventory_locations (log_st i x who d db) = inventory_locations db" "stock_items (log_st i x who d db) = stock_items db"
  by (simp_all add: log_il_def log_st_def log_audit_event_def weigh_def stock_ok_defs)

text \<open>Rewriting one row of either table.\<close>

lemma set_il_effect:
  assumes "stock_ok db" and "find_row il_id i (inventory_locations db) = Some il"
    and "il_id (h il) = il_id il" and "inventory_row_ok (h il)" and "has_origin (h il)"
  shows "stock_ok (set_il i h db)" and "weigh a (set_il i h db) = weigh a db + (il_worth a (h il) - il_worth a il)"
proof -
  have dist: "distinct (map il_id (inventory_locations db))" using assms(1) by (simp add: stock_ok_defs)
  have ids: "map il_id (inventory_locations (set_il i h db)) = map il_id (inventory_locations db)"
    unfolding set_il_def using assms(3)
    by (simp, intro map_update_row_same) (auto dest: row_unique [OF dist assms(2)])
  have "list_all (\<lambda>il. inventory_row_ok il \<and> has_origin il) (inventory_locations (set_il i h db))"
    using assms row_unique [OF dist assms(2)] by (auto simp: set_il_def stock_ok_defs list_all_iff set_update_row)
  then show "stock_ok (set_il i h db)"
    using assms(1) ids by (simp add: stock_ok_defs set_il_def)
  show "weigh a (set_il i h db) = weigh a db + (il_worth a (h il) - il_worth a il)"
    using tot_update [OF dist assms(2), of "il_worth a" h] by (simp add: weigh_def set_il_def)
qed

lemma distinct_rekeyed:
  assumes "distinct (map key rows)" and "distinct (map id_of rows)"
    and "\<forall>x \<in> set rows. id_of x = i \<longrightarrow> key (h x) = k" and "\<forall>x \<in> set rows. id_of x \<noteq> i \<longrightarrow> key x \<noteq> k"
  shows "distinct (map key (update_row id_of i h rows))"
  using assms
proof (induction rows)
  case Nil
  then show ?case by (simp add: update_row_def)
next
  case (Cons r rows)
  show ?case
  proof (cases "id_of r = i")
    case True
    then have "update_row id_of i h rows = rows" using Cons.prems(2) by (auto intro: update_row_notin)
    moreover have "k \<notin> key ` set rows" using Cons.prems(2,4) True by (metis distinct.simps(2) image_iff list.set_intros(2) list.set_map list.simps(9))
    ultimately show ?thesis using True Cons.prems(1,3) by (simp add: update_row_def)
  next
    case False
    have "key r \<notin> key ` set (update_row id_of i h rows)"
      using Cons.prems(1,3,4) False by (auto simp: update_row_def image_iff split: if_splits)
    moreover have "update_row id_of i h (r # rows) = r # update_row id_of i h rows" using False by (simp add: update_row_def)
    ultimately show ?thesis using Cons by simp
  qed
qed

lemma set_st_effect:
  assumes "stock_ok db" and "find_row st_id i (stock_items db) = Some s"
    and "st_id (h s) = st_id s" and "stock_row_ok (h s)" and "canonical_row (h s)"
    and "stock_row_key (h s) \<notin> stock_row_key ` {r \<in> set (stock_items db). st_id r \<noteq> i}"
  shows "stock_ok (set_st i h db)" and "weigh a (set_st i h db) = weigh a db + (st_worth a (h s) - st_worth a s)"
proof -
  have dist: "distinct (map st_id (stock_items db))" and keys: "distinct (map stock_row_key (stock_items db))"
    using assms(1) by (simp_all add: stock_ok_defs)
  have ids: "map st_id (stock_items (set_st i h db)) = map st_id (stock_items db)"
    unfolding set_st_def using assms(3)
    by (simp, intro map_update_row_same) (auto dest: row_unique [OF dist assms(2)])
  have rows: "list_all (\<lambda>s. stock_row_ok s \<and> canonical_row s) (stock_items (set_st i h db))"
    using assms row_unique [OF dist assms(2)] by (auto simp: set_st_def stock_ok_defs list_all_iff set_update_row)
  have "distinct (map stock_row_key (update_row st_id i h (stock_items db)))"
    by (rule distinct_rekeyed [OF keys dist, of _ _ "stock_row_key (h s)"])
      (use assms(6) row_unique [OF dist assms(2)] in \<open>auto simp: image_iff\<close>)
  then show "stock_ok (set_st i h db)"
    using assms(1) ids rows by (simp add: stock_ok_defs set_st_def list_all_iff)
  show "weigh a (set_st i h db) = weigh a db + (st_worth a (h s) - st_worth a s)"
    using tot_update [OF dist assms(2), of "st_worth a" h] by (simp add: weigh_def set_st_def)
qed

text \<open>A row that keeps its key.\<close>

lemma same_key_effect:
  assumes "stock_ok db" and "find_row st_id i (stock_items db) = Some s"
    and "st_id (h s) = st_id s" and "stock_row_ok (h s)" and "stock_row_key (h s) = stock_row_key s"
  shows "stock_ok (set_st i h db)" and "weigh a (set_st i h db) = weigh a db + (st_worth a (h s) - st_worth a s)"
proof -
  have mem: "s \<in> set (stock_items db)" "st_id s = i" using find_row_Some [OF assms(2)] by simp_all
  have canon: "canonical_row (h s)"
    using assms(1,5) mem by (auto simp: stock_ok_defs list_all_iff canonical_row_def)
  have keys: "distinct (map stock_row_key (stock_items db))" using assms(1) by (simp add: stock_ok_defs)
  have "stock_row_key (h s) \<notin> stock_row_key ` {r \<in> set (stock_items db). st_id r \<noteq> i}"
    using keys mem unfolding assms(5) distinct_map inj_on_def by blast
  note effect = set_st_effect [where h = h, OF assms(1-4) canon this]
  show "stock_ok (set_st i h db)" by (rule effect(1))
  show "weigh a (set_st i h db) = weigh a db + (st_worth a (h s) - st_worth a s)" by (rule effect(2))
qed

lemma set_st_frame [simp]:
  "inventory_locations (set_st i h db) = inventory_locations db" "inventory_locations (add_st_units i q db) = inventory_locations db"
  "stock_items (set_il i g db) = stock_items db" "stock_items (add_il il db) = stock_items db"
  "next_id (set_st i h db) = next_id db" "next_id (add_st_units i q db) = next_id db" "next_id (set_il i g db) = next_id db"
  "next_id (add_il il db) = next_id db"
  by (simp_all add: set_st_def set_il_def add_il_def add_st_units_def)

lemma find_after_add [simp]:
  "find_row st_id j (stock_items (add_st_units i q db)) =
     map_option (\<lambda>s. if j = i then s\<lparr>st_quantity := st_quantity s + q\<rparr> else s) (find_row st_id j (stock_items db))"
  by (simp add: add_st_units_def set_st_def find_row_update) (simp add: option.map_ident)

lemma add_units_effect:
  assumes "stock_ok db" and "find_row st_id i (stock_items db) = Some s" and "st_deficient_quantity s \<le> st_quantity s + q"
  shows "stock_ok (add_st_units i q db)" and "weigh a (add_st_units i q db) = weigh a db + fst (a None (stock_combo s)) * q"
proof -
  let ?h = "\<lambda>s. s\<lparr>st_quantity := st_quantity s + q\<rparr>"
  have "stock_row_ok s" using assms(1,2) find_row_Some [OF assms(2)] by (auto simp: stock_ok_defs list_all_iff)
  then have row: "stock_row_ok (?h s)" using assms(3) by (simp add: stock_row_ok_def)
  note effect = same_key_effect [OF assms(1,2), of ?h, OF _ row]
  show "stock_ok (add_st_units i q db)" unfolding add_st_units_def by (rule effect(1)) (simp_all add: stock_row_key_def)
  show "weigh a (add_st_units i q db) = weigh a db + fst (a None (stock_combo s)) * q"
    unfolding add_st_units_def
    by (subst effect(2)) (simp_all add: stock_row_key_def st_worth_def worth_def stock_combo_def algebra_simps)
qed

lemma add_il_effect:
  assumes "stock_ok db" and "il_id il = next_id db" and "inventory_row_ok il" and "has_origin il"
  shows "stock_ok (add_il il (db\<lparr>next_id := Suc (next_id db)\<rparr>))"
    and "weigh a (add_il il (db\<lparr>next_id := Suc (next_id db)\<rparr>)) = weigh a db + il_worth a il"
  using assms by (fastforce simp: stock_ok_defs add_il_def list_all_iff weigh_def)+

text \<open>Asking the pool for the row of a key: nothing weighs more, and every row there was is still there.\<close>

lemma find_or_create_ok:
  assumes run: "find_or_create_stock_row t k db = (s, db1)" and ok: "stock_ok db" and settled: "price_settled k"
  shows "stock_ok db1" and "weigh a db1 = weigh a db" and "find_row st_id (st_id s) (stock_items db1) = Some s"
    and "inventory_locations db1 = inventory_locations db" and "stock_combo s = pool_key.key_product k"
    and "find_row st_id i (stock_items db) = Some r \<Longrightarrow> find_row st_id i (stock_items db1) = Some r"
    and "stock_row_key s = canonical_key k"
proof -
  have dist: "distinct (map st_id (stock_items db))" using ok by (simp add: stock_ok_defs)
  have "stock_ok db1 \<and> weigh a db1 = weigh a db \<and> find_row st_id (st_id s) (stock_items db1) = Some s \<and>
    inventory_locations db1 = inventory_locations db \<and> stock_row_key s = canonical_key k \<and>
    (find_row st_id i (stock_items db) = Some r \<longrightarrow> find_row st_id i (stock_items db1) = Some r)"
  proof (cases "find_stock_row db k")
    case (Some x)
    then have "s = x" "db1 = db" using run by (simp_all add: find_or_create_stock_row_def)
    then show ?thesis using ok find_stock_row_Some [OF Some] dist by (simp add: find_row_eq_Some)
  next
    case None
    let ?s = "new_stock_row (next_id db) t k"
    have new: "s = ?s" "db1 = db\<lparr>next_id := Suc (next_id db), stock_items := stock_items db @ [?s]\<rparr>"
      using None run by (auto simp: find_or_create_stock_row_def fresh_def Let_def)
    have key: "stock_row_key ?s = canonical_key k" by (rule new_stock_row_key [OF settled])
    have free: "canonical_key k \<notin> stock_row_key ` set (stock_items db)" using None by (simp add: find_stock_row_None)
    have id: "st_id ?s = next_id db" "st_quantity ?s = 0" "st_deficient_quantity ?s = 0" by (simp_all add: new_stock_row_def)
    have below: "\<forall>x \<in> set (stock_items db). st_id x < next_id db" using ok by (simp add: stock_ok_defs list_all_iff)
    have "stock_ok db1"
      using ok key free id below by (auto simp: new stock_ok_defs list_all_iff canonical_row_def canonical_key_idem stock_row_ok_def less_Suc_eq)
    moreover have "weigh a db1 = weigh a db" by (simp add: new weigh_def st_worth_def id)
    moreover have "find_row st_id (st_id s) (stock_items db1) = Some s"
    proof -
      have "find_row st_id (next_id db) (stock_items db) = None" using below by (auto simp: find_row_None)
      then show ?thesis using id by (simp add: new find_row_append)
    qed
    ultimately show ?thesis using key by (auto simp: new find_row_append)
  qed
  then show "stock_ok db1" "weigh a db1 = weigh a db" "find_row st_id (st_id s) (stock_items db1) = Some s"
    "inventory_locations db1 = inventory_locations db" "stock_row_key s = canonical_key k"
    "find_row st_id i (stock_items db) = Some r \<Longrightarrow> find_row st_id i (stock_items db1) = Some r" by blast+
  moreover have "pool_key.key_product (stock_row_key s) = stock_combo s" by (simp add: stock_row_key_def stock_combo_def)
  moreover have "pool_key.key_product (canonical_key k) = pool_key.key_product k" by (simp add: canonical_key_def)
  ultimately show "stock_combo s = pool_key.key_product k" by simp
qed

section \<open>What each operation moves\<close>

text \<open>
  A change of the floor: the tables stay in order, every weight changes by the stated amount, and no claim is
  touched.
\<close>

definition moves :: "(scale \<Rightarrow> int) \<Rightarrow> db \<Rightarrow> db \<Rightarrow> bool" where
  "moves d db db' \<longleftrightarrow> stock_ok db' \<and> (\<forall>a. weigh a db' = weigh a db + d a) \<and>
     inventory_reservations db' = inventory_reservations db"

lemma moves_refl: "stock_ok db \<Longrightarrow> moves (\<lambda>a. 0) db db"
  by (simp add: moves_def)

lemma moves_trans: "moves d db db1 \<Longrightarrow> moves e db1 db2 \<Longrightarrow> moves (\<lambda>a. d a + e a) db db2"
  by (simp add: moves_def add.assoc)

lemma moves_cong: "moves d db db' \<Longrightarrow> (\<And>a. d a = e a) \<Longrightarrow> moves e db db'"
  by (simp add: moves_def)

lemma moves_ok: "moves d db db' \<Longrightarrow> stock_ok db'"
  by (simp add: moves_def)

lemma moves_log [simp]:
  "moves d db (log_il il x who j db') = moves d db db'" "moves d db (log_st i x who j db') = moves d db db'"
  by (simp_all add: moves_def) (simp_all add: log_il_def log_st_def log_audit_event_def)

lemma moves_set_il:
  assumes "stock_ok db" and "find_row il_id i (inventory_locations db) = Some il"
    and "il_id (h il) = il_id il" and "inventory_row_ok (h il)" and "has_origin (h il)"
  shows "moves (\<lambda>a. il_worth a (h il) - il_worth a il) db (set_il i h db)"
  using set_il_effect [where h = h, OF assms] by (simp add: moves_def set_il_def)

lemma moves_add_units:
  assumes "stock_ok db" and "find_row st_id i (stock_items db) = Some s" and "st_deficient_quantity s \<le> st_quantity s + q"
  shows "moves (\<lambda>a. fst (a None (stock_combo s)) * q) db (add_st_units i q db)"
  using add_units_effect [OF assms] by (simp add: moves_def add_st_units_def set_st_def)

lemma moves_find_or_create:
  assumes "find_or_create_stock_row t k db = (s, db1)" and "stock_ok db" and "price_settled k"
  shows "moves (\<lambda>a. 0) db db1"
proof -
  have "inventory_reservations db1 = inventory_reservations db"
    using assms(1) by (auto simp: find_or_create_stock_row_def fresh_def Let_def split: option.splits)
  then show ?thesis using find_or_create_ok [OF assms] by (simp add: moves_def)
qed

lemma lock_Inr [result_simps]:
  "lock_row db i = Inr il \<longleftrightarrow> find_row il_id i (inventory_locations db) = Some il"
  "lock_stock_item db i = Inr s \<longleftrightarrow> find_row st_id i (stock_items db) = Some s"
  by (auto simp: lock_row_def lock_stock_item_def split: option.splits)

lemma row_facts:
  assumes "stock_ok db" and "find_row il_id i (inventory_locations db) = Some il"
  shows "il_id il = i" "inventory_row_ok il" "has_origin il" "i < next_id db"
  using assms find_row_Some [OF assms(2)] by (auto simp: stock_ok_defs list_all_iff)

lemma stock_facts:
  assumes "stock_ok db" and "find_row st_id i (stock_items db) = Some s"
  shows "st_id s = i" "stock_row_ok s" "canonical_row s" "i < next_id db"
  using assms find_row_Some [OF assms(2)] by (auto simp: stock_ok_defs list_all_iff)

lemma il_same [simp]:
  "il_worth a (on_shelf s il) = il_worth a il" "inventory_row_ok (on_shelf s il) = inventory_row_ok il"
  "has_origin (on_shelf s il) = has_origin il" "il_id (on_shelf s il) = il_id il"
  by (simp_all add: on_shelf_def il_worth_def il_combo_def inventory_row_ok_def has_origin_def)

lemma derived_facts [simp]:
  "il_worth a (derived_row il j w q s t) = fst (a (Some (il_project_id il)) (il_combo il)) * q"
  "inventory_row_ok (derived_row il j w q s t) = (0 \<le> q)" "has_origin (derived_row il j w q s t) = has_origin il"
  "il_id (derived_row il j w q s t) = j" "il_quantity (derived_row il j w q s t) = q"
  by (simp_all add: derived_row_def il_worth_def on_shelf_def il_combo_def worth_def inventory_row_ok_def has_origin_def)

lemma worth_add_units: "il_worth a (il\<lparr>il_quantity := il_quantity il + q\<rparr>) = il_worth a il + fst (a (Some (il_project_id il)) (il_combo il)) * q"
  by (simp add: il_worth_def worth_def il_combo_def algebra_simps)

lemma worth_less_units: "il_worth a (il\<lparr>il_quantity := il_quantity il - q\<rparr>) = il_worth a il - fst (a (Some (il_project_id il)) (il_combo il)) * q"
  by (simp add: il_worth_def worth_def il_combo_def algebra_simps)

text \<open>A new row under a fresh id.\<close>

lemma moves_add_il:
  assumes "stock_ok db" and "il_id il = next_id db" and "inventory_row_ok il" and "has_origin il"
  shows "moves (\<lambda>a. il_worth a il) db (add_il il (db\<lparr>next_id := Suc (next_id db)\<rparr>))"
  using add_il_effect [OF assms] by (simp add: moves_def add_il_def)

lemma add_after_set: "add_il il (set_il i h (db\<lparr>next_id := n\<rparr>)) = add_il il ((set_il i h db)\<lparr>next_id := n\<rparr>)"
  by (simp add: set_il_def add_il_def)

subsection \<open>On the shelves\<close>

lemma reshelf_moves:
  assumes "stock_ok db" and "find_row il_id i (inventory_locations db) = Some il"
  shows "moves (\<lambda>a. 0) db (set_il i (on_shelf s) db)"
  using moves_set_il [OF assms, of "on_shelf s"] row_facts [OF assms] by simp

lemma move_il_moves:
  "move_inventory_location i x y z who db = Inr db' \<Longrightarrow> stock_ok db \<Longrightarrow> moves (\<lambda>a. 0) db db'"
  "mark_inventory_unlocated i who db = Inr db' \<Longrightarrow> stock_ok db \<Longrightarrow> moves (\<lambda>a. 0) db db'"
  "assign_inventory_location i x y z who db = Inr db' \<Longrightarrow> stock_ok db \<Longrightarrow> moves (\<lambda>a. 0) db db'"
  by (auto simp: move_inventory_location_def mark_inventory_unlocated_def assign_inventory_location_def
      bindr_eq_Inr lock_Inr intro: reshelf_moves)

lemma split_moves:
  assumes "split_inventory_location i q who db = Inr (j, db')" and "stock_ok db"
  shows "moves (\<lambda>a. 0) db db'"
proof -
  obtain il where il: "find_row il_id i (inventory_locations db) = Some il" and q: "1 \<le> q" "q < il_quantity il" "q \<le> il_free il"
    and run: "split_inventory_location i q who db = Inr (j, db')"
    using assms(1) by (auto simp: split_inventory_location_def bindr_eq_Inr ensure_eq_Inr lock_Inr)
  let ?h = "\<lambda>r. r\<lparr>il_quantity := il_quantity r - q\<rparr>"
  let ?db1 = "set_il i ?h db"
  let ?new = "derived_row il (next_id db) (il_warehouse_id il) q (None, None, None) (il_received_at il)"
  note row = row_facts [OF assms(2) il]
  have "inventory_row_ok (?h il)" "has_origin (?h il)"
    using row q by (auto simp: inventory_row_ok_def il_free_def has_origin_def)
  then have one: "moves (\<lambda>a. il_worth a (?h il) - il_worth a il) db ?db1"
    by (intro moves_set_il [where h = ?h, OF assms(2) il]) simp_all
  have two: "moves (\<lambda>a. il_worth a ?new) ?db1 (add_il ?new (?db1\<lparr>next_id := Suc (next_id ?db1)\<rparr>))"
    using moves_ok [OF one] row q by (intro moves_add_il) simp_all
  have "moves (\<lambda>a. 0) db (add_il ?new (set_il i ?h (db\<lparr>next_id := Suc (next_id db)\<rparr>)))"
    unfolding add_after_set by (rule moves_cong [OF moves_trans [OF one]]) (use two in \<open>simp_all add: worth_less_units\<close>)
  then show ?thesis
    using run il q by (auto simp: split_inventory_location_def bindr_eq_Inr ensure_eq_Inr lock_Inr fresh_def Let_def)
qed

lemma merge_il_moves:
  "stock_ok db \<Longrightarrow> \<forall>il \<in> set rows. il_id il \<in> il_id ` set (inventory_locations db) \<Longrightarrow>
   moves (\<lambda>a. 0) db (merge_inventory_rows w s t who rows db)"
proof (induction rows arbitrary: db)
  case Nil
  then show ?case by (simp add: moves_refl)
next
  case (Cons il rows)
  let ?db1 = "log_il il MOVE who (JObj (merge_detail w s t)) (set_il (il_id il) (on_shelf t) db)"
  obtain r where "find_row il_id (il_id il) (inventory_locations db) = Some r"
    using Cons.prems(2) by (cases "find_row il_id (il_id il) (inventory_locations db)") (auto simp: find_row_None)
  then have one: "moves (\<lambda>a. 0) db ?db1" using reshelf_moves [OF Cons.prems(1)] by simp
  have "map il_id (inventory_locations ?db1) = map il_id (inventory_locations db)"
    by (simp add: set_il_def keys_update_row)
  then have "il_id ` set (inventory_locations ?db1) = il_id ` set (inventory_locations db)" by (metis set_map)
  then have "moves (\<lambda>a. 0) ?db1 (merge_inventory_rows w s t who rows ?db1)"
    using Cons.prems(2) by (intro Cons.IH moves_ok [OF one]) simp
  from moves_trans [OF one this] show ?case by simp
qed

end
