(* ===== verification/FloorMoves.thy ===== *)
theory FloorMoves
  imports Weights
begin

text \<open>
  What each operation of the pool, of the counts and of the deficiency reviews moves.
\<close>

subsection \<open>In the pool\<close>

definition shelf_canonical :: "shelf \<Rightarrow> bool" where
  "shelf_canonical s \<longleftrightarrow> normalize_location_value (fst s) = fst s \<and>
     normalize_location_value (fst (snd s)) = fst (snd s) \<and> normalize_location_value (snd (snd s)) = snd (snd s)"

lemma normalize_None [simp]: "normalize_location_value None = None"
  by (simp add: normalize_location_value_def)

lemma shelf_of_labels_canonical:
  assumes "validate_location_fields (shelf_of_labels x y z) = Inr ()"
  shows "shelf_canonical (shelf_of_labels x y z)"
proof -
  have label: "normalize_location_value (Some (sent_text (normalize_location_value v))) = Some (sent_text (normalize_location_value v))"
    if "label_fits (sent_text (normalize_location_value v))" for v
    using that normalize_location_value_idem [of v]
    by (cases "normalize_location_value v") (simp_all add: sent_text_def label_fits_def)
  show ?thesis
    using assms by (simp add: validate_location_fields_def shelf_of_labels_def shelf_canonical_def ensure_eq_Inr label)
qed

lemma normalize_optional_canonical: "normalize_optional_location_fields s = Inr t \<Longrightarrow> shelf_canonical t"
  by (auto simp: normalize_optional_location_fields_def Let_def bindr_eq_Inr shelf_canonical_def normalize_location_value_idem)

lemma normalize_and_validate_canonical: "normalize_and_validate_location_fields x y z = Inr t \<Longrightarrow> shelf_canonical t"
proof -
  have label: "normalize_location_value (Some (canonical_label v)) = Some (canonical_label v)" if "label_fits (canonical_label v)" for v
    using that normalize_location_value_idem [of "Some v"]
    by (cases "normalize_location_value (Some v)") (simp_all add: canonical_label_def sent_text_def label_fits_def)
  then show "normalize_and_validate_location_fields x y z = Inr t \<Longrightarrow> shelf_canonical t"
    by (auto simp: normalize_and_validate_location_fields_def Let_def ensure_eq_Inr shelf_canonical_def)
qed

lemma key_on_canonical: "canonical_row si \<Longrightarrow> shelf_canonical s \<Longrightarrow> canonical_key (key_on s si) = key_on s si"
  by (simp add: canonical_row_def key_on_def canonical_key_def stock_row_key_def put_on_def shelf_canonical_def)

lemma canonical_row_shelf: "canonical_row si \<Longrightarrow> shelf_canonical (st_shelf si)"
  by (simp add: canonical_row_def canonical_key_def stock_row_key_def shelf_canonical_def st_shelf_def)

text \<open>A row may take a new key when no other row has it.\<close>

lemma moves_rekey:
  assumes ok: "stock_ok db" and si: "find_row st_id i (stock_items db) = Some si"
    and same: "st_id (h si) = st_id si" "st_quantity (h si) = st_quantity si" "st_deficient_quantity (h si) = st_deficient_quantity si"
    and canon: "canonical_key k = k" and key: "stock_row_key (h si) = k"
    and free: "find_stock_row db k = None \<or> (\<exists>t. find_stock_row db k = Some t \<and> st_id t = i)"
  shows "moves (\<lambda>a. st_worth a (h si) - st_worth a si) db (set_st i h db)"
proof -
  have mem: "si \<in> set (stock_items db)" "st_id si = i" using find_row_Some [OF si] by simp_all
  have dist: "distinct (map st_id (stock_items db))" "distinct (map stock_row_key (stock_items db))"
    using ok by (simp_all add: stock_ok_defs)
  have "stock_row_ok (h si)" using stock_facts(2) [OF ok si] same by (simp add: stock_row_ok_def)
  moreover have "canonical_row (h si)" using canon key by (simp add: canonical_row_def)
  moreover have "stock_row_key (h si) \<notin> stock_row_key ` {r \<in> set (stock_items db). st_id r \<noteq> i}"
    using free
  proof
    assume "find_stock_row db k = None"
    then have "k \<notin> stock_row_key ` set (stock_items db)" by (simp add: find_stock_row_None canon)
    then show ?thesis unfolding key by blast
  next
    assume "\<exists>t. find_stock_row db k = Some t \<and> st_id t = i"
    then obtain t where "t \<in> set (stock_items db)" "stock_row_key t = k" "st_id t = i"
      using find_stock_row_Some canon by metis
    then show ?thesis unfolding key using dist(2) unfolding distinct_map inj_on_def by blast
  qed
  ultimately have "stock_ok (set_st i h db)" "\<And>a. weigh a (set_st i h db) = weigh a db + (st_worth a (h si) - st_worth a si)"
    using set_st_effect [where h = h, OF ok si same(1)] by blast+
  then show ?thesis by (simp add: moves_def set_st_def)
qed

lemma moves_delete:
  assumes "stock_ok db" and "find_row st_id i (stock_items db) = Some s" and "st_quantity s = 0" "st_deficient_quantity s = 0"
  shows "moves (\<lambda>a. 0) db (delete_stock_row i db)" and "moves (\<lambda>a. 0) db (drop_if_unreferenced i db)"
proof -
  have dist: "distinct (map st_id (stock_items db))" "distinct (map stock_row_key (stock_items db))"
    using assms(1) by (simp_all add: stock_ok_defs)
  have "stock_ok (delete_stock_row i db)"
    using assms(1) by (simp add: stock_ok_defs delete_stock_row_def distinct_delete_rows)
      (auto simp: list_all_iff delete_rows_def distinct_map_filter)
  moreover have "weigh a (delete_stock_row i db) = weigh a db" for a
    using tot_delete [OF dist(1) assms(2), of "st_worth a"] assms(3,4)
    by (simp add: weigh_def delete_stock_row_def st_worth_def)
  ultimately show del: "moves (\<lambda>a. 0) db (delete_stock_row i db)" by (simp add: moves_def delete_stock_row_def)
  show "moves (\<lambda>a. 0) db (drop_if_unreferenced i db)"
    using del moves_refl [OF assms(1)] by (simp add: drop_if_unreferenced_def)
qed

lemma moves_set_st:
  assumes "stock_ok db" and "find_row st_id i (stock_items db) = Some s"
    and "st_id (h s) = st_id s" and "stock_row_ok (h s)" and "stock_row_key (h s) = stock_row_key s"
  shows "moves (\<lambda>a. st_worth a (h s) - st_worth a s) db (set_st i h db)"
  using same_key_effect [where h = h, OF assms] by (simp add: moves_def set_st_def)

text \<open>The units of one row poured into another of its product.\<close>

lemma pour_moves:
  assumes ok: "stock_ok db" and si: "find_row st_id (st_id si) (stock_items db) = Some si"
    and t: "find_row st_id (st_id t) (stock_items db) = Some t" and other: "st_id t \<noteq> st_id si"
    and product: "stock_combo t = stock_combo si"
  shows "moves (\<lambda>a. 0) db (pour si t db)"
    and "find_row st_id (st_id si) (stock_items (pour si t db)) = Some (si\<lparr>st_quantity := 0, st_deficient_quantity := 0\<rparr>)"
proof -
  let ?g = "\<lambda>r. r\<lparr>st_quantity := st_quantity r + st_quantity si, st_deficient_quantity := st_deficient_quantity r + st_deficient_quantity si\<rparr>"
  let ?z = "\<lambda>r. r\<lparr>st_quantity := 0, st_deficient_quantity := 0\<rparr>"
  let ?db1 = "set_st (st_id t) ?g db"
  have rows: "stock_row_ok si" "stock_row_ok t" using stock_facts(2) [OF ok] si t by simp_all
  have one: "moves (\<lambda>a. st_worth a (?g t) - st_worth a t) db ?db1"
    by (rule moves_set_st [OF ok t]) (use rows in \<open>simp_all add: stock_row_ok_def stock_row_key_def\<close>)
  have si1: "find_row st_id (st_id si) (stock_items ?db1) = Some si"
    using si other by (simp add: set_st_def find_row_update)
  have two: "moves (\<lambda>a. st_worth a (?z si) - st_worth a si) ?db1 (set_st (st_id si) ?z ?db1)"
    by (rule moves_set_st [OF moves_ok [OF one] si1]) (simp_all add: stock_row_ok_def stock_row_key_def)
  show "moves (\<lambda>a. 0) db (pour si t db)"
    unfolding pour_def
    by (rule moves_cong [OF moves_trans [OF one two]])
      (use product in \<open>simp add: st_worth_def worth_def stock_combo_def algebra_simps\<close>)
  show "find_row st_id (st_id si) (stock_items (pour si t db)) = Some (si\<lparr>st_quantity := 0, st_deficient_quantity := 0\<rparr>)"
    using si1 unfolding pour_def by (simp add: set_st_def find_row_update)
qed

lemma log_shelf_moves [simp]: "moves d db (log_stock_shelf_event si t act who detail db') = moves d db db'"
  by (simp add: log_stock_shelf_event_def Let_def split: option.split)

lemma shelve_moves:
  assumes ok: "stock_ok db" and si: "find_row st_id i (stock_items db) = Some si" and s: "shelf_canonical s"
  shows "moves (\<lambda>a. 0) db (snd (shelve si s act who detail db))"
proof -
  note row = stock_facts [OF ok si]
  have canon: "canonical_key (key_on s si) = key_on s si" by (rule key_on_canonical [OF row(3) s])
  show ?thesis
  proof (cases "fold_into_same_key_row si s db")
    case None
    then have free: "find_stock_row db (key_on s si) = None \<or> (\<exists>t. find_stock_row db (key_on s si) = Some t \<and> st_id t = i)"
      using row(1) by (auto simp: fold_into_same_key_row_def split: option.splits if_splits)
    have "moves (\<lambda>a. st_worth a (put_on s si) - st_worth a si) db (set_st i (put_on s) db)"
      by (rule moves_rekey [OF ok si _ _ _ canon _ free]) (simp_all add: put_on_def key_on_def)
    moreover have "st_worth a (put_on s si) = st_worth a si" for a
      by (simp add: st_worth_def put_on_def stock_combo_def)
    ultimately show ?thesis using None row(1) by (simp add: shelve_def)
  next
    case (Some r)
    then obtain t where t: "find_stock_row db (key_on s si) = Some t" "st_id t \<noteq> st_id si"
      and r: "r = (t, drop_if_unreferenced (st_id si) (pour si t db))"
      by (auto simp: fold_into_same_key_row_def split: option.splits if_splits)
    have mem: "t \<in> set (stock_items db)" "stock_row_key t = key_on s si"
      using find_stock_row_Some [OF t(1)] canon by simp_all
    have dist: "distinct (map st_id (stock_items db))" using ok by (simp add: stock_ok_defs)
    have found: "find_row st_id (st_id t) (stock_items db) = Some t" using mem dist by (simp add: find_row_eq_Some)
    have "stock_combo t = stock_combo si"
      using arg_cong [OF mem(2), of pool_key.key_product] by (simp add: key_on_def stock_row_key_def put_on_def stock_combo_def)
    note poured = pour_moves [OF ok si [folded row(1)] found t(2) this]
    have "moves (\<lambda>a. 0) (pour si t db) (drop_if_unreferenced (st_id si) (pour si t db))"
      by (rule moves_delete(2) [OF moves_ok [OF poured(1)] poured(2)]) simp_all
    from moves_trans [OF poured(1) this] show ?thesis using Some by (simp add: shelve_def r)
  qed
qed

lemma shelf_ops_moves:
  "move_stock_location i x y z who db = Inr (j, db') \<Longrightarrow> stock_ok db \<Longrightarrow> moves (\<lambda>a. 0) db db'"
  "mark_stock_item_unlocated i who db = Inr (j, db') \<Longrightarrow> stock_ok db \<Longrightarrow> moves (\<lambda>a. 0) db db'"
  "assign_stock_item_location i x y z who db = Inr (j, db') \<Longrightarrow> stock_ok db \<Longrightarrow> moves (\<lambda>a. 0) db db'"
proof -
  have via: "moves (\<lambda>a. 0) db db'" if "shelve si s act who d db = (j, db')" "stock_ok db"
    "find_row st_id i (stock_items db) = Some si" "shelf_canonical s" for si s act d
    using shelve_moves [OF that(2-4), of act who d] that(1) by simp
  have "shelf_canonical (None, None, None)" by (simp add: shelf_canonical_def)
  with via show "mark_stock_item_unlocated i who db = Inr (j, db') \<Longrightarrow> stock_ok db \<Longrightarrow> moves (\<lambda>a. 0) db db'"
    by (auto simp: mark_stock_item_unlocated_def bindr_eq_Inr ensure_eq_Inr lock_Inr)
  show "move_stock_location i x y z who db = Inr (j, db') \<Longrightarrow> stock_ok db \<Longrightarrow> moves (\<lambda>a. 0) db db'"
    by (auto simp: move_stock_location_def bindr_eq_Inr ensure_eq_Inr lock_Inr Let_def intro: via shelf_of_labels_canonical)
  show "assign_stock_item_location i x y z who db = Inr (j, db') \<Longrightarrow> stock_ok db \<Longrightarrow> moves (\<lambda>a. 0) db db'"
    by (auto simp: assign_stock_item_location_def bindr_eq_Inr ensure_eq_Inr lock_Inr Let_def intro: via shelf_of_labels_canonical)
qed

lemma merge_stock_moves:
  "stock_ok db \<Longrightarrow> shelf_canonical t \<Longrightarrow> moves (\<lambda>a. 0) db (merge_stock_rows w s t who is db)"
proof (induction "is" arbitrary: db)
  case Nil
  then show ?case by (simp add: moves_refl)
next
  case (Cons i "is")
  let ?db1 = "case find_row st_id i (stock_items db) of None \<Rightarrow> db | Some si \<Rightarrow> snd (shelve si t MOVE who (merge_detail w s t) db)"
  have one: "moves (\<lambda>a. 0) db ?db1"
    using moves_refl [OF Cons.prems(1)] shelve_moves [OF Cons.prems(1) _ Cons.prems(2)] by (auto split: option.split)
  from moves_trans [OF one Cons.IH [OF moves_ok [OF one] Cons.prems(2)]] show ?case by simp
qed

lemma merge_moves:
  assumes "merge_locations w s x y z who db = Inr (n, db')" and "stock_ok db"
  shows "moves (\<lambda>a. 0) db db'"
proof -
  obtain t where t: "normalize_and_validate_location_fields x y z = Inr t"
    and db': "db' = merge_stock_rows w s t who
        (map st_id (filter (merge_st w s) (stock_items (merge_inventory_rows w s t who (filter (merge_il w s) (inventory_locations db)) db))))
        (merge_inventory_rows w s t who (filter (merge_il w s) (inventory_locations db)) db)"
    using assms(1) by (auto simp: merge_locations_def bindr_eq_Inr ensure_eq_Inr Let_def)
  have one: "moves (\<lambda>a. 0) db (merge_inventory_rows w s t who (filter (merge_il w s) (inventory_locations db)) db)"
    by (rule merge_il_moves [OF assms(2)]) auto
  from moves_trans [OF one merge_stock_moves [OF moves_ok [OF one] normalize_and_validate_canonical [OF t]]]
  show ?thesis by (simp add: db')
qed

lemma free_row: "stock_row_ok s \<Longrightarrow> q \<le> st_free s \<Longrightarrow> st_deficient_quantity s \<le> st_quantity s - q"
  by (simp add: st_free_def)

lemma key_as_settled [simp]: "price_settled (key_as c si)" "price_settled (key_of_kind k si)" "price_settled (key_at w s si)"
    "price_settled (key_on s si)" "price_settled (pool_key_of w c s k cost cur)"
  by (simp_all add: price_settled_exactly [where c = "st_unit_cost si"] price_settled_exactly [where c = cost]
      key_as_def key_of_kind_def key_at_def key_on_def stock_row_key_def put_on_def pool_key_of_def)

lemma key_products [simp]: "pool_key.key_product (key_as c si) = c" "pool_key.key_product (key_of_kind k si) = stock_combo si"
    "pool_key.key_product (key_at w s si) = stock_combo si" "pool_key.key_product (pool_key_of w c s k cost cur) = c"
  by (simp_all add: key_as_def key_of_kind_def key_at_def key_on_def stock_row_key_def put_on_def stock_combo_def pool_key_of_def)

lemma canonical_keys: "canonical_row si \<Longrightarrow> canonical_key (key_as c si) = key_as c si"
    "canonical_row si \<Longrightarrow> canonical_key (key_of_kind k si) = key_of_kind k si"
  by (simp_all add: canonical_row_def key_as_def key_of_kind_def canonical_key_def stock_row_key_def)

text \<open>Units of one pool row given to the row of another key.\<close>

lemma hand_over_moves:
  assumes ok: "stock_ok db" and si: "find_row st_id i (stock_items db) = Some si" and q: "0 \<le> q" "q \<le> st_free si"
    and run: "find_or_create_stock_row t k (add_st_units i (- q) db) = (new, db1)" and settled: "price_settled k"
  shows "moves (\<lambda>a. (fst (a None (pool_key.key_product k)) - fst (a None (stock_combo si))) * q) db (add_st_units (st_id new) q db1)"
proof -
  have row: "stock_row_ok si" using stock_facts(2) [OF ok si] .
  have one: "moves (\<lambda>a. fst (a None (stock_combo si)) * - q) db (add_st_units i (- q) db)"
    by (rule moves_add_units [OF ok si]) (use free_row [OF row q(2)] in simp)
  note made = find_or_create_ok [OF run moves_ok [OF one] settled]
  have two: "moves (\<lambda>a. 0) (add_st_units i (- q) db) db1" by (rule moves_find_or_create [OF run moves_ok [OF one] settled])
  have "stock_row_ok new" using stock_facts(2) [OF made(1,3)] .
  then have three: "moves (\<lambda>a. fst (a None (stock_combo new)) * q) db1 (add_st_units (st_id new) q db1)"
    by (intro moves_add_units [OF made(1,3)]) (use q(1) in \<open>simp add: stock_row_ok_def\<close>)
  show ?thesis
    by (rule moves_cong [OF moves_trans [OF moves_trans [OF one two] three]]) (simp add: made(5) algebra_simps)
qed

text \<open>A row's units, all sound, given to another row, and the row with them gone.\<close>

lemma fold_reclassified_moves:
  assumes ok: "stock_ok db" and si: "find_row st_id i (stock_items db) = Some si" and none: "st_deficient_quantity si = 0"
    and t: "find_row st_id (st_id t) (stock_items db) = Some t" "st_id t \<noteq> i" "stock_combo t = c"
  shows "moves (\<lambda>a. (fst (a None c) - fst (a None (stock_combo si))) * st_quantity si) db
    (snd (fold_reclassified_row si t c why who db))"
proof -
  note row = stock_facts [OF ok si]
  let ?q = "st_quantity si"
  let ?z = "\<lambda>s. s\<lparr>st_quantity := 0\<rparr>"
  let ?db1 = "add_st_units (st_id t) ?q db"
  have one: "moves (\<lambda>a. fst (a None c) * ?q) db ?db1"
    using moves_add_units [OF ok t(1), of ?q] stock_facts(2) [OF ok t(1)] row(2) t(3) by (simp add: stock_row_ok_def)
  have si1: "find_row st_id i (stock_items ?db1) = Some si" using si t(2) by simp
  have two: "moves (\<lambda>a. st_worth a (?z si) - st_worth a si) ?db1 (set_st i ?z ?db1)"
    by (rule moves_set_st [OF moves_ok [OF one] si1]) (simp_all add: stock_row_ok_def none stock_row_key_def)
  have both: "moves (\<lambda>a. (fst (a None c) - fst (a None (stock_combo si))) * ?q) db (set_st i ?z ?db1)"
    by (rule moves_cong [OF moves_trans [OF one two]]) (simp add: st_worth_def worth_def stock_combo_def none algebra_simps)
  let ?logged = "\<lambda>detail. log_st (st_id t) RECLASSIFY who detail (log_st i RECLASSIFY who detail (set_st i ?z ?db1))"
  have empty: "find_row st_id i (stock_items (?logged detail)) = Some (?z si)" for detail
    using si t(2) by (simp add: set_st_def [of _ ?z] find_row_update)
  have "moves (\<lambda>a. (fst (a None c) - fst (a None (stock_combo si))) * ?q) db (delete_stock_row i (?logged detail))" for detail
    using moves_trans [OF _ moves_delete(1) [OF _ empty]] both moves_ok [OF both] none by simp
  then show ?thesis using both row(1) by (auto simp: fold_reclassified_row_def Let_def)
qed

lemma reclassify_moves:
  assumes "reclassify_stock_item now i c q why who expected db = Inr (r, db')" and ok: "stock_ok db"
    and si: "find_row st_id i (stock_items db) = Some si"
  shows "moves (\<lambda>a. (fst (a None c) - fst (a None (stock_combo si))) * q) db db'"
proof -
  note row = stock_facts [OF ok si]
  have q: "1 \<le> q" "q \<le> st_free si"
    using assms(1) si by (auto simp: reclassify_stock_item_def bindr_eq_Inr ensure_eq_Inr lock_Inr)
  show ?thesis
  proof (cases "q = st_quantity si")
    case all: True
    then have none: "st_deficient_quantity si = 0" using q row(2) by (simp add: st_free_def stock_row_ok_def)
    let ?h = "\<lambda>s. s\<lparr>st_hardware_category := fst c, st_product_code := snd c\<rparr>"
    have worth: "st_worth a (?h si) - st_worth a si = (fst (a None c) - fst (a None (stock_combo si))) * q" for a
      using none all by (simp add: st_worth_def worth_def stock_combo_def algebra_simps)
    show ?thesis
    proof (cases "find_stock_row db (key_as c si) = None \<or> (\<exists>t. find_stock_row db (key_as c si) = Some t \<and> st_id t = i)")
      case True
      have "moves (\<lambda>a. (fst (a None c) - fst (a None (stock_combo si))) * q) db (set_st i ?h db)"
        using moves_rekey [where h = ?h, OF ok si _ _ _ canonical_keys(1) [OF row(3)] _ True]
        by (simp add: worth key_as_def stock_row_key_def)
      then show ?thesis using assms(1) si all True
        by (auto simp: reclassify_stock_item_def bindr_eq_Inr ensure_eq_Inr lock_Inr)
    next
      case False
      then obtain t where t: "find_stock_row db (key_as c si) = Some t" "st_id t \<noteq> i" by auto
      have mem: "t \<in> set (stock_items db)" "stock_row_key t = key_as c si"
        using find_stock_row_Some [OF t(1)] canonical_keys(1) [OF row(3)] by simp_all
      have found: "find_row st_id (st_id t) (stock_items db) = Some t"
        using mem(1) ok by (simp add: find_row_eq_Some stock_ok_defs)
      have product: "stock_combo t = c"
        using arg_cong [OF mem(2), of pool_key.key_product] by (simp add: stock_row_key_def stock_combo_def)
      have "db' = snd (fold_reclassified_row si t c why who db)"
        using assms(1) si all t by (auto simp: reclassify_stock_item_def bindr_eq_Inr ensure_eq_Inr lock_Inr)
      then show ?thesis using fold_reclassified_moves [OF ok si none found t(2) product] all by simp
    qed
  next
    case False
    obtain new db1 where made: "find_or_create_stock_row now (key_as c si) (add_st_units i (- q) db) = (new, db1)"
      by (cases "find_or_create_stock_row now (key_as c si) (add_st_units i (- q) db)")
    have "moves (\<lambda>a. (fst (a None c) - fst (a None (stock_combo si))) * q) db (add_st_units (st_id new) q db1)"
      using hand_over_moves [OF ok si _ q(2) made] q(1) by simp
    then show ?thesis
      using assms(1) si False made
      by (auto simp: reclassify_stock_item_def bindr_eq_Inr ensure_eq_Inr lock_Inr Let_def)
  qed
qed

lemma kind_moves:
  assumes "set_stock_item_kind i k q who expected db = Inr (r, db')" and ok: "stock_ok db"
  shows "moves (\<lambda>a. 0) db db'"
proof -
  obtain si where si: "find_row st_id i (stock_items db) = Some si" and q: "1 \<le> q" "q \<le> st_free si"
    and run: "set_stock_item_kind i k q who expected db = Inr (r, db')"
    using assms(1) by (auto simp: set_stock_item_kind_def bindr_eq_Inr ensure_eq_Inr lock_Inr)
  note row = stock_facts [OF ok si]
  show ?thesis
  proof (cases "find_stock_row db (key_of_kind k si) = None \<and> q = st_quantity si")
    case True
    let ?h = "\<lambda>s. s\<lparr>st_kind := k\<rparr>"
    have "moves (\<lambda>a. st_worth a (?h si) - st_worth a si) db (set_st i ?h db)"
      by (rule moves_rekey [where h = ?h, OF ok si _ _ _ canonical_keys(2) [OF row(3)] _ disjI1 [OF conjunct1 [OF True]]])
        (simp_all add: key_of_kind_def stock_row_key_def)
    then show ?thesis
      using run si True by (auto simp: set_stock_item_kind_def bindr_eq_Inr ensure_eq_Inr lock_Inr st_worth_def stock_combo_def)
  next
    case False
    obtain t db1 where made: "find_or_create_stock_row (st_received_at si) (key_of_kind k si) db = (t, db1)"
      by (cases "find_or_create_stock_row (st_received_at si) (key_of_kind k si) db")
    note found = find_or_create_ok [OF made ok key_as_settled(2)]
    have zero: "moves (\<lambda>a. 0) db db1" by (rule moves_find_or_create [OF made ok key_as_settled(2)])
    have si1: "find_row st_id i (stock_items db1) = Some si" by (rule found(6) [OF si])
    have one: "moves (\<lambda>a. fst (a None (stock_combo si)) * - q) db1 (add_st_units i (- q) db1)"
      by (rule moves_add_units [OF found(1) si1]) (use free_row [OF row(2) q(2)] in simp)
    have two: "moves (\<lambda>a. fst (a None (stock_combo si)) * q) (add_st_units i (- q) db1)
        (add_st_units (st_id t) q (add_st_units i (- q) db1))"
    proof -
      let ?t = "if st_id t = i then t\<lparr>st_quantity := st_quantity t + - q\<rparr> else t"
      have t1: "find_row st_id (st_id t) (stock_items (add_st_units i (- q) db1)) = Some ?t" using found(3) by simp
      have "stock_row_ok ?t" by (rule stock_facts(2) [OF moves_ok [OF one] t1])
      then have "moves (\<lambda>a. fst (a None (stock_combo ?t)) * q) (add_st_units i (- q) db1)
          (add_st_units (st_id t) q (add_st_units i (- q) db1))"
        by (intro moves_add_units [OF moves_ok [OF one] t1]) (use q(1) in \<open>simp add: stock_row_ok_def\<close>)
      moreover have "stock_combo ?t = stock_combo si" using found(5) by (simp add: stock_combo_def)
      ultimately show ?thesis by simp
    qed
    have "moves (\<lambda>a. 0) db (add_st_units (st_id t) q (add_st_units i (- q) db1))"
      by (rule moves_cong [OF moves_trans [OF moves_trans [OF zero one] two]]) simp
    then show ?thesis
      using run si False made by (auto simp: set_stock_item_kind_def bindr_eq_Inr ensure_eq_Inr lock_Inr Let_def)
  qed
qed

subsection \<open>Between the shelves and the pool\<close>

text \<open>Units into the pool row of a key.\<close>

lemma land_moves:
  assumes run: "find_or_create_stock_row t k db = (s, db1)" and ok: "stock_ok db" and settled: "price_settled k"
    and qd: "0 \<le> d" "d \<le> q"
  shows "moves (\<lambda>a. worth a None (pool_key.key_product k) q d) db
    (set_st (st_id s) (\<lambda>r. r\<lparr>st_quantity := st_quantity r + q, st_deficient_quantity := st_deficient_quantity r + d\<rparr>) db1)"
proof -
  note made = find_or_create_ok [OF run ok settled]
  let ?h = "\<lambda>r. r\<lparr>st_quantity := st_quantity r + q, st_deficient_quantity := st_deficient_quantity r + d\<rparr>"
  have "stock_row_ok s" by (rule stock_facts(2) [OF made(1,3)])
  then have "moves (\<lambda>a. st_worth a (?h s) - st_worth a s) db1 (set_st (st_id s) ?h db1)"
    by (intro moves_set_st [where h = ?h, OF made(1,3)]) (use qd in \<open>simp_all add: stock_row_ok_def stock_row_key_def\<close>)
  from moves_trans [OF moves_find_or_create [OF run ok settled] this] show ?thesis
    by (rule moves_cong) (simp add: made(5) [symmetric] st_worth_def worth_def stock_combo_def algebra_simps)
qed

lemma destock_moves:
  assumes "destock_inventory now i q source why target who cost expected db = Inr (j, db')" and ok: "stock_ok db"
    and il: "find_row il_id i (inventory_locations db) = Some il"
  shows "moves (\<lambda>a. fst (a None (il_combo il)) * q - worth a (Some (il_project_id il)) (il_combo il) q
    (if source = DEFICIENT_SWAP then q else 0)) db db'"
proof -
  note row = row_facts [OF ok il]
  obtain pool_cost s where q: "1 \<le> q" and check: "check_destock db il q source = Inr ()"
    and shelf: "destock_shelf db il target = Inr s" and price: "destock_unit_cost db il cost = Inr pool_cost"
    using assms(1) il by (auto simp: destock_inventory_def bindr_eq_Inr ensure_eq_Inr lock_Inr)
  let ?k = "pool_key_of (il_warehouse_id il) (il_combo il) s STOCK pool_cost (destock_cost_currency db il cost)"
  let ?h = "\<lambda>r. r\<lparr>il_quantity := il_quantity r - q, il_deficient_quantity := (if source = DEFICIENT_SWAP
    then max 0 (il_deficient_quantity r - q) else il_deficient_quantity r)\<rparr>"
  obtain st db1 where made: "find_or_create_stock_row now ?k db = (st, db1)" by (cases "find_or_create_stock_row now ?k db")
  note found = find_or_create_ok [OF made ok key_as_settled(5)]
  have zero: "moves (\<lambda>a. 0) db db1" by (rule moves_find_or_create [OF made ok key_as_settled(5)])
  have il1: "find_row il_id i (inventory_locations db1) = Some il" using il found(4) by simp
  have room: "if source = DEFICIENT_SWAP then q \<le> il_deficient_quantity il else q \<le> il_free il"
    using check by (simp add: check_destock_def Let_def ensure_eq_Inr split: if_splits)
  have "inventory_row_ok (?h il)" using room row(2) q by (auto simp: inventory_row_ok_def il_free_def split: if_splits)
  moreover have "has_origin (?h il)" using row(3) by (simp add: has_origin_def)
  ultimately have one: "moves (\<lambda>a. il_worth a (?h il) - il_worth a il) db1 (set_il i ?h db1)"
    by (intro moves_set_il [where h = ?h, OF found(1) il1]) simp_all
  have st1: "find_row st_id (st_id st) (stock_items (set_il i ?h db1)) = Some st" using found(3) by simp
  have "stock_row_ok st" by (rule stock_facts(2) [OF found(1,3)])
  then have two: "moves (\<lambda>a. fst (a None (stock_combo st)) * q) (set_il i ?h db1) (add_st_units (st_id st) q (set_il i ?h db1))"
    by (intro moves_add_units [OF moves_ok [OF one] st1]) (use q in \<open>simp add: stock_row_ok_def\<close>)
  have worth: "il_worth a (?h il) - il_worth a il = - worth a (Some (il_project_id il)) (il_combo il) q (if source = DEFICIENT_SWAP then q else 0)" for a
    using room by (simp add: il_worth_def worth_def il_combo_def max_def algebra_simps)
  have "moves (\<lambda>a. fst (a None (il_combo il)) * q - worth a (Some (il_project_id il)) (il_combo il) q
      (if source = DEFICIENT_SWAP then q else 0)) db (add_st_units (st_id st) q (set_il i ?h db1))"
    by (rule moves_cong [OF moves_trans [OF moves_trans [OF zero one] two]]) (simp only: worth, simp add: found(5))
  then show ?thesis
    using assms(1) il made shelf price by (auto simp: destock_inventory_def bindr_eq_Inr ensure_eq_Inr lock_Inr Let_def)
qed

lemma allocate_moves:
  assumes "allocate_stock_to_project now i p c q target who src expected db = Inr (j, db')" and ok: "stock_ok db"
    and si: "find_row st_id i (stock_items db) = Some si"
  shows "moves (\<lambda>a. fst (a (Some p) c) * q - fst (a None (stock_combo si)) * q) db db'"
proof -
  note row = stock_facts [OF ok si]
  obtain s where q: "1 \<le> q" "q \<le> st_free si"
    and target: "normalize_optional_location_fields target = Inr s"
    using assms(1) si by (auto simp: allocate_stock_to_project_def bindr_eq_Inr ensure_eq_Inr lock_Inr Let_def split: option.splits)
  let ?row = "allocated_row (next_id db) now p c si src q s"
  have new: "il_id ?row = next_id db" "inventory_row_ok ?row" "has_origin ?row" "il_worth a ?row = fst (a (Some p) c) * q" for a
    using q by (simp_all add: allocated_row_def inventory_row_ok_def has_origin_def il_worth_def il_combo_def worth_def)
  have one: "moves (\<lambda>a. il_worth a ?row) db (add_il ?row (db\<lparr>next_id := Suc (next_id db)\<rparr>))"
    by (rule moves_add_il [OF ok new(1-3)])
  have two: "moves (\<lambda>a. fst (a None (stock_combo si)) * - q) (add_il ?row (db\<lparr>next_id := Suc (next_id db)\<rparr>))
      (add_st_units i (- q) (add_il ?row (db\<lparr>next_id := Suc (next_id db)\<rparr>)))"
    by (rule moves_add_units [OF moves_ok [OF one]]) (use si free_row [OF row(2) q(2)] in simp_all)
  have "moves (\<lambda>a. fst (a (Some p) c) * q - fst (a None (stock_combo si)) * q) db
      (add_st_units i (- q) (add_il ?row (db\<lparr>next_id := Suc (next_id db)\<rparr>)))"
    by (rule moves_cong [OF moves_trans [OF one two]]) (simp add: new(4))
  then show ?thesis
    using assms(1) si target
    by (auto simp: allocate_stock_to_project_def bindr_eq_Inr ensure_eq_Inr lock_Inr fresh_def Let_def split: option.splits)
qed

lemma receive_moves:
  assumes "receive_into_stock now w c q d s who po cost kind company cur db = Inr (j, db')" and ok: "stock_ok db"
    and settled: "map_option pool_unit_cost cost = map_option column_cost cost"
  shows "moves (\<lambda>a. worth a None c q d) db db'"
proof -
  obtain wh where qd: "1 \<le> q" "0 \<le> d" "d \<le> q" and wh: "receiving_warehouse db w company = Inr wh"
    using assms(1) by (auto simp: receive_into_stock_def bindr_eq_Inr ensure_eq_Inr)
  let ?k = "\<lparr>key_warehouse = wh, key_product = c, key_aisle = fst s, key_row = fst (snd s), key_bay = snd (snd s),
            key_kind = kind, key_unit_cost = cost, key_cost_currency = cur\<rparr>"
  have k: "price_settled ?k" "pool_key.key_product ?k = c" using settled by (simp_all add: price_settled_def)
  obtain st db1 where made: "find_or_create_stock_row now ?k db = (st, db1)" by (cases "find_or_create_stock_row now ?k db")
  from land_moves [OF made ok k(1) qd(2,3)] show ?thesis
    using assms(1) wh made by (auto simp: receive_into_stock_def bindr_eq_Inr ensure_eq_Inr Let_def k(2))
qed

lemma transfer_pool_moves:
  assumes "transfer_pool_row i q w s who expected db = Inr db'" and ok: "stock_ok db" and q: "1 \<le> q"
  shows "moves (\<lambda>a. 0) db db'"
proof -
  obtain si where si: "find_row st_id i (stock_items db) = Some si" and free: "q \<le> st_free si"
    and run: "transfer_pool_row i q w s who expected db = Inr db'"
    using assms(1) by (auto simp: transfer_pool_row_def bindr_eq_Inr ensure_eq_Inr lock_Inr)
  obtain t db1 where made: "find_or_create_stock_row (st_received_at si) (key_at w s si) (add_st_units i (- q) db) = (t, db1)"
    by (cases "find_or_create_stock_row (st_received_at si) (key_at w s si) (add_st_units i (- q) db)")
  have "moves (\<lambda>a. 0) db (add_st_units (st_id t) q db1)"
    using hand_over_moves [OF ok si _ free made key_as_settled(3)] q by simp
  then show ?thesis
    using run si made by (auto simp: transfer_pool_row_def bindr_eq_Inr ensure_eq_Inr lock_Inr Let_def)
qed

lemma transfer_il_moves:
  assumes "transfer_project_row i q w s who expected db = Inr db'" and ok: "stock_ok db" and q: "1 \<le> q"
  shows "moves (\<lambda>a. 0) db db'"
proof -
  obtain il where il: "find_row il_id i (inventory_locations db) = Some il" and free: "q \<le> il_free il"
    and run: "transfer_project_row i q w s who expected db = Inr db'"
    using assms(1) by (auto simp: transfer_project_row_def bindr_eq_Inr ensure_eq_Inr lock_Inr Let_def split_beta)
  note row = row_facts [OF ok il]
  let ?h = "\<lambda>r. r\<lparr>il_quantity := il_quantity r - q\<rparr>"
  let ?db1 = "set_il i ?h db"
  have "inventory_row_ok (?h il)" "has_origin (?h il)"
    using row free q by (auto simp: inventory_row_ok_def il_free_def has_origin_def)
  then have one: "moves (\<lambda>a. il_worth a (?h il) - il_worth a il) db ?db1"
    by (intro moves_set_il [where h = ?h, OF ok il]) simp_all
  show ?thesis
  proof (cases "find_matching_inventory_location ?db1 il w s")
    case None
    let ?new = "derived_row il (next_id db) w q s (il_received_at il)"
    have two: "moves (\<lambda>a. il_worth a ?new) ?db1 (add_il ?new (?db1\<lparr>next_id := Suc (next_id ?db1)\<rparr>))"
      using moves_ok [OF one] row q by (intro moves_add_il) simp_all
    have "moves (\<lambda>a. 0) db (add_il ?new (?db1\<lparr>next_id := Suc (next_id ?db1)\<rparr>))"
      by (rule moves_cong [OF moves_trans [OF one two]]) (simp add: worth_less_units)
    then show ?thesis
      using run il None by (auto simp: transfer_project_row_def bindr_eq_Inr ensure_eq_Inr lock_Inr fresh_def Let_def)
  next
    case (Some t)
    have mem: "t \<in> set (inventory_locations ?db1)" and t: "il_id t \<noteq> il_id il" "same_origin t il"
      using Some by (auto simp: find_matching_inventory_location_def find_Some_iff)
    have t1: "find_row il_id (il_id t) (inventory_locations ?db1) = Some t"
      using mem moves_ok [OF one] by (simp add: find_row_eq_Some stock_ok_defs)
    let ?g = "\<lambda>r. r\<lparr>il_quantity := il_quantity r + q,
               il_unit_cost := (if il_unit_cost il \<noteq> None \<and> il_unit_cost r = None then il_unit_cost il else il_unit_cost r),
               il_cost_currency := (if il_unit_cost il \<noteq> None \<and> il_unit_cost r = None then il_cost_currency il
                 else il_cost_currency r)\<rparr>"
    have "inventory_row_ok (?g t)" "has_origin (?g t)"
      using row_facts [OF moves_ok [OF one] t1] q by (auto simp: inventory_row_ok_def has_origin_def)
    then have two: "moves (\<lambda>a. il_worth a (?g t) - il_worth a t) ?db1 (set_il (il_id t) ?g ?db1)"
      by (intro moves_set_il [where h = ?g, OF moves_ok [OF one] t1]) simp_all
    have worth: "il_worth a (?g t) - il_worth a t = fst (a (Some (il_project_id il)) (il_combo il)) * q" for a
    proof -
      have "il_project_id t = il_project_id il" "il_combo t = il_combo il" using t(2) by (simp_all add: same_origin_def)
      moreover have "il_combo (?g t) = il_combo t" by (simp add: il_combo_def)
      ultimately show ?thesis by (simp add: il_worth_def worth_def algebra_simps)
    qed
    have "moves (\<lambda>a. 0) db (set_il (il_id t) ?g ?db1)"
    proof (rule moves_cong [OF moves_trans [OF one two]])
      fix a
      show "il_worth a (?h il) - il_worth a il + (il_worth a (?g t) - il_worth a t) = 0"
        using worth [of a] worth_less_units [of a il q] by linarith
    qed
    then show ?thesis
      using run il Some by (auto simp: transfer_project_row_def bindr_eq_Inr ensure_eq_Inr lock_Inr Let_def)
  qed
qed

lemma transfer_moves:
  assumes "transfer_inventory kind i q w dest who expected db = Inr db'" and "stock_ok db"
  shows "moves (\<lambda>a. 0) db db'"
  using assms transfer_il_moves transfer_pool_moves
  by (auto simp: transfer_inventory_def bindr_eq_Inr ensure_eq_Inr split: if_splits)

subsection \<open>Condemned units and counts\<close>

lemma stock_ok_bump: "stock_ok db \<Longrightarrow> next_id db \<le> n \<Longrightarrow> stock_ok (db\<lparr>next_id := n\<rparr>)"
  using less_le_trans by (fastforce simp: stock_ok_defs list_all_iff)

text \<open>Notices and reviews are no part of the floor.\<close>

lemma note_moves:
  assumes "create_notification now p role ty pull user slip db1 = Inr db'" and "moves d db db1"
  shows "moves d db db'"
proof -
  obtain n where db': "db' = db1\<lparr>next_id := Suc (next_id db1), notifications := notifications db1 @ [n]\<rparr>"
    using create_notification_eq [OF assms(1)] by blast
  have "stock_ok (db1\<lparr>next_id := Suc (next_id db1)\<rparr>)" by (rule stock_ok_bump [OF moves_ok [OF assms(2)]]) simp
  then show ?thesis using assms(2) by (simp add: db' moves_def weigh_def stock_ok_defs)
qed

lemma notify_holders_moves: "notify_holders now p hs db1 = Inr db' \<Longrightarrow> moves d db db1 \<Longrightarrow> moves d db db'"
  by (induction hs arbitrary: db1) (auto simp: bindr_eq_Inr intro: note_moves)

lemma flag_moves: "flag_stranded_holders now il db1 = Inr db' \<Longrightarrow> moves d db db1 \<Longrightarrow> moves d db db'"
  by (simp add: flag_stranded_holders_def notify_holders_moves)

lemma review_moves: "moves d db db1 \<Longrightarrow> moves d db (add_review dr (db1\<lparr>next_id := Suc (next_id db1)\<rparr>))"
  using stock_ok_bump [of db1 "Suc (next_id db1)"] by (auto simp: moves_def add_review_def weigh_def stock_ok_defs)

lemma report_il_moves:
  assumes "report_inventory_deficiency i q why who expected db = Inr db'" and ok: "stock_ok db"
    and il: "find_row il_id i (inventory_locations db) = Some il"
  shows "moves (\<lambda>a. snd (a (Some (il_project_id il)) (il_combo il)) * q) db db'"
proof -
  note row = row_facts [OF ok il]
  have q: "1 \<le> q" "il_deficient_quantity il + q \<le> il_quantity il"
    using assms(1) il by (auto simp: report_inventory_deficiency_def bindr_eq_Inr ensure_eq_Inr lock_Inr Let_def)
  let ?h = "\<lambda>r. r\<lparr>il_deficient_quantity := il_deficient_quantity il + q\<rparr>"
  have "inventory_row_ok (?h il)" "has_origin (?h il)" using row q by (auto simp: inventory_row_ok_def has_origin_def)
  then have "moves (\<lambda>a. il_worth a (?h il) - il_worth a il) db (set_il i ?h db)"
    by (intro moves_set_il [where h = ?h, OF ok il]) simp_all
  moreover have "il_worth a (?h il) - il_worth a il = snd (a (Some (il_project_id il)) (il_combo il)) * q" for a
    by (simp add: il_worth_def il_combo_def worth_def algebra_simps)
  ultimately show ?thesis
    using assms(1) il by (auto simp: report_inventory_deficiency_def bindr_eq_Inr ensure_eq_Inr lock_Inr Let_def)
qed

lemma report_st_moves:
  assumes "report_stock_deficiency i q why who expected db = Inr db'" and ok: "stock_ok db"
    and si: "find_row st_id i (stock_items db) = Some si"
  shows "moves (\<lambda>a. snd (a None (stock_combo si)) * q) db db'"
proof -
  note row = stock_facts [OF ok si]
  have q: "1 \<le> q" "st_deficient_quantity si + q \<le> st_quantity si"
    using assms(1) si by (auto simp: report_stock_deficiency_def bindr_eq_Inr ensure_eq_Inr lock_Inr Let_def)
  let ?h = "\<lambda>r. r\<lparr>st_deficient_quantity := st_deficient_quantity si + q\<rparr>"
  have "moves (\<lambda>a. st_worth a (?h si) - st_worth a si) db (set_st i ?h db)"
    by (rule moves_set_st [where h = ?h, OF ok si]) (use row q in \<open>simp_all add: stock_row_ok_def stock_row_key_def\<close>)
  moreover have "st_worth a (?h si) - st_worth a si = snd (a None (stock_combo si)) * q" for a
    by (simp add: st_worth_def stock_combo_def worth_def algebra_simps)
  ultimately show ?thesis
    using assms(1) si by (auto simp: report_stock_deficiency_def bindr_eq_Inr ensure_eq_Inr lock_Inr Let_def)
qed

lemma adjust_moves:
  assumes "adjust_inventory_quantity now i n why who sc mgr conf expected db = Inr db'" and ok: "stock_ok db"
    and il: "find_row il_id i (inventory_locations db) = Some il"
  shows "moves (\<lambda>a. fst (a (Some (il_project_id il)) (il_combo il)) * n) db db'"
proof -
  note row = row_facts [OF ok il]
  let ?h = "\<lambda>r. r\<lparr>il_quantity := il_quantity il + n\<rparr>"
  have n: "0 \<le> il_quantity il + n" "il_deficient_quantity il \<le> il_quantity il + n"
    using assms(1) il by (auto simp: adjust_inventory_quantity_def bindr_eq_Inr ensure_eq_Inr lock_Inr Let_def)
  have "inventory_row_ok (?h il)" "has_origin (?h il)" using row n by (auto simp: inventory_row_ok_def has_origin_def)
  then have "moves (\<lambda>a. il_worth a (?h il) - il_worth a il) db (set_il i ?h db)"
    by (intro moves_set_il [where h = ?h, OF ok il]) simp_all
  moreover have "il_worth a (?h il) - il_worth a il = fst (a (Some (il_project_id il)) (il_combo il)) * n" for a
    by (simp add: il_worth_def il_combo_def worth_def algebra_simps)
  ultimately have "moves (\<lambda>a. fst (a (Some (il_project_id il)) (il_combo il)) * n) db (set_il i ?h db)" by simp
  then show ?thesis
    using assms(1) il
    by (auto simp: adjust_inventory_quantity_def bindr_eq_Inr ensure_eq_Inr lock_Inr Let_def split: if_splits
        intro: flag_moves)
qed

lemma adjust_st_moves:
  assumes "adjust_stock_quantity i n why who expected db = Inr db'" and ok: "stock_ok db"
    and si: "find_row st_id i (stock_items db) = Some si"
  shows "moves (\<lambda>a. fst (a None (stock_combo si)) * (n - st_quantity si)) db db'"
proof -
  note row = stock_facts [OF ok si]
  let ?h = "\<lambda>r. r\<lparr>st_quantity := n\<rparr>"
  have n: "st_deficient_quantity si \<le> n"
    using assms(1) si by (auto simp: adjust_stock_quantity_def bindr_eq_Inr ensure_eq_Inr lock_Inr)
  have "moves (\<lambda>a. st_worth a (?h si) - st_worth a si) db (set_st i ?h db)"
    by (rule moves_set_st [where h = ?h, OF ok si]) (use row n in \<open>simp_all add: stock_row_ok_def stock_row_key_def\<close>)
  moreover have "st_worth a (?h si) - st_worth a si = fst (a None (stock_combo si)) * (n - st_quantity si)" for a
    by (simp add: st_worth_def stock_combo_def worth_def algebra_simps)
  ultimately show ?thesis
    using assms(1) si by (auto simp: adjust_stock_quantity_def bindr_eq_Inr ensure_eq_Inr lock_Inr)
qed

text \<open>What a review does to the weight of a project's row and to the pool's.\<close>

definition settled_il :: "scale \<Rightarrow> inventory_location \<Rightarrow> deficiency_resolution \<Rightarrow> int \<Rightarrow> int" where
  "settled_il a il r q =
     (if r = SEND_TO_STOCK then worth a None (il_combo il) q q else 0) -
     worth a (Some (il_project_id il)) (il_combo il) (if leaves_row r then q else 0) (if clears_flag r then q else 0)"

definition settled_st :: "scale \<Rightarrow> stock_item \<Rightarrow> deficiency_resolution \<Rightarrow> int \<Rightarrow> int" where
  "settled_st a si r q =
     - worth a None (stock_combo si) (if r \<in> {SCRAP, RETURN_TO_VENDOR} then q else 0) (if clears_flag r then q else 0)"

lemma settle_il_moves:
  assumes ok: "stock_ok db" and il: "find_row il_id i (inventory_locations db) = Some il"
    and q: "1 \<le> q" "q \<le> il_deficient_quantity il"
  shows "moves (\<lambda>a. - worth a (Some (il_project_id il)) (il_combo il) (if leaves_row r then q else 0) (if clears_flag r then q else 0))
    db (set_il i (settle_il r q) db)"
proof -
  note row = row_facts [OF ok il]
  have "leaves_row r \<Longrightarrow> clears_flag r" by (auto simp: leaves_row_def clears_flag_def)
  then have "inventory_row_ok (settle_il r q il)" "has_origin (settle_il r q il)"
    using row q by (auto simp: inventory_row_ok_def has_origin_def settle_il_def)
  then have "moves (\<lambda>a. il_worth a (settle_il r q il) - il_worth a il) db (set_il i (settle_il r q) db)"
    by (intro moves_set_il [OF ok il]) (simp_all add: settle_il_def)
  moreover have "il_worth a (settle_il r q il) - il_worth a il =
      - worth a (Some (il_project_id il)) (il_combo il) (if leaves_row r then q else 0) (if clears_flag r then q else 0)" for a
    by (simp add: il_worth_def settle_il_def il_combo_def worth_def algebra_simps)
  ultimately show ?thesis by simp
qed

lemma resolve_il_moves:
  assumes "resolve_il now il r q cost db = Inr (out, db')" and ok: "stock_ok db"
    and il: "find_row il_id (il_id il) (inventory_locations db) = Some il"
    and q: "1 \<le> q" "q \<le> il_deficient_quantity il"
  shows "moves (\<lambda>a. settled_il a il r q) db db'"
proof -
  note one = settle_il_moves [OF ok il q, of r]
  show ?thesis
  proof (cases "r = SEND_TO_STOCK")
    case True
    obtain pc where pc: "destock_unit_cost db il cost = Inr pc"
      using assms(1) True by (auto simp: resolve_il_def bindr_eq_Inr)
    let ?k = "pool_key_of (il_warehouse_id il) (il_combo il) (il_shelf il) STOCK pc (destock_cost_currency db il cost)"
    let ?db1 = "set_il (il_id il) (settle_il r q) db"
    obtain st db2 where made: "find_or_create_stock_row now ?k ?db1 = (st, db2)" by (cases "find_or_create_stock_row now ?k ?db1")
    have two: "moves (\<lambda>a. worth a None (il_combo il) q q) ?db1
        (set_st (st_id st) (\<lambda>r. r\<lparr>st_quantity := st_quantity r + q, st_deficient_quantity := st_deficient_quantity r + q\<rparr>) db2)"
      using land_moves [OF made moves_ok [OF one] key_as_settled(5)] q by simp
    from moves_trans [OF one two] show ?thesis
      using assms(1) True pc made by (auto simp: resolve_il_def bindr_eq_Inr Let_def settled_il_def algebra_simps elim!: moves_cong)
  next
    case False
    then have "moves (\<lambda>a. settled_il a il r q) db (set_il (il_id il) (settle_il r q) db)"
      using one by (simp add: settled_il_def)
    then show ?thesis
      using assms(1) False by (auto simp: resolve_il_def bindr_eq_Inr tell_purchasing_of_return_def split: if_splits intro: note_moves)
  qed
qed

lemma resolve_il_Inr:
  assumes "resolve_deficiency now (Some i) None r q why rma src who cost expected db = Inr (j, db')"
  obtains il out db1 dr detail where "find_row il_id i (inventory_locations db) = Some il" "1 \<le> q"
    "q \<le> il_deficient_quantity il" "resolve_il now il r q cost db = Inr (out, db1)"
    "db' = log_il il RESOLVE_DEFICIENT who detail (add_review dr (db1\<lparr>next_id := Suc (next_id db1)\<rparr>))"
  using assms
  by (auto simp: resolve_deficiency_def check_review_def bindr_eq_Inr ensure_eq_Inr lock_Inr Let_def fresh_def split_beta)

lemma resolve_st_Inr:
  assumes "resolve_deficiency now None (Some i) r q why rma src who cost expected db = Inr (j, db')"
  obtains si dr detail where "find_row st_id i (stock_items db) = Some si" "1 \<le> q" "q \<le> st_deficient_quantity si"
    "db' = log_st i RESOLVE_DEFICIENT who detail (add_review dr ((set_st i (settle_st r q) db)\<lparr>next_id := Suc (next_id db)\<rparr>))"
  using assms
  by (auto simp: resolve_deficiency_def check_review_def bindr_eq_Inr ensure_eq_Inr lock_Inr Let_def fresh_def split_beta)

lemma resolve_target:
  assumes "resolve_deficiency now io so r q why rma src who cost expected db = Inr x"
  obtains i where "io = Some i" "so = None" | i where "io = None" "so = Some i"
  using assms by (cases io; cases so) (auto simp: resolve_deficiency_def check_review_def bindr_eq_Inr ensure_eq_Inr)

lemma resolve_project_moves:
  assumes "resolve_deficiency now (Some i) None r q why rma src who cost expected db = Inr (j, db')" and ok: "stock_ok db"
    and il: "find_row il_id i (inventory_locations db) = Some il"
  shows "moves (\<lambda>a. settled_il a il r q) db db'"
proof -
  obtain out db1 dr detail where q: "1 \<le> q" "q \<le> il_deficient_quantity il"
    and run: "resolve_il now il r q cost db = Inr (out, db1)"
    and db': "db' = log_il il RESOLVE_DEFICIENT who detail (add_review dr (db1\<lparr>next_id := Suc (next_id db1)\<rparr>))"
    using assms(1) il by (elim resolve_il_Inr) simp
  have "find_row il_id (il_id il) (inventory_locations db) = Some il" using il row_facts(1) [OF ok il] by simp
  from resolve_il_moves [OF run ok this q] show ?thesis by (simp add: db' review_moves)
qed

lemma resolve_pool_moves:
  assumes "resolve_deficiency now None (Some i) r q why rma src who cost expected db = Inr (j, db')" and ok: "stock_ok db"
    and si: "find_row st_id i (stock_items db) = Some si"
  shows "moves (\<lambda>a. settled_st a si r q) db db'"
proof -
  obtain dr detail where q: "1 \<le> q" "q \<le> st_deficient_quantity si"
    and db': "db' = log_st i RESOLVE_DEFICIENT who detail (add_review dr ((set_st i (settle_st r q) db)\<lparr>next_id := Suc (next_id db)\<rparr>))"
    using assms(1) si by (elim resolve_st_Inr) simp
  have "stock_row_ok (settle_st r q si)"
    using stock_facts(2) [OF ok si] q by (auto simp: stock_row_ok_def settle_st_def clears_flag_def)
  then have "moves (\<lambda>a. st_worth a (settle_st r q si) - st_worth a si) db (set_st i (settle_st r q) db)"
    by (intro moves_set_st [OF ok si]) (simp_all add: settle_st_def stock_row_key_def)
  then have "moves (\<lambda>a. settled_st a si r q) db (set_st i (settle_st r q) db)"
    by (rule moves_cong) (simp add: settled_st_def st_worth_def settle_st_def stock_combo_def worth_def algebra_simps)
  from review_moves [OF this] show ?thesis by (simp add: db')
qed

subsection \<open>Overriding a count\<close>

lemma placed_moves:
  assumes "place_destinations now il ds db = (rows, db')" and "stock_ok db"
    and "find_row il_id (il_id il) (inventory_locations db) = Some r" and "inventory_row_ok r" and "has_origin il"
    and "il_project_id r = il_project_id il" and "il_combo r = il_combo il" and "\<forall>d \<in> set ds. 1 \<le> snd d"
  shows "moves (\<lambda>a. fst (a (Some (il_project_id il)) (il_combo il)) * placed_units ds) db db'"
  using assms
proof (induction ds arbitrary: db r rows)
  case Nil
  then show ?case by (simp add: placed_units_def moves_refl)
next
  case (Cons d ds)
  note ok = Cons.prems(2) and r = Cons.prems(3)
  have q: "1 \<le> snd d" using Cons.prems(8) by simp
  show ?case
  proof (cases "fst d = il_shelf il")
    case True
    let ?h = "\<lambda>r. r\<lparr>il_quantity := il_quantity r + snd d\<rparr>"
    have "inventory_row_ok (?h r)" "has_origin (?h r)"
      using row_facts [OF ok r] q by (auto simp: inventory_row_ok_def has_origin_def)
    then have one: "moves (\<lambda>a. il_worth a (?h r) - il_worth a r) db (set_il (il_id il) ?h db)"
      by (intro moves_set_il [where h = ?h, OF ok r]) simp_all
    have "find_row il_id (il_id il) (inventory_locations (set_il (il_id il) ?h db)) = Some (?h r)"
      using r by (simp add: set_il_def find_row_update)
    moreover have "il_combo (?h r) = il_combo r" by (simp add: il_combo_def)
    ultimately have two: "moves (\<lambda>a. fst (a (Some (il_project_id il)) (il_combo il)) * placed_units ds) (set_il (il_id il) ?h db) db'"
      using Cons.prems True \<open>inventory_row_ok (?h r)\<close>
      by (intro Cons.IH [where r = "?h r" and rows = rows] moves_ok [OF one]) simp_all
    show ?thesis
      by (rule moves_cong [OF moves_trans [OF one two]])
        (simp only: worth_add_units Cons.prems(6,7), simp add: placed_units_def algebra_simps)
  next
    case False
    let ?new = "derived_row il (next_id db) (il_warehouse_id il) (snd d) (fst d) now"
    let ?db1 = "add_il ?new (db\<lparr>next_id := Suc (next_id db)\<rparr>)"
    obtain rows' where rest: "place_destinations now il ds ?db1 = (rows', db')"
      using Cons.prems(1) False by (auto simp: fresh_def Let_def split: prod.splits)
    have one: "moves (\<lambda>a. il_worth a ?new) db ?db1" using ok q Cons.prems(5) by (intro moves_add_il) simp_all
    have "find_row il_id (il_id il) (inventory_locations ?db1) = Some r" using r by (simp add: add_il_def find_row_append)
    then have two: "moves (\<lambda>a. fst (a (Some (il_project_id il)) (il_combo il)) * placed_units ds) ?db1 db'"
      using Cons.prems(4-8) by (intro Cons.IH [OF rest moves_ok [OF one], of r]) simp_all
    show ?thesis
      by (rule moves_cong [OF moves_trans [OF one two]]) (simp add: placed_units_def algebra_simps)
  qed
qed

lemma normalized_positive: "normalize_destinations db il ds = Inr spots \<Longrightarrow> \<forall>d \<in> set spots. 1 \<le> snd d"
  unfolding list_all_iff [symmetric]
  by (induction ds arbitrary: spots) (auto simp: bindr_eq_Inr ensure_eq_Inr)

lemma log_created_moves [simp]: "moves d db (log_created il who why rows db') = moves d db db'"
  by (induction rows arbitrary: db') simp_all

lemma override_moves:
  assumes "override_inventory_quantity now i n why ds who mgr conf expected db = Inr db'" and ok: "stock_ok db"
    and il: "find_row il_id i (inventory_locations db) = Some il"
  shows "moves (\<lambda>a. fst (a (Some (il_project_id il)) (il_combo il)) * (n - il_quantity il)) db db'"
proof -
  note row = row_facts [OF ok il]
  have n: "0 \<le> n" "n \<noteq> il_quantity il"
    using assms(1) il by (auto simp: override_inventory_quantity_def bindr_eq_Inr ensure_eq_Inr lock_Inr Let_def)
  show ?thesis
  proof (cases "n < il_quantity il")
    case True
    let ?h = "\<lambda>r. r\<lparr>il_quantity := n\<rparr>"
    have "il_deficient_quantity il \<le> n"
      using assms(1) il True by (auto simp: override_inventory_quantity_def bindr_eq_Inr ensure_eq_Inr lock_Inr Let_def)
    then have "inventory_row_ok (?h il)" "has_origin (?h il)" using row n by (auto simp: inventory_row_ok_def has_origin_def)
    then have "moves (\<lambda>a. il_worth a (?h il) - il_worth a il) db (set_il i ?h db)"
      by (intro moves_set_il [where h = ?h, OF ok il]) simp_all
    then have "moves (\<lambda>a. fst (a (Some (il_project_id il)) (il_combo il)) * (n - il_quantity il)) db (set_il i ?h db)"
      by (rule moves_cong) (simp add: il_worth_def il_combo_def worth_def algebra_simps)
    then show ?thesis
      using assms(1) il True
      by (auto simp: override_inventory_quantity_def bindr_eq_Inr ensure_eq_Inr lock_Inr Let_def split: if_splits
          intro: flag_moves)
  next
    case False
    then obtain spots where spots: "normalize_destinations db il ds = Inr spots" "placed_units spots = n - il_quantity il"
      using assms(1) il by (auto simp: override_inventory_quantity_def bindr_eq_Inr ensure_eq_Inr lock_Inr Let_def)
    obtain rows db1 where placed: "place_destinations now il spots db = (rows, db1)" by (cases "place_destinations now il spots db")
    have "find_row il_id (il_id il) (inventory_locations db) = Some il" using il row(1) by simp
    from placed_moves [OF placed ok this row(2,3) refl refl normalized_positive [OF spots(1)]]
    have "moves (\<lambda>a. fst (a (Some (il_project_id il)) (il_combo il)) * (n - il_quantity il)) db db1" by (simp add: spots(2))
    then show ?thesis
      using assms(1) il False spots placed
      by (auto simp: override_inventory_quantity_def bindr_eq_Inr ensure_eq_Inr lock_Inr Let_def)
  qed
qed

end
