(* ===== verification/StockFacts.thy ===== *)
theory StockFacts
  imports FloorMoves
begin

text \<open>
  What the operations on shelves and pool guarantee together: the rows' constraints are never tripped, units move
  but do not vanish, claims stay covered unless a manager says otherwise, and then their holders are told.
\<close>

section \<open>The floor at work\<close>

text \<open>
  Units change place, \<open>relocation\<close>; they also enter, leave and are judged, \<open>guarded_step\<close>; and a manager may
  record a count below what is claimed, or somebody condemn units, \<open>floor_step\<close>. Receipts into the pool are those
  whose price the pool's two roundings agree on: at any other it splits a key over two rows (C18), and a pool so
  split is not followed further.
\<close>

inductive relocation :: "db \<Rightarrow> db \<Rightarrow> bool" where
  move: "move_inventory_location i x y z who db = Inr db' \<Longrightarrow> relocation db db'"
| unlocate: "mark_inventory_unlocated i who db = Inr db' \<Longrightarrow> relocation db db'"
| assign: "assign_inventory_location i x y z who db = Inr db' \<Longrightarrow> relocation db db'"
| split: "split_inventory_location i q who db = Inr (j, db') \<Longrightarrow> relocation db db'"
| merge: "merge_locations w s x y z who db = Inr (n, db') \<Longrightarrow> relocation db db'"
| pool_move: "move_stock_location i nx ny nz who db = Inr (j, db') \<Longrightarrow> relocation db db'"
| pool_unlocate: "mark_stock_item_unlocated i who db = Inr (j, db') \<Longrightarrow> relocation db db'"
| pool_assign: "assign_stock_item_location i nx ny nz who db = Inr (j, db') \<Longrightarrow> relocation db db'"
| kind: "set_stock_item_kind i k q who expected db = Inr (r, db') \<Longrightarrow> relocation db db'"
| transfer: "transfer_inventory ty i q w s who expected db = Inr db' \<Longrightarrow> relocation db db'"
| destock: "destock_inventory now i q source why s who cost expected db = Inr (j, db') \<Longrightarrow> relocation db db'"

inductive guarded_step :: "db \<Rightarrow> db \<Rightarrow> bool" where
  relocate: "relocation db db' \<Longrightarrow> guarded_step db db'"
| allocate: "allocate_stock_to_project now i p c q s who src expected db = Inr (j, db') \<Longrightarrow> guarded_step db db'"
| receive: "receive_into_stock now w c q d s who po cost k company cur db = Inr (j, db') \<Longrightarrow>
    map_option pool_unit_cost cost = map_option column_cost cost \<Longrightarrow> guarded_step db db'"
| reclassify: "reclassify_stock_item now i c q why who expected db = Inr (r, db') \<Longrightarrow> guarded_step db db'"
| adjust: "adjust_inventory_quantity now i n reason who sc mgr False expected db = Inr db' \<Longrightarrow> guarded_step db db'"
| override: "override_inventory_quantity now i n reason ds who mgr False expected db = Inr db' \<Longrightarrow> guarded_step db db'"
| pool_adjust: "adjust_stock_quantity i n reason who expected db = Inr db' \<Longrightarrow> guarded_step db db'"
| condemn_pool: "report_stock_deficiency i q why who expected db = Inr db' \<Longrightarrow> guarded_step db db'"
| resolve: "resolve_deficiency now io so r q why rma src who cost expected db = Inr (j, db') \<Longrightarrow> guarded_step db db'"

inductive floor_step :: "db \<Rightarrow> db \<Rightarrow> bool" where
  guarded: "guarded_step db db' \<Longrightarrow> floor_step db db'"
| manager_adjust: "adjust_inventory_quantity now i n reason who sc mgr True expected db = Inr db' \<Longrightarrow> floor_step db db'"
| manager_override: "override_inventory_quantity now i n reason ds who mgr True expected db = Inr db' \<Longrightarrow> floor_step db db'"
| condemn: "report_inventory_deficiency i q why who expected db = Inr db' \<Longrightarrow> floor_step db db'"

inductive_cases guarded_stepE: "guarded_step db db'"
inductive_cases floor_stepE: "floor_step db db'"

text \<open>Every operation that names a row found it.\<close>

lemma named_rows:
  "destock_inventory now i q source why s who cost expected db = Inr x \<Longrightarrow> \<exists>il. find_row il_id i (inventory_locations db) = Some il"
  "adjust_inventory_quantity now i n reason who sc mgr conf expected db = Inr db' \<Longrightarrow> \<exists>il. find_row il_id i (inventory_locations db) = Some il"
  "override_inventory_quantity now i n reason ds who mgr conf expected db = Inr db' \<Longrightarrow> \<exists>il. find_row il_id i (inventory_locations db) = Some il"
  "report_inventory_deficiency i q w who expected db = Inr db' \<Longrightarrow> \<exists>il. find_row il_id i (inventory_locations db) = Some il"
  "allocate_stock_to_project now i p c q s who src expected db = Inr x \<Longrightarrow> \<exists>si. find_row st_id i (stock_items db) = Some si"
  "reclassify_stock_item now i c q w who expected db = Inr y \<Longrightarrow> \<exists>si. find_row st_id i (stock_items db) = Some si"
  "adjust_stock_quantity i n reason who expected db = Inr db' \<Longrightarrow> \<exists>si. find_row st_id i (stock_items db) = Some si"
  "report_stock_deficiency i q w who expected db = Inr db' \<Longrightarrow> \<exists>si. find_row st_id i (stock_items db) = Some si"
  by (auto simp: destock_inventory_def adjust_inventory_quantity_def override_inventory_quantity_def report_inventory_deficiency_def
      allocate_stock_to_project_def reclassify_stock_item_def adjust_stock_quantity_def report_stock_deficiency_def
      bindr_eq_Inr ensure_eq_Inr lock_Inr Let_def)

lemmas still_moves = move_il_moves split_moves merge_moves shelf_ops_moves kind_moves transfer_moves

lemma relocation_moves:
  assumes "relocation db db'" and "stock_ok db"
  shows "moves (\<lambda>a. 0) db db' \<or>
    (\<exists>il q source. 1 \<le> q \<and> il \<in> set (inventory_locations db) \<and> check_destock db il q source = Inr () \<and>
       moves (\<lambda>a. fst (a None (il_combo il)) * q - worth a (Some (il_project_id il)) (il_combo il) q
         (if source = DEFICIENT_SWAP then q else 0)) db db')"
  using assms
proof (induction rule: relocation.induct)
  case (destock now i q source why s who cost expected db j db')
  then obtain il where il: "find_row il_id i (inventory_locations db) = Some il" using named_rows(1) by blast
  have "1 \<le> q" "check_destock db il q source = Inr ()"
    using destock(1) il by (auto simp: destock_inventory_def bindr_eq_Inr ensure_eq_Inr lock_Inr)
  then show ?case using destock_moves [OF destock(1,2) il] find_row_Some [OF il] by blast
qed (rule disjI1, erule (1) still_moves)+

text \<open>A change that leaves the claims of every product covered where they were.\<close>

definition covers :: "db \<Rightarrow> (scale \<Rightarrow> int) \<Rightarrow> bool" where
  "covers db d \<longleftrightarrow> (\<forall>p c. 0 \<le> d (sound_of p c) \<or> claimed db p c \<le> on_hand db p c + d (sound_of p c))"

lemma sound_of_simps [simp]:
  "sound_of p c None c' = (0, 0)" "sound_of p c (Some p') c' = (if p' = p \<and> c' = c then (1, -1) else (0, 0))"
  by (simp_all add: sound_of_def)

lemma covers_gain: "(\<And>p c. 0 \<le> d (sound_of p c)) \<Longrightarrow> covers db d"
  by (simp add: covers_def)

text \<open>Taking sound units that were free.\<close>

lemma covers_taken:
  assumes "q \<le> free_stock db (il_project_id il) (il_combo il)" and "0 < q"
    and "\<And>p c. d (sound_of p c) = (if il_project_id il = p \<and> il_combo il = c then - q else 0)"
  shows "covers db d"
  using assms by (auto simp: covers_def free_stock_def max_def split: if_splits)

lemma covers_solvent:
  assumes "moves d db db'" and "covers db d" and "book_ok db" and "solvent_at db p c"
  shows "solvent_at db' p c"
proof -
  have "claimed db' p c = claimed db p c" using assms(1) by (simp add: moves_def claimed_def)
  moreover have "on_hand db' p c = on_hand db p c + d (sound_of p c)" using assms(1) by (simp add: on_hand_weigh moves_def)
  ultimately show ?thesis using assms(2,4) unfolding covers_def solvent_at_def max_def by (smt (verit))
qed

lemma gate_Inr_free:
  assumes "gate_reservation_shortfall db il removed mgr conf field = Inr n" and "book_ok db"
  shows "removed \<le> 0 \<or> removed \<le> free_stock db (il_project_id il) (il_combo il) \<or>
    conf \<and> mgr \<and> n = claimed db (il_project_id il) (il_combo il)"
  using assms by (auto simp: gate_reservation_shortfall_def Let_def ensure_eq_Inr available_quantities_get reserved_get
      combo_filter_def claimed_by_others_def split: if_splits)

lemma destock_covers:
  assumes "check_destock db il q source = Inr ()" and "1 \<le> q" and "book_ok db"
  shows "covers db (\<lambda>a. fst (a None (il_combo il)) * q - worth a (Some (il_project_id il)) (il_combo il) q
    (if source = DEFICIENT_SWAP then q else 0))"
proof (cases "source = DEFICIENT_SWAP")
  case True
  then show ?thesis by (intro covers_gain) (simp add: worth_def)
next
  case False
  then have "q \<le> free_stock db (il_project_id il) (il_combo il)"
    using assms by (auto simp: check_destock_def Let_def ensure_eq_Inr available_quantities_get)
  then show ?thesis using assms(2) False by (intro covers_taken) (auto simp: worth_def)
qed

lemma count_covers:
  assumes "gate_reservation_shortfall db il (- n) mgr False field = Inr k" and "book_ok db"
  shows "covers db (\<lambda>a. fst (a (Some (il_project_id il)) (il_combo il)) * n)"
proof (cases "0 \<le> n")
  case True
  then show ?thesis by (intro covers_gain) simp
next
  case False
  then have "- n \<le> free_stock db (il_project_id il) (il_combo il)" using gate_Inr_free [OF assms] by auto
  then show ?thesis using False by (intro covers_taken) auto
qed

lemma adjust_gate:
  assumes "adjust_inventory_quantity now i n why who sc mgr conf expected db = Inr db'"
    and "find_row il_id i (inventory_locations db) = Some il"
  obtains k where "gate_reservation_shortfall db il (- n) mgr conf ''adjustment'' = Inr k"
  using assms by (auto simp: adjust_inventory_quantity_def bindr_eq_Inr ensure_eq_Inr lock_Inr Let_def)

lemma override_gate:
  assumes "override_inventory_quantity now i n why ds who mgr conf expected db = Inr db'"
    and "find_row il_id i (inventory_locations db) = Some il" and "n < il_quantity il"
  obtains k where "gate_reservation_shortfall db il (- (n - il_quantity il)) mgr conf ''new_quantity'' = Inr k"
  using assms by (auto simp: override_inventory_quantity_def bindr_eq_Inr ensure_eq_Inr lock_Inr Let_def)

text \<open>A guarded step changes the floor by some amount, and covers the claims it finds.\<close>

definition guarded_move :: "db \<Rightarrow> db \<Rightarrow> bool" where
  "guarded_move db db' \<longleftrightarrow> (\<exists>d. moves d db db' \<and> (book_ok db \<longrightarrow> covers db d))"

lemma guarded_moveI: "moves d db db' \<Longrightarrow> (book_ok db \<Longrightarrow> covers db d) \<Longrightarrow> guarded_move db db'"
  by (auto simp: guarded_move_def)

lemma guarded_moves:
  assumes "guarded_step db db'" and "stock_ok db"
  shows "guarded_move db db'"
  using assms
proof (induction rule: guarded_step.induct)
  case (resolve now io so r q why rma src who cost expected db j db')
  have q: "1 \<le> q" using resolve(1) by (auto simp: resolve_deficiency_def check_review_def bindr_eq_Inr ensure_eq_Inr)
  from resolve(1) show ?case
  proof (cases rule: resolve_target)
    case (1 i)
    then obtain il where "find_row il_id i (inventory_locations db) = Some il" using resolve(1) resolve_il_Inr by metis
    with resolve 1 have "moves (\<lambda>a. settled_il a il r q) db db'" using resolve_project_moves by metis
    then show ?thesis
      by (rule guarded_moveI) (use q in \<open>auto intro!: covers_gain simp: settled_il_def worth_def leaves_row_def clears_flag_def\<close>)
  next
    case (2 i)
    then obtain si where "find_row st_id i (stock_items db) = Some si" using resolve(1) resolve_st_Inr by metis
    with resolve 2 have "moves (\<lambda>a. settled_st a si r q) db db'" using resolve_pool_moves by metis
    then show ?thesis by (rule guarded_moveI) (auto intro!: covers_gain simp: settled_st_def worth_def)
  qed
next
  case (relocate db db')
  from relocation_moves [OF this] show ?case by (auto intro: guarded_moveI covers_gain destock_covers)
next
  case (receive now w c q d s who po cost k company cur db j db')
  then have "moves (\<lambda>a. worth a None c q d) db db'" by (intro receive_moves)
  then show ?case by (rule guarded_moveI) (auto intro!: covers_gain simp: worth_def)
next
  case (allocate now i p c q s who src expected db j db')
  obtain si where "find_row st_id i (stock_items db) = Some si" using named_rows(5) [OF allocate(1)] by blast
  note move = allocate_moves [OF allocate(1,2) this]
  have "1 \<le> q" using allocate(1) by (auto simp: allocate_stock_to_project_def ensure_eq_Inr)
  then show ?case by (intro guarded_moveI [OF move] covers_gain) simp
next
  case (reclassify now i c q why who expected db r db')
  obtain si where "find_row st_id i (stock_items db) = Some si" using named_rows(6) [OF reclassify(1)] by blast
  note move = reclassify_moves [OF reclassify(1,2) this]
  then show ?case by (intro guarded_moveI [OF move] covers_gain) simp
next
  case (adjust now i n reason who sc mgr expected db db')
  obtain il where il: "find_row il_id i (inventory_locations db) = Some il" using named_rows(2) [OF adjust(1)] by blast
  obtain k where "gate_reservation_shortfall db il (- n) mgr False ''adjustment'' = Inr k" by (rule adjust_gate [OF adjust(1) il])
  then show ?case by (intro guarded_moveI [OF adjust_moves [OF adjust(1,2) il]]) (rule count_covers)
next
  case (override now i n reason ds who mgr expected db db')
  obtain il where il: "find_row il_id i (inventory_locations db) = Some il" using named_rows(3) [OF override(1)] by blast
  note move = override_moves [OF override(1,2) il]
  show ?case
  proof (cases "n < il_quantity il")
    case True
    obtain k where "gate_reservation_shortfall db il (- (n - il_quantity il)) mgr False ''new_quantity'' = Inr k"
      by (rule override_gate [OF override(1) il True])
    then show ?thesis by (intro guarded_moveI [OF move]) (rule count_covers)
  next
    case False
    then show ?thesis by (intro guarded_moveI [OF move] covers_gain) simp
  qed
next
  case (pool_adjust i n reason who expected db db')
  obtain si where "find_row st_id i (stock_items db) = Some si" using named_rows(7) [OF pool_adjust(1)] by blast
  from adjust_st_moves [OF pool_adjust(1,2) this] show ?case by (rule guarded_moveI) (auto intro: covers_gain)
next
  case (condemn_pool i q why who expected db db')
  obtain si where "find_row st_id i (stock_items db) = Some si" using named_rows(8) [OF condemn_pool(1)] by blast
  from report_st_moves [OF condemn_pool(1,2) this] show ?case by (rule guarded_moveI) (auto intro: covers_gain)
qed

lemma floor_moves:
  assumes "floor_step db db'" and "stock_ok db"
  shows "\<exists>d. moves d db db'"
  using assms
proof (induction rule: floor_step.induct)
  case (guarded db db')
  then show ?case using guarded_moves by (auto simp: guarded_move_def)
next
  case (manager_adjust now i n reason who sc mgr expected db db')
  obtain il where "find_row il_id i (inventory_locations db) = Some il" using named_rows(2) [OF manager_adjust(1)] by blast
  from adjust_moves [OF manager_adjust(1,2) this] show ?case by blast
next
  case (manager_override now i n reason ds who mgr expected db db')
  obtain il where "find_row il_id i (inventory_locations db) = Some il" using named_rows(3) [OF manager_override(1)] by blast
  from override_moves [OF manager_override(1,2) this] show ?case by blast
next
  case (condemn i q why who expected db db')
  obtain il where "find_row il_id i (inventory_locations db) = Some il" using named_rows(4) [OF condemn(1)] by blast
  from report_il_moves [OF condemn(1,2) this] show ?case by blast
qed

interpretation stock_floor: invariant_run floor_step stock_ok
  by unfold_locales (use floor_moves moves_ok in blast)

section \<open>What the floor promises\<close>

text \<open>
  C39. Along any run of shelf moves, pool moves, counts, condemnations, reviews and receipts - as long as no receipt into
  the pool comes at a price exactly between two fifth decimals that its two roundings take different ways (C18) - the
  tables keep their constraints: ids distinct, no row negative or condemned past its count, every project row with an
  origin, and no two pool rows under the same key. A receipt at such a price is the one step left out, because the code
  accepts it and it may add a second row for a key.
\<close>

theorem stock_rows_stay_valid:
  assumes "floor_step\<^sup>*\<^sup>* db db'" and "stock_ok db"
  shows "distinct (map il_id (inventory_locations db')) \<and> distinct (map st_id (stock_items db')) \<and>
    list_all (\<lambda>il. inventory_row_ok il \<and> has_origin il) (inventory_locations db') \<and>
    list_all stock_row_ok (stock_items db') \<and> pool_keys_unique db' \<and> stock_ok db'"
  using stock_floor.along [OF assms] by (auto simp: stock_ok_def tables_ok_def pool_ok_keys_def)

lemma relocation_weighs:
  assumes "relocation db db'" and "stock_ok db"
  shows "weigh (units_of c) db' = weigh (units_of c) db"
proof -
  from relocation_moves [OF assms] consider "moves (\<lambda>a. 0) db db'"
    | il q source where "moves (\<lambda>a. fst (a None (il_combo il)) * q - worth a (Some (il_project_id il)) (il_combo il) q
         (if source = DEFICIENT_SWAP then q else 0)) db db'" by blast
  then show ?thesis by cases (simp_all add: moves_def units_of_def worth_def)
qed

text \<open>
  C36. Moving, splitting, merging, re-kinding, transferring and destocking create and lose nothing: of every
  product the building holds, project rows and pool rows together, the same number of units.
\<close>

theorem relocation_conserves_units:
  assumes "relocation\<^sup>*\<^sup>* db db'" and "stock_ok db"
  shows "weigh (units_of c) db' = weigh (units_of c) db"
proof -
  have "weigh (units_of c) db' = weigh (units_of c) db \<and> stock_ok db'"
    using assms
  proof (induction rule: rtranclp_induct)
    case (step db1 db2)
    then have "weigh (units_of c) db2 = weigh (units_of c) db1" "floor_step db1 db2"
      using relocation_weighs by (blast intro: floor_step.guarded guarded_step.relocate)+
    then show ?case using step stock_floor.keeps by metis
  qed simp
  then show ?thesis ..
qed

text \<open>
  C37. No guarded operation strands a claim: as long as nobody takes a manager's override and no project units
  are condemned, the claims on a product stay covered by what is on hand of it, whatever else is done. (Receipts into
  the pool at a price its roundings disagree on are not among the steps, as for C39; they touch no project row.)
\<close>

theorem guarded_steps_keep_claims_covered:
  assumes "guarded_step\<^sup>*\<^sup>* db db'" and "stock_ok db" and "book_ok db" and "solvent_at db p c"
  shows "solvent_at db' p c \<and> claimed db' p c = claimed db p c"
proof -
  have "stock_ok db' \<and> book_ok db' \<and> inventory_reservations db' = inventory_reservations db \<and> solvent_at db' p c"
    using assms
  proof (induction rule: rtranclp_induct)
    case (step db1 db2)
    then obtain d where "moves d db1 db2" "covers db1 d" using guarded_moves unfolding guarded_move_def by blast
    moreover from this have "solvent_at db2 p c" using step covers_solvent by blast
    ultimately show ?case using step by (simp add: moves_def book_ok_def)
  qed simp
  then show ?thesis by (simp add: claimed_def)
qed

section \<open>A count below what is claimed\<close>

lemma holders_told:
  assumes "notify_holders now p hs db = Inr db'"
  shows "\<exists>new. notifications db' = notifications db @ new \<and> map no_pull_request_id new = map (\<lambda>h. snd (fst h)) hs \<and>
    list_all (\<lambda>n. no_type n = INVENTORY_SHORTFALL) new"
  using assms
proof (induction hs arbitrary: db)
  case (Cons h hs)
  then obtain db1 where one: "create_notification now p (Some WAREHOUSE_MANAGER_RECIPIENT_ROLE) INVENTORY_SHORTFALL
      (snd (fst h)) None None db = Inr db1" and rest: "notify_holders now p hs db1 = Inr db'"
    by (auto simp: bindr_eq_Inr)
  from create_notification_eq [OF one] obtain n where
    "notifications db1 = notifications db @ [n]" "no_type n = INVENTORY_SHORTFALL" "no_pull_request_id n = snd (fst h)" by auto
  moreover obtain new where "notifications db' = notifications db1 @ new"
    "map no_pull_request_id new = map (\<lambda>h. snd (fst h)) hs" "list_all (\<lambda>n. no_type n = INVENTORY_SHORTFALL) new"
    using Cons.IH [OF rest] by blast
  ultimately show ?case by (intro exI [of _ "n # new"]) simp
qed simp

text \<open>Both corrections, below what is free, end in the same way.\<close>

lemma stranding_flags:
  assumes run: "adjust_inventory_quantity now i (n - il_quantity il) why who sc mgr conf expected db = Inr db' \<or>
      override_inventory_quantity now i n why ds who mgr conf expected db = Inr db'"
    and il: "find_row il_id i (inventory_locations db) = Some il" and ok: "book_ok db"
    and short: "free_stock db (il_project_id il) (il_combo il) < il_quantity il - n"
    and claim: "0 < claimed db (il_project_id il) (il_combo il)"
  shows "conf \<and> mgr \<and> (\<exists>db1. flag_stranded_holders now il db1 = Inr db' \<and> notifications db1 = notifications db \<and>
      stranded_holders db1 = stranded_holders db)"
proof -
  have below: "n < il_quantity il" using short by (simp add: free_stock_def)
  have gate: "conf \<and> mgr \<and> k = claimed db (il_project_id il) (il_combo il)"
    if "gate_reservation_shortfall db il (- (n - il_quantity il)) mgr conf f = Inr k" for f k
    using gate_Inr_free [OF that ok] below short by linarith
  have plain: "notifications (log_il il x who d (set_il i h db)) = notifications db"
    "inventory_reservations (log_il il x who d (set_il i h db)) = inventory_reservations db"
    "holder_label (log_il il x who d (set_il i h db)) = holder_label db" for x d h
    by (simp_all add: fun_eq_iff holder_label_def log_il_def log_audit_event_def set_il_def)
  have same: "stranded_holders (log_il il x who d (set_il i h db)) = stranded_holders db" for x d h
    by (intro ext) (simp only: stranded_holders_def plain)
  note same = plain(1) same
  from run show ?thesis
  proof
    assume run: "adjust_inventory_quantity now i (n - il_quantity il) why who sc mgr conf expected db = Inr db'"
    obtain k where k: "gate_reservation_shortfall db il (- (n - il_quantity il)) mgr conf ''adjustment'' = Inr k"
      by (rule adjust_gate [OF run il])
    then have "k \<noteq> 0" "conf" "mgr" using gate [OF k] claim by auto
    then show ?thesis
      using run il k by (auto simp: adjust_inventory_quantity_def bindr_eq_Inr ensure_eq_Inr lock_Inr Let_def same)
  next
    assume run: "override_inventory_quantity now i n why ds who mgr conf expected db = Inr db'"
    obtain k where k: "gate_reservation_shortfall db il (- (n - il_quantity il)) mgr conf ''new_quantity'' = Inr k"
      by (rule override_gate [OF run il below])
    then have "k \<noteq> 0" "conf" "mgr" using gate [OF k] claim by auto
    then show ?thesis
      using run il k below by (auto simp: override_inventory_quantity_def bindr_eq_Inr ensure_eq_Inr lock_Inr Let_def same)
  qed
qed

text \<open>
  C38. A correction that takes more than is free of a claimed product goes through only for a manager who
  confirmed it, and it writes exactly one shortfall notice for every holder of a claim on the product, with
  the holder's pull.
\<close>

theorem count_below_claims_told:
  assumes "adjust_inventory_quantity now i (n - il_quantity il) why who sc mgr conf expected db = Inr db' \<or>
      override_inventory_quantity now i n why ds who mgr conf expected db = Inr db'"
    and "find_row il_id i (inventory_locations db) = Some il" and "book_ok db"
    and "free_stock db (il_project_id il) (il_combo il) < il_quantity il - n"
    and "0 < claimed db (il_project_id il) (il_combo il)"
  shows "conf \<and> mgr \<and> (\<exists>new. notifications db' = notifications db @ new \<and>
    list_all (\<lambda>n. no_type n = INVENTORY_SHORTFALL) new \<and>
    map no_pull_request_id new = map (\<lambda>h. snd (fst h)) (stranded_holders db (il_project_id il) (il_combo il)) \<and>
    set (map fst (stranded_holders db (il_project_id il) (il_combo il))) =
      holder_label db ` {r \<in> set (inventory_reservations db). rs_project_id r = il_project_id il \<and> rs_combo r = il_combo il} \<and>
    distinct (map fst (stranded_holders db (il_project_id il) (il_combo il))))"
proof -
  obtain db1 where "conf" "mgr" and flag: "flag_stranded_holders now il db1 = Inr db'" and
    same: "notifications db1 = notifications db" "stranded_holders db1 = stranded_holders db"
    using stranding_flags [OF assms] by blast
  moreover obtain new where "notifications db' = notifications db @ new"
    "map no_pull_request_id new = map (\<lambda>h. snd (fst h)) (stranded_holders db (il_project_id il) (il_combo il))"
    "list_all (\<lambda>n. no_type n = INVENTORY_SHORTFALL) new"
    using holders_told [OF flag [unfolded flag_stranded_holders_def]] unfolding same by blast
  ultimately show ?thesis
    by (intro conjI exI [of _ new]) (auto simp: stranded_holders_def keys_sum_by simp flip: image_image)
qed

section \<open>Swapping condemned units\<close>

text \<open>
  C40. A destock of condemned units moves them into the pool as sound ones: of the product the building holds
  as many units as before, but the count of condemned ones falls by what was swapped. Sending the same
  units to the pool in a review keeps them condemned.
\<close>

theorem swap_clears_condemned:
  assumes "stock_ok db" and "find_row il_id i (inventory_locations db) = Some il"
  shows "(destock_inventory now i q DEFICIENT_SWAP why target who cost expected db = Inr (j, db') \<longrightarrow>
      weigh (units_of (il_combo il)) db' = weigh (units_of (il_combo il)) db \<and>
      weigh (condemned_of (il_combo il)) db' = weigh (condemned_of (il_combo il)) db - q) \<and>
    (resolve_deficiency now (Some i) None SEND_TO_STOCK q why rma src who cost expected db = Inr (j, db') \<longrightarrow>
      weigh (units_of (il_combo il)) db' = weigh (units_of (il_combo il)) db \<and>
      weigh (condemned_of (il_combo il)) db' = weigh (condemned_of (il_combo il)) db)"
  using destock_moves [where source = DEFICIENT_SWAP, OF _ assms] resolve_project_moves [where r = SEND_TO_STOCK, OF _ assms]
  by (simp add: moves_def units_of_def condemned_of_def worth_def settled_il_def leaves_row_def clears_flag_def)

section \<open>An instance\<close>

text \<open>A project's row of five hinges, one condemned, three claimed, and a pool row of four.\<close>

definition floor_pool_row :: stock_item where
  "floor_pool_row = \<lparr>st_id = 50, st_warehouse_id = 2, st_hardware_category = ''Hinges'', st_product_code = ''BB1279'',
     st_quantity = 4, st_deficient_quantity = 0, st_kind = STOCK, st_aisle = Some ''A'', st_row = None, st_bay = None,
     st_unit_cost = Some 0, st_cost_currency = None, st_received_at = 1\<rparr>"

definition floor_row :: inventory_location where
  "floor_row = (demo_location 10 5 1)\<lparr>il_stock_item_id := Some 50\<rparr>"

definition floor_db :: db where
  "floor_db = empty_db\<lparr>next_id := 100, inventory_locations := [floor_row], stock_items := [floor_pool_row],
     inventory_reservations := [new_reservation 40 1 (SHOP_ASSEMBLY_BATCH, 30) demo_combo 2,
       new_reservation 41 1 (SHIPPING_OUT_REQUEST, 31) demo_combo 1], shop_assembly_batches := [demo_batch]\<rparr>"

definition floor_swapped :: "uuid \<times> db" where
  "floor_swapped = value_of (destock_inventory 9 10 1 DEFICIENT_SWAP None (None, None, None) ''sam'' (Some ZERO) None floor_db)"

definition floor_counted :: db where
  "floor_counted = value_of (adjust_inventory_quantity 9 10 (- 3) ''short'' ''sam'' True True True None floor_db)"

definition floor_count :: db where
  "floor_count = value_of (adjust_inventory_quantity 9 10 (- 1) ''short'' ''sam'' True False False None floor_db)"

lemma floor_swapped:
  "destock_inventory 9 10 1 DEFICIENT_SWAP None (None, None, None) ''sam'' (Some ZERO) None floor_db =
     Inr (fst floor_swapped, snd floor_swapped)"
proof -
  have "\<not> raised (destock_inventory 9 10 1 DEFICIENT_SWAP None (None, None, None) ''sam'' (Some ZERO) None floor_db)" by code_simp
  then show ?thesis unfolding floor_swapped_def by (simp add: value_of)
qed

lemma floor_counted:
  "adjust_inventory_quantity 9 10 (2 - il_quantity floor_row) ''short'' ''sam'' True True True None floor_db = Inr floor_counted"
  "adjust_inventory_quantity 9 10 (- 1) ''short'' ''sam'' True False False None floor_db = Inr floor_count"
proof -
  have "\<not> raised (adjust_inventory_quantity 9 10 (- 3) ''short'' ''sam'' True True True None floor_db)"
    "\<not> raised (adjust_inventory_quantity 9 10 (- 1) ''short'' ''sam'' True False False None floor_db)"
    "2 - il_quantity floor_row = - 3" by code_simp+
  then show "adjust_inventory_quantity 9 10 (2 - il_quantity floor_row) ''short'' ''sam'' True True True None floor_db = Inr floor_counted"
    "adjust_inventory_quantity 9 10 (- 1) ''short'' ''sam'' True False False None floor_db = Inr floor_count"
    unfolding floor_counted_def floor_count_def by (metis value_of)+
qed

lemma floor_ok: "stock_ok floor_db" "book_ok floor_db" "find_row il_id 10 (inventory_locations floor_db) = Some floor_row"
  by code_simp+

lemma floor_relocation: "relocation floor_db (snd floor_swapped)"
  by (rule relocation.destock [OF floor_swapped])

lemma floor_guarded: "guarded_step floor_db floor_count"
  by (rule guarded_step.adjust [OF floor_counted(2)])

theorem stock_rows_stay_valid_witness:
  "floor_step floor_db floor_counted \<and> stock_ok floor_counted"
proof -
  have "floor_step floor_db floor_counted" by (rule floor_step.manager_adjust [OF floor_counted(1)])
  then show ?thesis using stock_rows_stay_valid [OF r_into_rtranclp [where r = floor_step] floor_ok(1)] by blast
qed

theorem relocation_conserves_units_witness:
  "relocation floor_db (snd floor_swapped) \<and> weigh (units_of demo_combo) (snd floor_swapped) = 9"
proof -
  have "weigh (units_of demo_combo) floor_db = 9" by code_simp
  then show ?thesis
    using floor_relocation relocation_conserves_units [OF r_into_rtranclp [where r = relocation, OF floor_relocation] floor_ok(1)]
    by simp
qed

theorem guarded_steps_keep_claims_covered_witness:
  "guarded_step floor_db floor_count \<and> solvent_at floor_count 1 demo_combo \<and> claimed floor_count 1 demo_combo = 3"
proof -
  have "solvent_at floor_db 1 demo_combo" "claimed floor_db 1 demo_combo = 3" by code_simp+
  then show ?thesis
    using floor_guarded guarded_steps_keep_claims_covered
      [OF r_into_rtranclp [where r = guarded_step, OF floor_guarded] floor_ok(1,2), of 1 demo_combo] by simp
qed

theorem count_below_claims_told_witness:
  "map no_pull_request_id (notifications floor_counted) = [Some 20, None]"
proof -
  have "free_stock floor_db (il_project_id floor_row) (il_combo floor_row) < il_quantity floor_row - 2"
    "0 < claimed floor_db (il_project_id floor_row) (il_combo floor_row)"
    "map (\<lambda>h. snd (fst h)) (stranded_holders floor_db (il_project_id floor_row) (il_combo floor_row)) = [Some 20, None]"
    "notifications floor_db = []" by code_simp+
  then show ?thesis
    using count_below_claims_told [OF disjI1 [OF floor_counted(1)] floor_ok(3,2)] by auto
qed

theorem swap_clears_condemned_witness:
  "weigh (condemned_of (il_combo floor_row)) floor_db = 1 \<and> weigh (condemned_of (il_combo floor_row)) (snd floor_swapped) = 0"
proof -
  have "weigh (condemned_of (il_combo floor_row)) floor_db = 1" by code_simp
  then show ?thesis using swap_clears_condemned [OF floor_ok(1,3)] floor_swapped by fastforce
qed

end
