(* ===== verification/Receiving.thy ===== *)
theory Receiving
  imports PoolMoves Shipments
begin

text \<open>
  \<open>warehouse/receiving.py\<close>: what may be received against a purchase order, and the booking of a receipt -
  the record, the rows it makes on the floor or in the pool, the received quantities and the order's status.
\<close>

definition require_gp_job_open :: "db \<Rightarrow> uuid option \<Rightarrow> unit result" where
  "require_gp_job_open db project_id =
     (case Option.bind project_id (\<lambda>p. find_row pj_id p (projects db)) of
        None \<Rightarrow> Inr ()
      | Some pj \<Rightarrow> ensure (pj_gp_job_state pj = None \<or> pj_gp_job_state pj = Some JOB_ACTIVE) GpJobNotOpenError (Inr ()))"

definition po_line_items :: "db \<Rightarrow> uuid \<Rightarrow> po_line list" where
  "po_line_items db po = filter (\<lambda>l. po_line_po_id l = po) (po_lines db)"

definition pending_quantity :: "po_line \<Rightarrow> int" where
  "pending_quantity l = po_line_ordered_quantity l - po_line_received_quantity l"

definition po_line_combo :: "po_line \<Rightarrow> combo" where
  "po_line_combo l = (po_line_hardware_category l, po_line_product_code l)"

text \<open>Repeats of a line are summed, in order of first mention.\<close>

definition requested_by_line :: "counted_line list \<Rightarrow> (uuid \<times> int) list" where
  "requested_by_line lines = sum_by ct_po_line_item_id ct_quantity_received lines"

text \<open>A line the order does not have is refused before this is asked.\<close>

definition assert_within_pending :: "po_line list \<Rightarrow> counted_line list \<Rightarrow> unit result" where
  "assert_within_pending poli lines =
     ensure (list_all (\<lambda>kv. case find_row po_line_id (fst kv) poli of
         None \<Rightarrow> True | Some l \<Rightarrow> snd kv \<le> pending_quantity l) (requested_by_line lines))
       (ValidationError (Some ''quantity_received'')) (Inr ())"

definition receivable :: "po_status \<Rightarrow> bool" where
  "receivable s \<longleftrightarrow> s \<in> {GP_REGISTERED, VENDOR_CONFIRMED, PARTIALLY_RECEIVED}"

definition live_po :: "db \<Rightarrow> uuid \<Rightarrow> purchase_order result" where
  "live_po db i =
     (case find_row po_id i (purchase_orders db) of
        None \<Rightarrow> Inl NotFoundError
      | Some po \<Rightarrow> ensure (po_deleted_at po = None) NotFoundError (Inr po))"

definition receiver_ok :: "string \<Rightarrow> bool" where
  "receiver_ok received_by \<longleftrightarrow> received_by \<noteq> [] \<and> length received_by \<le> 100"

text \<open>
  The bins of a counted line, their labels normalized. The approval holds every bin to the registry, a count
  does not.
\<close>

fun check_bins_of :: "db \<Rightarrow> uuid option \<Rightarrow> bin_count list \<Rightarrow> bin_count list result" where
  "check_bins_of db check [] = Inr []"
| "check_bins_of db check (b # bs) =
     ensure (1 \<le> bc_quantity b) (ValidationError (Some ''quantity'')) (
     ensure (0 \<le> bc_deficient_quantity b \<and> bc_deficient_quantity b \<le> bc_quantity b)
       (ValidationError (Some ''deficient_quantity'')) (
     bindr (normalize_and_validate_location_fields (bc_aisle b) (bc_row b) (bc_bay b)) (\<lambda>s.
     bindr (case check of None \<Rightarrow> Inr () | Some w \<Rightarrow> ensure_registered_location db w s) (\<lambda>_.
     bindr (check_bins_of db check bs) (\<lambda>rest.
     Inr (b\<lparr>bc_aisle := sent_text (fst s), bc_row := sent_text (fst (snd s)), bc_bay := sent_text (snd (snd s))\<rparr> # rest))))))"

definition check_locations :: "db \<Rightarrow> uuid option \<Rightarrow> counted_line \<Rightarrow> counted_line result" where
  "check_locations db check li =
     (if ct_locations li = [] then Inr li
      else
        ensure (sum_list (map bc_quantity (ct_locations li)) = ct_quantity_received li)
          (ValidationError (Some ''locations'')) (
        bindr (check_bins_of db check (ct_locations li)) (\<lambda>bins. Inr (li\<lparr>ct_locations := bins\<rparr>))))"

section \<open>The pre-flight\<close>

record receipt_line =
  re_gp_line_ord :: int
  re_quantity :: int
  re_locations :: "bin_count list"

definition eligible_line :: "db \<Rightarrow> po_line list \<Rightarrow> uuid option \<Rightarrow> counted_line \<Rightarrow> receipt_line result" where
  "eligible_line db poli check li =
     (case find_row po_line_id (ct_po_line_item_id li) poli of
        None \<Rightarrow> Inl NotFoundError
      | Some l \<Rightarrow>
          (case po_line_gp_line_ord l of
             None \<Rightarrow> Inl (ValidationError (Some ''line_items''))
           | Some ord \<Rightarrow>
               ensure (1 \<le> ct_quantity_received li) (ValidationError (Some ''quantity_received'')) (
               ensure (ct_quantity_received li \<le> pending_quantity l) (ValidationError (Some ''quantity_received'')) (
               bindr (check_locations db check li) (\<lambda>_.
               Inr \<lparr>re_gp_line_ord = ord, re_quantity = ct_quantity_received li, re_locations = ct_locations li\<rparr>)))))"

fun eligible_lines :: "db \<Rightarrow> po_line list \<Rightarrow> uuid option \<Rightarrow> counted_line list \<Rightarrow> receipt_line list result" where
  "eligible_lines db poli check [] = Inr []"
| "eligible_lines db poli check (li # lis) =
     bindr (eligible_line db poli check li) (\<lambda>r. bindr (eligible_lines db poli check lis) (\<lambda>rs. Inr (r # rs)))"

text \<open>The building the bins are held to: the one named, else the company's primary; none when bins are not checked.\<close>

definition bins_warehouse :: "db \<Rightarrow> purchase_order \<Rightarrow> bool \<Rightarrow> uuid option \<Rightarrow> counted_line list \<Rightarrow> uuid option result" where
  "bins_warehouse db po check_bins warehouse_id lines =
     (if \<not> check_bins then Inr None
      else case warehouse_id of
        Some w \<Rightarrow> Inr (Some w)
      | None \<Rightarrow>
          if list_ex (\<lambda>li. ct_locations li \<noteq> []) lines
          then bindr (get_primary_warehouse_id db (Some (po_company po))) (\<lambda>w. Inr (Some w)) else Inr None)"

definition validate_receive_eligibility ::
  "db \<Rightarrow> uuid \<Rightarrow> string \<Rightarrow> counted_line list \<Rightarrow> bool \<Rightarrow> uuid option \<Rightarrow>
   (string \<times> string \<times> receipt_line list) result" where
  "validate_receive_eligibility db po received_by lines check_bins warehouse_id =
     bindr (live_po db po) (\<lambda>order.
     ensure (\<not> blank (po_gp_company order) \<and> \<not> blank (po_po_number order)) (ValidationError (Some ''po_id'')) (
     ensure (receivable (po_status order)) InvalidStateTransitionError (
     ensure (receiver_ok received_by) (ValidationError (Some ''received_by'')) (
     ensure (lines \<noteq> []) (ValidationError (Some ''line_items'')) (
     bindr (case po_project_id order of None \<Rightarrow> Inr () | Some p \<Rightarrow> require_gp_setup_ok db p) (\<lambda>_.
     bindr (require_gp_job_open db (po_project_id order)) (\<lambda>_.
     bindr (bins_warehouse db order check_bins warehouse_id lines) (\<lambda>check.
     bindr (eligible_lines db (po_line_items db po) check lines) (\<lambda>rs.
     bindr (assert_within_pending (po_line_items db po) lines) (\<lambda>_.
     Inr (sent_text (po_po_number order), sent_text (po_gp_company order), rs)))))))))))"

section \<open>Booking a receipt\<close>

definition received_line :: "db \<Rightarrow> po_line list \<Rightarrow> uuid \<Rightarrow> counted_line \<Rightarrow> counted_line result" where
  "received_line db poli w li =
     (case find_row po_line_id (ct_po_line_item_id li) poli of
        None \<Rightarrow> Inl NotFoundError
      | Some l \<Rightarrow>
          ensure (1 \<le> ct_quantity_received li) (ValidationError (Some ''quantity_received'')) (
          ensure (ct_quantity_received li \<le> pending_quantity l) (ValidationError (Some ''quantity_received'')) (
          check_locations db (Some w) li)))"

fun received_lines :: "db \<Rightarrow> po_line list \<Rightarrow> uuid \<Rightarrow> counted_line list \<Rightarrow> counted_line list result" where
  "received_lines db poli w [] = Inr []"
| "received_lines db poli w (li # lis) =
     bindr (received_line db poli w li) (\<lambda>r. bindr (received_lines db poli w lis) (\<lambda>rs. Inr (r # rs)))"

text \<open>The units of a line by bin; with no bins, all of them on no shelf.\<close>

definition bins_or_floor :: "counted_line \<Rightarrow> (shelf \<times> int \<times> int) list" where
  "bins_or_floor li =
     (if ct_locations li = [] then [((None, None, None), ct_quantity_received li, 0)]
      else map (\<lambda>b. ((Some (bc_aisle b), Some (bc_row b), Some (bc_bay b)), bc_quantity b, bc_deficient_quantity b))
        (ct_locations li))"

definition receipt_row ::
  "uuid \<Rightarrow> uuid \<Rightarrow> po_line \<Rightarrow> uuid \<Rightarrow> uuid \<Rightarrow> string option \<Rightarrow> datetime \<Rightarrow> shelf \<times> int \<times> int \<Rightarrow> inventory_location" where
  "receipt_row i p l receive_line w currency now bin =
     \<lparr>il_id = i, il_project_id = p, il_warehouse_id = w, il_hardware_category = po_line_hardware_category l,
      il_product_code = po_line_product_code l, il_quantity = fst (snd bin), il_deficient_quantity = snd (snd bin),
      il_aisle = fst (fst bin), il_row = fst (snd (fst bin)), il_bay = snd (snd (fst bin)),
      il_po_line_item_id = Some (po_line_id l), il_receive_line_item_id = Some receive_line, il_stock_item_id = None,
      il_shipment_return_item_id = None, il_entry_source = None, il_unit_cost = None, il_cost_currency = currency,
      il_received_at = now\<rparr>"

fun add_receipt_rows ::
  "uuid \<Rightarrow> po_line \<Rightarrow> uuid \<Rightarrow> uuid \<Rightarrow> string option \<Rightarrow> datetime \<Rightarrow> (shelf \<times> int \<times> int) list \<Rightarrow> db \<Rightarrow>
   inventory_location list \<times> db" where
  "add_receipt_rows p l rl w currency now [] db = ([], db)"
| "add_receipt_rows p l rl w currency now (bin # bins) db =
     (let (i, db) = fresh db; row = receipt_row i p l rl w currency now bin;
          (rows, db) = add_receipt_rows p l rl w currency now bins (add_il row db)
      in (row # rows, db))"

fun log_receipt_rows :: "string \<Rightarrow> string option \<Rightarrow> inventory_location list \<Rightarrow> db \<Rightarrow> db" where
  "log_receipt_rows received_by number [] db = db"
| "log_receipt_rows received_by number (row # rows) db =
     log_receipt_rows received_by number rows (log_il row RECEIVE received_by
       (JObj [(''quantity'', JInt (il_quantity row)), (''hardwareCategory'', JStr (il_hardware_category row)),
          (''productCode'', JStr (il_product_code row)), (''poNumber'', opt_str number),
          (''location'', location_detail (il_shelf row) (il_warehouse_id row))]) db)"

fun receive_bins ::
  "datetime \<Rightarrow> purchase_order \<Rightarrow> po_line \<Rightarrow> uuid \<Rightarrow> string \<Rightarrow> (shelf \<times> int \<times> int) list \<Rightarrow> db \<Rightarrow> db result" where
  "receive_bins now po l w received_by [] db = Inr db"
| "receive_bins now po l w received_by ((s, q, d) # bins) db =
     bindr (receive_into_stock now (Some w) (po_line_combo l) q d s received_by (po_po_number po)
         (map_option exactly (po_line_unit_cost l)) (po_pool_kind po) None (cost_currency_of (po_line_currency l)) db)
       (\<lambda>(_, db). receive_bins now po l w received_by bins db)"

definition set_po_line :: "uuid \<Rightarrow> (po_line \<Rightarrow> po_line) \<Rightarrow> db \<Rightarrow> db" where
  "set_po_line i f db = db\<lparr>po_lines := update_row po_line_id i f (po_lines db)\<rparr>"

definition set_po :: "uuid \<Rightarrow> (purchase_order \<Rightarrow> purchase_order) \<Rightarrow> db \<Rightarrow> db" where
  "set_po i f db = db\<lparr>purchase_orders := update_row po_id i f (purchase_orders db)\<rparr>"

text \<open>One counted line: its receive line, its rows, and the received quantity of the PO line.\<close>

definition book_line ::
  "datetime \<Rightarrow> purchase_order \<Rightarrow> po_line list \<Rightarrow> uuid \<Rightarrow> string \<Rightarrow> counted_line \<Rightarrow> db \<Rightarrow> (receive_line_item \<times> db) result" where
  "book_line now po poli w received_by li db =
     (case find_row po_line_id (ct_po_line_item_id li) poli of
        None \<Rightarrow> Inl NotFoundError
      | Some l \<Rightarrow>
          let (rl, db) = fresh db;
              line = \<lparr>rv_id = rl, rv_po_line_item_id = po_line_id l, rv_product = po_line_combo l,
                rv_quantity_received = ct_quantity_received li\<rparr>
          in bindr (case po_project_id po of
               None \<Rightarrow> receive_bins now po l w received_by (bins_or_floor li) db
             | Some p \<Rightarrow>
                 (let (rows, db) = add_receipt_rows p l rl w (cost_currency_of (po_line_currency l)) now (bins_or_floor li) db
                  in Inr (log_receipt_rows received_by (po_po_number po) rows db)))
             (\<lambda>db. Inr (line, set_po_line (po_line_id l)
                (\<lambda>x. x\<lparr>po_line_received_quantity := po_line_received_quantity x + ct_quantity_received li\<rparr>) db)))"

fun book_lines ::
  "datetime \<Rightarrow> purchase_order \<Rightarrow> po_line list \<Rightarrow> uuid \<Rightarrow> string \<Rightarrow> counted_line list \<Rightarrow> db \<Rightarrow>
   (receive_line_item list \<times> db) result" where
  "book_lines now po poli w received_by [] db = Inr ([], db)"
| "book_lines now po poli w received_by (li # lis) db =
     bindr (book_line now po poli w received_by li db) (\<lambda>(line, db).
     bindr (book_lines now po poli w received_by lis db) (\<lambda>(lines, db). Inr (line # lines, db)))"

text \<open>The order closes when every line has all it asked for.\<close>

definition po_after :: "db \<Rightarrow> purchase_order \<Rightarrow> po_status" where
  "po_after db po =
     (let lines = po_line_items db (po_id po) in
      if list_all (\<lambda>l. po_line_ordered_quantity l \<le> po_line_received_quantity l) lines then PO_CLOSED
      else if list_ex (\<lambda>l. 0 < po_line_received_quantity l) lines \<and> po_status po \<noteq> PARTIALLY_RECEIVED \<and> po_status po \<noteq> PO_CLOSED
        then PARTIALLY_RECEIVED
      else po_status po)"

definition create_receive ::
  "datetime \<Rightarrow> uuid \<Rightarrow> string \<Rightarrow> counted_line list \<Rightarrow> uuid option \<Rightarrow> gp_receipt \<Rightarrow> string option \<Rightarrow> db \<Rightarrow>
   (uuid \<times> db) result" where
  "create_receive now po_i received_by lines warehouse_id receipt notes db =
     bindr (live_po db po_i) (\<lambda>po.
     bindr (case warehouse_id of Some w \<Rightarrow> Inr w | None \<Rightarrow> get_primary_warehouse_id db (Some (po_company po))) (\<lambda>w.
     ensure (receivable (po_status po)) InvalidStateTransitionError (
     ensure (receiver_ok received_by) (ValidationError (Some ''received_by'')) (
     let poli = po_line_items db po_i in
     bindr (received_lines db poli w lines) (\<lambda>lines.
     bindr (assert_within_pending poli lines) (\<lambda>_.
     let (i, db) = fresh db in
     bindr (book_lines now po poli w received_by lines db) (\<lambda>(items, db).
     let record = \<lparr>rr_id = i, rr_po_id = po_i, rr_received_at = now, rr_received_by = received_by,
           rr_receipt_number = fst receipt, rr_batch_number = snd receipt, rr_notes = notes, rr_line_items = items\<rparr>;
         db = db\<lparr>receive_records := receive_records db @ [record]\<rparr>
     in Inr (i, set_po po_i (\<lambda>x. x\<lparr>po_status := po_after db po\<rparr>) db))))))))"

end
