(* ===== verification/ReceivingFacts.thy ===== *)
theory ReceivingFacts
  imports Receiving FloorMoves
begin

text \<open>What the checks let through, and what a receipt does to the floor and to the order.\<close>

section \<open>What the checks let through\<close>

definition bin_units :: "counted_line \<Rightarrow> (int \<times> int) list" where
  "bin_units li = map snd (bins_or_floor li)"

definition units_fit :: "counted_line \<Rightarrow> bool" where
  "units_fit li \<longleftrightarrow> 1 \<le> ct_quantity_received li \<and> sum_list (map fst (bin_units li)) = ct_quantity_received li \<and>
     list_all (\<lambda>b. 1 \<le> fst b \<and> 0 \<le> snd b \<and> snd b \<le> fst b) (bin_units li)"

text \<open>The same count with its labels normalized.\<close>

definition same_count :: "counted_line \<Rightarrow> counted_line \<Rightarrow> bool" where
  "same_count a b \<longleftrightarrow> ct_po_line_item_id a = ct_po_line_item_id b \<and> ct_quantity_received a = ct_quantity_received b \<and>
     bin_units a = bin_units b"

lemma check_bins_Inr:
  "check_bins_of db check bs = Inr bs' \<Longrightarrow>
     list_all (\<lambda>b. 1 \<le> bc_quantity b \<and> 0 \<le> bc_deficient_quantity b \<and> bc_deficient_quantity b \<le> bc_quantity b) bs \<and>
     map (\<lambda>b. (bc_quantity b, bc_deficient_quantity b)) bs' = map (\<lambda>b. (bc_quantity b, bc_deficient_quantity b)) bs"
  by (induction bs arbitrary: bs') (auto simp: bindr_eq_Inr ensure_eq_Inr)

lemma bin_units_eq:
  "bin_units li = (if ct_locations li = [] then [(ct_quantity_received li, 0)]
     else map (\<lambda>b. (bc_quantity b, bc_deficient_quantity b)) (ct_locations li))"
  by (simp add: bin_units_def bins_or_floor_def comp_def)

lemma check_locations_Inr:
  assumes "check_locations db check li = Inr li'" and "1 \<le> ct_quantity_received li"
  shows "same_count li' li" and "units_fit li'"
proof -
  have "same_count li' li \<and> units_fit li'"
  proof (cases "ct_locations li = []")
    case True
    then show ?thesis using assms by (simp add: check_locations_def same_count_def units_fit_def bin_units_eq)
  next
    case False
    then obtain bins where sum: "sum_list (map bc_quantity (ct_locations li)) = ct_quantity_received li"
      and bins: "check_bins_of db check (ct_locations li) = Inr bins" and li': "li' = li\<lparr>ct_locations := bins\<rparr>"
      using assms(1) by (auto simp: check_locations_def bindr_eq_Inr ensure_eq_Inr)
    note got = check_bins_Inr [OF bins]
    then have "bins \<noteq> []" using False by (metis (no_types, lifting) list.map_disc_iff)
    then have units: "bin_units li' = bin_units li" using got False by (simp add: bin_units_eq li')
    moreover have "sum_list (map fst (bin_units li)) = ct_quantity_received li" using sum False by (simp add: bin_units_eq comp_def)
    moreover have "list_all (\<lambda>b. 1 \<le> fst b \<and> 0 \<le> snd b \<and> snd b \<le> fst b) (bin_units li)"
      using got False by (simp add: bin_units_eq list_all_iff)
    ultimately show ?thesis using assms(2) by (simp add: same_count_def units_fit_def li')
  qed
  then show "same_count li' li" and "units_fit li'" by simp_all
qed

lemma received_lines_Inr:
  "received_lines db poli w lines = Inr lines' \<Longrightarrow> list_all2 same_count lines' lines \<and> list_all units_fit lines' \<and>
     list_all (\<lambda>li. \<exists>l. find_row po_line_id (ct_po_line_item_id li) poli = Some l) lines'"
proof (induction lines arbitrary: lines')
  case (Cons li lis)
  then obtain r rs l where l: "find_row po_line_id (ct_po_line_item_id li) poli = Some l" "1 \<le> ct_quantity_received li"
    "check_locations db (Some w) li = Inr r" and rs: "received_lines db poli w lis = Inr rs" "lines' = r # rs"
    by (auto simp: bindr_eq_Inr ensure_eq_Inr received_line_def split: option.splits)
  note here = check_locations_Inr [OF l(3,2)]
  then have "ct_po_line_item_id r = ct_po_line_item_id li" by (simp add: same_count_def)
  then show ?case using Cons.IH [OF rs(1)] here l(1) by (simp add: rs(2))
qed simp

lemma requested_get:
  "dict_get (requested_by_line lines) i = sum_list (map ct_quantity_received (filter (\<lambda>li. ct_po_line_item_id li = i) lines))"
  by (simp add: requested_by_line_def dict_get_sum_by)

definition requested :: "counted_line list \<Rightarrow> uuid \<Rightarrow> int" where
  "requested lines i = sum_list (map ct_quantity_received (filter (\<lambda>li. ct_po_line_item_id li = i) lines))"

lemma requested_simps [simp]:
  "requested [] i = 0"
  "requested (li # lis) i = (if ct_po_line_item_id li = i then ct_quantity_received li else 0) + requested lis i"
  by (simp_all add: requested_def)

lemma requested_same: "list_all2 same_count xs ys \<Longrightarrow> requested xs i = requested ys i"
  by (induction rule: list_all2_induct) (simp_all add: same_count_def)

lemma requested_notin: "i \<notin> ct_po_line_item_id ` set lines \<Longrightarrow> requested lines i = 0"
  by (induction lines) auto

lemma within_pending_Inr:
  assumes "assert_within_pending poli lines = Inr ()" and "find_row po_line_id i poli = Some l"
    and "i \<in> ct_po_line_item_id ` set lines"
  shows "requested lines i \<le> pending_quantity l"
proof -
  have "(i, dict_get (requested_by_line lines) i) \<in> set (requested_by_line lines)"
    using assms(3) by (simp add: requested_by_line_def sum_by_def dict_get_tally tally_mem image_image)
  then show ?thesis using assms(1,2)
    by (auto simp: assert_within_pending_def ensure_eq_Inr list_all_iff requested_get requested_def split: option.splits)
qed

section \<open>What a receipt does to the floor\<close>

definition booked_worth :: "scale \<Rightarrow> uuid option \<Rightarrow> combo \<Rightarrow> (int \<times> int) list \<Rightarrow> int" where
  "booked_worth a owner c units = tot (\<lambda>u. worth a owner c (fst u) (snd u)) units"

lemma booked_worth_simps [simp]:
  "booked_worth a owner c [] = 0" "booked_worth a owner c (u # us) = worth a owner c (fst u) (snd u) + booked_worth a owner c us"
  by (simp_all add: booked_worth_def)

lemma moves_desk [simp]:
  "moves d db (set_po_line i f db') = moves d db db'" "moves d db (set_po i g db') = moves d db db'"
  "moves d db (db'\<lparr>receive_records := rs\<rparr>) = moves d db db'" "moves d db (db'\<lparr>receive_drafts := ds\<rparr>) = moves d db db'"
  "moves d db (db'\<lparr>gp_write_outbox := gs\<rparr>) = moves d db db'" "moves d db (db'\<lparr>gp_write_idempotency := ls\<rparr>) = moves d db db'"
  by (simp_all add: moves_def weigh_def stock_ok_defs set_po_line_def set_po_def)

lemma moves_fresh: "stock_ok db \<Longrightarrow> moves (\<lambda>a. 0) db (db\<lparr>next_id := Suc (next_id db)\<rparr>)"
  by (simp add: moves_def weigh_def stock_ok_bump)

lemma receipt_row_facts [simp]:
  "il_id (receipt_row i p l rl w cur now bin) = i" "has_origin (receipt_row i p l rl w cur now bin)"
  "inventory_row_ok (receipt_row i p l rl w cur now bin) = (0 \<le> snd (snd bin) \<and> snd (snd bin) \<le> fst (snd bin))"
  "il_worth a (receipt_row i p l rl w cur now bin) = worth a (Some p) (po_line_combo l) (fst (snd bin)) (snd (snd bin))"
  by (auto simp: receipt_row_def has_origin_def inventory_row_ok_def il_worth_def il_combo_def po_line_combo_def)

lemma receipt_rows_moves:
  assumes "stock_ok db" and "list_all (\<lambda>u. 1 \<le> fst u \<and> 0 \<le> snd u \<and> snd u \<le> fst u) (map snd bins)"
    and "add_receipt_rows p l rl w cur now bins db = (rows, db')"
  shows "moves (\<lambda>a. booked_worth a (Some p) (po_line_combo l) (map snd bins)) db db'"
  using assms
proof (induction bins arbitrary: db rows)
  case Nil
  then show ?case by (simp add: moves_refl)
next
  case (Cons bin bins)
  let ?row = "receipt_row (next_id db) p l rl w cur now bin"
  let ?db1 = "add_il ?row (db\<lparr>next_id := Suc (next_id db)\<rparr>)"
  have one: "moves (\<lambda>a. il_worth a ?row) db ?db1" using Cons.prems(1,2) by (intro moves_add_il) simp_all
  obtain rows' where "add_receipt_rows p l rl w cur now bins ?db1 = (rows', db')"
    using Cons.prems(3) by (auto simp: fresh_def Let_def split: prod.splits)
  with Cons.IH [OF moves_ok [OF one]] Cons.prems(2)
  have "moves (\<lambda>a. booked_worth a (Some p) (po_line_combo l) (map snd bins)) ?db1 db'" by simp
  from moves_trans [OF one this] show ?case by simp
qed

lemma receive_bins_moves:
  assumes "receive_bins now po l w who bins db = Inr db'" and "stock_ok db"
  shows "moves (\<lambda>a. booked_worth a None (po_line_combo l) (map snd bins)) db db'"
  using assms
proof (induction bins arbitrary: db)
  case Nil
  then show ?case by (simp add: moves_refl)
next
  case (Cons bin bins)
  obtain s q d where bin: "bin = (s, q, d)" by (cases bin) auto
  then obtain j db1 where one: "receive_into_stock now (Some w) (po_line_combo l) q d s who (po_po_number po)
      (map_option exactly (po_line_unit_cost l)) (po_pool_kind po) None (cost_currency_of (po_line_currency l)) db = Inr (j, db1)"
    and rest: "receive_bins now po l w who bins db1 = Inr db'"
    using Cons.prems(1) by (auto simp: bindr_eq_Inr)
  have "map_option pool_unit_cost (map_option exactly (po_line_unit_cost l)) =
      map_option column_cost (map_option exactly (po_line_unit_cost l))" by (cases "po_line_unit_cost l") simp_all
  from receive_moves [OF one Cons.prems(2) this]
  have here: "moves (\<lambda>a. worth a None (po_line_combo l) q d) db db1" .
  from moves_trans [OF here Cons.IH [OF rest moves_ok [OF here]]] show ?case by (simp add: bin)
qed

lemma log_receipt_moves [simp]: "moves d db (log_receipt_rows who n rows db') = moves d db db'"
  by (induction rows arbitrary: db') simp_all

lemma book_line_moves:
  assumes run: "book_line now po poli w who li db = Inr (line, db')" and ok: "stock_ok db" and fit: "units_fit li"
    and l: "find_row po_line_id (ct_po_line_item_id li) poli = Some l"
  shows "moves (\<lambda>a. booked_worth a (po_project_id po) (po_line_combo l) (bin_units li)) db db'"
proof -
  let ?db1 = "db\<lparr>next_id := Suc (next_id db)\<rparr>"
  have one: "moves (\<lambda>a. 0) db ?db1" by (rule moves_fresh [OF ok])
  have fits: "list_all (\<lambda>u. 1 \<le> fst u \<and> 0 \<le> snd u \<and> snd u \<le> fst u) (map snd (bins_or_floor li))"
    using fit by (simp add: units_fit_def bin_units_def)
  show ?thesis
  proof (cases "po_project_id po")
    case None
    then obtain db2 where "receive_bins now po l w who (bins_or_floor li) ?db1 = Inr db2"
      and db': "db' = set_po_line (po_line_id l)
        (\<lambda>x. x\<lparr>po_line_received_quantity := po_line_received_quantity x + ct_quantity_received li\<rparr>) db2"
      using run l by (auto simp: book_line_def fresh_def Let_def bindr_eq_Inr)
    from moves_trans [OF one receive_bins_moves [OF this(1) moves_ok [OF one]]] show ?thesis
      by (simp add: db' None bin_units_def)
  next
    case (Some p)
    obtain rows db2 where rows: "add_receipt_rows p l (next_id db) w (cost_currency_of (po_line_currency l)) now (bins_or_floor li) ?db1 =
        (rows, db2)" by (cases "add_receipt_rows p l (next_id db) w (cost_currency_of (po_line_currency l)) now (bins_or_floor li) ?db1")
    then have db': "db' = set_po_line (po_line_id l)
        (\<lambda>x. x\<lparr>po_line_received_quantity := po_line_received_quantity x + ct_quantity_received li\<rparr>)
        (log_receipt_rows who (po_po_number po) rows db2)"
      using run l Some by (simp add: book_line_def fresh_def Let_def)
    from moves_trans [OF one receipt_rows_moves [OF moves_ok [OF one] fits rows]] show ?thesis
      by (simp add: db' Some bin_units_def)
  qed
qed

definition received_worth :: "scale \<Rightarrow> purchase_order \<Rightarrow> po_line list \<Rightarrow> counted_line list \<Rightarrow> int" where
  "received_worth a po poli lines = tot (\<lambda>li. case find_row po_line_id (ct_po_line_item_id li) poli of
     None \<Rightarrow> 0 | Some l \<Rightarrow> booked_worth a (po_project_id po) (po_line_combo l) (bin_units li)) lines"

lemma received_worth_same: "list_all2 same_count xs ys \<Longrightarrow> received_worth a po poli xs = received_worth a po poli ys"
  by (induction rule: list_all2_induct) (simp_all add: received_worth_def same_count_def split: option.splits)

lemma book_lines_moves:
  assumes "book_lines now po poli w who lines db = Inr (items, db')" and "stock_ok db" and "list_all units_fit lines"
  shows "moves (\<lambda>a. received_worth a po poli lines) db db'"
  using assms
proof (induction lines arbitrary: db items)
  case Nil
  then show ?case by (simp add: received_worth_def moves_refl)
next
  case (Cons li lis)
  then obtain line db1 rest where one: "book_line now po poli w who li db = Inr (line, db1)"
    and more: "book_lines now po poli w who lis db1 = Inr (rest, db')"
    by (auto simp: bindr_eq_Inr)
  obtain l where l: "find_row po_line_id (ct_po_line_item_id li) poli = Some l"
    using one by (auto simp: book_line_def split: option.splits)
  have here: "moves (\<lambda>a. booked_worth a (po_project_id po) (po_line_combo l) (bin_units li)) db db1"
    using book_line_moves [OF one Cons.prems(2) _ l] Cons.prems(3) by simp
  have "moves (\<lambda>a. received_worth a po poli lis) db1 db'"
    using Cons.IH [OF more moves_ok [OF here]] Cons.prems(3) by simp
  from moves_trans [OF here this] show ?case by (simp add: received_worth_def l)
qed

section \<open>What a receipt does to the order, and what it leaves alone\<close>

definition same_desk :: "db \<Rightarrow> db \<Rightarrow> bool" where
  "same_desk a b \<longleftrightarrow> projects a = projects b \<and> warehouses a = warehouses b \<and> warehouse_locations a = warehouse_locations b \<and>
     purchase_orders a = purchase_orders b \<and> po_documents a = po_documents b \<and> receive_drafts a = receive_drafts b \<and>
     receive_records a = receive_records b \<and> gp_write_outbox a = gp_write_outbox b \<and>
     gp_write_idempotency a = gp_write_idempotency b \<and> notifications a = notifications b \<and> next_id a \<le> next_id b"

lemma same_desk_refl: "same_desk a a"
  by (simp add: same_desk_def)

lemma same_desk_trans: "same_desk a b \<Longrightarrow> same_desk b c \<Longrightarrow> same_desk a c"
  by (auto simp: same_desk_def)

lemma receive_into_stock_frame:
  "receive_into_stock now w c q d s who n cost k company cur db = Inr (j, db') \<Longrightarrow> same_desk db db' \<and> po_lines db' = po_lines db"
  by (auto simp: receive_into_stock_def find_or_create_stock_row_def fresh_def Let_def bindr_eq_Inr ensure_eq_Inr same_desk_def
      set_st_def log_st_def log_audit_event_def split: option.splits prod.splits)

lemma receive_bins_frame: "receive_bins now po l w who bins db = Inr db' \<Longrightarrow> same_desk db db' \<and> po_lines db' = po_lines db"
proof (induction bins arbitrary: db)
  case (Cons bin bins)
  obtain s q d where bin: "bin = (s, q, d)" by (cases bin) auto
  then obtain j db1 where "receive_into_stock now (Some w) (po_line_combo l) q d s who (po_po_number po)
      (map_option exactly (po_line_unit_cost l)) (po_pool_kind po) None (cost_currency_of (po_line_currency l)) db = Inr (j, db1)"
    and "receive_bins now po l w who bins db1 = Inr db'"
    using Cons.prems by (auto simp: bindr_eq_Inr)
  then show ?case using receive_into_stock_frame Cons.IH same_desk_trans by metis
qed (simp add: same_desk_refl)

lemma add_receipt_rows_frame:
  "add_receipt_rows p l rl w cur now bins db = (rows, db') \<Longrightarrow> same_desk db db' \<and> po_lines db' = po_lines db"
proof (induction bins arbitrary: db rows)
  case (Cons bin bins)
  let ?db1 = "add_il (receipt_row (next_id db) p l rl w cur now bin) (db\<lparr>next_id := Suc (next_id db)\<rparr>)"
  obtain rows' where "add_receipt_rows p l rl w cur now bins ?db1 = (rows', db')"
    using Cons.prems by (auto simp: fresh_def Let_def split: prod.splits)
  from Cons.IH [OF this] have "same_desk ?db1 db'" "po_lines db' = po_lines ?db1" by simp_all
  moreover have "same_desk db ?db1" "po_lines ?db1 = po_lines db" by (simp_all add: same_desk_def add_il_def)
  ultimately show ?case using same_desk_trans by auto
qed (simp add: same_desk_refl)

lemma log_receipt_frame [simp]:
  "same_desk db (log_receipt_rows who n rows db') = same_desk db db'" "po_lines (log_receipt_rows who n rows db') = po_lines db'"
  by (induction rows arbitrary: db') (simp_all add: same_desk_def log_il_def log_audit_event_def)

definition add_received :: "counted_line list \<Rightarrow> po_line \<Rightarrow> po_line" where
  "add_received lines l = l\<lparr>po_line_received_quantity := po_line_received_quantity l + requested lines (po_line_id l)\<rparr>"

lemma add_received_simps [simp]:
  "po_line_id (add_received lines l) = po_line_id l" "po_line_po_id (add_received lines l) = po_line_po_id l"
  "po_line_ordered_quantity (add_received lines l) = po_line_ordered_quantity l"
  "po_line_received_quantity (add_received lines l) = po_line_received_quantity l + requested lines (po_line_id l)"
  "po_line_gp_line_ord (add_received lines l) = po_line_gp_line_ord l" "po_line_combo (add_received lines l) = po_line_combo l"
  by (simp_all add: add_received_def po_line_combo_def)

lemma book_line_frame:
  assumes "book_line now po poli w who li db = Inr (line, db')"
  shows "same_desk db db'" and "po_lines db' = map (add_received [li]) (po_lines db)"
proof -
  obtain l where l: "find_row po_line_id (ct_po_line_item_id li) poli = Some l"
    using assms by (auto simp: book_line_def split: option.splits)
  have id: "po_line_id l = ct_po_line_item_id li" using find_row_Some [OF l] by simp
  let ?db1 = "db\<lparr>next_id := Suc (next_id db)\<rparr>"
  let ?set = "set_po_line (po_line_id l) (\<lambda>x. x\<lparr>po_line_received_quantity := po_line_received_quantity x + ct_quantity_received li\<rparr>)"
  have "\<exists>db2. same_desk ?db1 db2 \<and> po_lines db2 = po_lines ?db1 \<and> db' = ?set db2"
  proof (cases "po_project_id po")
    case None
    then show ?thesis using assms l receive_bins_frame by (fastforce simp: book_line_def fresh_def Let_def bindr_eq_Inr)
  next
    case (Some p)
    obtain rows db2 where rows: "add_receipt_rows p l (next_id db) w (cost_currency_of (po_line_currency l)) now (bins_or_floor li) ?db1 =
        (rows, db2)" by (cases "add_receipt_rows p l (next_id db) w (cost_currency_of (po_line_currency l)) now (bins_or_floor li) ?db1")
    then have "db' = ?set (log_receipt_rows who (po_po_number po) rows db2)"
      using assms l Some by (simp add: book_line_def fresh_def Let_def)
    then show ?thesis using add_receipt_rows_frame [OF rows]
      by (intro exI [of _ "log_receipt_rows who (po_po_number po) rows db2"]) simp
  qed
  then obtain db2 where db2: "same_desk ?db1 db2" "po_lines db2 = po_lines db" "db' = ?set db2" by auto
  then show "same_desk db db'" by (simp add: same_desk_def set_po_line_def)
  show "po_lines db' = map (add_received [li]) (po_lines db)"
    using db2 id by (auto simp: set_po_line_def update_row_def add_received_def)
qed

lemma book_lines_frame:
  "book_lines now po poli w who lines db = Inr (items, db') \<Longrightarrow> same_desk db db' \<and> po_lines db' = map (add_received lines) (po_lines db)"
proof (induction lines arbitrary: db items)
  case Nil
  then show ?case by (simp add: same_desk_refl add_received_def)
next
  case (Cons li lis)
  then obtain line db1 rest where one: "book_line now po poli w who li db = Inr (line, db1)"
    and more: "book_lines now po poli w who lis db1 = Inr (rest, db')"
    by (auto simp: bindr_eq_Inr)
  have "po_lines db' = map (add_received (li # lis)) (po_lines db)"
    using Cons.IH [OF more] book_line_frame [OF one] by (simp add: add_received_def)
  then show ?case using Cons.IH [OF more] book_line_frame [OF one] same_desk_trans by blast
qed

lemma live_po_Inr: "live_po db i = Inr po \<longleftrightarrow> find_row po_id i (purchase_orders db) = Some po \<and> po_deleted_at po = None"
  by (auto simp: live_po_def ensure_eq_Inr split: option.splits)

text \<open>Everything a booked receipt did, and what it needed.\<close>

lemma po_after_cong: "po_lines a = po_lines b \<Longrightarrow> po_after a po = po_after b po"
  by (simp add: po_after_def po_line_items_def)

lemma bindr_InrE: "bindr m f = Inr y \<Longrightarrow> (\<And>x. m = Inr x \<Longrightarrow> f x = Inr y \<Longrightarrow> P) \<Longrightarrow> P"
  by (auto simp: bindr_eq_Inr)

lemma create_receive_Inr:
  assumes "create_receive now po_i who lines wh receipt notes db = Inr (i, db')"
  obtains po w lines' r where
    "live_po db po_i = Inr po" "receivable (po_status po)" "receiver_ok who"
    "received_lines db (po_line_items db po_i) w lines = Inr lines'" "assert_within_pending (po_line_items db po_i) lines' = Inr ()"
    "i = next_id db" "next_id db < next_id db'"
    "po_lines db' = map (add_received lines) (po_lines db)"
    "purchase_orders db' = update_row po_id po_i (\<lambda>x. x\<lparr>po_status := po_after db' po\<rparr>) (purchase_orders db)"
    "receive_records db' = receive_records db @ [r]" "rr_id r = i" "rr_po_id r = po_i" "(rr_receipt_number r, rr_batch_number r) = receipt"
    "receive_drafts db' = receive_drafts db" "gp_write_outbox db' = gp_write_outbox db"
    "gp_write_idempotency db' = gp_write_idempotency db" "warehouses db' = warehouses db"
    "warehouse_locations db' = warehouse_locations db" "projects db' = projects db" "po_documents db' = po_documents db"
    "notifications db' = notifications db"
    "stock_ok db \<Longrightarrow> moves (\<lambda>a. received_worth a po (po_line_items db po_i) lines) db db'"
proof -
  let ?poli = "po_line_items db po_i"
  let ?db1 = "db\<lparr>next_id := Suc (next_id db)\<rparr>"
  let ?rec = "\<lambda>items. \<lparr>rr_id = next_id db, rr_po_id = po_i, rr_received_at = now, rr_received_by = who,
    rr_receipt_number = fst receipt, rr_batch_number = snd receipt, rr_notes = notes, rr_line_items = items\<rparr>"
  obtain po w lines' where got: "live_po db po_i = Inr po" "receivable (po_status po)" "receiver_ok who"
    "received_lines db ?poli w lines = Inr lines'" "assert_within_pending ?poli lines' = Inr ()"
    and run: "bindr (book_lines now po ?poli w who lines' ?db1) (\<lambda>(items, db2).
       Inr (next_id db, set_po po_i (\<lambda>x. x\<lparr>po_status := po_after (db2\<lparr>receive_records := receive_records db2 @ [?rec items]\<rparr>) po\<rparr>)
         (db2\<lparr>receive_records := receive_records db2 @ [?rec items]\<rparr>))) = Inr (i, db')"
    using assms unfolding create_receive_def fresh_def Let_def prod.case bindr_eq_Inr [of "live_po db po_i"]
    by (elim exE conjE) (erule bindr_InrE, simp only: ensure_eq_Inr, elim conjE bindr_InrE, simp)
  from run obtain items db2 where booked: "book_lines now po ?poli w who lines' ?db1 = Inr (items, db2)" and i: "i = next_id db"
    and db': "db' = set_po po_i (\<lambda>x. x\<lparr>po_status := po_after (db2\<lparr>receive_records := receive_records db2 @ [?rec items]\<rparr>) po\<rparr>)
         (db2\<lparr>receive_records := receive_records db2 @ [?rec items]\<rparr>)"
    by (elim bindr_InrE) (simp only: prod.case split_beta sum.inject prod.inject, metis prod.collapse)
  have desk: "same_desk ?db1 db2" "po_lines db2 = map (add_received lines') (po_lines db)"
    using book_lines_frame [OF booked] by simp_all
  have same: "list_all2 same_count lines' lines" "list_all units_fit lines'" using received_lines_Inr [OF got(4)] by simp_all
  have lines: "add_received lines' = add_received lines" by (rule ext) (simp add: add_received_def requested_same [OF same(1)])
  let ?rs = "receive_records db2 @ [?rec items]"
  have after: "po_after (db2\<lparr>receive_records := ?rs\<rparr>) po = po_after db' po"
    by (rule po_after_cong) (simp add: db' set_po_def)
  have orders: "purchase_orders db' = update_row po_id po_i (\<lambda>x. x\<lparr>po_status := po_after (db2\<lparr>receive_records := ?rs\<rparr>) po\<rparr>)
      (purchase_orders db2)"
    unfolding db' set_po_def by simp
  show ?thesis
  proof (rule that [of po w lines' "?rec items", OF got i])
    show "next_id db < next_id db'" using desk(1) by (simp add: db' set_po_def same_desk_def Let_def)
    show "po_lines db' = map (add_received lines) (po_lines db)" using desk(2) lines by (simp add: db' set_po_def Let_def)
    show "purchase_orders db' = update_row po_id po_i (\<lambda>x. x\<lparr>po_status := po_after db' po\<rparr>) (purchase_orders db)"
      unfolding orders after using desk(1) by (simp add: same_desk_def)
    show "stock_ok db \<Longrightarrow> moves (\<lambda>a. received_worth a po ?poli lines) db db'"
    proof -
      assume ok: "stock_ok db"
      have one: "moves (\<lambda>a. 0) db ?db1" by (rule moves_fresh [OF ok])
      from moves_trans [OF one book_lines_moves [OF booked moves_ok [OF one] same(2)]]
      show ?thesis by (simp add: db' Let_def received_worth_same [OF same(1)])
    qed
  qed (use desk(1) in \<open>simp_all add: db' set_po_def same_desk_def Let_def i\<close>)
qed

end
