(* ===== verification/ReceiveDrafts.thy ===== *)
theory ReceiveDrafts
  imports Receiving
begin

text \<open>
  \<open>warehouse/receive_drafts.py\<close>: somebody counts a delivery and submits a draft, a Warehouse Manager
  approves it. An approval first claims the draft, then the receipt is posted to the accounting system (GP),
  then it is booked; a claim is released when nothing reached GP.
\<close>

definition MAX_REJECTION_REASON :: nat where "MAX_REJECTION_REASON = 1000"
definition MAX_RECEIVE_NOTES :: nat where "MAX_RECEIVE_NOTES = 2000"

text \<open>In microseconds, as the clock is: the relay call's thirty seconds and a minute.\<close>

definition APPROVAL_ATTEMPT :: datetime where "APPROVAL_ATTEMPT = 90000000"

definition in_flight_status :: "receive_draft_status \<Rightarrow> bool" where
  "in_flight_status s \<longleftrightarrow> s \<in> {APPROVING, DRAFT_APPROVED}"

definition clean_notes :: "string option \<Rightarrow> string option result" where
  "clean_notes notes =
     (let cleaned = strip (sent_text notes) in
      if cleaned = [] then Inr None
      else ensure (length cleaned \<le> MAX_RECEIVE_NOTES) (ValidationError (Some ''notes'')) (Inr (Some cleaned)))"

definition locked_draft :: "db \<Rightarrow> uuid \<Rightarrow> receive_draft result" where
  "locked_draft db i = (case find_row rd_id i (receive_drafts db) of None \<Rightarrow> Inl NotFoundError | Some d \<Rightarrow> Inr d)"

definition set_draft :: "uuid \<Rightarrow> (receive_draft \<Rightarrow> receive_draft) \<Rightarrow> db \<Rightarrow> db" where
  "set_draft i f db = db\<lparr>receive_drafts := update_row rd_id i f (receive_drafts db)\<rparr>"

text \<open>An update of the row through the session stamps it, when it changes it.\<close>

definition stamped :: "datetime \<Rightarrow> (receive_draft \<Rightarrow> receive_draft) \<Rightarrow> receive_draft \<Rightarrow> receive_draft" where
  "stamped now f d = (if f d = d then d else (f d)\<lparr>rd_updated_at := now\<rparr>)"

section \<open>Submitting a count\<close>

definition validate_packing_slip :: "db \<Rightarrow> uuid \<Rightarrow> uuid option \<Rightarrow> unit result" where
  "validate_packing_slip db po document =
     (case document of
        None \<Rightarrow> Inl (ValidationError (Some ''packing_slip_document_id''))
      | Some i \<Rightarrow>
          (case find_row pd_id i (po_documents db) of
             None \<Rightarrow> Inl NotFoundError
           | Some doc \<Rightarrow>
               ensure (pd_po_id doc = po) (ValidationError (Some ''packing_slip_document_id'')) (
               ensure (pd_document_type doc = PACKING_SLIP) (ValidationError (Some ''packing_slip_document_id'')) (Inr ()))))"

definition draft_for_create_key :: "db \<Rightarrow> string option \<Rightarrow> receive_draft option" where
  "draft_for_create_key db key =
     (if blank key then None else List.find (\<lambda>d. rd_create_idempotency_key d = key) (receive_drafts db))"

definition replayed_on_this_po :: "receive_draft \<Rightarrow> uuid \<Rightarrow> uuid result" where
  "replayed_on_this_po existing po =
     ensure (rd_po_id existing = po) (ValidationError (Some ''idempotency_key'')) (Inr (rd_id existing))"

definition assert_no_pending_draft :: "db \<Rightarrow> uuid \<Rightarrow> uuid option \<Rightarrow> unit result" where
  "assert_no_pending_draft db po exclude =
     ensure (\<not> list_ex (\<lambda>d. rd_po_id d = po \<and> rd_status d = PENDING_APPROVAL \<and> exclude \<noteq> Some (rd_id d)) (receive_drafts db))
       (ConflictError None) (Inr ())"

definition assert_draft_warehouse :: "db \<Rightarrow> uuid option \<Rightarrow> purchase_order option \<Rightarrow> unit result" where
  "assert_draft_warehouse db warehouse_id po =
     (case warehouse_id of
        None \<Rightarrow> Inr ()
      | Some w \<Rightarrow> bindr (assert_usable_destination db w (map_option po_company po) ''warehouse_id'') (\<lambda>_. Inr ()))"

definition po_of :: "db \<Rightarrow> uuid \<Rightarrow> purchase_order option" where
  "po_of db i = find_row po_id i (purchase_orders db)"

text \<open>A notice about a draft: \<open>create_notification\<close> with the draft's id on it.\<close>

definition draft_notice ::
  "datetime \<Rightarrow> uuid \<Rightarrow> string option \<Rightarrow> notification_type \<Rightarrow> string option \<Rightarrow> uuid option \<Rightarrow> db \<Rightarrow> db result" where
  "draft_notice now project_id role ty user draft db =
     bindr (create_notification now project_id role ty None user None db) (\<lambda>db'.
     Inr (db'\<lparr>notifications := update_row no_id (next_id db) (\<lambda>n. n\<lparr>no_receive_draft_id := draft\<rparr>) (notifications db')\<rparr>))"

definition notify_submitted :: "datetime \<Rightarrow> uuid \<Rightarrow> purchase_order option \<Rightarrow> db \<Rightarrow> db result" where
  "notify_submitted now draft po db =
     (case Option.bind po po_project_id of
        None \<Rightarrow> Inr db
      | Some p \<Rightarrow> draft_notice now p (Some WAREHOUSE_MANAGER_RECIPIENT_ROLE) RECEIVE_DRAFT_SUBMITTED None (Some draft) db)"

definition notify_author :: "datetime \<Rightarrow> receive_draft \<Rightarrow> db \<Rightarrow> db result" where
  "notify_author now d db =
     (case Option.bind (po_of db (rd_po_id d)) po_project_id of
        None \<Rightarrow> Inr db
      | Some p \<Rightarrow> draft_notice now p None RECEIVE_DRAFT_REJECTED (Some (rd_created_by_user_id d)) None db)"

definition new_draft ::
  "uuid \<Rightarrow> datetime \<Rightarrow> uuid \<Rightarrow> uuid option \<Rightarrow> uuid option \<Rightarrow> string \<Rightarrow> string \<Rightarrow> string option \<Rightarrow> string option \<Rightarrow>
   counted_line list \<Rightarrow> receive_draft" where
  "new_draft i now po warehouse_id document user name notes key lines =
     \<lparr>rd_id = i, rd_po_id = po, rd_warehouse_id = warehouse_id, rd_packing_slip_document_id = document,
      rd_status = PENDING_APPROVAL, rd_created_by_user_id = user, rd_created_by_name = name,
      rd_reviewed_by_user_id = None, rd_reviewed_by_name = None, rd_reviewed_at = None, rd_rejection_reason = None,
      rd_notes = notes, rd_create_idempotency_key = (if blank key then None else key), rd_approval_idempotency_key = None,
      rd_approved_outbox_entry_id = None, rd_receive_record_id = None, rd_created_at = now, rd_updated_at = now,
      rd_line_items = lines\<rparr>"

definition has_active_warehouse :: "db \<Rightarrow> string \<Rightarrow> bool" where
  "has_active_warehouse db company = list_ex (\<lambda>w. wh_company w = company \<and> wh_is_active w) (warehouses db)"

text \<open>A resend under its key gets the draft it wrote, before anything else about the order is asked.\<close>

definition create_receive_draft ::
  "datetime \<Rightarrow> uuid \<Rightarrow> counted_line list \<Rightarrow> string \<Rightarrow> string \<Rightarrow> uuid option \<Rightarrow> string option \<Rightarrow> uuid option \<Rightarrow>
   string option \<Rightarrow> db \<Rightarrow> (uuid \<times> db) result" where
  "create_receive_draft now po lines author_user_id author_name warehouse_id key document notes db =
     bindr (validate_packing_slip db po document) (\<lambda>_.
     case draft_for_create_key db key of
       Some existing \<Rightarrow> bindr (replayed_on_this_po existing po) (\<lambda>i. Inr (i, db))
     | None \<Rightarrow>
         bindr (assert_no_pending_draft db po None) (\<lambda>_.
         bindr (validate_receive_eligibility db po author_name lines False None) (\<lambda>_.
         bindr (assert_draft_warehouse db warehouse_id (po_of db po)) (\<lambda>_.
         ensure (warehouse_id \<noteq> None \<or> (case po_of db po of None \<Rightarrow> True | Some order \<Rightarrow> has_active_warehouse db (po_company order)))
           (ValidationError (Some ''warehouse_id'')) (
         bindr (clean_notes notes) (\<lambda>cleaned.
         let (i, db) = fresh db;
             d = new_draft i now po warehouse_id document author_user_id author_name cleaned key lines;
             db = db\<lparr>receive_drafts := receive_drafts db @ [d]\<rparr>
         in bindr (notify_submitted now i (po_of db po) db) (\<lambda>db. Inr (i, db))))))))"

section \<open>Editing, resubmitting, rejecting, deleting\<close>

definition assert_can_edit :: "receive_draft \<Rightarrow> string \<Rightarrow> bool \<Rightarrow> unit result" where
  "assert_can_edit d actor is_manager =
     ensure (rd_status d = PENDING_APPROVAL \<or> rd_status d = DRAFT_REJECTED) InvalidStateTransitionError (
     if rd_created_by_user_id d = actor then Inr ()
     else
       ensure is_manager (ConflictError None) (
       ensure (rd_status d \<noteq> DRAFT_REJECTED) InvalidStateTransitionError (Inr ())))"

definition assert_unchanged_since :: "receive_draft \<Rightarrow> datetime option \<Rightarrow> unit result" where
  "assert_unchanged_since d expected =
     ensure (expected = None \<or> expected = Some (rd_updated_at d)) (ConflictError (Some ''expected_updated_at'')) (Inr ())"

definition update_receive_draft ::
  "datetime \<Rightarrow> uuid \<Rightarrow> counted_line list \<Rightarrow> string \<Rightarrow> bool \<Rightarrow> uuid option \<Rightarrow> string option \<Rightarrow> datetime option \<Rightarrow> db \<Rightarrow> db result" where
  "update_receive_draft now i lines actor is_manager warehouse_id notes expected db =
     bindr (locked_draft db i) (\<lambda>d.
     bindr (assert_unchanged_since d expected) (\<lambda>_.
     bindr (assert_can_edit d actor is_manager) (\<lambda>_.
     bindr (validate_receive_eligibility db (rd_po_id d) (rd_created_by_name d) lines False None) (\<lambda>_.
     bindr (assert_draft_warehouse db warehouse_id (po_of db (rd_po_id d))) (\<lambda>_.
     bindr (case notes of None \<Rightarrow> Inr (rd_notes d) | Some n \<Rightarrow> clean_notes (Some n)) (\<lambda>cleaned.
     Inr (set_draft i (\<lambda>d. d\<lparr>rd_warehouse_id := (if warehouse_id = None then rd_warehouse_id d else warehouse_id),
            rd_notes := cleaned, rd_line_items := lines, rd_updated_at := max now (rd_updated_at d + 1)\<rparr>) db)))))))"

definition clear_review :: "receive_draft \<Rightarrow> receive_draft" where
  "clear_review d = d\<lparr>rd_reviewed_by_user_id := None, rd_reviewed_by_name := None, rd_reviewed_at := None\<rparr>"

definition resubmit_receive_draft :: "datetime \<Rightarrow> uuid \<Rightarrow> string \<Rightarrow> db \<Rightarrow> db result" where
  "resubmit_receive_draft now i actor db =
     bindr (locked_draft db i) (\<lambda>d.
     ensure (rd_status d = DRAFT_REJECTED) InvalidStateTransitionError (
     ensure (rd_created_by_user_id d = actor) (ConflictError None) (
     bindr (assert_no_pending_draft db (rd_po_id d) (Some i)) (\<lambda>_.
     bindr (validate_receive_eligibility db (rd_po_id d) (rd_created_by_name d) (rd_line_items d) False None) (\<lambda>_.
     let db = set_draft i (stamped now (\<lambda>d. (clear_review d)\<lparr>rd_status := PENDING_APPROVAL, rd_rejection_reason := None\<rparr>)) db
     in notify_submitted now i (po_of db (rd_po_id d)) db)))))"

definition reject_receive_draft :: "datetime \<Rightarrow> uuid \<Rightarrow> string \<Rightarrow> string \<Rightarrow> string \<Rightarrow> db \<Rightarrow> db result" where
  "reject_receive_draft now i reason reviewer_user_id reviewer_name db =
     (let reason = strip reason in
      ensure (reason \<noteq> []) (ValidationError (Some ''reason'')) (
      ensure (length reason \<le> MAX_REJECTION_REASON) (ValidationError (Some ''reason'')) (
      bindr (locked_draft db i) (\<lambda>d.
      ensure (rd_status d = PENDING_APPROVAL) InvalidStateTransitionError (
      notify_author now d (set_draft i (stamped now (\<lambda>d. d\<lparr>rd_status := DRAFT_REJECTED,
        rd_reviewed_by_user_id := Some reviewer_user_id, rd_reviewed_by_name := Some reviewer_name,
        rd_reviewed_at := Some now, rd_rejection_reason := Some reason\<rparr>)) db))))))"

definition withdraw_receive_draft_submitted :: "uuid \<Rightarrow> db \<Rightarrow> db" where
  "withdraw_receive_draft_submitted draft db =
     db\<lparr>notifications := delete_rows (\<lambda>n. no_receive_draft_id n = Some draft \<and> no_type n = RECEIVE_DRAFT_SUBMITTED)
          (notifications db)\<rparr>"

text \<open>The slip goes with the draft unless another draft names it; its storage key comes back.\<close>

definition delete_receive_draft :: "uuid \<Rightarrow> string \<Rightarrow> bool \<Rightarrow> db \<Rightarrow> (string option \<times> db) result" where
  "delete_receive_draft i actor is_manager db =
     bindr (locked_draft db i) (\<lambda>d.
     ensure (\<not> in_flight_status (rd_status d)) InvalidStateTransitionError (
     ensure (rd_created_by_user_id d = actor \<or> is_manager) (ConflictError None) (
     let db = withdraw_receive_draft_submitted i db;
         db = db\<lparr>receive_drafts := delete_rows (\<lambda>d. rd_id d = i) (receive_drafts db)\<rparr>
     in case rd_packing_slip_document_id d of
          None \<Rightarrow> Inr (None, db)
        | Some slip \<Rightarrow>
            if list_ex (\<lambda>d. rd_packing_slip_document_id d = Some slip) (receive_drafts db) then Inr (None, db)
            else (case find_row pd_id slip (po_documents db) of
                None \<Rightarrow> Inr (None, db)
              | Some doc \<Rightarrow> Inr (Some (pd_s3_key doc), db\<lparr>po_documents := delete_rows (\<lambda>p. pd_id p = slip) (po_documents db)\<rparr>)))))"

end
