(* ===== verification/GpQueue.thy ===== *)
theory GpQueue
  imports ReceiveDrafts
begin

text \<open>
  The receipts on their way to GP: the ledger of idempotency keys (\<open>services/gp_idempotency.py\<close>), the write
  queue (\<open>gp_outbox_repository.py\<close>), and the approval's half of \<open>warehouse/receive_drafts.py\<close>. The queue also
  carries registrations and job-site writes; the rows here are its receipts, and each definition is what the code
  does with a receipt.
\<close>

section \<open>The ledger\<close>

definition ledger_of :: "db \<Rightarrow> string \<Rightarrow> gp_ledger option" where
  "ledger_of db key = List.find (\<lambda>l. gl_key l = key) (gp_write_idempotency db)"

definition gp_answer :: "db \<Rightarrow> string \<Rightarrow> gp_receipt option" where
  "gp_answer db key = Option.bind (ledger_of db key) gl_relay_result"

definition ledger_settled :: "db \<Rightarrow> string \<Rightarrow> ledger_result option" where
  "ledger_settled db key = Option.bind (ledger_of db key) gl_result_id"

text \<open>Nothing an earlier phase recorded is erased.\<close>

definition upsert_ledger :: "string \<Rightarrow> gp_receipt option \<Rightarrow> ledger_result option \<Rightarrow> db \<Rightarrow> db" where
  "upsert_ledger key answer result db =
     (case ledger_of db key of
        None \<Rightarrow> db\<lparr>gp_write_idempotency := gp_write_idempotency db @
          [\<lparr>gl_key = key, gl_relay_result = answer, gl_result_id = result\<rparr>]\<rparr>
      | Some _ \<Rightarrow> db\<lparr>gp_write_idempotency := map (\<lambda>l. if gl_key l = key then
          l\<lparr>gl_relay_result := (if answer = None then gl_relay_result l else answer),
            gl_result_id := (if result = None then gl_result_id l else result)\<rparr> else l) (gp_write_idempotency db)\<rparr>)"

definition record_relay_result :: "string \<Rightarrow> gp_receipt \<Rightarrow> db \<Rightarrow> db" where
  "record_relay_result key receipt db = upsert_ledger key (Some receipt) None db"

definition stamp_result_id :: "string \<Rightarrow> gp_receipt option \<Rightarrow> ledger_result \<Rightarrow> db \<Rightarrow> db" where
  "stamp_result_id key receipt result db = upsert_ledger key receipt (Some result) db"

section \<open>What a queued receipt says\<close>

definition entry_of :: "db \<Rightarrow> uuid \<Rightarrow> gp_write option" where
  "entry_of db i = find_row gw_id i (gp_write_outbox db)"

definition never_reached_gp_kind :: "string option \<Rightarrow> bool" where
  "never_reached_gp_kind k \<longleftrightarrow> k = Some ''gp_rejected'' \<or> k = Some ''exhausted''"

definition retry_is_safe :: "gp_write \<Rightarrow> bool" where
  "retry_is_safe e \<longleftrightarrow> gw_payload_keyed e"

definition refused_after_its_key_was_looked_up :: "gp_write \<Rightarrow> bool" where
  "refused_after_its_key_was_looked_up e \<longleftrightarrow>
     gw_status e = WRITE_FAILED \<and> gw_failure_kind e = Some ''gp_rejected'' \<and> retry_is_safe e"

definition outbox_entry_never_reached_gp :: "db \<Rightarrow> gp_write \<Rightarrow> bool" where
  "outbox_entry_never_reached_gp db e \<longleftrightarrow>
     (\<not> gw_maybe_in_gp e \<or> refused_after_its_key_was_looked_up e) \<and>
     (if gw_status e = WRITE_CANCELLED then gw_failure_kind e = None \<or> never_reached_gp_kind (gw_failure_kind e)
      else gw_status e = WRITE_FAILED \<and> never_reached_gp_kind (gw_failure_kind e)) \<and>
     gp_answer db (gw_idempotency_key e) = None"

definition approval_key_spent :: "db \<Rightarrow> string \<Rightarrow> bool" where
  "approval_key_spent db key \<longleftrightarrow>
     ledger_of db key \<noteq> None \<or> list_ex (\<lambda>e. gw_idempotency_key e = key) (gp_write_outbox db)"

text \<open>GP answered and nothing was booked.\<close>

definition gp_took :: "db \<Rightarrow> string \<Rightarrow> bool" where
  "gp_took db key \<longleftrightarrow> gp_answer db key \<noteq> None \<and> ledger_settled db key = None"

text \<open>Whether a queued receipt's draft no longer waits on it.\<close>

definition draft_moved_on :: "gp_write \<Rightarrow> receive_draft option \<Rightarrow> bool" where
  "draft_moved_on e d =
     (case d of
        None \<Rightarrow> True
      | Some d \<Rightarrow> rd_approved_outbox_entry_id d \<noteq> Some (gw_id e) \<and>
          \<not> (in_flight_status (rd_status d) \<and> rd_approval_idempotency_key d = Some (gw_idempotency_key e)))"

definition receipt_moved_on :: "db \<Rightarrow> gp_write \<Rightarrow> bool" where
  "receipt_moved_on db e =
     (case gw_receive_draft_id e of
        None \<Rightarrow> False
      | Some i \<Rightarrow> draft_moved_on e (find_row rd_id i (receive_drafts db)))"

section \<open>Claiming a draft\<close>

definition wanted_of :: "counted_line list \<Rightarrow> (uuid \<times> int) list" where
  "wanted_of lines = sum_by ct_po_line_item_id ct_quantity_received lines"

text \<open>A draft that will book units and has not yet: claimed or approved, with no record, and not on a dead row.\<close>

definition holds_units :: "db \<Rightarrow> receive_draft \<Rightarrow> bool" where
  "holds_units db d \<longleftrightarrow> in_flight_status (rd_status d) \<and> rd_receive_record_id d = None \<and>
     (case Option.bind (rd_approved_outbox_entry_id d) (entry_of db) of
        None \<Rightarrow> True | Some e \<Rightarrow> \<not> outbox_entry_never_reached_gp db e)"

definition in_flight_quantity :: "db \<Rightarrow> receive_draft \<Rightarrow> uuid \<Rightarrow> int" where
  "in_flight_quantity db draft line =
     sum_list (map (\<lambda>d. sum_list (map ct_quantity_received (filter (\<lambda>li. ct_po_line_item_id li = line) (rd_line_items d))))
       (filter (\<lambda>d. rd_po_id d = rd_po_id draft \<and> rd_id d \<noteq> rd_id draft \<and> holds_units db d) (receive_drafts db)))"

text \<open>Every wanted line is a row of the table: the draft's lines reference it.\<close>

definition claim_fits :: "db \<Rightarrow> receive_draft \<Rightarrow> uuid \<times> int \<Rightarrow> bool" where
  "claim_fits db draft want =
     (case find_row po_line_id (fst want) (po_lines db) of
        None \<Rightarrow> False
      | Some l \<Rightarrow>
          let claimed = in_flight_quantity db draft (fst want) in
          if claimed = 0 then snd want \<le> pending_quantity l else snd want + claimed \<le> pending_quantity l)"

definition assert_no_conflicting_claim :: "db \<Rightarrow> receive_draft \<Rightarrow> unit result" where
  "assert_no_conflicting_claim db draft =
     ensure (list_all (claim_fits db draft) (wanted_of (rd_line_items draft))) (ConflictError None) (Inr ())"

record approval_context =
  ac_draft_id :: uuid
  ac_po_id :: uuid
  ac_warehouse_id :: "uuid option"
  ac_author_name :: string
  ac_line_items :: "counted_line list"
  ac_resumed :: bool

definition context_of :: "receive_draft \<Rightarrow> bool \<Rightarrow> approval_context" where
  "context_of d resumed =
     \<lparr>ac_draft_id = rd_id d, ac_po_id = rd_po_id d, ac_warehouse_id = rd_warehouse_id d,
      ac_author_name = rd_created_by_name d, ac_line_items = rd_line_items d, ac_resumed = resumed\<rparr>"

definition claimed_draft :: "datetime \<Rightarrow> string \<Rightarrow> string \<Rightarrow> string \<Rightarrow> receive_draft \<Rightarrow> receive_draft" where
  "claimed_draft now user name key d =
     d\<lparr>rd_status := APPROVING, rd_reviewed_by_user_id := Some user, rd_reviewed_by_name := Some name,
       rd_reviewed_at := Some now, rd_approval_idempotency_key := Some key, rd_rejection_reason := None\<rparr>"

definition claim_for_approval ::
  "datetime \<Rightarrow> uuid \<Rightarrow> string \<Rightarrow> string \<Rightarrow> string \<Rightarrow> datetime option \<Rightarrow> db \<Rightarrow> (approval_context \<times> db) result" where
  "claim_for_approval now i user name key expected db =
     bindr (locked_draft db i) (\<lambda>d.
     if rd_status d = PENDING_APPROVAL \<and> (expected = None \<or> expected = Some (rd_updated_at d)) then
       ensure (\<not> approval_key_spent db key) (ConflictError (Some ''idempotency_key'')) (
       bindr (assert_no_conflicting_claim db d) (\<lambda>_.
       bindr (assert_draft_warehouse db (rd_warehouse_id d) (po_of db (rd_po_id d))) (\<lambda>_.
       Inr (context_of d False, set_draft i (claimed_draft now user name key) db))))
     else if rd_status d = APPROVING then
       ensure (rd_approval_idempotency_key d = Some key) (ConflictError None)
         (Inr (context_of d True, set_draft i (\<lambda>d. d\<lparr>rd_reviewed_at := Some now\<rparr>) db))
     else if rd_status d = DRAFT_APPROVED then Inl (ConflictError None)
     else if rd_status d = PENDING_APPROVAL then Inl (ConflictError (Some ''expected_updated_at''))
     else Inl InvalidStateTransitionError)"

definition release_approval_claim :: "uuid \<Rightarrow> string \<Rightarrow> db \<Rightarrow> db" where
  "release_approval_claim i key db =
     set_draft i (\<lambda>d. if rd_status d = APPROVING \<and> rd_approval_idempotency_key d = Some key
       then d\<lparr>rd_status := PENDING_APPROVAL, rd_approval_idempotency_key := None\<rparr> else d) db"

definition approval_attempt_may_be_running :: "receive_draft \<Rightarrow> datetime \<Rightarrow> bool" where
  "approval_attempt_may_be_running d now =
     (case rd_reviewed_at d of None \<Rightarrow> False | Some t \<Rightarrow> now < t + APPROVAL_ATTEMPT)"

definition approval_releasable_at :: "receive_draft \<Rightarrow> datetime option" where
  "approval_releasable_at d =
     (if rd_status d \<noteq> APPROVING then None else map_option (\<lambda>t. t + APPROVAL_ATTEMPT) (rd_reviewed_at d))"

definition back_for_review :: "datetime \<Rightarrow> string \<Rightarrow> receive_draft \<Rightarrow> receive_draft" where
  "back_for_review now why d =
     (clear_review d)\<lparr>rd_status := PENDING_APPROVAL, rd_approval_idempotency_key := None,
       rd_approved_outbox_entry_id := None, rd_rejection_reason := Some (''Back for review: '' @ why), rd_updated_at := now\<rparr>"

text \<open>The key of the claim that is held: the draft's, or the ended row's of a queued approval.\<close>

definition held_key :: "db \<Rightarrow> datetime \<Rightarrow> receive_draft \<Rightarrow> string option result" where
  "held_key db now d =
     ensure (rd_receive_record_id d = None \<and> in_flight_status (rd_status d)) InvalidStateTransitionError (
     if rd_status d = APPROVING then
       ensure (\<not> approval_attempt_may_be_running d now) (ConflictError None) (Inr (rd_approval_idempotency_key d))
     else
       (case Option.bind (rd_approved_outbox_entry_id d) (entry_of db) of
          None \<Rightarrow> Inl InvalidStateTransitionError
        | Some e \<Rightarrow>
            ensure (gw_status e = WRITE_CANCELLED \<or> gw_status e = WRITE_FAILED) (ConflictError None)
              (Inr (Some (gw_idempotency_key e)))))"

definition release_held_approval :: "datetime \<Rightarrow> uuid \<Rightarrow> string \<Rightarrow> db \<Rightarrow> db result" where
  "release_held_approval now i manager db =
     bindr (locked_draft db i) (\<lambda>d.
     bindr (held_key db now d) (\<lambda>key.
     ensure (blank key \<or> gp_answer db (sent_text key) = None) (ConflictError None)
       (Inr (set_draft i (back_for_review now
          (manager @ '' checked GP and released the held approval, as no receipt was posted'')) db))))"

definition approval_still_held :: "db \<Rightarrow> uuid \<Rightarrow> string \<Rightarrow> bool" where
  "approval_still_held db i key =
     (case find_row rd_id i (receive_drafts db) of
        None \<Rightarrow> False
      | Some d \<Rightarrow> in_flight_status (rd_status d) \<and> rd_approval_idempotency_key d = Some key \<and> rd_receive_record_id d = None)"

definition drafts_with_stopped_receipts :: "db \<Rightarrow> receive_draft list \<Rightarrow> uuid list" where
  "drafts_with_stopped_receipts db drafts =
     map rd_id (filter (\<lambda>d. rd_status d = DRAFT_APPROVED \<and> rd_receive_record_id d = None \<and>
       (case Option.bind (rd_approved_outbox_entry_id d) (entry_of db) of
          None \<Rightarrow> False
        | Some e \<Rightarrow> (gw_status e = WRITE_CANCELLED \<or> gw_status e = WRITE_FAILED) \<and>
            gp_answer db (gw_idempotency_key e) = None)) drafts)"

definition mark_approved :: "datetime \<Rightarrow> uuid \<Rightarrow> uuid option \<Rightarrow> uuid option \<Rightarrow> db \<Rightarrow> db" where
  "mark_approved now i record entry db =
     set_draft i (stamped now (\<lambda>d. d\<lparr>rd_status := DRAFT_APPROVED,
       rd_receive_record_id := (if record = None then rd_receive_record_id d else record),
       rd_approved_outbox_entry_id := (if entry = None then rd_approved_outbox_entry_id d else entry)\<rparr>)) db"

text \<open>A receipt that never reached GP hands its draft back.\<close>

definition why_back :: "gp_write \<Rightarrow> string" where
  "why_back e =
     (if gw_status e = WRITE_CANCELLED then ''the queued GP receipt was cancelled''
      else ''GP did not take the queued receipt: '' @ (if blank (gw_last_error e) then ''unknown error'' else sent_text (gw_last_error e)))"

definition release_draft_for_outbox_entry :: "datetime \<Rightarrow> gp_write \<Rightarrow> db \<Rightarrow> db result" where
  "release_draft_for_outbox_entry now e db =
     (if \<not> outbox_entry_never_reached_gp db e then Inr db
      else case List.find (\<lambda>d. rd_approved_outbox_entry_id d = Some (gw_id e) \<and> rd_status d = DRAFT_APPROVED \<and>
          rd_receive_record_id d = None) (receive_drafts db) of
        None \<Rightarrow> Inr db
      | Some d \<Rightarrow> notify_author now d (set_draft (rd_id d) (back_for_review now (why_back e)) db))"

end
