(* ===== verification/GpOutbox.thy ===== *)
theory GpOutbox
  imports GpQueue
begin

text \<open>
  \<open>gp_outbox_repository.py\<close>: the queue's own operations, for the receipts it holds. Every writer of a row's
  status locks and re-reads it, so each is one step here.
\<close>

definition MAX_ATTEMPTS :: nat where "MAX_ATTEMPTS = 8"

text \<open>In microseconds.\<close>

definition STALE_IN_FLIGHT :: datetime where "STALE_IN_FLIGHT = 600000000"
definition POLL_DELAY :: datetime where "POLL_DELAY = 5000000"

text \<open>The jitter, in millionths, is drawn by the caller from -200000 to 200000.\<close>

definition backoff :: "nat \<Rightarrow> int \<Rightarrow> nat" where
  "backoff attempts jitter = nat (int (min (15 * 2 ^ attempts) 1800) * (1000000 + jitter))"

text \<open>An update through the session stamps the row, when it changes it.\<close>

definition set_entry :: "datetime \<Rightarrow> uuid \<Rightarrow> (gp_write \<Rightarrow> gp_write) \<Rightarrow> db \<Rightarrow> db" where
  "set_entry now i f db = db\<lparr>gp_write_outbox := update_row gw_id i
     (\<lambda>e. if f e = e then e else (f e)\<lparr>gw_updated_at := now\<rparr>) (gp_write_outbox db)\<rparr>"

definition entry_for_key :: "db \<Rightarrow> string \<Rightarrow> gp_write option" where
  "entry_for_key db key = List.find (\<lambda>e. gw_idempotency_key e = key) (gp_write_outbox db)"

definition receipt_entry ::
  "uuid \<Rightarrow> datetime \<Rightarrow> string \<Rightarrow> string \<Rightarrow> approval_context \<Rightarrow> uuid option \<Rightarrow> uuid option \<Rightarrow> bool \<Rightarrow> gp_write" where
  "receipt_entry i now key company ctx warehouse_id project_id maybe =
     \<lparr>gw_id = i, gw_idempotency_key = key, gw_company = company, gw_payload_keyed = True, gw_po_id = ac_po_id ctx,
      gw_received_by = ac_author_name ctx, gw_warehouse_id = warehouse_id, gw_line_items = ac_line_items ctx,
      gw_receive_draft_id = Some (ac_draft_id ctx), gw_project_id = project_id, gw_status = QUEUED, gw_attempts = 0,
      gw_next_attempt_at = now, gw_last_error = None, gw_failure_kind = None, gw_maybe_in_gp = maybe, gw_created_at = now,
      gw_updated_at = now, gw_succeeded_at = None\<rparr>"

text \<open>A key that is already queued keeps its row; a second write is never made under it.\<close>

definition enqueue ::
  "datetime \<Rightarrow> string \<Rightarrow> string \<Rightarrow> approval_context \<Rightarrow> uuid option \<Rightarrow> bool \<Rightarrow> db \<Rightarrow> uuid \<times> db" where
  "enqueue now key company ctx warehouse_id maybe db =
     (case entry_for_key db key of
        Some e \<Rightarrow> (gw_id e, if maybe then set_entry now (gw_id e) (\<lambda>e. e\<lparr>gw_maybe_in_gp := True\<rparr>) db else db)
      | None \<Rightarrow>
          (let (i, db) = fresh db;
               e = receipt_entry i now key company ctx warehouse_id (Option.bind (po_of db (ac_po_id ctx)) po_project_id) maybe
           in (i, db\<lparr>gp_write_outbox := gp_write_outbox db @ [e]\<rparr>)))"

section \<open>The worker's claim\<close>

definition unfinished :: "gp_write \<Rightarrow> bool" where
  "unfinished e \<longleftrightarrow> gw_status e \<in> {QUEUED, IN_FLIGHT}"

text \<open>By age; the id settles a tie.\<close>

definition older :: "gp_write \<Rightarrow> gp_write \<Rightarrow> bool" where
  "older a b \<longleftrightarrow> gw_created_at a < gw_created_at b \<or> gw_created_at a = gw_created_at b \<and> gw_id a < gw_id b"

definition claimable :: "db \<Rightarrow> datetime \<Rightarrow> string \<Rightarrow> gp_write \<Rightarrow> bool" where
  "claimable db now company e \<longleftrightarrow> gw_status e = QUEUED \<and> gw_company e = company \<and> gw_next_attempt_at e \<le> now \<and>
     \<not> list_ex (\<lambda>x. gw_po_id x = gw_po_id e \<and> unfinished x \<and> older x e) (gp_write_outbox db)"

definition claim_next :: "datetime \<Rightarrow> string \<Rightarrow> db \<Rightarrow> uuid option \<times> db" where
  "claim_next now company db =
     (let due = filter (claimable db now company) (gp_write_outbox db) in
      case List.find (\<lambda>e. \<not> list_ex (\<lambda>x. older x e) due) due of
        None \<Rightarrow> (None, db)
      | Some e \<Rightarrow> (Some (gw_id e), set_entry now (gw_id e) (\<lambda>e. e\<lparr>gw_status := IN_FLIGHT\<rparr>) db))"

section \<open>Outcomes\<close>

definition mark_succeeded :: "datetime \<Rightarrow> uuid \<Rightarrow> db \<Rightarrow> db" where
  "mark_succeeded now i db = set_entry now i (\<lambda>e. e\<lparr>gw_status := SUCCEEDED, gw_succeeded_at := Some now,
     gw_last_error := None, gw_failure_kind := None\<rparr>) db"

definition mark_retry :: "datetime \<Rightarrow> int \<Rightarrow> uuid \<Rightarrow> string \<Rightarrow> bool \<Rightarrow> nat option \<Rightarrow> bool \<Rightarrow> db \<Rightarrow> db" where
  "mark_retry now jitter i error bump retry_in maybe db = set_entry now i (\<lambda>e.
     let attempts = (if bump then Suc (gw_attempts e) else gw_attempts e) in
     e\<lparr>gw_attempts := attempts, gw_maybe_in_gp := gw_maybe_in_gp e \<or> maybe, gw_status := QUEUED,
       gw_next_attempt_at := now + (case retry_in of Some d \<Rightarrow> d | None \<Rightarrow> backoff attempts jitter),
       gw_last_error := Some error\<rparr>) db"

definition failed_entry :: "string \<Rightarrow> string \<Rightarrow> bool \<Rightarrow> gp_write \<Rightarrow> gp_write" where
  "failed_entry kind error maybe e = e\<lparr>gw_status := WRITE_FAILED, gw_maybe_in_gp := gw_maybe_in_gp e \<or> maybe,
     gw_failure_kind := Some kind, gw_last_error := Some error\<rparr>"

definition release_after :: "datetime \<Rightarrow> uuid \<Rightarrow> db \<Rightarrow> db result" where
  "release_after now i db =
     (case entry_of db i of None \<Rightarrow> Inr db | Some e \<Rightarrow> release_draft_for_outbox_entry now e db)"

definition mark_failed :: "datetime \<Rightarrow> uuid \<Rightarrow> string \<Rightarrow> string \<Rightarrow> bool \<Rightarrow> db \<Rightarrow> db result" where
  "mark_failed now i kind error maybe db = release_after now i (set_entry now i (failed_entry kind error maybe) db)"

text \<open>An outcome is recorded only on a row still as the worker left it; a success is a fact and stands over any status.\<close>

definition finish :: "uuid \<Rightarrow> gp_write_status \<Rightarrow> (db \<Rightarrow> db result) \<Rightarrow> db \<Rightarrow> (bool \<times> db) result" where
  "finish i from action db =
     (case entry_of db i of
        Some e \<Rightarrow> if gw_status e = from then bindr (action db) (\<lambda>db. Inr (True, db)) else Inr (False, db)
      | None \<Rightarrow> Inr (False, db))"

definition finish_succeeded :: "datetime \<Rightarrow> uuid \<Rightarrow> db \<Rightarrow> db" where
  "finish_succeeded now i db =
     (case entry_of db i of
        Some e \<Rightarrow> if gw_status e = SUCCEEDED then db else mark_succeeded now i db
      | None \<Rightarrow> db)"

section \<open>Rows a stopped worker left\<close>

definition recovered :: "datetime \<Rightarrow> gp_write \<Rightarrow> gp_write" where
  "recovered now e =
     (if gw_status e = IN_FLIGHT \<and> gw_updated_at e + STALE_IN_FLIGHT < now then
        (if retry_is_safe e
         then e\<lparr>gw_maybe_in_gp := True, gw_status := QUEUED, gw_next_attempt_at := now,
                gw_last_error := Some ''The worker stopped while this was being sent; it is asked again'', gw_updated_at := now\<rparr>
         else e\<lparr>gw_maybe_in_gp := True, gw_status := WRITE_FAILED, gw_failure_kind := Some ''ambiguous'',
                gw_last_error := Some (''The worker stopped while this was being sent to GP; '' @
                  ''check GP before retrying, it may already be there''), gw_updated_at := now\<rparr>)
      else e)"

text \<open>The rows it failed come back.\<close>

definition recover_in_flight :: "datetime \<Rightarrow> db \<Rightarrow> uuid list \<times> db" where
  "recover_in_flight now db =
     (map gw_id (filter (\<lambda>e. gw_status e = IN_FLIGHT \<and> gw_updated_at e + STALE_IN_FLIGHT < now \<and> \<not> retry_is_safe e)
        (gp_write_outbox db)),
      db\<lparr>gp_write_outbox := map (recovered now) (gp_write_outbox db)\<rparr>)"

section \<open>Retry and cancel\<close>

definition retry_refused :: "db \<Rightarrow> gp_write \<Rightarrow> bool" where
  "retry_refused db e \<longleftrightarrow>
     gw_status e = WRITE_CANCELLED \<and> ledger_settled db (gw_idempotency_key e) \<noteq> None \<or> receipt_moved_on db e"

text \<open>\<open>None\<close>: no such row, or one that has not ended.\<close>

definition retry_entry :: "datetime \<Rightarrow> uuid \<Rightarrow> db \<Rightarrow> (uuid option \<times> db) result" where
  "retry_entry now i db =
     (case entry_of db i of
        None \<Rightarrow> Inr (None, db)
      | Some e \<Rightarrow>
          if gw_status e \<noteq> WRITE_FAILED \<and> gw_status e \<noteq> WRITE_CANCELLED then Inr (None, db)
          else ensure (\<not> retry_refused db e) (ConflictError None)
            (Inr (Some i, set_entry now i (\<lambda>e. e\<lparr>gw_status := QUEUED, gw_attempts := 0, gw_next_attempt_at := now,
               gw_failure_kind := None\<rparr>) db)))"

text \<open>
  A receipt GP took is finished with Retry, never cancelled - but for one whose draft has moved on, which is
  let go: its key is settled, to be reconciled by hand.
\<close>

definition cancel_entry :: "datetime \<Rightarrow> uuid \<Rightarrow> db \<Rightarrow> (uuid option \<times> db) result" where
  "cancel_entry now i db =
     (case entry_of db i of
        None \<Rightarrow> Inr (None, db)
      | Some e \<Rightarrow>
          if gw_status e \<noteq> QUEUED \<and> gw_status e \<noteq> WRITE_FAILED then Inr (None, db)
          else
            (let took = gp_took db (gw_idempotency_key e) in
             ensure (took \<longrightarrow> receipt_moved_on db e) (ConflictError None) (
             let db = set_entry now i (\<lambda>e. e\<lparr>gw_status := WRITE_CANCELLED\<rparr>) db;
                 db = (if took then stamp_result_id (gw_idempotency_key e) None LET_GO db else db)
             in bindr (release_after now i db) (\<lambda>db. Inr (Some i, db)))))"

end
