(* ===== verification/GpDrain.thy ===== *)
theory GpDrain
  imports GpOutbox
begin

text \<open>
  The approval of a count (\<open>schemas/warehouse.py\<close>, \<open>approve_receive_draft\<close>) and the worker that drains the
  receipts left waiting (\<open>services/gp_outbox_worker.py\<close>). What the relay answers is an argument; what each
  answer does to the draft, the queue and the ledger is the code's. Who may approve is asked before.
\<close>

text \<open>
  A refusal carries the relay's error code and its words. The words of this program's own refusals are left to
  a function of the refusal.
\<close>

datatype relay_outcome =
    POSTED gp_receipt
  | RELAY_REFUSED string string
  | RELAY_TOO_OLD string
  | RELAY_TIMED_OUT string
  | RELAY_UNAVAILABLE bool string

definition may_have_committed :: "string \<Rightarrow> bool" where
  "may_have_committed code \<longleftrightarrow> code = ''internal_error''"

definition is_app_error :: "app_error \<Rightarrow> bool" where
  "is_app_error e \<longleftrightarrow> e \<notin> {IntegrityError, PyValueError, PyAttributeError, DataError}"

text \<open>A transaction that raises leaves the tables as they were.\<close>

definition committed :: "db \<Rightarrow> db result \<Rightarrow> db" where
  "committed db r = (case r of Inl _ \<Rightarrow> db | Inr db' \<Rightarrow> db')"

section \<open>The pre-flight and the booking\<close>

definition prepare_create_receive ::
  "db \<Rightarrow> uuid \<Rightarrow> string \<Rightarrow> counted_line list \<Rightarrow> uuid option \<Rightarrow> (string \<times> uuid) result" where
  "prepare_create_receive db po received_by lines warehouse_id =
     bindr (validate_receive_eligibility db po received_by lines True warehouse_id) (\<lambda>(_, gp_company, _).
     bindr (live_po db po) (\<lambda>order.
     bindr (require_gp_job_open db (po_project_id order)) (\<lambda>_.
     bindr (case warehouse_id of Some w \<Rightarrow> Inr w | None \<Rightarrow> get_primary_warehouse_id db (Some (po_company order))) (\<lambda>w.
     Inr (gp_company, w)))))"

text \<open>The one booking of a posted receipt, for a live approval and for a drained row.\<close>

definition persist_create_receive ::
  "datetime \<Rightarrow> string \<Rightarrow> uuid option \<Rightarrow> uuid \<Rightarrow> string \<Rightarrow> counted_line list \<Rightarrow> uuid option \<Rightarrow> gp_receipt \<Rightarrow> db \<Rightarrow>
   (uuid \<times> db) result" where
  "persist_create_receive now key draft po received_by lines warehouse_id receipt db =
     ensure (case draft of None \<Rightarrow> True | Some i \<Rightarrow> approval_still_held db i key) (ConflictError None) (
     let notes = Option.bind draft (\<lambda>i. Option.bind (find_row rd_id i (receive_drafts db)) rd_notes) in
     bindr (create_receive now po received_by lines warehouse_id receipt notes db) (\<lambda>(r, db).
     let db = (case draft of None \<Rightarrow> db | Some i \<Rightarrow> mark_approved now i (Some r) None db)
     in Inr (r, stamp_result_id key (Some receipt) (BOOKED_AS r) db)))"

section \<open>Approving a count\<close>

datatype approval =
    BOOKED uuid
  | QUEUED_AS uuid
  | REFUSED app_error
  | MAY_BE_IN_GP
  | RELAY_SAID_NO

definition hold_receipt_released_meanwhile ::
  "datetime \<Rightarrow> string \<Rightarrow> string \<Rightarrow> approval_context \<Rightarrow> uuid option \<Rightarrow> string \<Rightarrow> string \<Rightarrow> db \<Rightarrow> db result" where
  "hold_receipt_released_meanwhile now key company ctx w kind error db =
     (if entry_for_key db key \<noteq> None then Inr db
      else (let (i, db) = enqueue now key company ctx w True db in mark_failed now i kind error True db))"

definition APPROVAL_RELEASED_MEANWHILE :: string where
  "APPROVAL_RELEASED_MEANWHILE = ''This approval was released while the attempt was still out at GP, so its receipt was not booked here''"

definition queue_receipt_for_draft ::
  "datetime \<Rightarrow> string \<Rightarrow> string \<Rightarrow> approval_context \<Rightarrow> uuid option \<Rightarrow> bool \<Rightarrow> db \<Rightarrow> approval \<times> db" where
  "queue_receipt_for_draft now key company ctx w maybe db =
     (if approval_still_held db (ac_draft_id ctx) key
      then (let (i, db) = enqueue now key company ctx w maybe db
            in (QUEUED_AS i, mark_approved now (ac_draft_id ctx) None (Some i) db))
      else if \<not> maybe then (REFUSED (ConflictError None), db)
      else (MAY_BE_IN_GP, committed db (hold_receipt_released_meanwhile now key company ctx w ''ambiguous''
        (APPROVAL_RELEASED_MEANWHILE @ ''; GP may hold it - check GP first'') db)))"

definition book_approval ::
  "datetime \<Rightarrow> string \<Rightarrow> string \<Rightarrow> approval_context \<Rightarrow> uuid option \<Rightarrow> gp_receipt \<Rightarrow> db \<Rightarrow> approval \<times> db" where
  "book_approval now key company ctx w receipt db =
     (case persist_create_receive now key (Some (ac_draft_id ctx)) (ac_po_id ctx) (ac_author_name ctx) (ac_line_items ctx)
         (ac_warehouse_id ctx) receipt db of
        Inr (r, db') \<Rightarrow> (BOOKED r, db')
      | Inl e \<Rightarrow>
          if approval_still_held db (ac_draft_id ctx) key then (REFUSED e, db)
          else (MAY_BE_IN_GP, committed db (hold_receipt_released_meanwhile now key company ctx w ''persist_failed''
            (APPROVAL_RELEASED_MEANWHILE @ ''; GP took it - check GP and reconcile it'') db)))"

text \<open>What each answer of the relay does to the claim: only one that says GP holds nothing lets it go.\<close>

definition send_receipt ::
  "datetime \<Rightarrow> string \<Rightarrow> string \<Rightarrow> approval_context \<Rightarrow> uuid \<Rightarrow> bool \<Rightarrow> relay_outcome \<Rightarrow> db \<Rightarrow> approval \<times> db" where
  "send_receipt now key company ctx w has_feature outcome db =
     (let resumed = ac_resumed ctx; queue = (\<lambda>maybe. queue_receipt_for_draft now key company ctx (Some w) maybe db) in
      if \<not> has_feature then queue resumed
      else case outcome of
        POSTED receipt \<Rightarrow> book_approval now key company ctx (Some w) receipt (record_relay_result key receipt db)
      | RELAY_REFUSED code _ \<Rightarrow>
          if may_have_committed code then (MAY_BE_IN_GP, db)
          else (RELAY_SAID_NO, release_approval_claim (ac_draft_id ctx) key db)
      | RELAY_TOO_OLD _ \<Rightarrow>
          if resumed then (MAY_BE_IN_GP, db) else (RELAY_SAID_NO, release_approval_claim (ac_draft_id ctx) key db)
      | RELAY_TIMED_OUT _ \<Rightarrow> queue True
      | RELAY_UNAVAILABLE dispatched _ \<Rightarrow> queue (dispatched \<or> resumed))"

definition key_char :: "char \<Rightarrow> bool" where
  "key_char c \<longleftrightarrow> c \<in> set ''ABCDEFGHIJKLMNOPQRSTUVWXYZabcdefghijklmnopqrstuvwxyz0123456789-''"

definition validate_key :: "string \<Rightarrow> string result" where
  "validate_key key =
     (let cleaned = strip key in
      ensure (cleaned \<noteq> [] \<and> length cleaned \<le> 64 \<and> list_all key_char cleaned)
        (ValidationError (Some ''idempotency_key'')) (Inr cleaned))"

text \<open>A key that finished answers only for the draft its receive was approved from.\<close>

definition finished_approval :: "db \<Rightarrow> uuid \<Rightarrow> ledger_result \<Rightarrow> approval" where
  "finished_approval db i settled =
     (case find_row rd_id i (receive_drafts db) of
        None \<Rightarrow> REFUSED (ValidationError (Some ''idempotency_key''))
      | Some d \<Rightarrow>
          (case rd_receive_record_id d of
             Some r \<Rightarrow> if settled = BOOKED_AS r then BOOKED r else REFUSED (ValidationError (Some ''idempotency_key''))
           | None \<Rightarrow> REFUSED (ValidationError (Some ''idempotency_key''))))"

definition approve_claimed ::
  "datetime \<Rightarrow> string \<Rightarrow> approval_context \<Rightarrow> bool \<Rightarrow> relay_outcome \<Rightarrow> db \<Rightarrow> approval \<times> db" where
  "approve_claimed now key ctx has_feature outcome db =
     (case (if ac_resumed ctx then gp_answer db key else None) of
        Some receipt \<Rightarrow>
          book_approval now key (sent_text (Option.bind (po_of db (ac_po_id ctx)) po_gp_company)) ctx (ac_warehouse_id ctx) receipt db
      | None \<Rightarrow>
          (case prepare_create_receive db (ac_po_id ctx) (ac_author_name ctx) (ac_line_items ctx) (ac_warehouse_id ctx) of
             Inl e \<Rightarrow>
               if ac_resumed ctx then (MAY_BE_IN_GP, db)
               else (REFUSED e, release_approval_claim (ac_draft_id ctx) key db)
           | Inr (company, w) \<Rightarrow> send_receipt now key company ctx w has_feature outcome db))"

definition approve_receive_draft ::
  "datetime \<Rightarrow> uuid \<Rightarrow> string \<Rightarrow> string \<Rightarrow> string \<Rightarrow> datetime option \<Rightarrow> bool \<Rightarrow> relay_outcome \<Rightarrow> db \<Rightarrow> approval \<times> db" where
  "approve_receive_draft now i user name raw_key expected has_feature outcome db =
     (case validate_key raw_key of
        Inl e \<Rightarrow> (REFUSED e, db)
      | Inr key \<Rightarrow>
          (case ledger_settled db key of
             Some settled \<Rightarrow> (finished_approval db i settled, db)
           | None \<Rightarrow>
               (case claim_for_approval now i user name key expected db of
                  Inl e \<Rightarrow> (REFUSED e, db)
                | Inr (ctx, db) \<Rightarrow> approve_claimed now key ctx has_feature outcome db)))"

section \<open>Draining a queued receipt\<close>

definition notify_failure :: "datetime \<Rightarrow> uuid \<Rightarrow> db \<Rightarrow> db" where
  "notify_failure now i db =
     (case Option.bind (entry_of db i) gw_project_id of
        None \<Rightarrow> db
      | Some p \<Rightarrow> committed db (create_notification now p (Some WAREHOUSE_RECIPIENT_ROLE) GP_WRITE_FAILED None None None db))"

text \<open>An outcome and whether it applied; a transaction that raised applied nothing.\<close>

definition finished :: "uuid \<Rightarrow> gp_write_status \<Rightarrow> (db \<Rightarrow> db result) \<Rightarrow> db \<Rightarrow> bool \<times> db" where
  "finished i from action db = (case finish i from action db of Inl _ \<Rightarrow> (False, db) | Inr r \<Rightarrow> r)"

definition fail_if_exhausted :: "datetime \<Rightarrow> uuid \<Rightarrow> db \<Rightarrow> db" where
  "fail_if_exhausted now i db =
     (case entry_of db i of
        None \<Rightarrow> db
      | Some e \<Rightarrow>
          if gw_attempts e \<le> MAX_ATTEMPTS then db
          else (let (applied, db) = finished i QUEUED (mark_failed now i ''exhausted''
                  (if blank (gw_last_error e) then ''retry budget exhausted'' else sent_text (gw_last_error e)) False) db
                in if applied then notify_failure now i db else db))"

definition retry_counted :: "datetime \<Rightarrow> int \<Rightarrow> uuid \<Rightarrow> string \<Rightarrow> nat option \<Rightarrow> bool \<Rightarrow> db \<Rightarrow> db" where
  "retry_counted now jitter i error retry_in maybe db =
     fail_if_exhausted now i (snd (finished i IN_FLIGHT (\<lambda>db. Inr (mark_retry now jitter i error True retry_in maybe db)) db))"

definition fail_and_tell :: "datetime \<Rightarrow> uuid \<Rightarrow> string \<Rightarrow> string \<Rightarrow> bool \<Rightarrow> db \<Rightarrow> db" where
  "fail_and_tell now i kind error maybe db = notify_failure now i (snd (finished i IN_FLIGHT (mark_failed now i kind error maybe) db))"

definition drain_book :: "(app_error \<Rightarrow> string) \<Rightarrow> datetime \<Rightarrow> int \<Rightarrow> gp_write \<Rightarrow> gp_receipt \<Rightarrow> db \<Rightarrow> db" where
  "drain_book words now jitter e receipt db =
     (case persist_create_receive now (gw_idempotency_key e) (gw_receive_draft_id e) (gw_po_id e) (gw_received_by e)
         (gw_line_items e) (gw_warehouse_id e) receipt db of
        Inr (r, db') \<Rightarrow> finish_succeeded now (gw_id e) db'
      | Inl err \<Rightarrow>
          if is_app_error err then fail_and_tell now (gw_id e) ''persist_failed'' (words err) True db
          else retry_counted now jitter (gw_id e) (words err) None True db)"

text \<open>A keyed receipt may be asked again: the relay hands back what it made under the key.\<close>

definition asked_again :: "datetime \<Rightarrow> int \<Rightarrow> gp_write \<Rightarrow> string \<Rightarrow> nat option \<Rightarrow> db \<Rightarrow> db" where
  "asked_again now jitter e error retry_in db =
     (if retry_is_safe e then retry_counted now jitter (gw_id e) error retry_in True db
      else fail_and_tell now (gw_id e) ''ambiguous'' error True db)"

definition transient_relay_error :: "string \<Rightarrow> bool" where
  "transient_relay_error code \<longleftrightarrow> code \<in> {''sql_error'', ''internal_error'', ''company_not_allowed''}"

definition drain_send :: "(app_error \<Rightarrow> string) \<Rightarrow> datetime \<Rightarrow> int \<Rightarrow> gp_write \<Rightarrow> relay_outcome \<Rightarrow> db \<Rightarrow> db" where
  "drain_send words now jitter e outcome db =
     (case gp_answer db (gw_idempotency_key e) of
        Some receipt \<Rightarrow> drain_book words now jitter e receipt db
      | None \<Rightarrow>
          (case outcome of
             POSTED receipt \<Rightarrow> drain_book words now jitter e receipt (record_relay_result (gw_idempotency_key e) receipt db)
           | RELAY_UNAVAILABLE dispatched error \<Rightarrow>
               if dispatched then asked_again now jitter e error (Some POLL_DELAY) db
               else snd (finished (gw_id e) IN_FLIGHT
                 (\<lambda>db. Inr (mark_retry now jitter (gw_id e) error False (Some POLL_DELAY) False db)) db)
           | RELAY_TIMED_OUT error \<Rightarrow> asked_again now jitter e error (Some POLL_DELAY) db
           | RELAY_TOO_OLD error \<Rightarrow> retry_counted now jitter (gw_id e) error None False db
           | RELAY_REFUSED code error \<Rightarrow>
               if transient_relay_error code then
                 (let maybe = may_have_committed code \<or> (code = ''sql_error'' \<and> \<not> retry_is_safe e) in
                  if maybe \<and> \<not> retry_is_safe e then fail_and_tell now (gw_id e) ''ambiguous'' error True db
                  else retry_counted now jitter (gw_id e) error None maybe db)
               else fail_and_tell now (gw_id e) ''gp_rejected'' error False db))"

text \<open>One claimed row: a receipt never sent is checked again before it is.\<close>

definition drain_one :: "(app_error \<Rightarrow> string) \<Rightarrow> datetime \<Rightarrow> int \<Rightarrow> uuid \<Rightarrow> relay_outcome \<Rightarrow> db \<Rightarrow> db" where
  "drain_one words now jitter i outcome db =
     (case entry_of db i of
        None \<Rightarrow> db
      | Some e \<Rightarrow>
          if ledger_settled db (gw_idempotency_key e) \<noteq> None then finish_succeeded now i db
          else if gw_attempts e = 0 \<and> \<not> gw_maybe_in_gp e \<and> gp_answer db (gw_idempotency_key e) = None then
            (case prepare_create_receive db (gw_po_id e) (gw_received_by e) (gw_line_items e) (gw_warehouse_id e) of
               Inl err \<Rightarrow>
                 if is_app_error err then
                   fail_and_tell now i ''gp_rejected''
                     (''Not sent to GP - this receipt no longer passes the approval's checks: '' @ words err) False db
                 else retry_counted now jitter i (words err) None False db
             | Inr _ \<Rightarrow> drain_send words now jitter e outcome db)
          else drain_send words now jitter e outcome db)"

definition work :: "(app_error \<Rightarrow> string) \<Rightarrow> datetime \<Rightarrow> int \<Rightarrow> string \<Rightarrow> relay_outcome \<Rightarrow> db \<Rightarrow> db" where
  "work words now jitter company outcome db =
     (case claim_next now company db of
        (None, db) \<Rightarrow> db
      | (Some i, db) \<Rightarrow> drain_one words now jitter i outcome db)"

end
