(* ===== verification/Desk.thy ===== *)
theory Desk
  imports ReceivingFacts GpDrain
begin

text \<open>
  What the receiving desk keeps true across \<open>receive_drafts.py\<close>, \<open>gp_outbox_repository.py\<close> and \<open>approval.py\<close>: the
  units of a PO line that are received and those claimed and not yet booked never exceed what was ordered, a claimed
  draft is held under the key it was pressed with, and a row of the queue belongs to one press. Then what it takes to
  keep that when one draft, one row of the queue or one answer of the ledger changes.
\<close>

section \<open>What the desk keeps true\<close>

text \<open>
  A press of Approve is its key, and what the claim read under it: the draft, its order and its lines. A screen
  makes a key per press, so a key is never pressed for another count.
\<close>

type_synonym press = "uuid \<times> uuid \<times> counted_line list"
type_synonym presses = "string \<rightharpoonup> press"

definition press_of :: "receive_draft \<Rightarrow> press" where
  "press_of d = (rd_id d, rd_po_id d, rd_line_items d)"

definition context_press :: "approval_context \<Rightarrow> press" where
  "context_press ctx = (ac_draft_id ctx, ac_po_id ctx, ac_line_items ctx)"

definition waits :: "receive_draft \<Rightarrow> bool" where
  "waits d \<longleftrightarrow> in_flight_status (rd_status d) \<and> rd_receive_record_id d = None"

text \<open>The units of a PO line that are claimed and not yet booked.\<close>

definition awaited_in :: "receive_draft list \<Rightarrow> uuid \<Rightarrow> int" where
  "awaited_in ds l = sum_list (map (\<lambda>d. requested (rd_line_items d) l) (filter waits ds))"

definition awaited :: "db \<Rightarrow> uuid \<Rightarrow> int" where
  "awaited db l = awaited_in (receive_drafts db) l"

definition room :: "db \<Rightarrow> po_line \<Rightarrow> bool" where
  "room db l \<longleftrightarrow> po_line_received_quantity l + awaited db (po_line_id l) \<le> po_line_ordered_quantity l"

definition order_open :: "db \<Rightarrow> purchase_order \<Rightarrow> bool" where
  "order_open db po \<longleftrightarrow> po_deleted_at po = None \<and> (receivable (po_status po) \<or>
     (\<forall>l \<in> set (po_lines db). po_line_po_id l = po_id po \<longrightarrow> po_line_ordered_quantity l \<le> po_line_received_quantity l))"

definition lines_ok :: "db \<Rightarrow> uuid \<Rightarrow> counted_line list \<Rightarrow> bool" where
  "lines_ok db po lines \<longleftrightarrow> lines \<noteq> [] \<and> (\<forall>li \<in> set lines. 1 \<le> ct_quantity_received li \<and>
     (\<exists>l \<in> set (po_lines db). po_line_id l = ct_po_line_item_id li \<and> po_line_po_id l = po)) \<and>
     (\<exists>order \<in> set (purchase_orders db). po_id order = po \<and> order_open db order)"

definition draft_ok :: "db \<Rightarrow> receive_draft \<Rightarrow> bool" where
  "draft_ok db d \<longleftrightarrow> lines_ok db (rd_po_id d) (rd_line_items d) \<and>
     (rd_status d \<noteq> DRAFT_APPROVED \<longrightarrow> rd_approved_outbox_entry_id d = None \<and> rd_receive_record_id d = None)"

text \<open>A waiting draft is held under a key: no row has it yet, or the row it is linked to does, and that row may still post.\<close>

definition held_row :: "db \<Rightarrow> receive_draft \<Rightarrow> string \<Rightarrow> gp_write \<Rightarrow> bool" where
  "held_row db d k e \<longleftrightarrow> rd_approved_outbox_entry_id d = Some (gw_id e) \<and> gw_idempotency_key e = k \<and>
     \<not> outbox_entry_never_reached_gp db e"

definition hold_ok :: "db \<Rightarrow> presses \<Rightarrow> receive_draft \<Rightarrow> bool" where
  "hold_ok db ps d \<longleftrightarrow> (waits d \<longrightarrow> (\<exists>k. rd_approval_idempotency_key d = Some k \<and> ps k = Some (press_of d) \<and>
     (if rd_status d = APPROVING then (\<forall>e \<in> set (gp_write_outbox db). gw_idempotency_key e \<noteq> k)
      else (\<exists>e \<in> set (gp_write_outbox db). held_row db d k e))))"

definition row_ok :: "presses \<Rightarrow> gp_write \<Rightarrow> bool" where
  "row_ok ps e \<longleftrightarrow> (\<exists>i. gw_receive_draft_id e = Some i \<and> ps (gw_idempotency_key e) = Some (i, gw_po_id e, gw_line_items e))"

definition ids_below :: "db \<Rightarrow> bool" where
  "ids_below db \<longleftrightarrow> (\<forall>d \<in> set (receive_drafts db). rd_id d < next_id db) \<and> (\<forall>e \<in> set (gp_write_outbox db). gw_id e < next_id db)"

definition keys_ok :: "db \<Rightarrow> bool" where
  "keys_ok db \<longleftrightarrow> distinct (map rd_id (receive_drafts db)) \<and> distinct (map gw_id (gp_write_outbox db)) \<and>
     distinct (map gw_idempotency_key (gp_write_outbox db)) \<and> distinct (map po_line_id (po_lines db)) \<and>
     distinct (map po_id (purchase_orders db)) \<and> ids_below db"

definition desk_ok :: "db \<Rightarrow> presses \<Rightarrow> bool" where
  "desk_ok db ps \<longleftrightarrow> keys_ok db \<and> (\<forall>d \<in> set (receive_drafts db). draft_ok db d \<and> hold_ok db ps d) \<and>
     (\<forall>e \<in> set (gp_write_outbox db). row_ok ps e) \<and> (\<forall>l \<in> set (po_lines db). room db l)"

text \<open>What the invariant reads.\<close>

definition same_books :: "db \<Rightarrow> db \<Rightarrow> bool" where
  "same_books a b \<longleftrightarrow> purchase_orders a = purchase_orders b \<and> po_lines a = po_lines b \<and> receive_drafts a = receive_drafts b \<and>
     gp_write_outbox a = gp_write_outbox b \<and> gp_write_idempotency a = gp_write_idempotency b \<and> next_id a \<le> next_id b"

lemma never_reached_cong:
  "gp_write_idempotency a = gp_write_idempotency b \<Longrightarrow> outbox_entry_never_reached_gp a = outbox_entry_never_reached_gp b"
  by (rule ext) (simp add: outbox_entry_never_reached_gp_def gp_answer_def ledger_of_def)

lemma lines_ok_cong: "purchase_orders a = purchase_orders b \<Longrightarrow> po_lines a = po_lines b \<Longrightarrow> lines_ok a = lines_ok b"
  by (intro ext) (simp add: lines_ok_def order_open_def)

lemma draft_ok_cong: "purchase_orders a = purchase_orders b \<Longrightarrow> po_lines a = po_lines b \<Longrightarrow> draft_ok a = draft_ok b"
  by (rule ext) (simp add: draft_ok_def lines_ok_cong [of a b])

lemma hold_ok_cong:
  "gp_write_outbox a = gp_write_outbox b \<Longrightarrow> gp_write_idempotency a = gp_write_idempotency b \<Longrightarrow> hold_ok a = hold_ok b"
  by (intro ext) (simp add: hold_ok_def held_row_def never_reached_cong [of a b])

lemma desk_ok_books:
  assumes "same_books a b" and "desk_ok a ps"
  shows "desk_ok b ps"
proof -
  have eqs: "draft_ok b = draft_ok a" "hold_ok b = hold_ok a" "room b = room a"
    using assms(1) draft_ok_cong [of b a] hold_ok_cong [of b a] by (simp_all add: same_books_def room_def [abs_def] awaited_def)
  have "keys_ok b" using assms by (auto simp: same_books_def desk_ok_def keys_ok_def ids_below_def)
  then show ?thesis using assms by (simp add: desk_ok_def eqs same_books_def)
qed

lemma same_books_refl [simp]: "same_books a a" by (simp add: same_books_def)

lemma same_books_trans: "same_books a b \<Longrightarrow> same_books b c \<Longrightarrow> same_books a c" by (auto simp: same_books_def)

section \<open>One draft changed\<close>

lemma awaited_in_simps [simp]:
  "awaited_in [] l = 0"
  "awaited_in (d # ds) l = (if waits d then requested (rd_line_items d) l else 0) + awaited_in ds l"
  "awaited_in (ds @ ds') l = awaited_in ds l + awaited_in ds' l"
  by (simp_all add: awaited_in_def)

lemma requested_nonneg: "\<forall>li \<in> set lines. 0 \<le> ct_quantity_received li \<Longrightarrow> 0 \<le> requested lines l"
  by (induction lines) auto

lemma awaited_update:
  assumes "distinct (map rd_id ds)" and "d \<in> set ds" and "rd_id d = i"
  shows "awaited_in (update_row rd_id i f ds) l = awaited_in ds l
    - (if waits d then requested (rd_line_items d) l else 0) + (if waits (f d) then requested (rd_line_items (f d)) l else 0)"
  using sum_rewritten_row [OF assms] by (simp add: awaited_in_def)

lemma hold_ok_mono: "hold_ok db ps d \<Longrightarrow> ps \<subseteq>\<^sub>m ps' \<Longrightarrow> hold_ok db ps' d"
  unfolding hold_ok_def by (metis domI map_le_def)

lemma hold_ok_key:
  "rd_approval_idempotency_key d = Some k \<Longrightarrow> hold_ok db ps d \<longleftrightarrow> (waits d \<longrightarrow> ps k = Some (press_of d) \<and>
     (if rd_status d = APPROVING then (\<forall>e \<in> set (gp_write_outbox db). gw_idempotency_key e \<noteq> k)
      else (\<exists>e \<in> set (gp_write_outbox db). held_row db d k e)))"
  by (simp add: hold_ok_def)

lemma row_ok_mono: "row_ok ps e \<Longrightarrow> ps \<subseteq>\<^sub>m ps' \<Longrightarrow> row_ok ps' e"
  unfolding row_ok_def by (metis domI map_le_def)

lemma desk_draftD: "desk_ok db ps \<Longrightarrow> d \<in> set (receive_drafts db) \<Longrightarrow> draft_ok db d \<and> hold_ok db ps d"
  by (simp add: desk_ok_def)

lemma desk_find: "desk_ok db ps \<Longrightarrow> find_row rd_id i (receive_drafts db) = Some d \<longleftrightarrow> d \<in> set (receive_drafts db) \<and> rd_id d = i"
  by (simp add: desk_ok_def keys_ok_def find_row_eq_Some)

lemma desk_entry: "desk_ok db ps \<Longrightarrow> entry_of db i = Some e \<longleftrightarrow> e \<in> set (gp_write_outbox db) \<and> gw_id e = i"
  by (simp add: desk_ok_def keys_ok_def entry_of_def find_row_eq_Some)

lemma set_replaced:
  assumes "distinct (map key rows)" and "r \<in> set rows" and "key r = i" and "key (f r) = i" and "x \<in> set (update_row key i f rows)"
  shows "x = f r \<or> x \<in> set rows \<and> key x \<noteq> i"
proof -
  have only: "y = r" if "y \<in> set rows" "key y = i" for y
    using assms(1-3) that by (metis distinct_map inj_on_def)
  from assms(5) obtain y where "y \<in> set rows" "x = (if key y = i then f y else y)" by (auto simp: set_update_row)
  then show ?thesis using only by (cases "key y = i") auto
qed

lemma draft_requested: "draft_ok db d \<Longrightarrow> 0 \<le> requested (rd_line_items d) l"
  unfolding draft_ok_def lines_ok_def by (intro requested_nonneg) force

lemma awaited_nonneg: "\<forall>d \<in> set ds. 0 \<le> requested (rd_line_items d) l \<Longrightarrow> 0 \<le> awaited_in ds l"
  by (induction ds) auto

text \<open>Between two writes of one transaction the hold of one draft may be unsettled.\<close>

definition desk_but :: "uuid \<Rightarrow> db \<Rightarrow> presses \<Rightarrow> bool" where
  "desk_but i db ps \<longleftrightarrow> keys_ok db \<and> (\<forall>d \<in> set (receive_drafts db). draft_ok db d \<and> (rd_id d \<noteq> i \<longrightarrow> hold_ok db ps d)) \<and>
     (\<forall>e \<in> set (gp_write_outbox db). row_ok ps e) \<and> (\<forall>l \<in> set (po_lines db). room db l)"

lemma desk_but: "desk_ok db ps \<Longrightarrow> desk_but i db ps"
  by (simp add: desk_ok_def desk_but_def)

lemma desk_settled: "desk_but i db ps \<Longrightarrow> \<forall>d \<in> set (receive_drafts db). rd_id d = i \<longrightarrow> hold_ok db ps d \<Longrightarrow> desk_ok db ps"
  by (auto simp: desk_ok_def desk_but_def)

text \<open>One draft rewritten.\<close>

lemma desk_fix:
  assumes ok: "desk_but i db ps" and d: "d \<in> set (receive_drafts db)" "rd_id d = i" and same: "rd_id (f d) = i"
    and new: "draft_ok db (f d)" "hold_ok db ps' (f d)" and more: "ps \<subseteq>\<^sub>m ps'"
    and fits: "waits (f d) \<Longrightarrow> \<not> waits d \<or> rd_line_items (f d) \<noteq> rd_line_items d \<Longrightarrow>
      \<forall>l \<in> set (po_lines db). room (set_draft i f db) l"
  shows "desk_ok (set_draft i f db) ps'"
proof -
  let ?db = "set_draft i f db"
  have keys: "keys_ok db" "distinct (map rd_id (receive_drafts db))" using ok by (simp_all add: desk_but_def keys_ok_def)
  have drafts: "receive_drafts ?db = update_row rd_id i f (receive_drafts db)" by (simp add: set_draft_def)
  have members: "x = f d \<or> x \<in> set (receive_drafts db) \<and> rd_id x \<noteq> i" if "x \<in> set (receive_drafts ?db)" for x
    using set_replaced [of rd_id _ d i f x] keys(2) d same that drafts by auto
  have ids: "map rd_id (receive_drafts ?db) = map rd_id (receive_drafts db)"
    using keys(2) d same unfolding drafts update_row_def
    by (auto simp: map_eq_conv) (metis distinct_map inj_on_def)
  have "ids_below ?db"
  proof -
    have "\<forall>x \<in> set (map rd_id (receive_drafts db)). x < next_id db" using keys(1) by (auto simp: keys_ok_def ids_below_def)
    then have "\<forall>x \<in> set (map rd_id (receive_drafts ?db)). x < next_id db" using ids by metis
    then show ?thesis using keys(1) by (simp add: ids_below_def keys_ok_def) (simp add: set_draft_def)
  qed
  then have "keys_ok ?db" using keys(1) ids by (simp add: keys_ok_def) (simp add: set_draft_def)
  moreover have "draft_ok ?db x \<and> hold_ok ?db ps' x" if "x \<in> set (receive_drafts ?db)" for x
  proof -
    have "draft_ok db x \<and> hold_ok db ps' x"
      using members [OF that] new ok more hold_ok_mono by (auto simp: desk_but_def)
    then show ?thesis using draft_ok_cong [of ?db db] hold_ok_cong [of ?db db] by (simp add: set_draft_def)
  qed
  moreover have "\<forall>e \<in> set (gp_write_outbox ?db). row_ok ps' e" using ok more row_ok_mono by (auto simp: desk_but_def set_draft_def)
  moreover have "\<forall>l \<in> set (po_lines ?db). room ?db l"
  proof (cases "waits (f d) \<and> (\<not> waits d \<or> rd_line_items (f d) \<noteq> rd_line_items d)")
    case True
    then show ?thesis using fits by (simp add: set_draft_def)
  next
    case False
    have "awaited ?db l \<le> awaited db l" for l
      using awaited_update [OF keys(2) d, of f l] False draft_requested [of db d l] ok d(1)
      by (auto simp: awaited_def drafts desk_but_def)
    moreover have "\<forall>l \<in> set (po_lines db). room db l" using ok by (simp add: desk_but_def)
    moreover have "po_lines ?db = po_lines db" by (simp add: set_draft_def)
    ultimately show ?thesis unfolding room_def by (metis add_left_mono order_trans)
  qed
  ultimately show ?thesis by (simp add: desk_ok_def)
qed

lemma desk_replace:
  assumes "desk_ok db ps" and "d \<in> set (receive_drafts db)" "rd_id d = i" and "rd_id (f d) = i"
    and "draft_ok db (f d)" "hold_ok db ps' (f d)" and "ps \<subseteq>\<^sub>m ps'"
    and "waits (f d) \<Longrightarrow> \<not> waits d \<or> rd_line_items (f d) \<noteq> rd_line_items d \<Longrightarrow>
      \<forall>l \<in> set (po_lines db). room (set_draft i f db) l"
  shows "desk_ok (set_draft i f db) ps'"
  by (rule desk_fix [OF desk_but [OF assms(1)] assms(2-8)])

lemma desk_add_draft:
  assumes ok: "desk_ok db ps" and d: "rd_id d = next_id db" "draft_ok db d" "\<not> waits d"
  shows "desk_ok (db\<lparr>next_id := Suc (next_id db), receive_drafts := receive_drafts db @ [d]\<rparr>) ps"
proof -
  let ?db = "db\<lparr>next_id := Suc (next_id db), receive_drafts := receive_drafts db @ [d]\<rparr>"
  have "keys_ok ?db" using ok d(1) by (force simp: desk_ok_def keys_ok_def ids_below_def)
  moreover have "draft_ok ?db = draft_ok db" "hold_ok ?db = hold_ok db"
    by (intro draft_ok_cong hold_ok_cong; simp)+
  moreover have "hold_ok db ps d" using d(3) by (simp add: hold_ok_def)
  moreover have "room ?db = room db" using d(3) by (auto simp: room_def awaited_def)
  ultimately show ?thesis using ok d(2) by (auto simp: desk_ok_def)
qed

lemma awaited_delete: "\<forall>d \<in> set ds. P d \<longrightarrow> \<not> waits d \<Longrightarrow> awaited_in (delete_rows P ds) l = awaited_in ds l"
  by (induction ds) (auto simp: delete_rows_def)

lemma desk_delete_draft:
  assumes ok: "desk_ok db ps" and "\<forall>d \<in> set (receive_drafts db). P d \<longrightarrow> \<not> waits d"
  shows "desk_ok (db\<lparr>receive_drafts := delete_rows P (receive_drafts db)\<rparr>) ps"
proof -
  let ?db = "db\<lparr>receive_drafts := delete_rows P (receive_drafts db)\<rparr>"
  have "keys_ok ?db" using ok by (auto simp: desk_ok_def keys_ok_def ids_below_def set_delete_rows distinct_delete_rows)
  moreover have "draft_ok ?db = draft_ok db" "hold_ok ?db = hold_ok db"
    by (intro draft_ok_cong hold_ok_cong; simp)+
  moreover have "room ?db = room db" using awaited_delete [OF assms(2)] by (auto simp: room_def awaited_def)
  ultimately show ?thesis using ok by (auto simp: desk_ok_def set_delete_rows)
qed

section \<open>The queue and the ledger\<close>

definition same_receipt :: "gp_write \<Rightarrow> gp_write \<Rightarrow> bool" where
  "same_receipt a b \<longleftrightarrow> gw_id a = gw_id b \<and> gw_idempotency_key a = gw_idempotency_key b \<and> gw_po_id a = gw_po_id b \<and>
     gw_line_items a = gw_line_items b \<and> gw_receive_draft_id a = gw_receive_draft_id b"

definition linked :: "db \<Rightarrow> uuid \<Rightarrow> uuid \<Rightarrow> bool" where
  "linked db i j \<longleftrightarrow> (\<exists>d \<in> set (receive_drafts db). rd_id d \<noteq> i \<and> waits d \<and> rd_approved_outbox_entry_id d = Some j)"

lemma desk_but_map_entries:
  assumes ok: "desk_but i db ps" and same: "\<And>e. e \<in> set (gp_write_outbox db) \<Longrightarrow> same_receipt (g e) e"
    and alive: "\<And>e. e \<in> set (gp_write_outbox db) \<Longrightarrow> linked db i (gw_id e) \<Longrightarrow>
      outbox_entry_never_reached_gp db (g e) \<Longrightarrow> outbox_entry_never_reached_gp db e"
  shows "desk_but i (db\<lparr>gp_write_outbox := map g (gp_write_outbox db)\<rparr>) ps"
proof -
  let ?db = "db\<lparr>gp_write_outbox := map g (gp_write_outbox db)\<rparr>"
  have maps: "map gw_id (map g (gp_write_outbox db)) = map gw_id (gp_write_outbox db)"
    "map gw_idempotency_key (map g (gp_write_outbox db)) = map gw_idempotency_key (gp_write_outbox db)"
    using same by (auto simp: same_receipt_def)
  have "keys_ok ?db" using ok maps same by (auto simp: desk_but_def keys_ok_def ids_below_def same_receipt_def simp del: map_map)
  moreover have "draft_ok ?db = draft_ok db" by (rule draft_ok_cong) simp_all
  moreover have "room ?db = room db" by (auto simp: room_def awaited_def)
  moreover have "outbox_entry_never_reached_gp ?db = outbox_entry_never_reached_gp db" by (rule never_reached_cong) simp
  then have "hold_ok ?db ps d" if "d \<in> set (receive_drafts db)" "rd_id d \<noteq> i" for d
    using ok same alive that unfolding desk_but_def hold_ok_def held_row_def linked_def same_receipt_def
    by (auto split: if_splits) metis
  moreover have "\<forall>e \<in> set (gp_write_outbox ?db). row_ok ps e"
    using ok same by (auto simp: desk_but_def row_ok_def same_receipt_def)
  ultimately show ?thesis using ok by (simp add: desk_but_def)
qed

lemma desk_but_add_entry:
  assumes ok: "desk_but i db ps" and e: "gw_id e = next_id db" "row_ok ps e" "\<forall>x \<in> set (gp_write_outbox db). gw_idempotency_key x \<noteq> gw_idempotency_key e"
    and unheld: "\<forall>d \<in> set (receive_drafts db). rd_id d \<noteq> i \<and> waits d \<longrightarrow> rd_approval_idempotency_key d \<noteq> Some (gw_idempotency_key e)"
  shows "desk_but i (db\<lparr>next_id := Suc (next_id db), gp_write_outbox := gp_write_outbox db @ [e]\<rparr>) ps"
proof -
  let ?db = "db\<lparr>next_id := Suc (next_id db), gp_write_outbox := gp_write_outbox db @ [e]\<rparr>"
  have "keys_ok ?db" using ok e by (force simp: desk_but_def keys_ok_def ids_below_def)
  moreover have "draft_ok ?db = draft_ok db" by (rule draft_ok_cong) simp_all
  moreover have "room ?db = room db" by (auto simp: room_def awaited_def)
  moreover have never: "outbox_entry_never_reached_gp ?db = outbox_entry_never_reached_gp db" by (rule never_reached_cong) simp
  then have "hold_ok ?db ps d" if d: "d \<in> set (receive_drafts db)" "rd_id d \<noteq> i" for d
  proof (cases "waits d")
    case True
    then have no: "rd_approval_idempotency_key d \<noteq> Some (gw_idempotency_key e)" and held: "hold_ok db ps d"
      using ok unheld d by (simp_all add: desk_but_def)
    then obtain k where k: "rd_approval_idempotency_key d = Some k" using True by (auto simp: hold_ok_def)
    have "held_row ?db = held_row db" using never by (intro ext) (simp add: held_row_def)
    then show ?thesis using True no held k by (auto simp: hold_ok_key [OF k])
  qed (simp add: hold_ok_def)
  ultimately show ?thesis using ok e(2) by (auto simp: desk_but_def)
qed

text \<open>The whole desk is one without an unsettled draft: no draft has the id \<open>i\<close>.\<close>

lemma desk_map_entries:
  assumes ok: "desk_ok db ps" and same: "\<And>e. e \<in> set (gp_write_outbox db) \<Longrightarrow> same_receipt (g e) e"
    and alive: "\<And>e. e \<in> set (gp_write_outbox db) \<Longrightarrow> outbox_entry_never_reached_gp db (g e) \<Longrightarrow> outbox_entry_never_reached_gp db e"
  shows "desk_ok (db\<lparr>gp_write_outbox := map g (gp_write_outbox db)\<rparr>) ps"
proof -
  have "desk_but (next_id db) (db\<lparr>gp_write_outbox := map g (gp_write_outbox db)\<rparr>) ps"
    using same alive by (intro desk_but_map_entries [OF desk_but [OF ok]]) simp_all
  moreover have "\<forall>d \<in> set (receive_drafts db). rd_id d \<noteq> next_id db"
    using ok by (auto simp: desk_ok_def keys_ok_def ids_below_def)
  ultimately show ?thesis by - (rule desk_settled, auto)
qed

lemma desk_add_entry:
  assumes ok: "desk_ok db ps" and e: "gw_id e = next_id db" "row_ok ps e" "\<forall>x \<in> set (gp_write_outbox db). gw_idempotency_key x \<noteq> gw_idempotency_key e"
    and unheld: "\<forall>d \<in> set (receive_drafts db). waits d \<longrightarrow> rd_approval_idempotency_key d \<noteq> Some (gw_idempotency_key e)"
  shows "desk_ok (db\<lparr>next_id := Suc (next_id db), gp_write_outbox := gp_write_outbox db @ [e]\<rparr>) ps"
proof -
  have "desk_but (next_id db) (db\<lparr>next_id := Suc (next_id db), gp_write_outbox := gp_write_outbox db @ [e]\<rparr>) ps"
    using unheld by (intro desk_but_add_entry [OF desk_but [OF ok] e]) simp
  moreover have "\<forall>d \<in> set (receive_drafts db). rd_id d \<noteq> next_id db"
    using ok by (auto simp: desk_ok_def keys_ok_def ids_below_def)
  ultimately show ?thesis by - (rule desk_settled, auto)
qed

lemma ledger_of_upsert:
  "ledger_of (upsert_ledger key a r db) k =
     (if k = key then Some (case ledger_of db key of None \<Rightarrow> \<lparr>gl_key = key, gl_relay_result = a, gl_result_id = r\<rparr>
        | Some l \<Rightarrow> l\<lparr>gl_relay_result := (if a = None then gl_relay_result l else a),
            gl_result_id := (if r = None then gl_result_id l else r)\<rparr>)
      else ledger_of db k)"
proof -
  have find: "List.find (\<lambda>l. gl_key l = k) (map (\<lambda>l. if gl_key l = key then f l else l) ls) =
      (if k = key then map_option f (List.find (\<lambda>l. gl_key l = k) ls) else List.find (\<lambda>l. gl_key l = k) ls)"
    if "\<And>l. gl_key (f l) = gl_key l" for f ls
    using that by (induction ls) auto
  have add: "List.find (\<lambda>l. gl_key l = k) (ls @ [x]) = (case List.find (\<lambda>l. gl_key l = k) ls of
      None \<Rightarrow> if gl_key x = k then Some x else None | Some l \<Rightarrow> Some l)" for ls x
    by (induction ls) auto
  show ?thesis
  proof (cases "ledger_of db key")
    case None
    then show ?thesis by (auto simp: upsert_ledger_def ledger_of_def add split: option.split)
  next
    case (Some l)
    then show ?thesis unfolding upsert_ledger_def by (auto simp: ledger_of_def find)
  qed
qed

lemma gp_answer_upsert:
  "gp_answer (upsert_ledger key a r db) k = (if k = key \<and> a \<noteq> None then a else gp_answer db k)"
  by (cases a) (auto simp: gp_answer_def ledger_of_upsert split: option.splits)

lemma ledger_settled_upsert:
  "ledger_settled (upsert_ledger key a r db) k = (if k = key \<and> r \<noteq> None then r else ledger_settled db k)"
  by (cases r) (auto simp: ledger_settled_def ledger_of_upsert split: option.splits)

lemma upsert_frame [simp]:
  "purchase_orders (upsert_ledger key a r db) = purchase_orders db" "po_lines (upsert_ledger key a r db) = po_lines db"
  "receive_drafts (upsert_ledger key a r db) = receive_drafts db" "gp_write_outbox (upsert_ledger key a r db) = gp_write_outbox db"
  "next_id (upsert_ledger key a r db) = next_id db" "receive_records (upsert_ledger key a r db) = receive_records db"
  by (simp_all add: upsert_ledger_def split: option.split)

lemma desk_upsert:
  assumes ok: "desk_ok db ps"
  shows "desk_ok (upsert_ledger key a r db) ps"
proof -
  let ?db = "upsert_ledger key a r db"
  have "outbox_entry_never_reached_gp ?db e \<Longrightarrow> outbox_entry_never_reached_gp db e" for e
    by (auto simp: outbox_entry_never_reached_gp_def gp_answer_upsert split: if_splits)
  then have "hold_ok ?db ps d" if "d \<in> set (receive_drafts db)" for d
    using desk_draftD [OF ok that] unfolding hold_ok_def held_row_def by (auto split: if_splits)
  moreover have "draft_ok ?db = draft_ok db" by (rule draft_ok_cong) simp_all
  moreover have "room ?db = room db" by (auto simp: room_def awaited_def)
  moreover have "keys_ok ?db" using ok by (simp add: desk_ok_def keys_ok_def ids_below_def)
  ultimately show ?thesis using ok by (simp add: desk_ok_def)
qed

end
