(* ===== verification/DeskClaims.thy ===== *)
theory DeskClaims
  imports Desk
begin

text \<open>
  The operations on a count - create, edit, resubmit, reject, delete, claim, let go, release - keep what the desk keeps.
\<close>

section \<open>The operations on a count\<close>

lemma create_notification_books: "create_notification now p role ty a u s db = Inr db' \<Longrightarrow> same_books db db'"
  by (auto simp: create_notification_def fresh_def Let_def same_books_def split: if_splits)

lemma draft_notice_books: "draft_notice now p role ty u d db = Inr db' \<Longrightarrow> same_books db db'"
  unfolding draft_notice_def bindr_eq_Inr
  by (elim exE conjE) (drule create_notification_books, auto simp: same_books_def)

lemma notify_books:
  "notify_submitted now i po db = Inr db' \<Longrightarrow> same_books db db'" "notify_author now d db = Inr db' \<Longrightarrow> same_books db db'"
  using draft_notice_books by (auto simp: notify_submitted_def notify_author_def split: option.splits)

lemma eligible_lines_Inr:
  "eligible_lines db poli check lines = Inr rs \<Longrightarrow>
     \<forall>li \<in> set lines. 1 \<le> ct_quantity_received li \<and> (\<exists>l. find_row po_line_id (ct_po_line_item_id li) poli = Some l \<and>
       po_line_gp_line_ord l \<noteq> None)"
  by (induction lines arbitrary: rs) (auto simp: eligible_line_def bindr_eq_Inr ensure_eq_Inr split: option.splits)

lemma validate_Inr:
  assumes "validate_receive_eligibility db po who lines cb w = Inr r"
  obtains order where "live_po db po = Inr order" "receivable (po_status order)" "receiver_ok who" "lines \<noteq> []"
    "\<forall>li \<in> set lines. 1 \<le> ct_quantity_received li \<and> (\<exists>l. find_row po_line_id (ct_po_line_item_id li) (po_line_items db po) = Some l \<and>
       po_line_gp_line_ord l \<noteq> None)"
    "assert_within_pending (po_line_items db po) lines = Inr ()"
proof -
  from assms obtain order check rs where *: "live_po db po = Inr order" "receivable (po_status order)" "receiver_ok who" "lines \<noteq> []"
    "eligible_lines db (po_line_items db po) check lines = Inr rs" "assert_within_pending (po_line_items db po) lines = Inr ()"
    unfolding validate_receive_eligibility_def bindr_eq_Inr ensure_eq_Inr by auto
  from that [OF *(1-4) eligible_lines_Inr [OF *(5)] *(6)] show ?thesis .
qed

lemma validate_lines_ok: "validate_receive_eligibility db po who lines cb w = Inr r \<Longrightarrow> lines_ok db po lines"
  by (elim validate_Inr)
    (fastforce simp: lines_ok_def order_open_def live_po_Inr po_line_items_def dest!: find_row_Some)

lemma locked_draft_Inr: "desk_ok db ps \<Longrightarrow> locked_draft db i = Inr d \<longleftrightarrow> d \<in> set (receive_drafts db) \<and> rd_id d = i"
proof -
  assume "desk_ok db ps"
  moreover have "locked_draft db i = Inr d \<longleftrightarrow> find_row rd_id i (receive_drafts db) = Some d"
    by (auto simp: locked_draft_def split: option.splits)
  ultimately show ?thesis using desk_find by simp
qed

lemma stamped_simps [simp]: "rd_id (stamped now f d) = rd_id (f d)" "rd_status (stamped now f d) = rd_status (f d)"
  "rd_receive_record_id (stamped now f d) = rd_receive_record_id (f d)" "rd_po_id (stamped now f d) = rd_po_id (f d)"
  "rd_line_items (stamped now f d) = rd_line_items (f d)" "rd_approval_idempotency_key (stamped now f d) = rd_approval_idempotency_key (f d)"
  "rd_approved_outbox_entry_id (stamped now f d) = rd_approved_outbox_entry_id (f d)"
  by (auto simp: stamped_def)

lemma clear_review_simps [simp]: "rd_id (clear_review d) = rd_id d" "rd_status (clear_review d) = rd_status d"
  "rd_receive_record_id (clear_review d) = rd_receive_record_id d" "rd_po_id (clear_review d) = rd_po_id d"
  "rd_line_items (clear_review d) = rd_line_items d" "rd_approval_idempotency_key (clear_review d) = rd_approval_idempotency_key d"
  "rd_approved_outbox_entry_id (clear_review d) = rd_approved_outbox_entry_id d"
  by (simp_all add: clear_review_def)

text \<open>A draft that waits for nobody's receipt holds nothing.\<close>

lemma not_waiting [simp]: "rd_status d = PENDING_APPROVAL \<Longrightarrow> \<not> waits d" "rd_status d = DRAFT_REJECTED \<Longrightarrow> \<not> waits d"
  by (simp_all add: waits_def in_flight_status_def)

lemma desk_idle:
  assumes "desk_ok db ps" and "d \<in> set (receive_drafts db)" "rd_id d = i" and "rd_id (f d) = i" "\<not> waits (f d)" "draft_ok db (f d)"
  shows "desk_ok (set_draft i f db) ps"
  using assms by (intro desk_replace [of db ps d i f ps]) (auto simp: hold_ok_def)

lemma draft_ok_pending:
  assumes "lines_ok db po lines" and "rd_po_id d = po" "rd_line_items d = lines"
    and "rd_approved_outbox_entry_id d = None" "rd_receive_record_id d = None"
  shows "draft_ok db d"
  using assms by (simp add: draft_ok_def)

text \<open>A new count is the last draft, waiting for its review.\<close>

lemma create_draft_Inr:
  assumes "create_receive_draft now po lines user name w key doc notes db = Inr (i, db')"
  obtains "db' = db"
  | d where "rd_id d = next_id db" "rd_status d = PENDING_APPROVAL" "rd_receive_record_id d = None"
      "rd_approved_outbox_entry_id d = None" "draft_ok db d"
      "same_books (db\<lparr>next_id := Suc (next_id db), receive_drafts := receive_drafts db @ [d]\<rparr>) db'"
proof (cases "draft_for_create_key db key")
  case (Some e)
  then show ?thesis using assms that(1) by (auto simp: create_receive_draft_def bindr_eq_Inr)
next
  case None
  let ?d = "\<lambda>cleaned. new_draft (next_id db) now po w doc user name cleaned key lines"
  let ?db1 = "\<lambda>cleaned. db\<lparr>next_id := Suc (next_id db), receive_drafts := receive_drafts db @ [?d cleaned]\<rparr>"
  from assms None obtain x cleaned where valid: "validate_receive_eligibility db po name lines False None = Inr x"
    and note': "notify_submitted now (next_id db) (po_of (?db1 cleaned) po) (?db1 cleaned) = Inr db'"
    unfolding create_receive_draft_def None fresh_def Let_def prod.case option.case
    by (elim bindr_InrE) (simp only: ensure_eq_Inr, elim conjE bindr_InrE, fastforce)
  have "draft_ok db (?d cleaned)" using validate_lines_ok [OF valid] by (intro draft_ok_pending) (auto simp: new_draft_def)
  then show ?thesis using notify_books(1) [OF note'] by (intro that(2) [of "?d cleaned"]) (simp_all add: new_draft_def)
qed

lemma create_receive_draft_desk:
  assumes ok: "desk_ok db ps" and run: "create_receive_draft now po lines user name w key doc notes db = Inr (i, db')"
  shows "desk_ok db' ps"
  using run
proof (cases rule: create_draft_Inr)
  case 1
  then show ?thesis using ok by simp
next
  case (2 d)
  then have "desk_ok (db\<lparr>next_id := Suc (next_id db), receive_drafts := receive_drafts db @ [d]\<rparr>) ps"
    by (intro desk_add_draft [OF ok]) simp_all
  then show ?thesis using 2 desk_ok_books by blast
qed

text \<open>A draft no one has claimed is rewritten, and stays unclaimed.\<close>

definition unclaimed :: "receive_draft \<Rightarrow> bool" where
  "unclaimed d \<longleftrightarrow> rd_status d = PENDING_APPROVAL \<or> rd_status d = DRAFT_REJECTED"

lemma unclaimed_facts: "unclaimed d \<Longrightarrow> \<not> waits d" "unclaimed d \<Longrightarrow> rd_status d \<noteq> DRAFT_APPROVED"
  "unclaimed d \<Longrightarrow> \<not> in_flight_status (rd_status d)"
  by (auto simp: unclaimed_def waits_def in_flight_status_def)

definition reworked :: "uuid \<Rightarrow> db \<Rightarrow> db \<Rightarrow> bool" where
  "reworked i db db' \<longleftrightarrow> (\<exists>d f. d \<in> set (receive_drafts db) \<and> rd_id d = i \<and> unclaimed d \<and> rd_id (f d) = i \<and> unclaimed (f d) \<and>
     rd_receive_record_id (f d) = rd_receive_record_id d \<and> rd_approved_outbox_entry_id (f d) = rd_approved_outbox_entry_id d \<and>
     draft_ok db (f d) \<and> same_books (set_draft i f db) db')"

lemma reworked_desk:
  assumes ok: "desk_ok db ps" and "reworked i db db'"
  shows "desk_ok db' ps"
proof -
  from assms(2) obtain d f where d: "d \<in> set (receive_drafts db)" "rd_id d = i" "rd_id (f d) = i" "unclaimed (f d)" "draft_ok db (f d)"
    and books: "same_books (set_draft i f db) db'"
    by (auto simp: reworked_def)
  have "desk_ok (set_draft i f db) ps" using d by (intro desk_idle [OF ok d(1,2)]) (simp_all add: unclaimed_facts)
  then show ?thesis using books desk_ok_books by blast
qed

lemma update_draft_reworked:
  assumes ok: "desk_ok db ps" and run: "update_receive_draft now i lines actor m w notes exp db = Inr db'"
  shows "reworked i db db'"
proof -
  from run obtain d x cleaned where d: "locked_draft db i = Inr d" and edit: "assert_can_edit d actor m = Inr ()"
    and valid: "validate_receive_eligibility db (rd_po_id d) (rd_created_by_name d) lines False None = Inr x"
    and db': "db' = set_draft i (\<lambda>d. d\<lparr>rd_warehouse_id := (if w = None then rd_warehouse_id d else w),
            rd_notes := cleaned, rd_line_items := lines, rd_updated_at := max now (rd_updated_at d + 1)\<rparr>) db"
    unfolding update_receive_draft_def by (elim bindr_InrE) auto
  have st: "unclaimed d" using edit by (auto simp: assert_can_edit_def ensure_eq_Inr unclaimed_def split: if_splits)
  have mem: "d \<in> set (receive_drafts db)" "rd_id d = i" using d locked_draft_Inr [OF ok] by auto
  then have "draft_ok db d" using desk_draftD [OF ok] by blast
  then show ?thesis unfolding reworked_def db' using st validate_lines_ok [OF valid] mem
    by (intro exI [of _ d] exI [of _ "\<lambda>d. d\<lparr>rd_warehouse_id := (if w = None then rd_warehouse_id d else w),
            rd_notes := cleaned, rd_line_items := lines, rd_updated_at := max now (rd_updated_at d + 1)\<rparr>"])
      (auto simp: draft_ok_def unclaimed_def)
qed

lemma resubmit_draft_reworked:
  assumes ok: "desk_ok db ps" and run: "resubmit_receive_draft now i actor db = Inr db'"
  shows "reworked i db db'"
proof -
  let ?f = "stamped now (\<lambda>d. (clear_review d)\<lparr>rd_status := PENDING_APPROVAL, rd_rejection_reason := None\<rparr>)"
  from run obtain d po where d: "locked_draft db i = Inr d" and st: "rd_status d = DRAFT_REJECTED"
    and note': "notify_submitted now i po (set_draft i ?f db) = Inr db'"
    unfolding resubmit_receive_draft_def Let_def by (elim bindr_InrE) (simp only: ensure_eq_Inr, elim conjE bindr_InrE, fastforce)
  have mem: "d \<in> set (receive_drafts db)" "rd_id d = i" using d locked_draft_Inr [OF ok] by auto
  then have "draft_ok db d" using desk_draftD [OF ok] by blast
  then show ?thesis unfolding reworked_def using st mem notify_books(1) [OF note']
    by (intro exI [of _ d] exI [of _ ?f]) (auto simp: draft_ok_def unclaimed_def)
qed

lemma reject_draft_reworked:
  assumes ok: "desk_ok db ps" and run: "reject_receive_draft now i reason user name db = Inr db'"
  shows "reworked i db db'"
proof -
  let ?f = "stamped now (\<lambda>d. d\<lparr>rd_status := DRAFT_REJECTED, rd_reviewed_by_user_id := Some user, rd_reviewed_by_name := Some name,
        rd_reviewed_at := Some now, rd_rejection_reason := Some (strip reason)\<rparr>)"
  from run obtain d where d: "locked_draft db i = Inr d" and st: "rd_status d = PENDING_APPROVAL"
    and note': "notify_author now d (set_draft i ?f db) = Inr db'"
    unfolding reject_receive_draft_def Let_def by (auto simp: ensure_eq_Inr bindr_eq_Inr)
  have mem: "d \<in> set (receive_drafts db)" "rd_id d = i" using d locked_draft_Inr [OF ok] by auto
  then have "draft_ok db d" using desk_draftD [OF ok] by blast
  then show ?thesis unfolding reworked_def using st mem notify_books(2) [OF note']
    by (intro exI [of _ d] exI [of _ ?f]) (auto simp: draft_ok_def unclaimed_def)
qed

lemmas rework_desk = reworked_desk [OF _ update_draft_reworked] reworked_desk [OF _ resubmit_draft_reworked]
  reworked_desk [OF _ reject_draft_reworked]

lemma delete_draft_Inr:
  assumes ok: "desk_ok db ps" and run: "delete_receive_draft i actor m db = Inr (slip, db')"
  shows "\<forall>x \<in> set (receive_drafts db). rd_id x = i \<longrightarrow> \<not> in_flight_status (rd_status x)"
    and "same_books (db\<lparr>receive_drafts := delete_rows (\<lambda>d. rd_id d = i) (receive_drafts db)\<rparr>) db'"
proof -
  let ?db1 = "withdraw_receive_draft_submitted i db"
  let ?db2 = "?db1\<lparr>receive_drafts := delete_rows (\<lambda>d. rd_id d = i) (receive_drafts ?db1)\<rparr>"
  from run obtain d where d: "locked_draft db i = Inr d" and st: "\<not> in_flight_status (rd_status d)"
    and rest: "(case rd_packing_slip_document_id d of
          None \<Rightarrow> Inr (None, ?db2)
        | Some slip \<Rightarrow>
            if list_ex (\<lambda>d. rd_packing_slip_document_id d = Some slip) (receive_drafts ?db2) then Inr (None, ?db2)
            else (case find_row pd_id slip (po_documents ?db2) of
                None \<Rightarrow> Inr (None, ?db2)
              | Some doc \<Rightarrow> Inr (Some (pd_s3_key doc), ?db2\<lparr>po_documents := delete_rows (\<lambda>p. pd_id p = slip) (po_documents ?db2)\<rparr>))) =
        (Inr (slip, db') :: (string option \<times> db) result)"
    unfolding delete_receive_draft_def Let_def by (elim bindr_InrE) (simp only: ensure_eq_Inr, blast)
  have "same_books ?db2 db'"
  proof (cases "rd_packing_slip_document_id d")
    case None
    then show ?thesis using rest by simp
  next
    case (Some k)
    show ?thesis
    proof (cases "list_ex (\<lambda>d. rd_packing_slip_document_id d = Some k) (receive_drafts ?db2)")
      case True
      then show ?thesis using rest Some by (simp only: option.case if_True) simp
    next
      case False
      then show ?thesis using rest Some by (cases "find_row pd_id k (po_documents ?db2)") (auto simp: same_books_def)
    qed
  qed
  then show "same_books (db\<lparr>receive_drafts := delete_rows (\<lambda>d. rd_id d = i) (receive_drafts db)\<rparr>) db'"
    by (simp add: same_books_def withdraw_receive_draft_submitted_def)
  show "\<forall>x \<in> set (receive_drafts db). rd_id x = i \<longrightarrow> \<not> in_flight_status (rd_status x)"
    using d st locked_draft_Inr [OF ok] desk_find [OF ok, of i] by (metis option.inject)
qed

lemma delete_receive_draft_desk:
  assumes ok: "desk_ok db ps" and run: "delete_receive_draft i actor m db = Inr (slip, db')"
  shows "desk_ok db' ps"
  using delete_draft_Inr [OF assms] by (intro desk_ok_books [OF _ desk_delete_draft [OF ok]]) (auto simp: waits_def)

section \<open>Claims\<close>

lemma desk_set_none: "i \<notin> rd_id ` set (receive_drafts db) \<Longrightarrow> set_draft i f db = db"
  by (simp add: set_draft_def update_row_notin)

lemma waits_holds:
  assumes "desk_ok db ps" and "d \<in> set (receive_drafts db)"
  shows "holds_units db d \<longleftrightarrow> waits d"
proof -
  have "waits d \<Longrightarrow> rd_approved_outbox_entry_id d = Some j \<Longrightarrow> entry_of db j = Some e \<Longrightarrow> \<not> outbox_entry_never_reached_gp db e" for j e
    using desk_draftD [OF assms] desk_entry [OF assms(1), of j e]
    by (auto simp: hold_ok_def held_row_def draft_ok_def split: if_splits) (metis assms(1) desk_entry option.inject)
  then show ?thesis by (auto simp: holds_units_def waits_def split: option.split bind_splits)
qed

lemma line_of_order:
  assumes "desk_ok db ps" and "lines_ok db po lines" and "l \<in> set (po_lines db)" and "requested lines (po_line_id l) \<noteq> 0"
  shows "po_line_po_id l = po"
proof -
  have "po_line_id l \<in> ct_po_line_item_id ` set lines" using assms(4) requested_notin by blast
  then obtain li l' where "li \<in> set lines" "l' \<in> set (po_lines db)" "po_line_id l' = po_line_id l" "po_line_po_id l' = po"
    using assms(2) by (force simp: lines_ok_def)
  moreover have "distinct (map po_line_id (po_lines db))" using assms(1) by (simp add: desk_ok_def keys_ok_def)
  ultimately show ?thesis using assms(3) by (metis distinct_map inj_on_def)
qed

text \<open>The claim's sum over the drafts in flight on this order is all that is awaited of the line.\<close>

lemma in_flight_awaited:
  assumes ok: "desk_ok db ps" and d: "d \<in> set (receive_drafts db)" "\<not> waits d"
    and l: "l \<in> set (po_lines db)" "po_line_po_id l = rd_po_id d"
  shows "in_flight_quantity db d (po_line_id l) = awaited db (po_line_id l)"
proof -
  let ?r = "\<lambda>x. requested (rd_line_items x) (po_line_id l)"
  have "(if rd_po_id x = rd_po_id d \<and> rd_id x \<noteq> rd_id d \<and> holds_units db x then ?r x else 0) = (if waits x then ?r x else 0)"
    if x: "x \<in> set (receive_drafts db)" for x
  proof (cases "waits x \<and> ?r x \<noteq> 0")
    case True
    have "draft_ok db x" using desk_draftD [OF ok x] by simp
    then have "rd_po_id x = rd_po_id d" using line_of_order [OF ok _ l(1), of "rd_po_id x" "rd_line_items x"] True l(2)
      by (simp add: draft_ok_def)
    moreover have "rd_id x \<noteq> rd_id d" using True d x ok desk_find by (metis option.inject)
    ultimately show ?thesis using True waits_holds [OF ok x] by simp
  next
    case False
    then show ?thesis using waits_holds [OF ok x] by auto
  qed
  then show ?thesis unfolding in_flight_quantity_def awaited_def awaited_in_def requested_def [symmetric]
    unfolding sum_list_map_filter' by (intro arg_cong [where f = sum_list] map_cong) simp_all
qed

lemma wanted_requested: "(i, q) \<in> set (wanted_of lines) \<longleftrightarrow> i \<in> ct_po_line_item_id ` set lines \<and> q = requested lines i"
proof -
  have "requested lines i = dict_get (wanted_of lines) i" for i by (simp add: wanted_of_def dict_get_sum_by requested_def)
  then show ?thesis by (auto simp: wanted_of_def sum_by_def tally_mem dict_get_tally image_image)
qed

lemma claim_room:
  assumes ok: "desk_ok db ps" and d: "d \<in> set (receive_drafts db)" "\<not> waits d"
    and free: "assert_no_conflicting_claim db d = Inr ()" and l: "l \<in> set (po_lines db)"
  shows "po_line_received_quantity l + awaited db (po_line_id l) + requested (rd_line_items d) (po_line_id l)
    \<le> po_line_ordered_quantity l"
proof (cases "requested (rd_line_items d) (po_line_id l) = 0")
  case True
  then show ?thesis using ok l by (simp add: desk_ok_def room_def)
next
  case False
  have "lines_ok db (rd_po_id d) (rd_line_items d)" using desk_draftD [OF ok d(1)] by (simp add: draft_ok_def)
  then have po: "po_line_po_id l = rd_po_id d" using line_of_order [OF ok _ l False] by simp
  have "(po_line_id l, requested (rd_line_items d) (po_line_id l)) \<in> set (wanted_of (rd_line_items d))"
    using False requested_notin by (auto simp: wanted_requested)
  then have "claim_fits db d (po_line_id l, requested (rd_line_items d) (po_line_id l))"
    using free by (auto simp: assert_no_conflicting_claim_def ensure_eq_Inr list_all_iff)
  moreover have "find_row po_line_id (po_line_id l) (po_lines db) = Some l"
    using ok l by (simp add: desk_ok_def keys_ok_def find_row_eq_Some)
  ultimately show ?thesis using in_flight_awaited [OF ok d l po] by (auto simp: claim_fits_def pending_quantity_def Let_def split: if_splits)
qed

lemma claim_Inr:
  assumes ok: "desk_ok db ps" and run: "claim_for_approval now i user name key exp db = Inr (ctx, db')"
  obtains d where "d \<in> set (receive_drafts db)" "rd_id d = i" "ctx = context_of d False" "rd_status d = PENDING_APPROVAL"
      "\<not> approval_key_spent db key" "assert_no_conflicting_claim db d = Inr ()"
      "db' = set_draft i (claimed_draft now user name key) db"
    | d where "d \<in> set (receive_drafts db)" "rd_id d = i" "ctx = context_of d True" "rd_status d = APPROVING"
      "rd_approval_idempotency_key d = Some key" "db' = set_draft i (\<lambda>d. d\<lparr>rd_reviewed_at := Some now\<rparr>) db"
proof -
  from run obtain d where d: "locked_draft db i = Inr d" by (auto simp: claim_for_approval_def bindr_eq_Inr)
  then have mem: "d \<in> set (receive_drafts db)" "rd_id d = i" using locked_draft_Inr [OF ok] by auto
  show ?thesis using run d that [OF mem]
    by (auto simp: claim_for_approval_def bindr_eq_Inr ensure_eq_Inr split: if_splits)
qed

lemma context_of_press [simp]: "context_press (context_of d r) = press_of d" "ac_draft_id (context_of d r) = rd_id d"
  "ac_resumed (context_of d r) = r" "ac_po_id (context_of d r) = rd_po_id d" "ac_line_items (context_of d r) = rd_line_items d"
  by (simp_all add: context_press_def context_of_def press_of_def)

lemma claim_desk:
  assumes ok: "desk_ok db ps" and run: "claim_for_approval now i user name key exp db = Inr (ctx, db')"
    and press: "ps key = None \<or> ps key = Some (context_press ctx)"
  shows "desk_ok db' (ps(key \<mapsto> context_press ctx))"
  using ok run
proof (cases rule: claim_Inr)
  case (1 d)
  have more: "ps \<subseteq>\<^sub>m ps(key \<mapsto> context_press ctx)" using press by (auto simp: map_le_def)
  have idle: "\<not> waits d" using 1 by simp
  have fine: "draft_ok db d" using desk_draftD [OF ok 1(1)] by simp
  let ?f = "claimed_draft now user name key"
  have room: "room (set_draft i ?f db) l" if l: "l \<in> set (po_lines db)" for l
  proof -
    have "awaited (set_draft i ?f db) (po_line_id l) = awaited db (po_line_id l) + requested (rd_line_items d) (po_line_id l)"
      using awaited_update [of "receive_drafts db" d i ?f "po_line_id l"] ok 1 idle
      by (simp add: awaited_def set_draft_def desk_ok_def keys_ok_def claimed_draft_def waits_def in_flight_status_def)
        (use fine 1 in \<open>simp add: draft_ok_def\<close>)
    then show ?thesis using claim_room [OF ok 1(1) idle 1(6) l] by (simp add: room_def)
  qed
  have unspent: "\<forall>e \<in> set (gp_write_outbox db). gw_idempotency_key e \<noteq> key"
    using 1(5) by (auto simp: approval_key_spent_def list_ex_iff)
  show ?thesis unfolding 1(7)
  proof (rule desk_replace [OF ok 1(1,2) _ _ _ more])
    show "draft_ok db (?f d)" using fine 1 by (simp add: draft_ok_def claimed_draft_def)
    show "hold_ok db (ps(key \<mapsto> context_press ctx)) (?f d)"
      using 1 unspent by (simp add: hold_ok_def claimed_draft_def press_of_def)
  qed (use 1 room in \<open>simp_all add: claimed_draft_def\<close>)
next
  case (2 d)
  have fine: "draft_ok db d" "hold_ok db ps d" using desk_draftD [OF ok 2(1)] by simp_all
  have w: "waits d" using 2 fine by (simp add: waits_def in_flight_status_def draft_ok_def)
  then have "ps key = Some (press_of d)" using fine(2) 2 by (simp add: hold_ok_def)
  then have "ps(key \<mapsto> context_press ctx) = ps" using 2 by (auto simp: fun_upd_idem)
  moreover have "desk_ok (set_draft i (\<lambda>d. d\<lparr>rd_reviewed_at := Some now\<rparr>) db) ps"
    using fine w 2 by (intro desk_replace [OF ok 2(1,2), of _ ps])
      (auto simp: draft_ok_def hold_ok_def waits_def press_of_def held_row_def map_le_refl)
  ultimately show ?thesis using 2 by simp
qed

lemma release_approval_claim_desk:
  assumes ok: "desk_ok db ps"
  shows "desk_ok (release_approval_claim i key db) ps"
proof (cases "i \<in> rd_id ` set (receive_drafts db)")
  case True
  then obtain d where d: "d \<in> set (receive_drafts db)" "rd_id d = i" by blast
  have fine: "draft_ok db d" "hold_ok db ps d" using desk_draftD [OF ok d(1)] by simp_all
  show ?thesis unfolding release_approval_claim_def
  proof (cases "rd_status d = APPROVING \<and> rd_approval_idempotency_key d = Some key")
    case True
    then show "desk_ok (set_draft i (\<lambda>d. if rd_status d = APPROVING \<and> rd_approval_idempotency_key d = Some key
       then d\<lparr>rd_status := PENDING_APPROVAL, rd_approval_idempotency_key := None\<rparr> else d) db) ps"
      using fine d by (intro desk_idle [OF ok d]) (simp_all add: draft_ok_def)
  next
    case False
    then show "desk_ok (set_draft i (\<lambda>d. if rd_status d = APPROVING \<and> rd_approval_idempotency_key d = Some key
       then d\<lparr>rd_status := PENDING_APPROVAL, rd_approval_idempotency_key := None\<rparr> else d) db) ps"
      using fine d by (intro desk_replace [OF ok d, of _ ps]) (auto simp: map_le_refl)
  qed
next
  case False
  then show ?thesis using ok by (simp add: release_approval_claim_def desk_set_none)
qed

lemma back_for_review_simps [simp]: "rd_id (back_for_review now why d) = rd_id d" "rd_status (back_for_review now why d) = PENDING_APPROVAL"
  "rd_receive_record_id (back_for_review now why d) = rd_receive_record_id d" "rd_po_id (back_for_review now why d) = rd_po_id d"
  "rd_line_items (back_for_review now why d) = rd_line_items d" "rd_approval_idempotency_key (back_for_review now why d) = None"
  "rd_approved_outbox_entry_id (back_for_review now why d) = None"
  by (simp_all add: back_for_review_def)

lemma desk_back:
  assumes ok: "desk_ok db ps" and d: "d \<in> set (receive_drafts db)" "rd_id d = i" "rd_receive_record_id d = None"
  shows "desk_ok (set_draft i (back_for_review now why) db) ps"
  using desk_draftD [OF ok d(1)] d by (intro desk_idle [OF ok d(1,2)]) (auto simp: draft_ok_def)

lemma release_held_Inr:
  assumes ok: "desk_ok db ps" and run: "release_held_approval now i manager db = Inr db'"
  obtains d why where "d \<in> set (receive_drafts db)" "rd_id d = i" "waits d" "db' = set_draft i (back_for_review now why) db"
proof -
  from run obtain d key where d: "locked_draft db i = Inr d" "held_key db now d = Inr key"
    and db': "db' = set_draft i (back_for_review now (manager @ '' checked GP and released the held approval, as no receipt was posted'')) db"
    unfolding release_held_approval_def bindr_eq_Inr ensure_eq_Inr by blast
  have "waits d" using d(2) by (auto simp: held_key_def ensure_eq_Inr waits_def)
  then show ?thesis using that d(1) locked_draft_Inr [OF ok] db' by blast
qed

lemma release_held_desk:
  assumes "desk_ok db ps" and "release_held_approval now i manager db = Inr db'"
  shows "desk_ok db' ps"
  using assms
proof (cases rule: release_held_Inr)
  case (1 d why)
  then show ?thesis using desk_back [OF assms(1)] by (simp add: waits_def)
qed

end
