(* ===== verification/DeskRows.thy ===== *)
theory DeskRows
  imports DeskClaims
begin

text \<open>
  The operations of the queue, and what queues, holds or books a receipt, keep what the desk keeps.
\<close>

section \<open>The queue's operations\<close>

lemma stamped_entry:
  "outbox_entry_never_reached_gp db (e\<lparr>gw_updated_at := t\<rparr>) = outbox_entry_never_reached_gp db e"
  "same_receipt (e\<lparr>gw_updated_at := t\<rparr>) e' = same_receipt e e'"
  by (simp_all add: outbox_entry_never_reached_gp_def refused_after_its_key_was_looked_up_def retry_is_safe_def same_receipt_def)

lemma same_receipt_refl [simp]: "same_receipt e e" by (simp add: same_receipt_def)

lemma desk_but_set_entry:
  assumes ok: "desk_but i db ps" and same: "\<And>e. same_receipt (f e) e"
    and alive: "\<And>e. e \<in> set (gp_write_outbox db) \<Longrightarrow> gw_id e = j \<Longrightarrow> linked db i j \<Longrightarrow>
      outbox_entry_never_reached_gp db (f e) \<Longrightarrow> outbox_entry_never_reached_gp db e"
  shows "desk_but i (set_entry now j f db) ps"
  unfolding set_entry_def update_row_def
  using same alive by (intro desk_but_map_entries [OF ok]) (auto simp: stamped_entry split: if_splits)

lemma desk_set_entry:
  assumes ok: "desk_ok db ps" and same: "\<And>e. same_receipt (f e) e"
    and alive: "\<And>e. outbox_entry_never_reached_gp db (f e) \<Longrightarrow> outbox_entry_never_reached_gp db e"
  shows "desk_ok (set_entry now j f db) ps"
  unfolding set_entry_def update_row_def
  using same alive by (intro desk_map_entries [OF ok]) (auto simp: stamped_entry split: if_splits)

text \<open>A row back on the queue, in flight or done has not ended short of GP; a row that may be in GP has less reason to.\<close>

lemma not_ended [simp]: "gw_status e = QUEUED \<Longrightarrow> \<not> outbox_entry_never_reached_gp db e"
  "gw_status e = IN_FLIGHT \<Longrightarrow> \<not> outbox_entry_never_reached_gp db e" "gw_status e = SUCCEEDED \<Longrightarrow> \<not> outbox_entry_never_reached_gp db e"
  by (simp_all add: outbox_entry_never_reached_gp_def)

lemma maybe_not_ended: "outbox_entry_never_reached_gp db (e\<lparr>gw_maybe_in_gp := True\<rparr>) \<Longrightarrow> outbox_entry_never_reached_gp db e"
  by (auto simp: outbox_entry_never_reached_gp_def refused_after_its_key_was_looked_up_def retry_is_safe_def)

lemma claim_next_desk: "desk_ok db ps \<Longrightarrow> claim_next now company db = (j, db') \<Longrightarrow> desk_ok db' ps"
  by (auto simp: claim_next_def Let_def same_receipt_def split: option.splits intro!: desk_set_entry)

lemma mark_succeeded_desk: "desk_ok db ps \<Longrightarrow> desk_ok (mark_succeeded now j db) ps"
  unfolding mark_succeeded_def by (rule desk_set_entry) (simp_all add: same_receipt_def)

lemma finish_succeeded_desk: "desk_ok db ps \<Longrightarrow> desk_ok (finish_succeeded now j db) ps"
  by (simp add: finish_succeeded_def mark_succeeded_desk split: option.split)

lemma mark_retry_desk: "desk_ok db ps \<Longrightarrow> desk_ok (mark_retry now jitter j error bump r maybe db) ps"
  unfolding mark_retry_def Let_def by (rule desk_set_entry) (simp_all add: same_receipt_def)

lemma recover_desk:
  assumes "desk_ok db ps" and "recover_in_flight now db = (js, db')"
  shows "desk_ok db' ps"
proof -
  have "db' = db\<lparr>gp_write_outbox := map (recovered now) (gp_write_outbox db)\<rparr>" using assms(2) by (simp add: recover_in_flight_def)
  then show ?thesis using assms(1)
    by (auto intro!: desk_map_entries simp: recovered_def same_receipt_def outbox_entry_never_reached_gp_def never_reached_gp_kind_def
        refused_after_its_key_was_looked_up_def split: if_splits)
qed

text \<open>Who waits on a row: at most the one draft its key was pressed for.\<close>

lemma linked_one:
  assumes ok: "desk_ok db ps" and d: "d \<in> set (receive_drafts db)" "waits d" "rd_approved_outbox_entry_id d = Some j"
    and x: "x \<in> set (receive_drafts db)" "waits x" "rd_approved_outbox_entry_id x = Some j"
  shows "x = d"
proof -
  have approved: "rd_status y \<noteq> APPROVING" if "y \<in> set (receive_drafts db)" "rd_approved_outbox_entry_id y = Some j" for y
    using desk_draftD [OF ok that(1)] that(2) by (auto simp: draft_ok_def)
  have pressed: "\<exists>e k. entry_of db j = Some e \<and> gw_idempotency_key e = k \<and> ps k = Some (press_of y)"
    if y: "y \<in> set (receive_drafts db)" "waits y" "rd_approved_outbox_entry_id y = Some j" for y
    using desk_draftD [OF ok y(1)] y(2,3) approved [OF y(1,3)] desk_entry [OF ok, of j]
    by (auto simp: hold_ok_def held_row_def)
  have "press_of x = press_of d" using pressed [OF d] pressed [OF x] by auto
  then show ?thesis using ok d(1) x(1) by (simp add: press_of_def desk_ok_def keys_ok_def) (metis distinct_map inj_on_def)
qed

lemma release_draft_books:
  "release_draft_for_outbox_entry now e db = Inr db' \<Longrightarrow>
     (if outbox_entry_never_reached_gp db e then
        (case List.find (\<lambda>d. rd_approved_outbox_entry_id d = Some (gw_id e) \<and> rd_status d = DRAFT_APPROVED \<and>
          rd_receive_record_id d = None) (receive_drafts db) of
           None \<Rightarrow> db' = db
         | Some d \<Rightarrow> same_books (set_draft (rd_id d) (back_for_review now (why_back e)) db) db')
      else db' = db)"
  using notify_books(2) by (auto simp: release_draft_for_outbox_entry_def split: if_splits option.splits)

lemma entry_of_set:
  assumes "\<And>e. same_receipt (f e) e"
  shows "entry_of (set_entry now j f db) k =
    (if k = j then map_option (\<lambda>e. if f e = e then e else (f e)\<lparr>gw_updated_at := now\<rparr>) (entry_of db k) else entry_of db k)"
  using assms by (simp add: entry_of_def set_entry_def find_row_update same_receipt_def)

text \<open>An ended row releases the draft behind it in the same step.\<close>

lemma end_entry_desk:
  assumes ok: "desk_ok db ps" and same: "\<And>e. same_receipt (f e) e"
    and run: "release_after now j (set_entry now j f db) = Inr db'"
  shows "desk_ok db' ps"
proof -
  let ?db1 = "set_entry now j f db"
  have drafts: "receive_drafts ?db1 = receive_drafts db" by (simp add: set_entry_def)
  have waiting: "rd_status d = DRAFT_APPROVED \<and> rd_receive_record_id d = None \<longleftrightarrow> waits d"
    if "d \<in> set (receive_drafts db)" "rd_approved_outbox_entry_id d = Some j" for d
    using desk_draftD [OF ok that(1)] that(2) by (cases "rd_status d") (auto simp: draft_ok_def waits_def in_flight_status_def)
  show ?thesis
  proof (cases "entry_of ?db1 j")
    case None
    then have "j \<notin> gw_id ` set (gp_write_outbox db)" 
      using entry_of_set [OF same, of now j db j] None by (simp add: entry_of_def flip: find_row_None)
    then have "?db1 = db" by (simp add: set_entry_def update_row_notin)
    then show ?thesis using run None ok by (simp add: release_after_def)
  next
    case (Some e1)
    then have run: "release_draft_for_outbox_entry now e1 ?db1 = Inr db'" using run by (simp add: release_after_def)
    obtain e0 where e0: "entry_of db j = Some e0" "e1 = (if f e0 = e0 then e0 else (f e0)\<lparr>gw_updated_at := now\<rparr>)"
      using Some unfolding entry_of_set [OF same, of now j db j] by auto
    have mem: "e0 \<in> set (gp_write_outbox db)" "gw_id e0 = j" using e0(1) desk_entry [OF ok] by auto
    have e1: "gw_id e1 = j" using e0(2) mem(2) same [of e0] by (simp add: same_receipt_def)
    have only: "e = e0" if "e \<in> set (gp_write_outbox db)" "gw_id e = j" for e
      using that e0(1) desk_entry [OF ok, of j] by (metis option.inject)
    have dead: "outbox_entry_never_reached_gp db (f e0) = outbox_entry_never_reached_gp ?db1 e1"
      using never_reached_cong [of ?db1 db] by (auto simp: e0(2) stamped_entry set_entry_def)
    note books = release_draft_books [OF run]
    let ?P = "\<lambda>d. rd_approved_outbox_entry_id d = Some (gw_id e1) \<and> rd_status d = DRAFT_APPROVED \<and> rd_receive_record_id d = None"
    show ?thesis
    proof (cases "outbox_entry_never_reached_gp ?db1 e1 \<and> List.find ?P (receive_drafts db) \<noteq> None")
      case True
      then obtain d where find: "List.find ?P (receive_drafts db) = Some d" by auto
      then have d: "d \<in> set (receive_drafts db)" "?P d" by (auto simp: find_Some_iff)
      have "waits x \<Longrightarrow> rd_approved_outbox_entry_id x = Some j \<Longrightarrow> x = d" if "x \<in> set (receive_drafts db)" for x
        using linked_one [OF ok d(1) _ _ that] d waiting e1 by auto
      then have "\<not> linked db (rd_id d) j" by (auto simp: linked_def)
      then have "desk_but (rd_id d) ?db1 ps" using same by (intro desk_but_set_entry [OF desk_but [OF ok]]) simp_all
      moreover have "draft_ok ?db1 d" using desk_draftD [OF ok d(1)] draft_ok_cong [of ?db1 db] by (simp add: set_entry_def)
      ultimately have "desk_ok (set_draft (rd_id d) (back_for_review now (why_back e1)) ?db1) ps"
        using d by (intro desk_fix [of _ _ ps d]) (auto simp: drafts draft_ok_def hold_ok_def map_le_refl)
      then show ?thesis using books True find drafts desk_ok_books by auto
    next
      case False
      then have db': "db' = ?db1" using books drafts by (auto split: if_splits option.splits)
      have "outbox_entry_never_reached_gp db e" if "e \<in> set (gp_write_outbox db)" "gw_id e = j" "linked db (next_id db) j"
        "outbox_entry_never_reached_gp db (f e)" for e
      proof -
        have "outbox_entry_never_reached_gp ?db1 e1" using that only dead by simp
        then have none: "List.find ?P (receive_drafts db) = None" using False by simp
        from that(3) obtain d where d: "d \<in> set (receive_drafts db)" "waits d" "rd_approved_outbox_entry_id d = Some j"
          by (auto simp: linked_def)
        have "?P d" using waiting [OF d(1,3)] d(2,3) e1 by simp
        then show ?thesis using none d(1) unfolding find_None_iff by blast
      qed
      then have "desk_but (next_id db) ?db1 ps" using same by (intro desk_but_set_entry [OF desk_but [OF ok]])
      then show ?thesis unfolding db'
        by (rule desk_settled) (use ok in \<open>auto simp: drafts desk_ok_def keys_ok_def ids_below_def\<close>)
    qed
  qed
qed

lemma mark_failed_desk: "desk_ok db ps \<Longrightarrow> mark_failed now j kind error maybe db = Inr db' \<Longrightarrow> desk_ok db' ps"
  unfolding mark_failed_def by (erule end_entry_desk [rotated 2]) (simp_all add: failed_entry_def same_receipt_def)

lemma retry_entry_desk:
  assumes "desk_ok db ps" and "retry_entry now j db = Inr (r, db')"
  shows "desk_ok db' ps"
  using assms by (auto simp: retry_entry_def ensure_eq_Inr same_receipt_def split: option.splits if_splits intro!: desk_set_entry)

lemma set_entry_upsert:
  "upsert_ledger key a r (set_entry now j f db) = set_entry now j f (upsert_ledger key a r db)"
  by (simp add: upsert_ledger_def set_entry_def ledger_of_def split: option.split)

lemma cancel_Inr:
  assumes "cancel_entry now j db = Inr (r, db')"
  obtains "db' = db"
  | e took where "entry_of db j = Some e" "gw_status e = QUEUED \<or> gw_status e = WRITE_FAILED"
      "took = gp_took db (gw_idempotency_key e)" "took \<longrightarrow> receipt_moved_on db e"
      "release_after now j (set_entry now j (\<lambda>e. e\<lparr>gw_status := WRITE_CANCELLED\<rparr>)
        (if took then stamp_result_id (gw_idempotency_key e) None LET_GO db else db)) = Inr db'"
proof (cases "db' = db")
  case False
  let ?f = "\<lambda>e. e\<lparr>gw_status := WRITE_CANCELLED\<rparr>"
  obtain e where e: "entry_of db j = Some e" using assms False by (auto simp: cancel_entry_def split: option.splits)
  define took where "took = gp_took db (gw_idempotency_key e)"
  have st: "gw_status e = QUEUED \<or> gw_status e = WRITE_FAILED" and fine: "took \<longrightarrow> receipt_moved_on db e"
    and run: "release_after now j (if took then stamp_result_id (gw_idempotency_key e) None LET_GO (set_entry now j ?f db)
      else set_entry now j ?f db) = Inr db'"
    using assms False by (auto simp: cancel_entry_def e took_def [symmetric] bindr_eq_Inr ensure_eq_Inr Let_def split: if_splits)
  have "(if took then stamp_result_id (gw_idempotency_key e) None LET_GO (set_entry now j ?f db) else set_entry now j ?f db) =
      set_entry now j ?f (if took then stamp_result_id (gw_idempotency_key e) None LET_GO db else db)"
    by (simp add: stamp_result_id_def set_entry_upsert)
  then show ?thesis using that(2) [OF e st took_def fine] run by simp
qed (use that(1) in simp)

lemma cancel_entry_desk:
  assumes ok: "desk_ok db ps" and run: "cancel_entry now j db = Inr (r, db')"
  shows "desk_ok db' ps"
  using run
proof (cases rule: cancel_Inr)
  case 1
  then show ?thesis using ok by simp
next
  case (2 e took)
  have "desk_ok (if took then stamp_result_id (gw_idempotency_key e) None LET_GO db else db) ps"
    using ok desk_upsert [OF ok] by (simp add: stamp_result_id_def)
  then show ?thesis using 2(5) by (intro end_entry_desk [of _ ps "\<lambda>e. e\<lparr>gw_status := WRITE_CANCELLED\<rparr>" now j db']) (simp_all add: same_receipt_def)
qed

section \<open>Queueing, holding and booking a receipt\<close>

lemma still_held:
  assumes ok: "desk_ok db ps"
  shows "approval_still_held db i key \<longleftrightarrow>
    (\<exists>d \<in> set (receive_drafts db). rd_id d = i \<and> waits d \<and> rd_approval_idempotency_key d = Some key)"
proof -
  have "approval_still_held db i key \<longleftrightarrow> (\<exists>d. find_row rd_id i (receive_drafts db) = Some d \<and> waits d \<and>
      rd_approval_idempotency_key d = Some key)"
    by (auto simp: approval_still_held_def waits_def split: option.split)
  then show ?thesis unfolding desk_find [OF ok] by blast
qed

lemma entry_for_key_Some: "entry_for_key db key = Some e \<Longrightarrow> e \<in> set (gp_write_outbox db) \<and> gw_idempotency_key e = key"
  by (auto simp: entry_for_key_def find_Some_iff)

lemma entry_for_key_None: "entry_for_key db key = None \<longleftrightarrow> (\<forall>e \<in> set (gp_write_outbox db). gw_idempotency_key e \<noteq> key)"
  by (auto simp: entry_for_key_def find_None_iff)

text \<open>Only the draft a key was pressed for waits under it.\<close>

lemma held_press:
  "desk_ok db ps \<Longrightarrow> d \<in> set (receive_drafts db) \<Longrightarrow> waits d \<Longrightarrow> rd_approval_idempotency_key d = Some key \<Longrightarrow> ps key = Some (press_of d)"
  using desk_draftD [of db ps d] by (auto simp: hold_ok_def)

lemma receipt_entry_simps [simp]: "gw_id (receipt_entry i now key company ctx w p maybe) = i"
  "gw_idempotency_key (receipt_entry i now key company ctx w p maybe) = key" "gw_status (receipt_entry i now key company ctx w p maybe) = QUEUED"
  "gw_maybe_in_gp (receipt_entry i now key company ctx w p maybe) = maybe"
  "row_ok ps (receipt_entry i now key company ctx w p maybe) \<longleftrightarrow> ps key = Some (context_press ctx)"
  by (auto simp: receipt_entry_def row_ok_def context_press_def)

lemma enqueue_new:
  "entry_for_key db key = None \<Longrightarrow> enqueue now key company ctx w maybe db = (next_id db,
     db\<lparr>next_id := Suc (next_id db), gp_write_outbox := gp_write_outbox db @ [receipt_entry (next_id db) now key company ctx w
       (Option.bind (po_of db (ac_po_id ctx)) po_project_id) maybe]\<rparr>)"
  by (simp add: enqueue_def fresh_def Let_def po_of_def)

definition approved_as :: "datetime \<Rightarrow> uuid option \<Rightarrow> uuid option \<Rightarrow> receive_draft \<Rightarrow> receive_draft" where
  "approved_as now rec entry = stamped now (\<lambda>d. d\<lparr>rd_status := DRAFT_APPROVED,
     rd_receive_record_id := (if rec = None then rd_receive_record_id d else rec),
     rd_approved_outbox_entry_id := (if entry = None then rd_approved_outbox_entry_id d else entry)\<rparr>)"

lemma mark_approved_set: "mark_approved now i rec entry db = set_draft i (approved_as now rec entry) db"
  by (simp add: mark_approved_def approved_as_def)

lemma approved_as_simps [simp]: "rd_id (approved_as now rec entry d) = rd_id d" "rd_status (approved_as now rec entry d) = DRAFT_APPROVED"
  "rd_po_id (approved_as now rec entry d) = rd_po_id d" "rd_line_items (approved_as now rec entry d) = rd_line_items d"
  "rd_approval_idempotency_key (approved_as now rec entry d) = rd_approval_idempotency_key d"
  "rd_receive_record_id (approved_as now rec entry d) = (if rec = None then rd_receive_record_id d else rec)"
  "rd_approved_outbox_entry_id (approved_as now rec entry d) = (if entry = None then rd_approved_outbox_entry_id d else entry)"
  by (simp_all add: approved_as_def)

lemma queue_desk:
  assumes ok: "desk_ok db ps" and press: "ps key = Some (context_press ctx)" and held: "approval_still_held db (ac_draft_id ctx) key"
    and run: "enqueue now key company ctx w maybe db = (j, db1)"
  shows "desk_ok (mark_approved now (ac_draft_id ctx) None (Some j) db1) ps"
proof -
  from held obtain d where d: "d \<in> set (receive_drafts db)" "rd_id d = ac_draft_id ctx" and w: "waits d"
    and k: "rd_approval_idempotency_key d = Some key" using still_held [OF ok] by blast
  have fine: "draft_ok db d" "hold_ok db ps d" using desk_draftD [OF ok d(1)] by simp_all
  have pd: "ps key = Some (press_of d)" using held_press [OF ok d(1) w k] .
  show ?thesis
  proof (cases "entry_for_key db key")
    case None
    let ?e = "receipt_entry (next_id db) now key company ctx w (Option.bind (po_of db (ac_po_id ctx)) po_project_id) maybe"
    have none: "\<forall>e \<in> set (gp_write_outbox db). gw_idempotency_key e \<noteq> key" using None by (simp add: entry_for_key_None)
    have st: "rd_status d = APPROVING" using fine(2) w none by (auto simp: hold_ok_key [OF k] held_row_def split: if_splits)
    have j: "j = next_id db" "db1 = db\<lparr>next_id := Suc (next_id db), gp_write_outbox := gp_write_outbox db @ [?e]\<rparr>"
      using run by (auto simp: enqueue_new [OF None])
    have "rd_approval_idempotency_key x \<noteq> Some key" if "x \<in> set (receive_drafts db)" "rd_id x \<noteq> ac_draft_id ctx" "waits x" for x
      using held_press [OF ok that(1,3)] pd that(2) d(2) by (auto simp: press_of_def)
    then have "desk_but (ac_draft_id ctx) db1 ps" unfolding j(2)
      using none press by (intro desk_but_add_entry [OF desk_but [OF ok]]) auto
    then show ?thesis unfolding mark_approved_set
    proof (rule desk_fix [OF _ _ d(2)])
      show "d \<in> set (receive_drafts db1)" using d(1) by (simp add: j(2))
      have "draft_ok db1 = draft_ok db" by (rule draft_ok_cong) (simp_all add: j(2))
      then show "draft_ok db1 (approved_as now None (Some j) d)"
        using fine(1) by (simp add: draft_ok_def)
    qed (use d w k pd j in \<open>auto simp: hold_ok_def held_row_def waits_def in_flight_status_def press_of_def map_le_refl\<close>)
  next
    case (Some e)
    then have e: "e \<in> set (gp_write_outbox db)" "gw_idempotency_key e = key" using entry_for_key_Some by auto
    have st: "rd_status d = DRAFT_APPROVED"
      using fine(2) w e by (cases "rd_status d") (auto simp: hold_ok_key [OF k] waits_def in_flight_status_def)
    then obtain x where x: "x \<in> set (gp_write_outbox db)" "held_row db d key x" using fine(2) w by (auto simp: hold_ok_key [OF k])
    have "distinct (map gw_idempotency_key (gp_write_outbox db))" using ok by (simp add: desk_ok_def keys_ok_def)
    then have "x = e" using e x by (simp add: held_row_def) (metis distinct_map inj_on_def)
    then have link: "rd_approved_outbox_entry_id d = Some (gw_id e)" using x(2) by (simp add: held_row_def)
    have j: "j = gw_id e" "db1 = (if maybe then set_entry now (gw_id e) (\<lambda>e. e\<lparr>gw_maybe_in_gp := True\<rparr>) db else db)"
      using run Some by (simp_all add: enqueue_def)
    have ok1: "desk_ok db1 ps" unfolding j(2) using ok maybe_not_ended by (auto simp: same_receipt_def intro!: desk_set_entry)
    have d1: "d \<in> set (receive_drafts db1)" using d(1) by (simp add: j(2) set_entry_def)
    have fine1: "draft_ok db1 d" "hold_ok db1 ps d" using desk_draftD [OF ok1 d1] by simp_all
    show ?thesis unfolding mark_approved_set
    proof (rule desk_replace [OF ok1 d1 d(2)])
      let ?d = "approved_as now None (Some j) d"
      show "draft_ok db1 ?d" using fine1(1) by (simp add: draft_ok_def)
      have "waits ?d = waits d" "rd_status ?d = rd_status d" "press_of ?d = press_of d" "held_row db1 ?d = held_row db1 d"
        using st link j(1) by (auto simp: waits_def press_of_def held_row_def fun_eq_iff)
      then show "hold_ok db1 ps ?d" using fine1(2) k by (simp add: hold_ok_def)
    qed (use d w st in \<open>auto simp: map_le_refl\<close>)
  qed
qed

lemma hold_desk:
  assumes ok: "desk_ok db ps" and press: "ps key = Some (context_press ctx)" and lost: "\<not> approval_still_held db (ac_draft_id ctx) key"
    and run: "hold_receipt_released_meanwhile now key company ctx w kind error db = Inr db'"
  shows "desk_ok db' ps"
proof (cases "entry_for_key db key")
  case None
  have "rd_approval_idempotency_key d \<noteq> Some key" if "d \<in> set (receive_drafts db)" "waits d" for d
    using held_press [OF ok that] press lost still_held [OF ok] that by (auto simp: press_of_def context_press_def)
  then have "desk_ok (snd (enqueue now key company ctx w True db)) ps" unfolding enqueue_new [OF None] snd_conv
    using None press by (intro desk_add_entry [OF ok]) (auto simp: entry_for_key_None)
  then show ?thesis using run None mark_failed_desk
    by (simp add: hold_receipt_released_meanwhile_def enqueue_new Let_def)
next
  case (Some e)
  then show ?thesis using run ok by (simp add: hold_receipt_released_meanwhile_def)
qed

lemma order_open_after:
  assumes lines: "po_lines db' = map (add_received lines) (po_lines db)" and more: "\<And>l. 0 \<le> requested lines l"
    and open': "order_open db order" and st: "po_status order' = po_status order \<or> po_status order' = po_after db' po \<and> po_id po = po_id order \<and>
      receivable (po_status po)"
    and same: "po_id order' = po_id order" "po_deleted_at order' = po_deleted_at order"
  shows "order_open db' order'"
proof (cases "po_status order' = po_status order")
  case True
  have "order_open db' order" using open' more by (force simp: order_open_def lines intro: order_trans [OF _ add_increasing2])
  then show ?thesis using True same by (simp add: order_open_def)
next
  case False
  then have "receivable (po_status order') \<or> (\<forall>l \<in> set (po_lines db'). po_line_po_id l = po_id order' \<longrightarrow>
      po_line_ordered_quantity l \<le> po_line_received_quantity l)"
    using st same(1) by (auto simp: po_after_def Let_def receivable_def po_line_items_def list_all_iff split: if_splits)
  then show ?thesis using open' same by (simp add: order_open_def)
qed

lemma lines_ok_after:
  assumes "po_lines db' = map (add_received lines) (po_lines db)" "\<And>l. 0 \<le> requested lines l"
    and orders: "purchase_orders db' = update_row po_id p (\<lambda>x. x\<lparr>po_status := po_after db' po\<rparr>) (purchase_orders db)"
    and po: "po_id po = p" "receivable (po_status po)"
    and ok: "lines_ok db q ls"
  shows "lines_ok db' q ls"
proof -
  from ok obtain order where order: "order \<in> set (purchase_orders db)" "po_id order = q" "order_open db order"
    by (auto simp: lines_ok_def)
  let ?order = "if po_id order = p then order\<lparr>po_status := po_after db' po\<rparr> else order"
  have "?order \<in> set (purchase_orders db')" using order(1) by (auto simp: orders set_update_row)
  moreover have "order_open db' ?order" using po order(3) by (intro order_open_after [OF assms(1,2), of order _ po]) auto
  moreover have "po_id ?order = q" using order(2) by simp
  ultimately have "\<exists>x \<in> set (purchase_orders db'). po_id x = q \<and> order_open db' x" by blast
  then show ?thesis using ok by (force simp: lines_ok_def assms(1))
qed

text \<open>The receipt of a held claim takes its units out of what is awaited and adds them to what was received.\<close>

lemma book_desk:
  assumes ok: "desk_ok db ps" and press: "ps key = Some (i, po, lines)"
    and run: "persist_create_receive now key (Some i) po who lines w receipt db = Inr (r, db')"
  shows "desk_ok db' ps"
proof -
  from run obtain remark db1 where held: "approval_still_held db i key"
    and booked: "create_receive now po who lines w receipt remark db = Inr (r, db1)"
    and db': "db' = upsert_ledger key (Some receipt) (Some (BOOKED_AS r)) (mark_approved now i (Some r) None db1)"
    unfolding persist_create_receive_def stamp_result_id_def by (auto simp: bindr_eq_Inr ensure_eq_Inr Let_def)
  from held obtain d where d: "d \<in> set (receive_drafts db)" "rd_id d = i" and w: "waits d"
    and k: "rd_approval_idempotency_key d = Some key" using still_held [OF ok] by blast
  have pd: "rd_po_id d = po" "rd_line_items d = lines" using held_press [OF ok d(1) w k] press by (auto simp: press_of_def)
  have fine: "draft_ok db d" using desk_draftD [OF ok d(1)] by simp
  let ?f = "approved_as now (Some r) None"
  let ?A = "set_draft i ?f db"
  have idle: "\<not> waits (?f d)" by (simp add: waits_def)
  have okA: "desk_ok ?A ps" using fine idle d(2) by (intro desk_idle [OF ok d]) (simp_all add: draft_ok_def)
  have less: "awaited ?A l = awaited db l - requested lines l" for l
    using awaited_update [of "receive_drafts db" d i ?f l] ok d w idle pd(2)
    by (simp add: awaited_def set_draft_def desk_ok_def keys_ok_def)
  have pos: "0 \<le> requested lines l" for l using draft_requested [OF fine] pd(2) by simp
  from booked show ?thesis
  proof (rule create_receive_Inr)
    fix order w' lines' rec
    assume c: "live_po db po = Inr order" "receivable (po_status order)" "po_lines db1 = map (add_received lines) (po_lines db)"
      "purchase_orders db1 = update_row po_id po (\<lambda>x. x\<lparr>po_status := po_after db1 order\<rparr>) (purchase_orders db)"
      "receive_drafts db1 = receive_drafts db" "gp_write_outbox db1 = gp_write_outbox db"
      "gp_write_idempotency db1 = gp_write_idempotency db" "next_id db < next_id db1"
    let ?B = "set_draft i ?f db1"
    have drafts: "receive_drafts ?B = receive_drafts ?A" "gp_write_outbox ?B = gp_write_outbox ?A"
      "gp_write_idempotency ?B = gp_write_idempotency ?A" using c by (simp_all add: set_draft_def)
    have id: "po_id order = po" using c(1) find_row_Some by (fastforce simp: live_po_Inr)
    have "lines_ok ?A q ls \<Longrightarrow> lines_ok ?B q ls" for q ls
      using c id pos lines_ok_after [of ?B lines ?A po order q ls] po_after_cong [of ?B db1 order] by (simp add: set_draft_def)
    then have "draft_ok ?B x" if "x \<in> set (receive_drafts ?A)" for x using desk_draftD [OF okA that] by (auto simp: draft_ok_def)
    moreover have "hold_ok ?B = hold_ok ?A" using drafts by (intro hold_ok_cong)
    moreover have "room ?B l" if "l \<in> set (po_lines ?B)" for l
    proof -
      from that obtain l0 where l0: "l0 \<in> set (po_lines db)" "l = add_received lines l0" using c(3) by (auto simp: set_draft_def)
      have "awaited ?B (po_line_id l0) = awaited ?A (po_line_id l0)" using drafts by (simp add: awaited_def)
      then show ?thesis using ok l0 less by (auto simp: desk_ok_def room_def)
    qed
    moreover have "map po_line_id (po_lines ?B) = map po_line_id (po_lines db)" "map po_id (purchase_orders ?B) = map po_id (purchase_orders db)"
      using c by (simp_all add: set_draft_def keys_update_row comp_def)
    then have "keys_ok ?B" using okA drafts c(8) by (auto simp: desk_ok_def keys_ok_def ids_below_def set_draft_def)
    ultimately have "desk_ok ?B ps" using okA drafts by (simp add: desk_ok_def)
    then show "desk_ok db' ps" unfolding db' mark_approved_set by (rule desk_upsert)
  qed
qed

end
