(* ===== verification/DeskFacts.thy ===== *)
theory DeskFacts
  imports DeskRows
begin

text \<open>
  The desk as a transition system, what its invariant is worth: a held claim always books, an approval whose pre-flight
  passes books what GP took, and what a receipt does to stock.
\<close>

section \<open>The receiving desk at work\<close>

text \<open>
  One transaction of the desk. An attempt works under the key it was pressed with; presses are fresh
  (\<open>claim\<close>), and what a press was made for is read back by the later steps of its attempt and by the worker.
\<close>

inductive desk_step :: "db \<times> presses \<Rightarrow> db \<times> presses \<Rightarrow> bool" where
  submit: "create_receive_draft now po lines user name w ckey doc notes db = Inr (i, db') \<Longrightarrow> desk_step (db, ps) (db', ps)"
| edit: "update_receive_draft now i lines user m w notes exp db = Inr db' \<Longrightarrow> desk_step (db, ps) (db', ps)"
| resubmit: "resubmit_receive_draft now i user db = Inr db' \<Longrightarrow> desk_step (db, ps) (db', ps)"
| reject: "reject_receive_draft now i reason user name db = Inr db' \<Longrightarrow> desk_step (db, ps) (db', ps)"
| remove: "delete_receive_draft i user m db = Inr (slip, db') \<Longrightarrow> desk_step (db, ps) (db', ps)"
| claim: "claim_for_approval now i user name key exp db = Inr (ctx, db') \<Longrightarrow> ps key = None \<or> ps key = Some (context_press ctx) \<Longrightarrow>
    desk_step (db, ps) (db', ps(key \<mapsto> context_press ctx))"
| let_go: "desk_step (db, ps) (release_approval_claim i key db, ps)"
| release: "release_held_approval now i manager db = Inr db' \<Longrightarrow> desk_step (db, ps) (db', ps)"
| answered: "desk_step (db, ps) (record_relay_result key receipt db, ps)"
| queue: "ps key = Some (context_press ctx) \<Longrightarrow> approval_still_held db (ac_draft_id ctx) key \<Longrightarrow>
    queue_receipt_for_draft now key company ctx w maybe db = (a, db') \<Longrightarrow> desk_step (db, ps) (db', ps)"
| hold: "ps key = Some (context_press ctx) \<Longrightarrow> \<not> approval_still_held db (ac_draft_id ctx) key \<Longrightarrow>
    hold_receipt_released_meanwhile now key company ctx w kind error db = Inr db' \<Longrightarrow> desk_step (db, ps) (db', ps)"
| book: "ps key = Some (i, po, lines) \<Longrightarrow> persist_create_receive now key (Some i) po who lines w receipt db = Inr (r, db') \<Longrightarrow>
    desk_step (db, ps) (db', ps)"
| take: "claim_next now company db = (j, db') \<Longrightarrow> desk_step (db, ps) (db', ps)"
| succeed: "desk_step (db, ps) (finish_succeeded now j db, ps)"
| put_back: "desk_step (db, ps) (mark_retry now jitter j error bump r maybe db, ps)"
| fail: "mark_failed now j kind error maybe db = Inr db' \<Longrightarrow> desk_step (db, ps) (db', ps)"
| tell: "desk_step (db, ps) (notify_failure now j db, ps)"
| recover: "recover_in_flight now db = (js, db') \<Longrightarrow> desk_step (db, ps) (db', ps)"
| retry: "retry_entry now j db = Inr (r, db') \<Longrightarrow> desk_step (db, ps) (db', ps)"
| cancel: "cancel_entry now j db = Inr (r, db') \<Longrightarrow> desk_step (db, ps) (db', ps)"

lemma notify_failure_books: "same_books db (notify_failure now j db)"
  using create_notification_books by (auto simp: notify_failure_def committed_def split: option.split sum.split)

lemma desk_step_ok:
  assumes "desk_step s t" and "desk_ok (fst s) (snd s)"
  shows "desk_ok (fst t) (snd t)"
  using assms
proof (induction rule: desk_step.induct)
  case (queue ps key ctx db now company w maybe a db')
  then have "db' = (let (i, db) = enqueue now key company ctx w maybe db in mark_approved now (ac_draft_id ctx) None (Some i) db)"
    by (simp add: queue_receipt_for_draft_def Let_def split: prod.splits)
  then show ?case using queue queue_desk by (simp add: split_beta)
next
  case (tell db ps now j)
  then show ?case using notify_failure_books desk_ok_books by (metis fst_conv snd_conv)
qed (auto simp: record_relay_result_def intro: create_receive_draft_desk rework_desk delete_receive_draft_desk claim_desk release_approval_claim_desk release_held_desk desk_upsert
  hold_desk book_desk claim_next_desk finish_succeeded_desk mark_retry_desk mark_failed_desk recover_desk retry_entry_desk cancel_entry_desk)

lemma desk_reach_ok: "desk_step\<^sup>*\<^sup>* s t \<Longrightarrow> desk_ok (fst s) (snd s) \<Longrightarrow> desk_ok (fst t) (snd t)"
  by (induction rule: rtranclp_induct) (auto intro: desk_step_ok)

section \<open>What the invariant is worth\<close>

lemma awaited_one:
  assumes "\<forall>x \<in> set ds. 0 \<le> requested (rd_line_items x) l" and "d \<in> set ds" and "waits d"
  shows "requested (rd_line_items d) l \<le> awaited_in ds l"
  using assms
proof (induction ds)
  case (Cons a ds)
  then show ?case using awaited_nonneg [of ds l] by (cases "a = d") force+
qed simp

lemma waiting_fits:
  assumes ok: "desk_ok db ps" and d: "d \<in> set (receive_drafts db)" "waits d" and l: "l \<in> set (po_lines db)"
  shows "requested (rd_line_items d) (po_line_id l) \<le> pending_quantity l"
proof -
  have "requested (rd_line_items d) (po_line_id l) \<le> awaited db (po_line_id l)"
    unfolding awaited_def using d desk_draftD [OF ok] draft_requested by (intro awaited_one) auto
  moreover have "room db l" using ok l by (simp add: desk_ok_def)
  ultimately show ?thesis by (simp add: room_def pending_quantity_def)
qed

lemma find_order_line:
  assumes "desk_ok db ps" and "l \<in> set (po_lines db)" and "po_line_po_id l = po"
  shows "find_row po_line_id (po_line_id l) (po_line_items db po) = Some l"
proof -
  have "distinct (map po_line_id (po_line_items db po))"
    using assms(1) by (simp add: desk_ok_def keys_ok_def po_line_items_def distinct_map_filter)
  then show ?thesis using assms(2,3) by (simp add: find_row_eq_Some po_line_items_def)
qed

lemma single_le_requested:
  "li \<in> set lines \<Longrightarrow> \<forall>x \<in> set lines. 0 \<le> ct_quantity_received x \<Longrightarrow> ct_quantity_received li \<le> requested lines (ct_po_line_item_id li)"
proof (induction lines)
  case (Cons x lines)
  then show ?case using requested_nonneg [of lines "ct_po_line_item_id li"] by (cases "x = li") force+
qed simp

text \<open>A held claim passes every check of the booking that looks at quantities, and its order is open.\<close>

lemma held_fits:
  assumes ok: "desk_ok db ps" and d: "d \<in> set (receive_drafts db)" "waits d"
  shows "assert_within_pending (po_line_items db (rd_po_id d)) (rd_line_items d) = Inr ()"
    and "\<exists>po. live_po db (rd_po_id d) = Inr po \<and> receivable (po_status po)"
    and "li \<in> set (rd_line_items d) \<Longrightarrow> 1 \<le> ct_quantity_received li \<and>
      (\<exists>l. find_row po_line_id (ct_po_line_item_id li) (po_line_items db (rd_po_id d)) = Some l \<and> ct_quantity_received li \<le> pending_quantity l)"
proof -
  let ?lines = "rd_line_items d"
  have fine: "lines_ok db (rd_po_id d) ?lines" using desk_draftD [OF ok d(1)] by (simp add: draft_ok_def)
  have line: "1 \<le> ct_quantity_received li \<and> (\<exists>l \<in> set (po_lines db). po_line_id l = ct_po_line_item_id li \<and> po_line_po_id l = rd_po_id d \<and>
      find_row po_line_id (ct_po_line_item_id li) (po_line_items db (rd_po_id d)) = Some l \<and> ct_quantity_received li \<le> pending_quantity l)"
    if li: "li \<in> set ?lines" for li
  proof -
    from fine li obtain l where l: "1 \<le> ct_quantity_received li" "l \<in> set (po_lines db)" "po_line_id l = ct_po_line_item_id li"
      "po_line_po_id l = rd_po_id d" by (auto simp: lines_ok_def)
    have "\<forall>x \<in> set ?lines. 0 \<le> ct_quantity_received x" using fine by (force simp: lines_ok_def)
    from order_trans [OF single_le_requested [OF li this]] waiting_fits [OF ok d l(2)] l(3)
    have "ct_quantity_received li \<le> pending_quantity l" by simp
    then show ?thesis using l find_order_line [OF ok l(2,4)] by auto
  qed
  then show "li \<in> set ?lines \<Longrightarrow> 1 \<le> ct_quantity_received li \<and>
      (\<exists>l. find_row po_line_id (ct_po_line_item_id li) (po_line_items db (rd_po_id d)) = Some l \<and> ct_quantity_received li \<le> pending_quantity l)"
    by blast
  have "snd kv \<le> pending_quantity l"
    if "kv \<in> set (requested_by_line ?lines)" "find_row po_line_id (fst kv) (po_line_items db (rd_po_id d)) = Some l" for kv l
  proof -
    have "l \<in> set (po_lines db)" "po_line_id l = fst kv" using find_row_Some [OF that(2)] by (auto simp: po_line_items_def)
    moreover have "snd kv = requested ?lines (fst kv)"
      using that(1) wanted_requested [of "fst kv" "snd kv" ?lines] by (simp add: wanted_of_def requested_by_line_def)
    ultimately show ?thesis using waiting_fits [OF ok d] by metis
  qed
  then show "assert_within_pending (po_line_items db (rd_po_id d)) ?lines = Inr ()"
    by (auto simp: assert_within_pending_def ensure_eq_Inr list_all_iff split: option.split)
  from fine obtain po where po: "po \<in> set (purchase_orders db)" "po_id po = rd_po_id d" "order_open db po" by (auto simp: lines_ok_def)
  have "find_row po_id (rd_po_id d) (purchase_orders db) = Some po"
    using ok po by (simp add: desk_ok_def keys_ok_def find_row_eq_Some)
  then have live: "live_po db (rd_po_id d) = Inr po" using po(3) by (simp add: live_po_Inr order_open_def)
  have "?lines \<noteq> []" using fine by (simp add: lines_ok_def)
  then obtain li where "li \<in> set ?lines" by (cases ?lines) auto
  from line [OF this] obtain l where "l \<in> set (po_lines db)" "po_line_po_id l = po_id po" "po_line_received_quantity l < po_line_ordered_quantity l"
    using po(2) by (auto simp: pending_quantity_def)
  then have "receivable (po_status po)" using po(3) by (force simp: order_open_def)
  then show "\<exists>po. live_po db (rd_po_id d) = Inr po \<and> receivable (po_status po)" using live by blast
qed

section \<open>Booking always works for a held claim\<close>

lemma receive_into_stock_total:
  "1 \<le> q \<Longrightarrow> 0 \<le> d \<Longrightarrow> d \<le> q \<Longrightarrow> \<exists>r. receive_into_stock now (Some w) c q d s who n cost k co cur db = Inr r"
  by (simp add: receive_into_stock_def receiving_warehouse_def ensure_def Let_def split: prod.split)

lemma receive_bins_total:
  "list_all (\<lambda>b. 1 \<le> fst b \<and> 0 \<le> snd b \<and> snd b \<le> fst b) (map snd bins) \<Longrightarrow> \<exists>db'. receive_bins now po l w who bins db = Inr db'"
proof (induction bins arbitrary: db)
  case (Cons bin bins)
  obtain s q d where bin: "bin = (s, q, d)" by (cases bin) auto
  have "1 \<le> q" "0 \<le> d" "d \<le> q" using Cons.prems by (simp_all add: bin)
  from receive_into_stock_total [OF this] obtain r where "receive_into_stock now (Some w) (po_line_combo l) q d s who (po_po_number po)
      (map_option exactly (po_line_unit_cost l)) (po_pool_kind po) None (cost_currency_of (po_line_currency l)) db = Inr r"
    by blast
  moreover obtain db' where "receive_bins now po l w who bins (snd r) = Inr db'" using Cons by fastforce
  ultimately show ?case by (simp add: bin split_beta)
qed simp

lemma book_line_total:
  assumes "find_row po_line_id (ct_po_line_item_id li) poli = Some l" and fit: "units_fit li"
  shows "\<exists>r. book_line now po poli w who li db = Inr r"
proof (cases "po_project_id po")
  case None
  have "list_all (\<lambda>b. 1 \<le> fst b \<and> 0 \<le> snd b \<and> snd b \<le> fst b) (map snd (bins_or_floor li))"
    using fit by (simp add: units_fit_def bin_units_def)
  then obtain db1 where "receive_bins now po l w who (bins_or_floor li) (db\<lparr>next_id := Suc (next_id db)\<rparr>) = Inr db1"
    using receive_bins_total by blast
  then show ?thesis using assms(1) None by (simp add: book_line_def fresh_def Let_def)
next
  case (Some p)
  then show ?thesis using assms(1) by (simp add: book_line_def fresh_def Let_def split: prod.split)
qed

lemma book_lines_total:
  "list_all units_fit lines \<Longrightarrow> list_all (\<lambda>li. \<exists>l. find_row po_line_id (ct_po_line_item_id li) poli = Some l) lines \<Longrightarrow>
     \<exists>r. book_lines now po poli w who lines db = Inr r"
proof (induction lines arbitrary: db)
  case (Cons li lis)
  then obtain line where "book_line now po poli w who li db = Inr line" using book_line_total by fastforce
  moreover obtain rest where "book_lines now po poli w who lis (snd line) = Inr rest" using Cons by fastforce
  ultimately show ?case by (simp add: split_beta)
qed simp

text \<open>The bins of a count pass the booking's checks in a building.\<close>

definition bins_pass :: "db \<Rightarrow> uuid \<Rightarrow> counted_line list \<Rightarrow> bool" where
  "bins_pass db w lines \<longleftrightarrow> list_all (\<lambda>li. \<not> raised (check_locations db (Some w) li)) lines"

lemma received_lines_total:
  "\<forall>li \<in> set lines. 1 \<le> ct_quantity_received li \<and>
     (\<exists>l. find_row po_line_id (ct_po_line_item_id li) poli = Some l \<and> ct_quantity_received li \<le> pending_quantity l) \<Longrightarrow>
   bins_pass db w lines \<Longrightarrow> \<exists>lines'. received_lines db poli w lines = Inr lines'"
proof (induction lines)
  case (Cons li lis)
  then obtain l where l: "find_row po_line_id (ct_po_line_item_id li) poli = Some l" "ct_quantity_received li \<le> pending_quantity l"
    "1 \<le> ct_quantity_received li" by auto
  obtain li' where "check_locations db (Some w) li = Inr li'"
    using Cons.prems(2) by (cases "check_locations db (Some w) li") (auto simp: bins_pass_def raised_def)
  then have "received_line db poli w li = Inr li'" using l by (simp add: received_line_def ensure_def)
  moreover obtain rest where "received_lines db poli w lis = Inr rest" using Cons by (auto simp: bins_pass_def)
  ultimately show ?case by simp
qed simp

lemma within_pending_same:
  assumes "list_all2 same_count xs ys" and "assert_within_pending poli ys = Inr ()"
  shows "assert_within_pending poli xs = Inr ()"
proof -
  have ids: "ct_po_line_item_id ` set xs = ct_po_line_item_id ` set ys"
    using assms(1) by (induction rule: list_all2_induct) (simp_all add: same_count_def)
  have wanted: "(i, q) \<in> set (requested_by_line zs) \<longleftrightarrow> i \<in> ct_po_line_item_id ` set zs \<and> q = requested zs i" for i q zs
    using wanted_requested [of i q zs] by (simp add: wanted_of_def requested_by_line_def)
  have "set (requested_by_line xs) = set (requested_by_line ys)"
    using wanted ids requested_same [OF assms(1)] by auto
  then show ?thesis using assms(2) by (simp add: assert_within_pending_def ensure_eq_Inr list_all_iff)
qed

lemma create_receive_total:
  assumes live: "live_po db po_i = Inr po" and "receivable (po_status po)" and "receiver_ok who"
    and each: "\<forall>li \<in> set lines. 1 \<le> ct_quantity_received li \<and>
      (\<exists>l. find_row po_line_id (ct_po_line_item_id li) (po_line_items db po_i) = Some l \<and> ct_quantity_received li \<le> pending_quantity l)"
    and total: "assert_within_pending (po_line_items db po_i) lines = Inr ()" and bins: "bins_pass db w lines"
  shows "\<exists>r db'. create_receive now po_i who lines (Some w) receipt remark db = Inr (r, db')"
proof -
  from received_lines_total [OF each bins] obtain lines' where got: "received_lines db (po_line_items db po_i) w lines = Inr lines'" by blast
  note facts = received_lines_Inr [OF got]
  have within: "assert_within_pending (po_line_items db po_i) lines' = Inr ()" using within_pending_same facts total by blast
  obtain items db2 where "book_lines now po (po_line_items db po_i) w who lines' (db\<lparr>next_id := Suc (next_id db)\<rparr>) = Inr (items, db2)"
    using book_lines_total facts by (metis prod.exhaust)
  then show ?thesis using assms(1-3) got within by (simp add: create_receive_def ensure_def fresh_def Let_def)
qed

lemma held_claim_lands:
  assumes ok: "desk_ok db ps" and d: "d \<in> set (receive_drafts db)" "waits d" "rd_approval_idempotency_key d = Some key"
    and "receiver_ok who" "bins_pass db w (rd_line_items d)"
  shows "\<exists>r db'. persist_create_receive now key (Some (rd_id d)) (rd_po_id d) who (rd_line_items d) (Some w) receipt db = Inr (r, db')"
proof -
  obtain po where po: "live_po db (rd_po_id d) = Inr po" "receivable (po_status po)" using held_fits(2) [OF ok d(1,2)] by blast
  have "approval_still_held db (rd_id d) key" using still_held [OF ok] d by blast
  moreover have "\<exists>r db'. create_receive now (rd_po_id d) who (rd_line_items d) (Some w) receipt
      (Option.bind (Some (rd_id d)) (\<lambda>i. Option.bind (find_row rd_id i (receive_drafts db)) rd_notes)) db = Inr (r, db')"
    using held_fits(3) [OF ok d(1,2)] by (intro create_receive_total [OF po assms(5) _ held_fits(1) [OF ok d(1,2)] assms(6)]) blast
  ultimately show ?thesis by (auto simp: persist_create_receive_def ensure_def)
qed

section \<open>What a receipt lands\<close>

text \<open>The units of a product a count holds.\<close>

definition counted_units :: "po_line list \<Rightarrow> counted_line list \<Rightarrow> combo \<Rightarrow> int" where
  "counted_units poli lines c = sum_list (map (\<lambda>li. case find_row po_line_id (ct_po_line_item_id li) poli of
     None \<Rightarrow> 0 | Some l \<Rightarrow> if po_line_combo l = c then ct_quantity_received li else 0) lines)"

lemma booked_worth_units: "booked_worth (units_of c) owner c' us = (if c' = c then sum_list (map fst us) else 0)"
  by (induction us) (simp_all add: worth_def units_of_def)

lemma received_worth_units:
  "list_all units_fit lines \<Longrightarrow> received_worth (units_of c) po poli lines = counted_units poli lines c"
  by (induction lines) (auto simp: received_worth_def counted_units_def booked_worth_units units_fit_def split: option.split)

lemma counted_units_same: "list_all2 same_count xs ys \<Longrightarrow> counted_units poli xs c = counted_units poli ys c"
  by (induction rule: list_all2_induct) (simp_all add: counted_units_def same_count_def split: option.split)

lemma receipt_units:
  assumes run: "create_receive now po_i who lines wh receipt remark db = Inr (i, db')" and ok: "stock_ok db"
  shows "stock_ok db'" and "weigh (units_of c) db' = weigh (units_of c) db + counted_units (po_line_items db po_i) lines c"
proof -
  have "stock_ok db' \<and> weigh (units_of c) db' = weigh (units_of c) db + counted_units (po_line_items db po_i) lines c"
    using run
  proof (rule create_receive_Inr)
    fix po w lines' r
    assume got: "received_lines db (po_line_items db po_i) w lines = Inr lines'"
      and moved: "stock_ok db \<Longrightarrow> moves (\<lambda>a. received_worth a po (po_line_items db po_i) lines) db db'"
    note facts = received_lines_Inr [OF got]
    have "received_worth (units_of c) po (po_line_items db po_i) lines = counted_units (po_line_items db po_i) lines c"
      using received_worth_units received_worth_same counted_units_same facts by metis
    then show ?thesis using moved [OF ok] by (simp add: moves_def)
  qed
  then show "stock_ok db'" and "weigh (units_of c) db' = weigh (units_of c) db + counted_units (po_line_items db po_i) lines c"
    by simp_all
qed

section \<open>Passing the pre-flight is passing the booking\<close>

lemma prepare_Inr:
  assumes "prepare_create_receive db po who lines wh = Inr (company, w)"
  obtains order where "live_po db po = Inr order" "receiver_ok who" "bins_pass db w lines"
    "(case wh of Some w \<Rightarrow> Inr w | None \<Rightarrow> get_primary_warehouse_id db (Some (po_company order))) = Inr w"
proof -
  let ?house = "\<lambda>order. case wh of Some w \<Rightarrow> Inr w | None \<Rightarrow> get_primary_warehouse_id db (Some (po_company order))"
  from assms obtain r order where valid: "validate_receive_eligibility db po who lines True wh = Inr r" and order: "live_po db po = Inr order"
    and house: "?house order = Inr w"
    unfolding prepare_create_receive_def by (auto simp: bindr_eq_Inr split: prod.splits)
  from valid order obtain check rs where check: "bins_warehouse db order True wh lines = Inr check"
    and rs: "eligible_lines db (po_line_items db po) check lines = Inr rs" and who: "receiver_ok who"
    unfolding validate_receive_eligibility_def bindr_eq_Inr ensure_eq_Inr by auto
  have each: "\<not> raised (check_locations db check li)" if "li \<in> set lines" for li
    using rs that by (induction lines arbitrary: rs)
      (auto simp: eligible_line_def bindr_eq_Inr ensure_eq_Inr raised_def split: option.splits)
  have "check = Some w" if "li \<in> set lines" "ct_locations li \<noteq> []" for li
    using check house that by (auto simp: bins_warehouse_def list_ex_iff bindr_eq_Inr split: option.splits if_splits)
  then have "\<not> raised (check_locations db (Some w) li)" if "li \<in> set lines" for li
    using each [OF that] that by (cases "ct_locations li = []") (simp add: check_locations_def raised_def, metis)
  then show ?thesis using that order who house by (simp add: bins_pass_def list_all_iff)
qed

lemma create_receive_named:
  "live_po db po = Inr order \<Longrightarrow>
   (case wh of Some w \<Rightarrow> Inr w | None \<Rightarrow> get_primary_warehouse_id db (Some (po_company order))) = Inr w \<Longrightarrow>
   create_receive now po who lines wh receipt remark db = create_receive now po who lines (Some w) receipt remark db"
  by (simp add: create_receive_def)

lemma upsert_reads [simp]:
  "live_po (upsert_ledger key a r db) = live_po db" "projects (upsert_ledger key a r db) = projects db"
  "warehouses (upsert_ledger key a r db) = warehouses db" "warehouse_locations (upsert_ledger key a r db) = warehouse_locations db"
  by (auto simp: upsert_ledger_def live_po_def split: option.split)

lemma check_bins_cong:
  "warehouse_locations a = warehouse_locations b \<Longrightarrow> warehouses a = warehouses b \<Longrightarrow>
     check_bins_of a check bs = check_bins_of b check bs"
proof -
  assume "warehouse_locations a = warehouse_locations b" "warehouses a = warehouses b"
  then have "ensure_registered_location a = ensure_registered_location b"
    by (intro ext) (simp add: ensure_registered_location_def registered_def)
  then show ?thesis by (induction bs) (simp_all cong: option.case_cong)
qed

lemma bins_pass_upsert: "bins_pass (upsert_ledger key a r db) w lines = bins_pass db w lines"
  using check_bins_cong [of "upsert_ledger key a r db" db] by (simp add: bins_pass_def check_locations_def)

lemma primary_upsert: "get_primary_warehouse_id (upsert_ledger key a r db) c = get_primary_warehouse_id db c"
  by (simp add: get_primary_warehouse_id_def)

lemma claim_waits:
  assumes ok: "desk_ok db ps" and run: "claim_for_approval now i user name key exp db = Inr (ctx, db')"
  obtains d where "d \<in> set (receive_drafts db')" "press_of d = context_press ctx" "waits d" "rd_approval_idempotency_key d = Some key"
    "rd_status d = APPROVING" "rd_warehouse_id d = ac_warehouse_id ctx" "rd_created_by_name d = ac_author_name ctx"
  using ok run
proof (cases rule: claim_Inr)
  case (1 d)
  let ?d = "claimed_draft now user name key d"
  have "?d \<in> set (receive_drafts db')" using 1 by (auto simp: set_draft_def set_update_row)
  moreover have "rd_receive_record_id d = None" using desk_draftD [OF ok 1(1)] 1 by (simp add: draft_ok_def)
  ultimately show ?thesis using 1
    by (intro that [of ?d]) (simp_all add: claimed_draft_def press_of_def waits_def in_flight_status_def context_press_def context_of_def)
next
  case (2 d)
  let ?d = "d\<lparr>rd_reviewed_at := Some now\<rparr>"
  have "?d \<in> set (receive_drafts db')" using 2 by (auto simp: set_draft_def set_update_row)
  moreover have "rd_receive_record_id d = None" using desk_draftD [OF ok 2(1)] 2 by (simp add: draft_ok_def)
  ultimately show ?thesis using 2
    by (intro that [of ?d]) (simp_all add: press_of_def waits_def in_flight_status_def context_press_def context_of_def)
qed

lemma persist_named:
  assumes live: "live_po db po = Inr order"
    and house: "(case wh of Some w \<Rightarrow> Inr w | None \<Rightarrow> get_primary_warehouse_id db (Some (po_company order))) = Inr w"
  shows "persist_create_receive now key draft po who lines wh receipt db = persist_create_receive now key draft po who lines (Some w) receipt db"
  unfolding persist_create_receive_def create_receive_named [OF live house] by (rule refl)

text \<open>The relay's answer recorded, a checked receipt of a held claim books.\<close>

lemma checked_receipt_books:
  assumes ok: "desk_ok db ps" and d: "d \<in> set (receive_drafts db)" "waits d" "rd_approval_idempotency_key d = Some key"
    and ctx: "rd_id d = i" "rd_po_id d = po" "rd_line_items d = lines"
    and pre: "prepare_create_receive db po who lines wh = Inr (company, w)"
  shows "\<exists>r db'. persist_create_receive now key (Some i) po who lines wh receipt (record_relay_result key receipt db) = Inr (r, db')"
proof -
  let ?db2 = "record_relay_result key receipt db"
  have ok2: "desk_ok ?db2 ps" using desk_upsert [OF ok] by (simp add: record_relay_result_def)
  have d2: "d \<in> set (receive_drafts ?db2)" using d(1) by (simp add: record_relay_result_def)
  from pre obtain order where order: "live_po db po = Inr order" and who: "receiver_ok who" and bins: "bins_pass db w lines"
    and house: "(case wh of Some w \<Rightarrow> Inr w | None \<Rightarrow> get_primary_warehouse_id db (Some (po_company order))) = Inr w"
    by (rule prepare_Inr)
  have bins2: "bins_pass ?db2 w (rd_line_items d)" using bins ctx(3) by (simp add: record_relay_result_def bins_pass_upsert)
  have "live_po ?db2 po = Inr order" using order by (simp add: record_relay_result_def)
  moreover have "(case wh of Some w \<Rightarrow> Inr w | None \<Rightarrow> get_primary_warehouse_id ?db2 (Some (po_company order))) = Inr w"
    using house by (simp add: record_relay_result_def primary_upsert cong: option.case_cong)
  ultimately have named: "persist_create_receive now key (Some i) po who lines wh receipt ?db2 =
      persist_create_receive now key (Some i) po who lines (Some w) receipt ?db2" by (rule persist_named)
  show ?thesis unfolding named using held_claim_lands [OF ok2 d2 d(2,3) who bins2, of now receipt] unfolding ctx .
qed

lemma approval_lands:
  assumes ok: "desk_ok db ps" and press: "ps key = None \<or> ps key = Some (context_press ctx)"
    and claim: "claim_for_approval now i user name key exp db = Inr (ctx, db1)" and fresh: "\<not> ac_resumed ctx"
    and pre: "prepare_create_receive db1 (ac_po_id ctx) (ac_author_name ctx) (ac_line_items ctx) (ac_warehouse_id ctx) = Inr (company, w)"
  shows "\<exists>r. fst (approve_claimed now key ctx True (POSTED receipt) db1) = BOOKED r"
proof -
  have ok1: "desk_ok db1 (ps(key \<mapsto> context_press ctx))" using claim_desk [OF ok claim press] .
  from ok claim obtain d where d: "d \<in> set (receive_drafts db1)" "waits d" "rd_approval_idempotency_key d = Some key"
    and p: "press_of d = context_press ctx" by (rule claim_waits)
  then have ctx: "rd_id d = ac_draft_id ctx" "rd_po_id d = ac_po_id ctx" "rd_line_items d = ac_line_items ctx"
    by (simp_all add: press_of_def context_press_def)
  from checked_receipt_books [OF ok1 d ctx pre, of now receipt] fresh pre show ?thesis
    by (auto simp: approve_claimed_def send_receipt_def book_approval_def)
qed

end
