(* ===== verification/BookedCounts.thy ===== *)
theory BookedCounts
  imports DeskFacts Demo
begin

text \<open>
  What is booked stays booked: a step of the desk leaves the booked counts and the received units alone, or books one
  waiting count, as it was counted.
\<close>

section \<open>Booked counts\<close>

definition booked :: "db \<Rightarrow> receive_draft list" where
  "booked db = filter (\<lambda>d. rd_receive_record_id d \<noteq> None) (receive_drafts db)"

text \<open>The units of a PO line that booked counts brought in.\<close>

definition booked_units :: "db \<Rightarrow> uuid \<Rightarrow> int" where
  "booked_units db l = sum_list (map (\<lambda>d. requested (rd_line_items d) l) (booked db))"

definition same_booked :: "db \<Rightarrow> db \<Rightarrow> bool" where
  "same_booked a b \<longleftrightarrow> booked b = booked a \<and> po_lines b = po_lines a"

lemma same_booked_refl [simp]: "same_booked a a" by (simp add: same_booked_def)

lemma same_booked_trans: "same_booked a b \<Longrightarrow> same_booked b c \<Longrightarrow> same_booked a c" by (simp add: same_booked_def)

lemma same_booked_books: "same_books a b \<Longrightarrow> same_booked a b" by (simp add: same_booked_def same_books_def booked_def)

lemma same_booked_rows: "receive_drafts b = receive_drafts a \<Longrightarrow> po_lines b = po_lines a \<Longrightarrow> same_booked a b"
  by (simp add: same_booked_def booked_def)

lemma filter_update_row: "\<forall>x \<in> set xs. k x = i \<longrightarrow> f x = x \<or> \<not> P x \<and> \<not> P (f x) \<Longrightarrow> filter P (update_row k i f xs) = filter P xs"
  by (induction xs) (auto simp: update_row_def)

lemma same_booked_set:
  assumes ok: "desk_ok db ps" and d: "d \<in> set (receive_drafts db)" "rd_id d = i"
    and none: "f d = d \<or> rd_receive_record_id d = None \<and> rd_receive_record_id (f d) = None"
  shows "same_booked db (set_draft i f db)"
proof -
  have "x = d" if "x \<in> set (receive_drafts db)" "rd_id x = i" for x using that d desk_find [OF ok, of i] by (metis option.inject)
  then show ?thesis using none by (auto simp: same_booked_def booked_def set_draft_def intro!: filter_update_row)
qed

lemma unclaimed_unbooked: "draft_ok db d \<Longrightarrow> unclaimed d \<Longrightarrow> rd_receive_record_id d = None"
  by (auto simp: draft_ok_def unclaimed_def)

lemma reworked_booked: "desk_ok db ps \<Longrightarrow> reworked i db db' \<Longrightarrow> same_booked db db'"
proof -
  assume ok: "desk_ok db ps" and "reworked i db db'"
  then obtain d f where d: "d \<in> set (receive_drafts db)" "rd_id d = i" "unclaimed d" "rd_receive_record_id (f d) = rd_receive_record_id d"
    and books: "same_books (set_draft i f db) db'" by (auto simp: reworked_def)
  have "rd_receive_record_id d = None" using desk_draftD [OF ok d(1)] unclaimed_unbooked d(3) by blast
  then have "same_booked db (set_draft i f db)" using d by (intro same_booked_set [OF ok d(1,2)]) simp
  then show ?thesis using same_booked_books [OF books] by (rule same_booked_trans)
qed

lemma create_draft_booked: "create_receive_draft now po lines user name w key doc notes db = Inr (i, db') \<Longrightarrow> same_booked db db'"
  by (erule create_draft_Inr) (auto dest!: same_booked_books simp: same_booked_def booked_def)

lemma delete_draft_booked:
  assumes ok: "desk_ok db ps" and run: "delete_receive_draft i actor m db = Inr (slip, db')"
  shows "same_booked db db'"
proof -
  have "rd_receive_record_id x = None" if "x \<in> set (receive_drafts db)" "rd_id x = i" for x
    using delete_draft_Inr(1) [OF assms] desk_draftD [OF ok that(1)] that by (auto simp: draft_ok_def in_flight_status_def)
  then have "same_booked db (db\<lparr>receive_drafts := delete_rows (\<lambda>d. rd_id d = i) (receive_drafts db)\<rparr>)"
    by (auto simp: same_booked_def booked_def delete_rows_def intro!: filter_cong)
  then show ?thesis using same_booked_books [OF delete_draft_Inr(2) [OF assms]] by (rule same_booked_trans)
qed

lemma claim_booked:
  assumes ok: "desk_ok db ps" and run: "claim_for_approval now i user name key exp db = Inr (ctx, db')"
  shows "same_booked db db'"
  using assms
proof (cases rule: claim_Inr)
  case (1 d)
  show ?thesis unfolding 1(7) using desk_draftD [OF ok 1(1)] 1(4)
    by (intro same_booked_set [OF ok 1(1,2)]) (simp add: draft_ok_def claimed_draft_def)
next
  case (2 d)
  show ?thesis unfolding 2(6) using desk_draftD [OF ok 2(1)] 2(4)
    by (intro same_booked_set [OF ok 2(1,2)]) (simp add: draft_ok_def)
qed

lemma release_claim_booked:
  assumes ok: "desk_ok db ps"
  shows "same_booked db (release_approval_claim i key db)"
proof (cases "i \<in> rd_id ` set (receive_drafts db)")
  case True
  then obtain d where d: "d \<in> set (receive_drafts db)" "rd_id d = i" by blast
  show ?thesis unfolding release_approval_claim_def using desk_draftD [OF ok d(1)]
    by (intro same_booked_set [OF ok d]) (auto simp: draft_ok_def)
next
  case False
  then show ?thesis by (simp add: release_approval_claim_def desk_set_none)
qed

lemma release_held_booked:
  assumes ok: "desk_ok db ps" and run: "release_held_approval now i manager db = Inr db'"
  shows "same_booked db db'"
  using assms
proof (cases rule: release_held_Inr)
  case (1 d why)
  show ?thesis unfolding 1(4) using 1(3) by (intro same_booked_set [OF ok 1(1,2)]) (simp add: waits_def)
qed

lemma set_entry_booked [simp]: "same_booked db (set_entry now j f db)" "same_booked db (upsert_ledger key a r db)"
  by (simp_all add: same_booked_rows set_entry_def)

lemma enqueue_booked: "same_booked db (snd (enqueue now key company ctx w maybe db))"
  by (simp add: enqueue_def fresh_def Let_def same_booked_rows set_entry_def split: option.split)

lemma release_after_booked:
  assumes ok: "desk_ok db0 ps" and rows: "receive_drafts db = receive_drafts db0" and run: "release_after now j db = Inr db'"
  shows "same_booked db db'"
proof (cases "entry_of db j")
  case None
  then show ?thesis using run by (simp add: release_after_def)
next
  case (Some e)
  then have "release_draft_for_outbox_entry now e db = Inr db'" using run by (simp add: release_after_def)
  from release_draft_books [OF this] show ?thesis
  proof (auto split: if_splits option.splits)
    fix d
    assume "List.find (\<lambda>d. rd_approved_outbox_entry_id d = Some (gw_id e) \<and> rd_status d = DRAFT_APPROVED \<and>
        rd_receive_record_id d = None) (receive_drafts db) = Some d"
      and books: "same_books (set_draft (rd_id d) (back_for_review now (why_back e)) db) db'"
    then have d: "d \<in> set (receive_drafts db0)" "rd_receive_record_id d = None" using rows by (auto simp: find_Some_iff)
    have "same_booked db0 (set_draft (rd_id d) (back_for_review now (why_back e)) db0)"
      using d by (intro same_booked_set [OF ok d(1)]) simp_all
    then have "same_booked db (set_draft (rd_id d) (back_for_review now (why_back e)) db)"
      using rows by (simp add: same_booked_def booked_def set_draft_def)
    then show "same_booked db db'" using same_booked_books [OF books] by (rule same_booked_trans)
  qed
qed

lemma mark_failed_booked:
  assumes ok: "desk_ok db ps" and run: "mark_failed now j kind error maybe db = Inr db'"
  shows "same_booked db db'"
  using release_after_booked [OF ok _ run [unfolded mark_failed_def]] same_booked_trans [OF set_entry_booked(1)]
  by (simp add: set_entry_def)

lemma cancel_booked:
  assumes ok: "desk_ok db ps" and run: "cancel_entry now j db = Inr (r, db')"
  shows "same_booked db db'"
  using run
proof (cases rule: cancel_Inr)
  case (2 e took)
  let ?db1 = "set_entry now j (\<lambda>e. e\<lparr>gw_status := WRITE_CANCELLED\<rparr>)
    (if took then stamp_result_id (gw_idempotency_key e) None LET_GO db else db)"
  have "receive_drafts ?db1 = receive_drafts db" "same_booked db ?db1"
    by (simp_all add: stamp_result_id_def set_entry_def same_booked_rows)
  then show ?thesis using release_after_booked [OF ok _ 2(5)] same_booked_trans by blast
qed simp

lemma retry_booked: "retry_entry now j db = Inr (r, db') \<Longrightarrow> same_booked db db'"
  by (auto simp: retry_entry_def ensure_eq_Inr split: option.splits if_splits)

lemma hold_booked:
  assumes ok: "desk_ok db ps" and press: "ps key = Some (context_press ctx)" and lost: "\<not> approval_still_held db (ac_draft_id ctx) key"
    and run: "hold_receipt_released_meanwhile now key company ctx w kind error db = Inr db'"
  shows "same_booked db db'"
proof (cases "entry_for_key db key")
  case None
  have "mark_failed now (next_id db) kind error True (snd (enqueue now key company ctx w True db)) = Inr db'"
    using run None by (simp add: hold_receipt_released_meanwhile_def enqueue_new Let_def)
  then have "release_after now (next_id db) (set_entry now (next_id db) (failed_entry kind error True)
      (snd (enqueue now key company ctx w True db))) = Inr db'" by (simp add: mark_failed_def)
  from release_after_booked [OF ok _ this] show ?thesis
    by (simp add: enqueue_new [OF None] set_entry_def same_booked_def booked_def)
next
  case (Some e)
  then show ?thesis using run by (simp add: hold_receipt_released_meanwhile_def)
qed

lemma queue_booked:
  assumes ok: "desk_ok db ps" and held: "approval_still_held db (ac_draft_id ctx) key"
    and run: "queue_receipt_for_draft now key company ctx w maybe db = (a, db')"
  shows "same_booked db db'"
proof -
  let ?db1 = "snd (enqueue now key company ctx w maybe db)"
  have db': "db' = set_draft (ac_draft_id ctx) (approved_as now None (Some (fst (enqueue now key company ctx w maybe db)))) ?db1"
    using held run by (simp add: queue_receipt_for_draft_def mark_approved_set Let_def split: prod.splits)
  obtain d where d: "d \<in> set (receive_drafts db)" "rd_id d = ac_draft_id ctx" "waits d" using held still_held [OF ok] by blast
  have "same_booked db (set_draft (ac_draft_id ctx) (approved_as now None (Some (fst (enqueue now key company ctx w maybe db)))) db)"
    using d by (intro same_booked_set [OF ok d(1,2)]) (simp add: waits_def)
  then show ?thesis using enqueue_booked [of db now key company ctx w maybe] unfolding db'
    by (simp add: same_booked_def booked_def set_draft_def enqueue_def fresh_def Let_def set_entry_def split: option.splits)
qed

text \<open>A booking books one waiting draft, as it was counted.\<close>

definition books_one :: "db \<Rightarrow> db \<Rightarrow> bool" where
  "books_one db db' \<longleftrightarrow> (\<exists>d \<in> set (receive_drafts db). \<exists>f. waits d \<and> rd_id (f d) = rd_id d \<and> rd_line_items (f d) = rd_line_items d \<and>
     rd_receive_record_id (f d) \<noteq> None \<and> receive_drafts db' = update_row rd_id (rd_id d) f (receive_drafts db) \<and>
     po_lines db' = map (add_received (rd_line_items d)) (po_lines db))"

lemma book_books_one:
  assumes ok: "desk_ok db ps" and press: "ps key = Some (i, po, lines)"
    and run: "persist_create_receive now key (Some i) po who lines w receipt db = Inr (r, db')"
  shows "books_one db db'"
proof -
  from run obtain remark db1 where held: "approval_still_held db i key"
    and booked: "create_receive now po who lines w receipt remark db = Inr (r, db1)"
    and db': "db' = upsert_ledger key (Some receipt) (Some (BOOKED_AS r)) (mark_approved now i (Some r) None db1)"
    unfolding persist_create_receive_def stamp_result_id_def by (auto simp: bindr_eq_Inr ensure_eq_Inr Let_def)
  from held obtain d where d: "d \<in> set (receive_drafts db)" "rd_id d = i" and w: "waits d"
    and k: "rd_approval_idempotency_key d = Some key" using still_held [OF ok] by blast
  have pd: "rd_line_items d = lines" using held_press [OF ok d(1) w k] press by (auto simp: press_of_def)
  from booked have one: "po_lines db1 = map (add_received lines) (po_lines db) \<and> receive_drafts db1 = receive_drafts db"
    by (rule create_receive_Inr) simp
  show ?thesis unfolding books_one_def
    by (rule bexI [OF _ d(1)]) (rule exI [of _ "approved_as now (Some r) None"],
      use one w pd d(2) in \<open>simp add: db' mark_approved_set set_draft_def\<close>)
qed

lemma desk_step_booked:
  assumes "desk_step s t" and "desk_ok (fst s) (snd s)"
  shows "same_booked (fst s) (fst t) \<or> books_one (fst s) (fst t)"
  using assms
proof (induction rule: desk_step.induct)
  case (book ps key i po lines now who w receipt db r db')
  then show ?case using book_books_one by simp
next
  case (queue ps key ctx db now company w maybe a db')
  then show ?case using queue_booked by simp
next
  case (hold ps key ctx db now company w kind error db')
  then show ?case using hold_booked by simp
next
  case (tell db ps now j)
  then show ?case using notify_failure_books same_booked_books by simp
next
  case (take now company db j db' ps)
  then show ?case by (auto simp: claim_next_def Let_def split: option.splits)
next
  case (recover now db js db' ps)
  then show ?case by (auto simp: recover_in_flight_def same_booked_rows)
qed (auto simp: record_relay_result_def finish_succeeded_def mark_succeeded_def mark_retry_def split: option.split
  intro: create_draft_booked reworked_booked update_draft_reworked resubmit_draft_reworked reject_draft_reworked
    delete_draft_booked claim_booked release_claim_booked release_held_booked mark_failed_booked retry_booked cancel_booked)

section \<open>From an empty desk\<close>

definition opens :: "db \<Rightarrow> bool" where
  "opens db \<longleftrightarrow> receive_drafts db = [] \<and> gp_write_outbox db = [] \<and> distinct (map po_line_id (po_lines db)) \<and>
     distinct (map po_id (purchase_orders db)) \<and>
     list_all (\<lambda>l. po_line_received_quantity l \<le> po_line_ordered_quantity l) (po_lines db)"

lemma opens_ok: "opens db \<Longrightarrow> desk_ok db Map.empty"
  by (simp add: opens_def desk_ok_def keys_ok_def ids_below_def room_def awaited_def list_all_iff)

lemma reached_ok: "opens db0 \<Longrightarrow> desk_step\<^sup>*\<^sup>* (db0, Map.empty) (db, ps) \<Longrightarrow> desk_ok db ps"
  using desk_reach_ok opens_ok by fastforce

lemma booked_stays:
  assumes "desk_step\<^sup>*\<^sup>* s t" and "desk_ok (fst s) (snd s)" and "d \<in> set (booked (fst s))"
  shows "d \<in> set (booked (fst t))"
  using assms
proof (induction rule: rtranclp_induct)
  case (step t u)
  have ok: "desk_ok (fst t) (snd t)" using desk_reach_ok step by blast
  have d: "d \<in> set (booked (fst t))" using step by simp
  from desk_step_booked [OF step.hyps(2) ok] show ?case
  proof
    assume "books_one (fst t) (fst u)"
    then obtain x f where x: "x \<in> set (receive_drafts (fst t))" "waits x"
      and rows: "receive_drafts (fst u) = update_row rd_id (rd_id x) f (receive_drafts (fst t))" by (auto simp: books_one_def)
    have "d \<in> set (receive_drafts (fst t))" "rd_receive_record_id d \<noteq> None" using d by (simp_all add: booked_def)
    then have "d = x \<longrightarrow> False" "find_row rd_id (rd_id d) (receive_drafts (fst t)) = Some d" using x desk_find [OF ok] by (auto simp: waits_def)
    then have "rd_id d \<noteq> rd_id x" using x(1) desk_find [OF ok, of "rd_id d" x] by auto
    then show ?thesis using d by (auto simp: booked_def rows set_update_row)
  qed (use d in \<open>simp add: same_booked_def\<close>)
qed

definition balanced :: "po_line list \<Rightarrow> db \<Rightarrow> bool" where
  "balanced ls db \<longleftrightarrow> po_lines db =
     map (\<lambda>l. l\<lparr>po_line_received_quantity := po_line_received_quantity l + booked_units db (po_line_id l)\<rparr>) ls"

lemma books_one_balanced:
  assumes ok: "desk_ok db ps" and "books_one db db'" and bal: "balanced ls db"
  shows "balanced ls db'"
proof -
  from assms(2) obtain d f where d: "d \<in> set (receive_drafts db)" "waits d" "rd_line_items (f d) = rd_line_items d" "rd_receive_record_id (f d) \<noteq> None"
    and rows: "receive_drafts db' = update_row rd_id (rd_id d) f (receive_drafts db)"
    and lines: "po_lines db' = map (add_received (rd_line_items d)) (po_lines db)" by (auto simp: books_one_def)
  have "distinct (map rd_id (receive_drafts db))" using ok by (simp add: desk_ok_def keys_ok_def)
  from sum_rewritten_row [OF this d(1) refl, of _ "\<lambda>d. rd_receive_record_id d \<noteq> None" f]
  have "booked_units db' l = booked_units db l + requested (rd_line_items d) l" for l
    using d by (simp add: booked_units_def booked_def rows waits_def)
  then show ?thesis using bal lines by (simp add: balanced_def add_received_def)
qed

lemma reached_balanced:
  assumes "desk_step\<^sup>*\<^sup>* s t" and "desk_ok (fst s) (snd s)" and "balanced ls (fst s)"
  shows "balanced ls (fst t)"
  using assms
proof (induction rule: rtranclp_induct)
  case (step t u)
  have ok: "desk_ok (fst t) (snd t)" using desk_reach_ok step by blast
  from desk_step_booked [OF step.hyps(2) ok] show ?case
    using books_one_balanced [OF ok] step by (auto simp: same_booked_def balanced_def booked_units_def)
qed

end
