(* ===== verification/Receipts.thy ===== *)
theory Receipts
  imports BookedCounts
begin

text \<open>
  What the desk promises, from a desk with no counts on it: the properties of receiving, their witnesses on one order of
  five hinges, and two releases the code did not mean.
\<close>

section \<open>The worker books a receipt GP took\<close>

lemma claim_next_Some:
  "claim_next now company db = (Some j, db1) \<Longrightarrow> db1 = set_entry now j (\<lambda>e. e\<lparr>gw_status := IN_FLIGHT\<rparr>) db"
  by (auto simp: claim_next_def Let_def split: option.splits)

lemma persist_facts:
  assumes "persist_create_receive now key (Some i) po who lines wh receipt db = Inr (r, db')"
  shows "gp_write_outbox db' = gp_write_outbox db" and "ledger_settled db' key = Some (BOOKED_AS r)"
    and "\<exists>d. find_row rd_id i (receive_drafts db) = Some d \<and> receive_drafts db' = update_row rd_id i (approved_as now (Some r) None) (receive_drafts db)"
proof -
  from assms obtain remark db1 where held: "approval_still_held db i key"
    and booked: "create_receive now po who lines wh receipt remark db = Inr (r, db1)"
    and db': "db' = upsert_ledger key (Some receipt) (Some (BOOKED_AS r)) (mark_approved now i (Some r) None db1)"
    unfolding persist_create_receive_def stamp_result_id_def by (auto simp: bindr_eq_Inr ensure_eq_Inr Let_def)
  from booked have same: "gp_write_outbox db1 = gp_write_outbox db \<and> receive_drafts db1 = receive_drafts db"
    by (rule create_receive_Inr) simp
  show "gp_write_outbox db' = gp_write_outbox db" "ledger_settled db' key = Some (BOOKED_AS r)"
    using same by (simp_all add: db' mark_approved_set set_draft_def ledger_settled_upsert)
  show "\<exists>d. find_row rd_id i (receive_drafts db) = Some d \<and> receive_drafts db' = update_row rd_id i (approved_as now (Some r) None) (receive_drafts db)"
    using held same by (auto simp: db' mark_approved_set set_draft_def approval_still_held_def split: option.splits)
qed

lemma drain_lands:
  fixes words now' jitter receipt
  assumes ok: "desk_ok db ps" and take: "claim_next now company db = (Some j, db1)"
    and e: "entry_of db1 j = Some e" "gp_answer db1 (gw_idempotency_key e) = None" "ledger_settled db1 (gw_idempotency_key e) = None"
    and d: "d \<in> set (receive_drafts db)" "waits d" "rd_approved_outbox_entry_id d = Some j"
    and pre: "prepare_create_receive db1 (gw_po_id e) (gw_received_by e) (gw_line_items e) (gw_warehouse_id e) = Inr (gp, w)"
  defines "db' \<equiv> drain_one words now' jitter j (POSTED receipt) db1"
  shows "\<exists>b \<in> set (booked db'). rd_id b = rd_id d" and "\<exists>e'. entry_of db' j = Some e' \<and> gw_status e' = SUCCEEDED"
proof -
  let ?key = "gw_idempotency_key e"
  have ok1: "desk_ok db1 ps" using claim_next_desk [OF ok take] .
  have d1: "d \<in> set (receive_drafts db1)" using d(1) by (simp add: claim_next_Some [OF take] set_entry_def)
  have mem: "e \<in> set (gp_write_outbox db1)" "gw_id e = j" using e(1) desk_entry [OF ok1] by auto
  have held: "draft_ok db1 d" "hold_ok db1 ps d" using desk_draftD [OF ok1 d1] by simp_all
  then have "rd_status d \<noteq> APPROVING" using d(3) by (auto simp: draft_ok_def)
  then obtain k x where k: "rd_approval_idempotency_key d = Some k" "x \<in> set (gp_write_outbox db1)" "held_row db1 d k x"
    using held(2) d(2) by (auto simp: hold_ok_def)
  have "entry_of db1 j = Some x" using k d(3) desk_entry [OF ok1, of j x] by (simp add: held_row_def)
  then have key: "rd_approval_idempotency_key d = Some ?key" using k e(1) by (simp add: held_row_def)
  have "row_ok ps e" using ok1 mem(1) by (simp add: desk_ok_def)
  then have row: "gw_receive_draft_id e = Some (rd_id d)" "rd_po_id d = gw_po_id e" "rd_line_items d = gw_line_items e"
    using held_press [OF ok1 d1 d(2) key] by (auto simp: row_ok_def press_of_def)
  from checked_receipt_books [OF ok1 d1 d(2) key refl row(2,3) pre, of now' receipt] obtain r db2 where run:
    "persist_create_receive now' ?key (Some (rd_id d)) (gw_po_id e) (gw_received_by e) (gw_line_items e) (gw_warehouse_id e) receipt
      (record_relay_result ?key receipt db1) = Inr (r, db2)" by blast
  have db': "db' = finish_succeeded now' j db2"
    using e pre mem(2) row(1) run by (simp add: db'_def drain_one_def drain_send_def drain_book_def)
  note facts = persist_facts [OF run]
  have same: "same_booked db2 db'" by (simp add: db' finish_succeeded_def mark_succeeded_def split: option.split)
  have "find_row rd_id (rd_id d) (receive_drafts db1) = Some d" using d1 desk_find [OF ok1] by blast
  then have "approved_as now' (Some r) None d \<in> set (receive_drafts db2)"
    using facts(3) by (auto simp: record_relay_result_def set_update_row dest!: find_row_Some)
  then have "approved_as now' (Some r) None d \<in> set (booked db')" using same by (simp add: same_booked_def booked_def)
  then show "\<exists>b \<in> set (booked db'). rd_id b = rd_id d" by (intro bexI) simp_all
  have "entry_of db2 j = Some e" using facts(1) e(1) by (simp add: entry_of_def record_relay_result_def)
  then show "\<exists>e'. entry_of db' j = Some e' \<and> gw_status e' = SUCCEEDED"
    by (cases "gw_status e = SUCCEEDED") (auto simp: db' finish_succeeded_def mark_succeeded_def entry_of_set same_receipt_def
      dest!: arg_cong [where f = gw_status])
qed

section \<open>A count sent again\<close>

lemma notify_keeps:
  "notify_submitted now d po db = Inr db' \<Longrightarrow> receive_drafts db' = receive_drafts db \<and> po_documents db' = po_documents db"
  by (auto simp: notify_submitted_def draft_notice_def create_notification_def fresh_def Let_def bindr_eq_Inr split: option.splits if_splits)

lemma create_draft_keyed:
  assumes run: "create_receive_draft now po lines user name w key doc notes db = Inr (i, db')" and key: "\<not> blank key"
  shows "validate_packing_slip db' po doc = Inr ()"
    and "\<exists>d. draft_for_create_key db' key = Some d \<and> rd_po_id d = po \<and> rd_id d = i"
proof -
  have slip: "validate_packing_slip db po doc = Inr ()" using run by (auto simp: create_receive_draft_def bindr_eq_Inr)
  have "validate_packing_slip db' po doc = Inr () \<and> (\<exists>d. draft_for_create_key db' key = Some d \<and> rd_po_id d = po \<and> rd_id d = i)"
  proof (cases "draft_for_create_key db key")
    case (Some d)
    then show ?thesis using run slip by (auto simp: create_receive_draft_def replayed_on_this_po_def ensure_eq_Inr bindr_eq_Inr)
  next
    case None
    let ?d = "\<lambda>cleaned. new_draft (next_id db) now po w doc user name cleaned key lines"
    let ?db1 = "\<lambda>cleaned. db\<lparr>next_id := Suc (next_id db), receive_drafts := receive_drafts db @ [?d cleaned]\<rparr>"
    from run None obtain cleaned where i: "i = next_id db"
      and note': "notify_submitted now (next_id db) (po_of (?db1 cleaned) po) (?db1 cleaned) = Inr db'"
      unfolding create_receive_draft_def None fresh_def Let_def prod.case option.case
      by (elim bindr_InrE) (simp only: ensure_eq_Inr, elim conjE bindr_InrE, fastforce)
    note same = notify_keeps [OF note']
    have "draft_for_create_key db' key = Some (?d cleaned)"
      using None key same by (simp add: draft_for_create_key_def find_append new_draft_def)
    then show ?thesis using slip same i by (simp add: validate_packing_slip_def new_draft_def cong: option.case_cong)
  qed
  then show "validate_packing_slip db' po doc = Inr ()"
    and "\<exists>d. draft_for_create_key db' key = Some d \<and> rd_po_id d = po \<and> rd_id d = i" by simp_all
qed

section \<open>A desk at work\<close>

definition desk_order :: purchase_order where
  "desk_order = \<lparr>po_id = 10, po_company = ''UBC'', po_po_number = Some ''PO10'', po_project_id = Some 1, po_pool_kind = STOCK,
     po_status = GP_REGISTERED, po_gp_company = Some ''UBC'', po_deleted_at = None\<rparr>"

definition desk_line :: po_line where
  "desk_line = \<lparr>po_line_id = 20, po_line_unit_cost = None, po_line_currency = None, po_line_order_as = None,
     po_line_po_number = Some ''PO10'', po_line_po_id = 10, po_line_hardware_category = ''Hinges'', po_line_product_code = ''BB1279'',
     po_line_ordered_quantity = 5, po_line_received_quantity = 0, po_line_gp_line_ord = Some 16384\<rparr>"

definition desk_start :: db where
  "desk_start = empty_db\<lparr>next_id := 100,
     projects := [\<lparr>pj_id = 1, pj_number = ''P1'', pj_company = Some ''UBC'', pj_gp_setup_ok = Some True, pj_gp_job_state = Some JOB_ACTIVE\<rparr>],
     warehouses := [\<lparr>wh_id = 2, wh_code = ''MAIN'', wh_company = ''UBC'', wh_is_active = True, wh_is_primary = True, wh_created_at = 0\<rparr>],
     purchase_orders := [desk_order], po_lines := [desk_line],
     po_documents := [\<lparr>pd_id = 25, pd_po_id = 10, pd_document_type = PACKING_SLIP, pd_s3_key = ''s''\<rparr>]\<rparr>"

definition desk_count :: "int \<Rightarrow> counted_line list" where
  "desk_count q = [\<lparr>ct_po_line_item_id = 20, ct_quantity_received = q, ct_locations = []\<rparr>]"

definition desk_counted :: "uuid \<times> db" where
  "desk_counted = value_of (create_receive_draft 5 10 (desk_count 3) ''u1'' ''ann'' (Some 2) (Some ''c1'') (Some 25) None desk_start)"

definition desk_claimed :: "approval_context \<times> db" where
  "desk_claimed = value_of (claim_for_approval 6 100 ''u2'' ''mia'' ''k1'' None (snd desk_counted))"

definition desk_receipt :: gp_receipt where "desk_receipt = (Some ''RCT1'', Some ''B1'')"

definition desk_booked :: "uuid \<times> db" where
  "desk_booked = value_of (persist_create_receive 7 ''k1'' (Some 100) 10 ''ann'' (desk_count 3) (Some 2) desk_receipt (snd desk_claimed))"

definition desk_more :: "uuid \<times> db" where
  "desk_more = value_of (create_receive_draft 8 10 (desk_count 2) ''u1'' ''ann'' (Some 2) None (Some 25) None (snd desk_booked))"

definition desk_queued :: db where
  "desk_queued = snd (queue_receipt_for_draft 7 ''k1'' ''UBC'' (fst desk_claimed) (Some 2) True (snd desk_claimed))"

lemma ran: "x = value_of m \<Longrightarrow> \<not> raised m \<Longrightarrow> m = Inr x"
  by (simp add: value_of)

lemma desk_runs:
  "create_receive_draft 5 10 (desk_count 3) ''u1'' ''ann'' (Some 2) (Some ''c1'') (Some 25) None desk_start = Inr (100, snd desk_counted)"
  "claim_for_approval 6 100 ''u2'' ''mia'' ''k1'' None (snd desk_counted) = Inr (fst desk_claimed, snd desk_claimed)"
  "persist_create_receive 7 ''k1'' (Some 100) 10 ''ann'' (desk_count 3) (Some 2) desk_receipt (snd desk_claimed) =
     Inr (fst desk_booked, snd desk_booked)"
  "create_receive_draft 8 10 (desk_count 2) ''u1'' ''ann'' (Some 2) None (Some 25) None (snd desk_booked) = Inr (fst desk_more, snd desk_more)"
proof -
  have "create_receive_draft 5 10 (desk_count 3) ''u1'' ''ann'' (Some 2) (Some ''c1'') (Some 25) None desk_start = Inr desk_counted"
    by (rule ran [OF desk_counted_def]) code_simp
  moreover have "fst desk_counted = 100" by code_simp
  ultimately show "create_receive_draft 5 10 (desk_count 3) ''u1'' ''ann'' (Some 2) (Some ''c1'') (Some 25) None desk_start =
    Inr (100, snd desk_counted)" by (metis prod.collapse)
  show "claim_for_approval 6 100 ''u2'' ''mia'' ''k1'' None (snd desk_counted) = Inr (fst desk_claimed, snd desk_claimed)"
    unfolding prod.collapse by (rule ran [OF desk_claimed_def]) code_simp
  show "persist_create_receive 7 ''k1'' (Some 100) 10 ''ann'' (desk_count 3) (Some 2) desk_receipt (snd desk_claimed) =
      Inr (fst desk_booked, snd desk_booked)"
    unfolding prod.collapse by (rule ran [OF desk_booked_def]) code_simp
  show "create_receive_draft 8 10 (desk_count 2) ''u1'' ''ann'' (Some 2) None (Some 25) None (snd desk_booked) =
      Inr (fst desk_more, snd desk_more)"
    unfolding prod.collapse by (rule ran [OF desk_more_def]) code_simp
qed

abbreviation "desk_presses \<equiv> Map.empty(''k1'' \<mapsto> (100, 10, desk_count 3))"

lemma desk_opens: "opens desk_start" by code_simp

lemma desk_press: "context_press (fst desk_claimed) = (100, 10, desk_count 3)" by code_simp

lemma desk_path:
  "desk_step\<^sup>*\<^sup>* (desk_start, Map.empty) (snd desk_counted, Map.empty)"
  "desk_step\<^sup>*\<^sup>* (desk_start, Map.empty) (snd desk_claimed, desk_presses)"
  "desk_step\<^sup>*\<^sup>* (desk_start, Map.empty) (snd desk_booked, desk_presses)"
  "desk_step (snd desk_booked, desk_presses) (snd desk_more, desk_presses)"
  "desk_step\<^sup>*\<^sup>* (desk_start, Map.empty) (desk_queued, desk_presses)"
proof -
  show a: "desk_step\<^sup>*\<^sup>* (desk_start, Map.empty) (snd desk_counted, Map.empty)"
    by (rule r_into_rtranclp [where r = desk_step, OF submit [OF desk_runs(1)]])
  have "desk_step (snd desk_counted, Map.empty) (snd desk_claimed, Map.empty(''k1'' \<mapsto> context_press (fst desk_claimed)))"
    by (rule claim [OF desk_runs(2)]) simp
  then show b: "desk_step\<^sup>*\<^sup>* (desk_start, Map.empty) (snd desk_claimed, desk_presses)"
    using a unfolding desk_press by (rule rtranclp.rtrancl_into_rtrancl [rotated])
  have "desk_step (snd desk_claimed, desk_presses) (snd desk_booked, desk_presses)" by (rule book [OF _ desk_runs(3)]) simp
  then show "desk_step\<^sup>*\<^sup>* (desk_start, Map.empty) (snd desk_booked, desk_presses)"
    using b by (rule rtranclp.rtrancl_into_rtrancl [rotated])
  show "desk_step (snd desk_booked, desk_presses) (snd desk_more, desk_presses)" by (rule submit [OF desk_runs(4)])
  have held: "approval_still_held (snd desk_claimed) (ac_draft_id (fst desk_claimed)) ''k1''" by code_simp
  have "desk_step (snd desk_claimed, desk_presses) (desk_queued, desk_presses)"
    unfolding desk_queued_def
    by (rule queue [OF _ held surjective_pairing]) (simp add: desk_press)
  then show "desk_step\<^sup>*\<^sup>* (desk_start, Map.empty) (desk_queued, desk_presses)"
    using b by (rule rtranclp.rtrancl_into_rtrancl [rotated])
qed

section \<open>What the desk promises\<close>

text \<open>
  C3. From a desk with no counts on it, whatever is counted, approved, queued, sent, retried, cancelled or let go, in any
  order: what a PO line has received and what is claimed of it and not yet booked never exceed what was ordered; and a
  claimed count not yet booked always passes the booking's own check of its quantities, on an order that is still open to
  receiving. So nothing GP took can be refused for its quantities.
\<close>

theorem receipts_never_exceed_the_order:
  assumes "opens db0" and "desk_step\<^sup>*\<^sup>* (db0, Map.empty) (db, ps)"
  shows "(\<forall>l \<in> set (po_lines db). po_line_received_quantity l + awaited db (po_line_id l) \<le> po_line_ordered_quantity l) \<and>
    (\<forall>d \<in> set (receive_drafts db). waits d \<longrightarrow> assert_within_pending (po_line_items db (rd_po_id d)) (rd_line_items d) = Inr () \<and>
      (\<exists>order. live_po db (rd_po_id d) = Inr order \<and> receivable (po_status order)))"
proof -
  have ok: "desk_ok db ps" by (rule reached_ok [OF assms])
  then show ?thesis using held_fits(1,2) [OF ok] by (simp add: desk_ok_def room_def)
qed

theorem receipts_never_exceed_the_order_witness:
  "\<exists>d \<in> set (receive_drafts (snd desk_claimed)). waits d \<and>
     assert_within_pending (po_line_items (snd desk_claimed) (rd_po_id d)) (rd_line_items d) = Inr ()"
proof -
  have "list_ex waits (receive_drafts (snd desk_claimed))" by code_simp
  then show ?thesis using receipts_never_exceed_the_order [OF desk_opens desk_path(2)] by (auto simp: list_ex_iff)
qed

text \<open>
  C6. Every unit a PO line has received since the desk opened was counted by a draft whose receipt is booked, and counted
  once: the received quantity grew by what the booked drafts hold of the line, and nothing else about the lines changed.
\<close>

theorem received_units_were_counted:
  assumes "opens db0" and "desk_step\<^sup>*\<^sup>* (db0, Map.empty) (db, ps)"
  shows "po_lines db =
    map (\<lambda>l. l\<lparr>po_line_received_quantity := po_line_received_quantity l + booked_units db (po_line_id l)\<rparr>) (po_lines db0)"
proof -
  have "balanced (po_lines db0) db0" using assms(1) by (simp add: balanced_def booked_units_def booked_def opens_def)
  then show ?thesis using reached_balanced [OF assms(2)] opens_ok [OF assms(1)] by (simp add: balanced_def)
qed

theorem received_units_were_counted_witness:
  "po_lines (snd desk_booked) = [desk_line\<lparr>po_line_received_quantity := 3\<rparr>]"
proof -
  have "po_lines desk_start = [desk_line]" "booked_units (snd desk_booked) (po_line_id desk_line) = 3"
    "po_line_received_quantity desk_line = 0" by code_simp+
  then show ?thesis using received_units_were_counted [OF desk_opens desk_path(3)] by simp
qed

text \<open>
  C8. A booked count is final: once a draft carries its receive record, nothing the desk or the worker does afterwards
  edits it, takes it back for review, books it again or deletes it.
\<close>

theorem booked_count_is_final:
  assumes "opens db0" and "desk_step\<^sup>*\<^sup>* (db0, Map.empty) (db, ps)"
    and "d \<in> set (receive_drafts db)" and "rd_receive_record_id d = Some r" and "desk_step\<^sup>*\<^sup>* (db, ps) (db', ps')"
  shows "d \<in> set (receive_drafts db')"
  using booked_stays [OF assms(5)] reached_ok [OF assms(1,2)] assms(3,4) by (simp add: booked_def)

theorem booked_count_is_final_witness:
  "\<exists>d \<in> set (receive_drafts (snd desk_more)). rd_id d = 100 \<and> rd_receive_record_id d = Some (fst desk_booked)"
proof -
  have "list_ex (\<lambda>d. rd_id d = 100 \<and> rd_receive_record_id d = Some (fst desk_booked)) (receive_drafts (snd desk_booked))" by code_simp
  then obtain d where d: "d \<in> set (receive_drafts (snd desk_booked))" "rd_receive_record_id d = Some (fst desk_booked)" "rd_id d = 100"
    by (auto simp: list_ex_iff)
  show ?thesis
    using booked_count_is_final [OF desk_opens desk_path(3) d(1,2) r_into_rtranclp [where r = desk_step, OF desk_path(4)]] d by blast
qed

text \<open>
  C5. When GP takes the receipt of an approval, the approval books it: a first claim whose pre-flight passed cannot be
  refused by the booking that follows the answer, whatever else is waiting on the desk.
\<close>

theorem approval_books_what_gp_took:
  assumes "opens db0" and "desk_step\<^sup>*\<^sup>* (db0, Map.empty) (db, ps)"
    and "validate_key raw = Inr key" "ledger_settled db key = None" "ps key = None"
    and "claim_for_approval now i user name key exp db = Inr (ctx, db1)" "\<not> ac_resumed ctx"
    and "prepare_create_receive db1 (ac_po_id ctx) (ac_author_name ctx) (ac_line_items ctx) (ac_warehouse_id ctx) = Inr (company, w)"
  shows "\<exists>r. fst (approve_receive_draft now i user name raw exp True (POSTED receipt) db) = BOOKED r"
  using approval_lands [OF reached_ok [OF assms(1,2)] disjI1 [OF assms(5)] assms(6-8)] assms(3,4,6)
  by (simp add: approve_receive_draft_def)

theorem approval_books_what_gp_took_witness:
  "\<exists>r. fst (approve_receive_draft 6 100 ''u2'' ''mia'' '' k1 '' None True (POSTED desk_receipt) (snd desk_counted)) = BOOKED r"
proof -
  have key: "validate_key '' k1 '' = Inr ''k1''" "ledger_settled (snd desk_counted) ''k1'' = None" "\<not> ac_resumed (fst desk_claimed)"
    by code_simp+
  have "prepare_create_receive (snd desk_claimed) (ac_po_id (fst desk_claimed)) (ac_author_name (fst desk_claimed))
      (ac_line_items (fst desk_claimed)) (ac_warehouse_id (fst desk_claimed)) = Inr (''UBC'', 2)" by code_simp
  then show ?thesis using approval_books_what_gp_took [OF desk_opens desk_path(1) key(1,2) _ desk_runs(2) key(3)] by simp
qed

text \<open>
  C7. When GP takes a queued receipt, the worker books it: the row a draft waits on, sent and answered, is marked succeeded
  and its draft carries a receive record.
\<close>

theorem queued_receipt_is_booked:
  assumes "opens db0" and "desk_step\<^sup>*\<^sup>* (db0, Map.empty) (db, ps)"
    and "claim_next now company db = (Some j, db1)" "entry_of db1 j = Some e"
    and "gp_answer db1 (gw_idempotency_key e) = None" "ledger_settled db1 (gw_idempotency_key e) = None"
    and "d \<in> set (receive_drafts db)" "waits d" "rd_approved_outbox_entry_id d = Some j"
    and "prepare_create_receive db1 (gw_po_id e) (gw_received_by e) (gw_line_items e) (gw_warehouse_id e) = Inr (gp, w)"
  shows "(\<exists>b \<in> set (receive_drafts (drain_one words now' jitter j (POSTED receipt) db1)).
      rd_id b = rd_id d \<and> rd_receive_record_id b \<noteq> None) \<and>
    map_option gw_status (entry_of (drain_one words now' jitter j (POSTED receipt) db1) j) = Some SUCCEEDED"
  using drain_lands [OF reached_ok [OF assms(1,2)] assms(3-10), of words now' jitter receipt] by (auto simp: booked_def)

definition desk_taken :: "uuid option \<times> db" where
  "desk_taken = claim_next 8 ''UBC'' desk_queued"

theorem queued_receipt_is_booked_witness:
  "map_option gw_status (entry_of (drain_one (\<lambda>_. ''no'') 9 0 102 (POSTED desk_receipt) (snd desk_taken)) 102) = Some SUCCEEDED"
proof -
  have "fst desk_taken = Some 102" by code_simp
  then have take: "claim_next 8 ''UBC'' desk_queued = (Some 102, snd desk_taken)" by (metis desk_taken_def prod.collapse)
  define e where "e = the (entry_of (snd desk_taken) 102)"
  have "entry_of (snd desk_taken) 102 \<noteq> None" by code_simp
  then have e: "entry_of (snd desk_taken) 102 = Some e" by (auto simp: e_def)
  have led: "gp_answer (snd desk_taken) (gw_idempotency_key e) = None" "ledger_settled (snd desk_taken) (gw_idempotency_key e) = None"
    and pre: "prepare_create_receive (snd desk_taken) (gw_po_id e) (gw_received_by e) (gw_line_items e) (gw_warehouse_id e) = Inr (''UBC'', 2)"
    unfolding e_def by code_simp+
  have "list_ex (\<lambda>d. waits d \<and> rd_approved_outbox_entry_id d = Some 102) (receive_drafts desk_queued)" by code_simp
  then obtain d where d: "d \<in> set (receive_drafts desk_queued)" "waits d" "rd_approved_outbox_entry_id d = Some 102"
    by (auto simp: list_ex_iff)
  show ?thesis using queued_receipt_is_booked [OF desk_opens desk_path(5) take e led d pre] by blast
qed

text \<open>
  C19. A booked receipt lands exactly its count: the stock of each product grows by the units counted of it, each PO line's
  received quantity by the units counted of the line, and the order is closed exactly when every line of it has all it asked
  for.
\<close>

theorem receipt_lands_its_count:
  assumes "create_receive now po who lines wh receipt notes db = Inr (i, db')" and "stock_ok db"
  shows "stock_ok db' \<and> weigh (units_of c) db' = weigh (units_of c) db + counted_units (po_line_items db po) lines c \<and>
    po_lines db' = map (\<lambda>l. l\<lparr>po_line_received_quantity := po_line_received_quantity l + requested lines (po_line_id l)\<rparr>) (po_lines db) \<and>
    (\<exists>order. po_of db' po = Some order \<and>
      (po_status order = PO_CLOSED \<longleftrightarrow> list_all (\<lambda>l. po_line_ordered_quantity l \<le> po_line_received_quantity l) (po_line_items db' po)))"
proof -
  from assms(1) have "po_lines db' = map (add_received lines) (po_lines db) \<and> (\<exists>order. po_of db' po = Some order \<and>
      (po_status order = PO_CLOSED \<longleftrightarrow> list_all (\<lambda>l. po_line_ordered_quantity l \<le> po_line_received_quantity l) (po_line_items db' po)))"
  proof (rule create_receive_Inr)
    fix order
    assume "live_po db po = Inr order" "receivable (po_status order)" "po_lines db' = map (add_received lines) (po_lines db)"
      "purchase_orders db' = update_row po_id po (\<lambda>x. x\<lparr>po_status := po_after db' order\<rparr>) (purchase_orders db)"
    then show ?thesis by (auto simp: po_of_def find_row_update live_po_Inr po_after_def Let_def receivable_def dest: find_row_Some)
  qed
  then show ?thesis using receipt_units [OF assms] by (simp add: add_received_def [abs_def])
qed

definition desk_closed :: "uuid \<times> db" where
  "desk_closed = value_of (create_receive 7 10 ''ann'' (desk_count 5) None desk_receipt None desk_start)"

theorem receipt_lands_its_count_witness:
  "weigh (units_of demo_combo) (snd desk_closed) = 5 \<and> (\<exists>order. po_of (snd desk_closed) 10 = Some order \<and> po_status order = PO_CLOSED)"
proof -
  have run: "create_receive 7 10 ''ann'' (desk_count 5) None desk_receipt None desk_start = Inr (fst desk_closed, snd desk_closed)"
    unfolding prod.collapse by (rule ran [OF desk_closed_def]) code_simp
  have "stock_ok desk_start" "weigh (units_of demo_combo) desk_start = 0"
    "counted_units (po_line_items desk_start 10) (desk_count 5) demo_combo = 5"
    "list_all (\<lambda>l. po_line_ordered_quantity l \<le> po_line_received_quantity l) (po_line_items (snd desk_closed) 10)" by code_simp+
  then show ?thesis using receipt_lands_its_count [OF run, of demo_combo] by auto
qed

text \<open>
  C21. A count sent again under its key changes nothing: it answers with the draft the first send wrote, whatever the second
  send says was counted.
\<close>

theorem resent_count_changes_nothing:
  assumes "create_receive_draft now po lines user name w key doc notes db = Inr (i, db')" and "\<not> blank key"
  shows "create_receive_draft now2 po lines2 user2 name2 w2 key doc notes2 db' = Inr (i, db')"
  using create_draft_keyed [OF assms]
  by (auto simp: create_receive_draft_def replayed_on_this_po_def ensure_def)

theorem resent_count_changes_nothing_witness:
  "create_receive_draft 6 10 (desk_count 5) ''u1'' ''ann'' None (Some ''c1'') (Some 25) None (snd desk_counted) = Inr (100, snd desk_counted)"
  by (rule resent_count_changes_nothing [OF desk_runs(1)]) code_simp

section \<open>Releases the code did not mean\<close>

lemma in_update_row: "x \<in> set xs \<Longrightarrow> k x = i \<Longrightarrow> f x \<in> set (update_row k i f xs)"
  by (force simp: update_row_def)

lemma let_go_draft:
  assumes d: "d \<in> set (receive_drafts db)" "rd_id d = i" "rd_status d = APPROVING" "rd_approval_idempotency_key d = Some key"
  shows "d\<lparr>rd_status := PENDING_APPROVAL, rd_approval_idempotency_key := None\<rparr> \<in> set (receive_drafts (release_approval_claim i key db))"
proof -
  let ?f = "\<lambda>d. if rd_status d = APPROVING \<and> rd_approval_idempotency_key d = Some key
    then d\<lparr>rd_status := PENDING_APPROVAL, rd_approval_idempotency_key := None\<rparr> else d"
  have "?f d \<in> set (receive_drafts (release_approval_claim i key db))"
    using in_update_row [OF d(1), of rd_id i ?f] d(2) unfolding release_approval_claim_def set_draft_def by simp
  then show ?thesis using d(3,4) by simp
qed

text \<open>
  C20. A resumed approval - one an earlier attempt may already have put in GP - goes back for review, its key forgotten, on
  every refusal but an internal error: also on one the relay raises before it has looked the key up, such as a database
  error on its connection.
\<close>

theorem refused_resume_is_let_go:
  assumes "opens db0" and "desk_step\<^sup>*\<^sup>* (db0, Map.empty) (db, ps)"
    and "claim_for_approval now i user name key exp db = Inr (ctx, db1)" "ac_resumed ctx" "gp_answer db1 key = None"
    and "prepare_create_receive db1 (ac_po_id ctx) (ac_author_name ctx) (ac_line_items ctx) (ac_warehouse_id ctx) = Inr (company, w)"
    and "code \<noteq> ''internal_error''"
  shows "fst (approve_claimed now key ctx True (RELAY_REFUSED code message) db1) = RELAY_SAID_NO \<and>
    (\<exists>d \<in> set (receive_drafts (snd (approve_claimed now key ctx True (RELAY_REFUSED code message) db1))).
      rd_id d = i \<and> rd_status d = PENDING_APPROVAL \<and> rd_approval_idempotency_key d = None)"
proof -
  have ok: "desk_ok db ps" by (rule reached_ok [OF assms(1,2)])
  have run: "approve_claimed now key ctx True (RELAY_REFUSED code message) db1 = (RELAY_SAID_NO, release_approval_claim (ac_draft_id ctx) key db1)"
    using assms(4-7) by (simp add: approve_claimed_def send_receipt_def may_have_committed_def)
  from ok assms(3) show ?thesis
  proof (cases rule: claim_Inr)
    case (1 d)
    then show ?thesis using assms(4) by simp
  next
    case (2 d)
    then have "d\<lparr>rd_reviewed_at := Some now\<rparr> \<in> set (receive_drafts db1)" by (auto simp: set_draft_def set_update_row)
    from let_go_draft [OF this, of i key] 2
    have "d\<lparr>rd_reviewed_at := Some now, rd_status := PENDING_APPROVAL, rd_approval_idempotency_key := None\<rparr>
      \<in> set (receive_drafts (release_approval_claim (ac_draft_id ctx) key db1))" by simp
    from bexI [OF _ this] 2 show ?thesis unfolding run by simp
  qed
qed

definition desk_resumed :: "approval_context \<times> db" where
  "desk_resumed = value_of (claim_for_approval 9 100 ''u2'' ''mia'' ''k1'' None (snd desk_claimed))"

text \<open>After it, the count is approved under another key: GP is sent a second receipt.\<close>

theorem refused_resume_is_let_go_witness:
  "(case approve_claimed 9 ''k1'' (fst desk_resumed) True (RELAY_REFUSED ''sql_error'' ''login timeout'') (snd desk_resumed) of
     (first, db') \<Rightarrow> first = RELAY_SAID_NO \<and>
       fst (approve_receive_draft 10 100 ''u2'' ''mia'' ''k2'' None True (POSTED desk_receipt) db') \<in> range BOOKED)"
proof -
  have run: "claim_for_approval 9 100 ''u2'' ''mia'' ''k1'' None (snd desk_claimed) = Inr (fst desk_resumed, snd desk_resumed)"
    unfolding prod.collapse by (rule ran [OF desk_resumed_def]) code_simp
  have at: "ac_resumed (fst desk_resumed)" "gp_answer (snd desk_resumed) ''k1'' = None"
    "prepare_create_receive (snd desk_resumed) (ac_po_id (fst desk_resumed)) (ac_author_name (fst desk_resumed))
      (ac_line_items (fst desk_resumed)) (ac_warehouse_id (fst desk_resumed)) = Inr (''UBC'', 2)"
    "(''sql_error'' :: string) \<noteq> ''internal_error''" by code_simp+
  let ?out = "approve_claimed 9 ''k1'' (fst desk_resumed) True (RELAY_REFUSED ''sql_error'' ''login timeout'') (snd desk_resumed)"
  have "case fst (approve_receive_draft 10 100 ''u2'' ''mia'' ''k2'' None True (POSTED desk_receipt) (snd ?out)) of BOOKED r \<Rightarrow> True | _ \<Rightarrow> False"
    by code_simp
  then have "fst (approve_receive_draft 10 100 ''u2'' ''mia'' ''k2'' None True (POSTED desk_receipt) (snd ?out)) \<in> range BOOKED"
    by (auto split: approval.splits)
  then show ?thesis using refused_resume_is_let_go [OF desk_opens desk_path(2) run at, of "''login timeout''"] by (auto split: prod.split)
qed

definition desk_second :: "uuid \<times> db" where
  "desk_second = value_of (create_receive_draft 8 10 (desk_count 2) ''u1'' ''ann'' (Some 2) None (Some 25) None (snd desk_claimed))"

text \<open>A claim let go puts its count back for review beside one submitted meanwhile: two counts of one order wait.\<close>

theorem released_count_waits_beside_another:
  "desk_step\<^sup>*\<^sup>* (desk_start, Map.empty) (release_approval_claim 100 ''k1'' (snd desk_second), desk_presses) \<and>
   length (filter (\<lambda>d. rd_po_id d = 10 \<and> rd_status d = PENDING_APPROVAL)
     (receive_drafts (release_approval_claim 100 ''k1'' (snd desk_second)))) = 2"
proof -
  have "create_receive_draft 8 10 (desk_count 2) ''u1'' ''ann'' (Some 2) None (Some 25) None (snd desk_claimed) = Inr (fst desk_second, snd desk_second)"
    unfolding prod.collapse by (rule ran [OF desk_second_def]) code_simp
  then have "desk_step (snd desk_claimed, desk_presses) (snd desk_second, desk_presses)" by (rule submit)
  moreover have "desk_step (snd desk_second, desk_presses) (release_approval_claim 100 ''k1'' (snd desk_second), desk_presses)" by (rule let_go)
  moreover have "length (filter (\<lambda>d. rd_po_id d = 10 \<and> rd_status d = PENDING_APPROVAL)
     (receive_drafts (release_approval_claim 100 ''k1'' (snd desk_second)))) = 2" by code_simp
  ultimately show ?thesis using desk_path(2) by (meson rtranclp.rtrancl_into_rtrancl)
qed

end
