(* ===== verification/GpTies.thy ===== *)
theory GpTies
  imports Receipts
begin

text \<open>
  GP beside the desk: the keys it holds a receipt under, what each answer of the relay says of them, and the steps of the
  desk as whole attempts that may die at any point. Then what ties the keys in GP to the drafts and the rows, and that
  counting, claiming, approving and releasing keep it.
\<close>

section \<open>GP beside the desk\<close>

text \<open>
  \<open>desk_gp\<close> is the keys GP holds a receipt under, \<open>desk_freed\<close> the drafts a manager let go by hand after looking in
  GP, \<open>desk_misled\<close> the drafts of which the relay said no while GP held their receipt. A relay answer and what it may
  mean for GP: only a posted receipt, a relay too old for the call and a link that was never up say which it is; a
  timeout, a link lost under way and a refusal of any code leave both possible, for some refusals come before the
  relay looks the key up and a database error can be the commit itself failing.
\<close>

record desk =
  desk_db :: db
  desk_presses :: presses
  desk_gp :: "string set"
  desk_freed :: "uuid set"
  desk_misled :: "uuid set"

fun relay_answers :: "relay_outcome \<Rightarrow> string \<Rightarrow> string set \<Rightarrow> string set \<Rightarrow> bool" where
  "relay_answers (POSTED receipt) key gp gp' = (gp' = insert key gp)"
| "relay_answers (RELAY_REFUSED _ _) key gp gp' = (gp' = gp \<or> gp' = insert key gp)"
| "relay_answers (RELAY_TOO_OLD _) key gp gp' = (gp' = gp)"
| "relay_answers (RELAY_TIMED_OUT _) key gp gp' = (gp' = gp \<or> gp' = insert key gp)"
| "relay_answers (RELAY_UNAVAILABLE dispatched _) key gp gp' = (gp' = gp \<or> dispatched \<and> gp' = insert key gp)"

text \<open>The relay said no, with a code taken to mean that GP holds nothing, of a key GP holds a receipt under.\<close>

fun wrong_no :: "relay_outcome \<Rightarrow> string \<Rightarrow> string set \<Rightarrow> bool" where
  "wrong_no (RELAY_REFUSED code _) key gp' \<longleftrightarrow> \<not> may_have_committed code \<and> key \<in> gp'"
| "wrong_no _ _ _ \<longleftrightarrow> False"

text \<open>The worker asks again after a refusal that passes on its own.\<close>

fun asks_again :: "relay_outcome \<Rightarrow> bool" where
  "asks_again (RELAY_REFUSED code _) \<longleftrightarrow> transient_relay_error code"
| "asks_again _ \<longleftrightarrow> False"

definition misleads_worker :: "relay_outcome \<Rightarrow> string \<Rightarrow> string set \<Rightarrow> string set \<Rightarrow> bool" where
  "misleads_worker outcome key gp gp' \<longleftrightarrow> wrong_no outcome key gp' \<and> \<not> (asks_again outcome \<and> key \<in> gp)"

definition pressed_for :: "presses \<Rightarrow> string \<Rightarrow> uuid set" where
  "pressed_for ps key = {i. \<exists>po lines. ps key = Some (i, po, lines)}"

text \<open>Whether a claimed approval, or a claimed row, goes out to the relay.\<close>

definition approval_sends :: "string \<Rightarrow> approval_context \<Rightarrow> bool \<Rightarrow> db \<Rightarrow> bool" where
  "approval_sends key ctx has_feature db \<longleftrightarrow> (ac_resumed ctx \<longrightarrow> gp_answer db key = None) \<and> has_feature \<and>
     \<not> raised (prepare_create_receive db (ac_po_id ctx) (ac_author_name ctx) (ac_line_items ctx) (ac_warehouse_id ctx))"

definition drain_sends :: "gp_write \<Rightarrow> db \<Rightarrow> bool" where
  "drain_sends e db \<longleftrightarrow> ledger_settled db (gw_idempotency_key e) = None \<and> gp_answer db (gw_idempotency_key e) = None \<and>
     (gw_attempts e = 0 \<and> \<not> gw_maybe_in_gp e \<longrightarrow>
       \<not> raised (prepare_create_receive db (gw_po_id e) (gw_received_by e) (gw_line_items e) (gw_warehouse_id e)))"

inductive gp_step :: "desk \<Rightarrow> desk \<Rightarrow> bool" where
  submit: "create_receive_draft now po lines user name w ckey doc notes (desk_db s) = Inr (i, db') \<Longrightarrow> gp_step s (s\<lparr>desk_db := db'\<rparr>)"
| edit: "update_receive_draft now i lines user m w notes exp (desk_db s) = Inr db' \<Longrightarrow> gp_step s (s\<lparr>desk_db := db'\<rparr>)"
| resubmit: "resubmit_receive_draft now i user (desk_db s) = Inr db' \<Longrightarrow> gp_step s (s\<lparr>desk_db := db'\<rparr>)"
| reject: "reject_receive_draft now i reason user name (desk_db s) = Inr db' \<Longrightarrow> gp_step s (s\<lparr>desk_db := db'\<rparr>)"
| remove: "delete_receive_draft i user m (desk_db s) = Inr (slip, db') \<Longrightarrow> gp_step s (s\<lparr>desk_db := db'\<rparr>)"
| approve: "claim_for_approval now i user name key exp (desk_db s) = Inr (ctx, db1) \<Longrightarrow>
    desk_presses s key = None \<or> desk_presses s key = Some (context_press ctx) \<Longrightarrow>
    (if approval_sends key ctx feature db1 then relay_answers outcome key (desk_gp s) gp' else gp' = desk_gp s) \<Longrightarrow>
    approve_claimed now key ctx feature outcome db1 = (a, db') \<Longrightarrow>
    gp_step s (s\<lparr>desk_db := db', desk_presses := (desk_presses s)(key \<mapsto> context_press ctx), desk_gp := gp',
      desk_misled := (if approval_sends key ctx feature db1 \<and> wrong_no outcome key gp' then {ac_draft_id ctx} else {}) \<union> desk_misled s\<rparr>)"
| approval_dies: "claim_for_approval now i user name key exp (desk_db s) = Inr (ctx, db1) \<Longrightarrow>
    desk_presses s key = None \<or> desk_presses s key = Some (context_press ctx) \<Longrightarrow>
    gp' = desk_gp s \<and> db' = db1 \<or> gp' = insert key (desk_gp s) \<and> (db' = db1 \<or> db' = record_relay_result key receipt db1) \<Longrightarrow>
    gp_step s (s\<lparr>desk_db := db', desk_presses := (desk_presses s)(key \<mapsto> context_press ctx), desk_gp := gp'\<rparr>)"
| free: "release_held_approval now i manager (desk_db s) = Inr db' \<Longrightarrow>
    gp_step s (s\<lparr>desk_db := db', desk_freed := insert i (desk_freed s)\<rparr>)"
| drain: "claim_next now company (desk_db s) = (Some j, db1) \<Longrightarrow> entry_of db1 j = Some e \<Longrightarrow>
    (if drain_sends e db1 then relay_answers outcome (gw_idempotency_key e) (desk_gp s) gp' else gp' = desk_gp s) \<Longrightarrow>
    gp_step s (s\<lparr>desk_db := drain_one words now jitter j outcome db1, desk_gp := gp',
      desk_misled := (if drain_sends e db1 \<and> misleads_worker outcome (gw_idempotency_key e) (desk_gp s) gp'
        then pressed_for (desk_presses s) (gw_idempotency_key e) else {}) \<union> desk_misled s\<rparr>)"
| drain_dies: "claim_next now company (desk_db s) = (Some j, db1) \<Longrightarrow> entry_of db1 j = Some e \<Longrightarrow>
    gp' = desk_gp s \<and> db' = db1 \<or>
      gp' = insert (gw_idempotency_key e) (desk_gp s) \<and> (db' = db1 \<or> db' = record_relay_result (gw_idempotency_key e) receipt db1) \<Longrightarrow>
    gp_step s (s\<lparr>desk_db := db', desk_gp := gp'\<rparr>)"
| recover: "recover_in_flight now (desk_db s) = (js, db') \<Longrightarrow> gp_step s (s\<lparr>desk_db := db'\<rparr>)"
| retry: "retry_entry now j (desk_db s) = Inr (r, db') \<Longrightarrow> gp_step s (s\<lparr>desk_db := db'\<rparr>)"
| cancel: "cancel_entry now j (desk_db s) = Inr (r, db') \<Longrightarrow> gp_step s (s\<lparr>desk_db := db'\<rparr>)"

section \<open>What ties the two together\<close>

definition under :: "db \<Rightarrow> uuid \<Rightarrow> string \<Rightarrow> bool" where
  "under db i k \<longleftrightarrow> (\<exists>d \<in> set (receive_drafts db). rd_id d = i \<and> in_flight_status (rd_status d) \<and> rd_approval_idempotency_key d = Some k)"

text \<open>The key was pressed for a draft that was not let go by hand or on a wrong no.\<close>

definition bound :: "presses \<Rightarrow> uuid set \<Rightarrow> string \<Rightarrow> uuid \<Rightarrow> bool" where
  "bound ps freed k i \<longleftrightarrow> i \<notin> freed \<and> (\<exists>po lines. ps k = Some (i, po, lines))"

definition posted_ok :: "db \<Rightarrow> presses \<Rightarrow> string set \<Rightarrow> uuid set \<Rightarrow> bool" where
  "posted_ok db ps gp freed \<longleftrightarrow> (\<forall>k \<in> gp. ps k \<noteq> None \<and> (\<forall>i. bound ps freed k i \<longrightarrow> under db i k))"

text \<open>What a row says of its key: it may be in GP, GP answered, or it is out or done.\<close>

definition told :: "db \<Rightarrow> gp_write \<Rightarrow> bool" where
  "told db e \<longleftrightarrow> gw_maybe_in_gp e \<or> gp_answer db (gw_idempotency_key e) \<noteq> None \<or> gw_status e \<in> {IN_FLIGHT, SUCCEEDED}"

definition rows_told :: "db \<Rightarrow> presses \<Rightarrow> string set \<Rightarrow> uuid set \<Rightarrow> bool" where
  "rows_told db ps gp freed \<longleftrightarrow> (\<forall>e \<in> set (gp_write_outbox db). \<forall>i. gw_idempotency_key e \<in> gp \<longrightarrow> bound ps freed (gw_idempotency_key e) i \<longrightarrow> told db e)"

definition rows_wanted :: "db \<Rightarrow> presses \<Rightarrow> uuid set \<Rightarrow> bool" where
  "rows_wanted db ps freed \<longleftrightarrow> (\<forall>e \<in> set (gp_write_outbox db). \<forall>i. unfinished e \<longrightarrow> bound ps freed (gw_idempotency_key e) i \<longrightarrow>
     under db i (gw_idempotency_key e))"

definition link_ok :: "db \<Rightarrow> receive_draft \<Rightarrow> bool" where
  "link_ok db d \<longleftrightarrow> (\<forall>j. rd_approved_outbox_entry_id d = Some j \<longrightarrow> j < next_id db \<and>
     (\<forall>e \<in> set (gp_write_outbox db). gw_id e = j \<longrightarrow> rd_approval_idempotency_key d = Some (gw_idempotency_key e)))"

definition ties :: "db \<Rightarrow> presses \<Rightarrow> string set \<Rightarrow> uuid set \<Rightarrow> bool" where
  "ties db ps gp freed \<longleftrightarrow> posted_ok db ps gp freed \<and> rows_told db ps gp freed \<and> rows_wanted db ps freed \<and>
     (\<forall>d \<in> set (receive_drafts db). link_ok db d)"

definition good :: "db \<Rightarrow> presses \<Rightarrow> string set \<Rightarrow> uuid set \<Rightarrow> bool" where
  "good db ps gp freed \<longleftrightarrow> desk_ok db ps \<and> ties db ps gp freed"

definition gp_ok :: "desk \<Rightarrow> bool" where
  "gp_ok s \<longleftrightarrow> good (desk_db s) (desk_presses s) (desk_gp s) (desk_freed s \<union> desk_misled s)"

section \<open>What keeps the ties\<close>

lemma ties_cong:
  assumes "receive_drafts b = receive_drafts a" "gp_write_outbox b = gp_write_outbox a" "gp_write_idempotency b = gp_write_idempotency a"
    and "next_id a \<le> next_id b" and "ties a ps gp freed"
  shows "ties b ps gp freed"
proof -
  have "told b = told a" "under b = under a" using assms(1-3)
    by (intro ext, simp add: told_def gp_answer_def ledger_of_def under_def)+
  moreover have "link_ok a d \<Longrightarrow> link_ok b d" for d using assms(1-4) by (force simp: link_ok_def)
  ultimately show ?thesis using assms by (simp add: ties_def posted_ok_def rows_told_def rows_wanted_def)
qed

lemma ties_books: "same_books a b \<Longrightarrow> ties a ps gp freed \<Longrightarrow> ties b ps gp freed"
  by (rule ties_cong [of b a]) (simp_all add: same_books_def)

lemma ties_freed: "ties db ps gp freed \<Longrightarrow> freed \<subseteq> freed' \<Longrightarrow> ties db ps gp freed'"
  by (fastforce simp: ties_def posted_ok_def rows_told_def rows_wanted_def bound_def)

lemma ties_insert:
  assumes "ties db ps gp freed" and "ps k \<noteq> None" and "\<And>i. bound ps freed k i \<Longrightarrow> under db i k"
    and "\<And>e i. e \<in> set (gp_write_outbox db) \<Longrightarrow> gw_idempotency_key e = k \<Longrightarrow> bound ps freed k i \<Longrightarrow> told db e"
  shows "ties db ps (insert k gp) freed"
  using assms by (auto simp: ties_def posted_ok_def rows_told_def)

lemma ties_upsert:
  assumes "ties db ps gp freed"
  shows "ties (upsert_ledger key a r db) ps gp freed"
proof -
  let ?db = "upsert_ledger key a r db"
  have "told db e \<Longrightarrow> told ?db e" for e by (auto simp: told_def gp_answer_upsert)
  moreover have "under ?db = under db" by (intro ext) (simp add: under_def)
  moreover have "link_ok ?db d = link_ok db d" for d by (simp add: link_ok_def)
  ultimately show ?thesis using assms by (auto simp: ties_def posted_ok_def rows_told_def rows_wanted_def)
qed

lemma ties_press:
  assumes ok: "desk_ok db ps" and ties: "ties db ps gp freed" and "ps key = None \<or> ps key = Some p"
  shows "ties db (ps(key \<mapsto> p)) gp freed"
proof (cases "ps key")
  case None
  then have "key \<notin> gp" using ties by (auto simp: ties_def posted_ok_def)
  moreover have "\<forall>e \<in> set (gp_write_outbox db). gw_idempotency_key e \<noteq> key" using ok None by (auto simp: desk_ok_def row_ok_def)
  ultimately show ?thesis using ties by (auto simp: ties_def posted_ok_def rows_told_def rows_wanted_def bound_def)
next
  case (Some q)
  then have "ps(key \<mapsto> p) = ps" using assms(3) by auto
  then show ?thesis using ties by simp
qed

text \<open>One draft rewritten: what it was under stays, or was never posted and no row still wants it.\<close>

lemma ties_set_draft:
  assumes keys: "distinct (map rd_id (receive_drafts db))" and ties: "ties db ps gp freed"
    and d: "d \<in> set (receive_drafts db)" "rd_id d = i" "rd_id (f d) = i"
    and held: "\<And>k. in_flight_status (rd_status d) \<Longrightarrow> rd_approval_idempotency_key d = Some k \<Longrightarrow>
      in_flight_status (rd_status (f d)) \<and> rd_approval_idempotency_key (f d) = Some k \<or>
      i \<in> freed \<or> k \<notin> gp \<and> (\<forall>e \<in> set (gp_write_outbox db). gw_idempotency_key e = k \<longrightarrow> \<not> unfinished e) \<or>
      (\<forall>j. \<not> bound ps freed k j)"
    and link: "link_ok db (f d)"
  shows "ties (set_draft i f db) ps gp freed"
proof -
  let ?db = "set_draft i f db"
  have only: "x = d" if "x \<in> set (receive_drafts db)" "rd_id x = i" for x using that d keys by (metis distinct_map inj_on_def)
  have mem: "x \<in> set (receive_drafts ?db) \<longleftrightarrow> x = f d \<or> x \<in> set (receive_drafts db) \<and> rd_id x \<noteq> i" for x
  proof -
    have "f d \<in> set (update_row rd_id i f (receive_drafts db))" using in_update_row [OF d(1), of rd_id i f] d(2) by simp
    moreover have "y \<in> set (update_row rd_id i f (receive_drafts db))" if "y \<in> set (receive_drafts db)" "rd_id y \<noteq> i" for y
      unfolding set_update_row using that by (intro CollectI exI [of _ y]) simp
    moreover have "y = f d \<or> y \<in> set (receive_drafts db) \<and> rd_id y \<noteq> i" if "y \<in> set (update_row rd_id i f (receive_drafts db))" for y
    proof -
      from that obtain r where "r \<in> set (receive_drafts db)" "y = (if rd_id r = i then f r else r)" unfolding set_update_row by blast
      then show ?thesis using only by (cases "rd_id r = i") simp_all
    qed
    ultimately show ?thesis unfolding set_draft_def by auto
  qed
  have keep: "under ?db j k" if u: "under db j k" "bound ps freed k j" and needed: "k \<in> gp \<or> (\<exists>e \<in> set (gp_write_outbox db).
      gw_idempotency_key e = k \<and> unfinished e)" for j k
  proof -
    from u(1) obtain x where x: "x \<in> set (receive_drafts db)" "rd_id x = j" "in_flight_status (rd_status x)" "rd_approval_idempotency_key x = Some k"
      by (auto simp: under_def)
    show ?thesis
    proof (cases "j = i")
      case True
      then have "x = d" using only x by blast
      then have "in_flight_status (rd_status (f d)) \<and> rd_approval_idempotency_key (f d) = Some k"
        using held [of k] x(3,4) u(2) needed True by (auto simp: bound_def)
      moreover have "f d \<in> set (receive_drafts ?db)" using mem by blast
      ultimately show ?thesis unfolding under_def using True d(3) by blast
    qed (use x in \<open>auto simp: under_def mem\<close>)
  qed
  have same: "told ?db = told db" "gp_write_outbox ?db = gp_write_outbox db" "\<And>x. link_ok ?db x = link_ok db x"
    by (auto simp: told_def gp_answer_def ledger_of_def set_draft_def link_ok_def fun_eq_iff)
  have "posted_ok ?db ps gp freed" using ties keep by (auto simp: ties_def posted_ok_def)
  moreover have "rows_wanted ?db ps freed" unfolding rows_wanted_def same(2)
  proof (intro ballI allI impI)
    fix e j
    assume e: "e \<in> set (gp_write_outbox db)" "unfinished e" "bound ps freed (gw_idempotency_key e) j"
    then have "under db j (gw_idempotency_key e)" using ties by (simp add: ties_def rows_wanted_def)
    then show "under ?db j (gw_idempotency_key e)" by (rule keep [OF _ e(3)]) (use e in blast)
  qed
  ultimately show ?thesis using ties link by (auto simp: ties_def rows_told_def same mem)
qed

lemma ties_map_entry:
  assumes ties: "ties db ps gp freed" and same: "\<And>e. e \<in> set (gp_write_outbox db) \<Longrightarrow> same_receipt (g e) e"
    and said: "\<And>e i. e \<in> set (gp_write_outbox db) \<Longrightarrow> gw_idempotency_key e \<in> gp \<Longrightarrow> bound ps freed (gw_idempotency_key e) i \<Longrightarrow> told db e \<Longrightarrow> told db (g e)"
    and wanted: "\<And>e i. e \<in> set (gp_write_outbox db) \<Longrightarrow> unfinished (g e) \<Longrightarrow> bound ps freed (gw_idempotency_key e) i \<Longrightarrow>
      unfinished e \<or> under db i (gw_idempotency_key e)"
  shows "ties (db\<lparr>gp_write_outbox := map g (gp_write_outbox db)\<rparr>) ps gp freed"
proof -
  let ?db = "db\<lparr>gp_write_outbox := map g (gp_write_outbox db)\<rparr>"
  have eqs: "under ?db = under db" "told ?db = told db"
    by (auto simp: told_def gp_answer_def ledger_of_def under_def fun_eq_iff)
  have "link_ok ?db d" if "link_ok db d" for d using that same by (auto simp: link_ok_def same_receipt_def)
  moreover have "posted_ok ?db ps gp freed" using ties by (simp add: ties_def posted_ok_def eqs)
  moreover have "rows_told ?db ps gp freed" using ties same said by (auto simp: ties_def rows_told_def eqs same_receipt_def)
  moreover have "rows_wanted ?db ps freed" unfolding rows_wanted_def
  proof (intro ballI allI impI)
    fix x i
    assume x: "x \<in> set (gp_write_outbox ?db)" "unfinished x" "bound ps freed (gw_idempotency_key x) i"
    then obtain e where e: "e \<in> set (gp_write_outbox db)" "x = g e" by auto
    have key: "gw_idempotency_key x = gw_idempotency_key e" using same [OF e(1)] e(2) by (simp add: same_receipt_def)
    have "unfinished e \<or> under db i (gw_idempotency_key e)" using wanted [OF e(1), of i] x e(2) key by simp
    then show "under ?db i (gw_idempotency_key x)" using ties x(3) e(1) key by (auto simp: ties_def rows_wanted_def eqs)
  qed
  ultimately show ?thesis using ties by (simp add: ties_def)
qed

lemma ties_add_entry:
  assumes ties: "ties db ps gp freed" and e: "gw_id e = next_id db"
    and said: "\<And>i. gw_idempotency_key e \<in> gp \<Longrightarrow> bound ps freed (gw_idempotency_key e) i \<Longrightarrow> told db e"
    and wanted: "\<And>i. bound ps freed (gw_idempotency_key e) i \<Longrightarrow> under db i (gw_idempotency_key e)"
  shows "ties (db\<lparr>next_id := Suc (next_id db), gp_write_outbox := gp_write_outbox db @ [e]\<rparr>) ps gp freed"
proof -
  let ?db = "db\<lparr>next_id := Suc (next_id db), gp_write_outbox := gp_write_outbox db @ [e]\<rparr>"
  have eqs: "under ?db = under db" "told ?db = told db"
    by (auto simp: told_def gp_answer_def ledger_of_def under_def fun_eq_iff)
  have "link_ok ?db d" if "link_ok db d" for d using that e by (force simp: link_ok_def)
  then show ?thesis using ties said wanted by (auto simp: ties_def posted_ok_def rows_told_def rows_wanted_def eqs)
qed

section \<open>The operations on a count\<close>

lemma good_parts: "good db ps gp freed \<Longrightarrow> desk_ok db ps" "good db ps gp freed \<Longrightarrow> ties db ps gp freed"
  "good db ps gp freed \<Longrightarrow> distinct (map rd_id (receive_drafts db))"
  by (simp_all add: good_def desk_ok_def keys_ok_def)

lemma good_draft: "good db ps gp freed \<Longrightarrow> d \<in> set (receive_drafts db) \<Longrightarrow> draft_ok db d \<and> hold_ok db ps d \<and> link_ok db d"
  by (simp add: good_def desk_ok_def ties_def)

lemma good_books: "same_books a b \<Longrightarrow> good a ps gp freed \<Longrightarrow> good b ps gp freed"
  using desk_ok_books ties_books by (simp add: good_def)

lemma good_upsert: "good db ps gp freed \<Longrightarrow> good (upsert_ledger key a r db) ps gp freed"
  by (simp add: good_def desk_upsert ties_upsert)

lemma unlinked [simp]: "rd_approved_outbox_entry_id d = None \<Longrightarrow> link_ok db d"
  by (simp add: link_ok_def)

lemma desk_ok_more: "desk_ok db ps \<Longrightarrow> ps \<subseteq>\<^sub>m ps' \<Longrightarrow> desk_ok db ps'"
  using hold_ok_mono row_ok_mono unfolding desk_ok_def by blast

lemma create_draft_good:
  assumes good: "good db ps gp freed" and run: "create_receive_draft now po lines user name w key doc notes db = Inr (i, db')"
  shows "good db' ps gp freed"
  using run
proof (cases rule: create_draft_Inr)
  case 1
  then show ?thesis using good by simp
next
  case (2 d)
  let ?db = "db\<lparr>next_id := Suc (next_id db), receive_drafts := receive_drafts db @ [d]\<rparr>"
  have "told ?db = told db" "link_ok db x \<Longrightarrow> link_ok ?db x" for x
    by (auto simp: told_def gp_answer_def ledger_of_def link_ok_def fun_eq_iff)
  moreover have "under db j k \<Longrightarrow> under ?db j k" for j k by (auto simp: under_def)
  ultimately have "ties ?db ps gp freed" using good 2(4)
    by (auto simp: good_def ties_def posted_ok_def rows_told_def rows_wanted_def)
  then show ?thesis using ties_books [OF 2(6)] create_receive_draft_desk [OF good_parts(1) [OF good] run] by (simp add: good_def)
qed

lemma reworked_good:
  assumes good: "good db ps gp freed" and "reworked i db db'"
  shows "good db' ps gp freed"
proof -
  from assms(2) obtain d f where d: "d \<in> set (receive_drafts db)" "rd_id d = i" "rd_id (f d) = i" "unclaimed d" "unclaimed (f d)" "draft_ok db (f d)"
    and books: "same_books (set_draft i f db) db'"
    by (auto simp: reworked_def)
  have "rd_approved_outbox_entry_id (f d) = None" using d(5,6) by (auto simp: draft_ok_def unclaimed_def)
  then have "ties (set_draft i f db) ps gp freed"
    using d by (intro ties_set_draft [of db ps gp freed d i f, OF good_parts(3,2) [OF good] d(1-3)]) (simp_all add: unclaimed_facts)
  then show ?thesis using ties_books [OF books] reworked_desk [OF good_parts(1) [OF good] assms(2)] by (simp add: good_def)
qed

lemma delete_draft_good:
  assumes good: "good db ps gp freed" and run: "delete_receive_draft i actor m db = Inr (slip, db')"
  shows "good db' ps gp freed"
proof -
  let ?db = "db\<lparr>receive_drafts := delete_rows (\<lambda>d. rd_id d = i) (receive_drafts db)\<rparr>"
  note gone = delete_draft_Inr [OF good_parts(1) [OF good] run]
  have "told ?db = told db" "link_ok ?db x = link_ok db x" for x
    by (auto simp: told_def gp_answer_def ledger_of_def link_ok_def fun_eq_iff)
  moreover have "under db j k \<Longrightarrow> under ?db j k" for j k using gone(1) by (auto simp: under_def set_delete_rows)
  ultimately have "ties ?db ps gp freed" using good
    by (auto simp: good_def ties_def posted_ok_def rows_told_def rows_wanted_def set_delete_rows)
  then show ?thesis using ties_books [OF gone(2)] delete_receive_draft_desk [OF good_parts(1) [OF good] run] by (simp add: good_def)
qed

section \<open>The claim and its release\<close>

lemma claim_good:
  assumes good: "good db ps gp freed" and run: "claim_for_approval now i user name key exp db = Inr (ctx, db')"
    and press: "ps key = None \<or> ps key = Some (context_press ctx)"
  shows "good db' (ps(key \<mapsto> context_press ctx)) gp freed"
    and "\<not> ac_resumed ctx \<Longrightarrow> ac_draft_id ctx \<notin> freed \<Longrightarrow> key \<notin> gp"
proof -
  note ok = good_parts(1) [OF good]
  let ?ps = "ps(key \<mapsto> context_press ctx)"
  have ties: "ties db ?ps gp freed" using ties_press [OF ok good_parts(2) [OF good] press] .
  have "ties db' ?ps gp freed \<and> (\<not> ac_resumed ctx \<longrightarrow> ac_draft_id ctx \<notin> freed \<longrightarrow> key \<notin> gp)"
    using ok run
  proof (cases rule: claim_Inr)
    case (1 d)
    have "rd_approved_outbox_entry_id d = None" using good_draft [OF good 1(1)] 1(4) by (simp add: draft_ok_def)
    then have "ties db' ?ps gp freed" unfolding 1(7) using 1
      by (intro ties_set_draft [OF good_parts(3) [OF good] ties 1(1,2)]) (simp_all add: claimed_draft_def in_flight_status_def)
    moreover have "key \<notin> gp" if "i \<notin> freed"
    proof
      assume gp: "key \<in> gp"
      then have "ps key \<noteq> None" "\<forall>j. bound ps freed key j \<longrightarrow> under db j key" using good by (auto simp: good_def ties_def posted_ok_def)
      then have "under db i key" using press that 1 by (auto simp: bound_def press_of_def)
      then obtain x where "x \<in> set (receive_drafts db)" "rd_id x = i" "in_flight_status (rd_status x)" by (auto simp: under_def)
      then show False using desk_find [OF ok, of i] 1 by (metis in_flight_status_def empty_iff insert_iff option.inject receive_draft_status.distinct(1,3))
    qed
    ultimately show ?thesis using 1 by simp
  next
    case (2 d)
    have "link_ok db d" using good_draft [OF good 2(1)] by simp
    then have "ties db' ?ps gp freed" unfolding 2(6) using 2
      by (intro ties_set_draft [OF good_parts(3) [OF good] ties 2(1,2)]) (simp_all add: link_ok_def)
    then show ?thesis using 2 by simp
  qed
  then show "good db' ?ps gp freed" and "\<not> ac_resumed ctx \<Longrightarrow> ac_draft_id ctx \<notin> freed \<Longrightarrow> key \<notin> gp"
    using claim_desk [OF ok run press] by (simp_all add: good_def)
qed

lemma release_claim_good:
  assumes good: "good db ps gp freed" and unposted: "i \<notin> freed \<Longrightarrow> key \<notin> gp"
  shows "good (release_approval_claim i key db) ps gp freed"
proof (cases "i \<in> rd_id ` set (receive_drafts db)")
  case True
  then obtain d where d: "d \<in> set (receive_drafts db)" "rd_id d = i" by blast
  note fine = good_draft [OF good d(1)]
  have idle: "\<not> unfinished e" if "rd_status d = APPROVING" "rd_approval_idempotency_key d = Some key" "e \<in> set (gp_write_outbox db)"
    "gw_idempotency_key e = key" for e
    using fine that by (simp add: hold_ok_key draft_ok_def waits_def in_flight_status_def)
  have "ties (release_approval_claim i key db) ps gp freed" unfolding release_approval_claim_def
  proof (rule ties_set_draft [OF good_parts(3,2) [OF good] d])
    let ?f = "\<lambda>d. if rd_status d = APPROVING \<and> rd_approval_idempotency_key d = Some key
       then d\<lparr>rd_status := PENDING_APPROVAL, rd_approval_idempotency_key := None\<rparr> else d"
    show "link_ok db (?f d)" using fine by (simp add: draft_ok_def)
  qed (use d unposted idle in auto)
  then show ?thesis using release_approval_claim_desk [OF good_parts(1) [OF good]] by (simp add: good_def)
next
  case False
  then show ?thesis using good by (simp add: release_approval_claim_def desk_set_none)
qed

lemma release_held_good:
  assumes good: "good db ps gp freed" and run: "release_held_approval now i manager db = Inr db'"
  shows "good db' ps gp (insert i freed)"
  using good_parts(1) [OF good] run
proof (cases rule: release_held_Inr)
  case (1 d why)
  have "ties db ps gp (insert i freed)" by (rule ties_freed [OF good_parts(2) [OF good]]) blast
  then have "ties db' ps gp (insert i freed)" unfolding 1(4)
    using 1 by (intro ties_set_draft [OF good_parts(3) [OF good] _ 1(1,2)]) simp_all
  then show ?thesis using release_held_desk [OF good_parts(1) [OF good] run] by (simp add: good_def)
qed

section \<open>An approval\<close>

lemma receipt_told: "told db (receipt_entry i now key company ctx w p maybe) \<longleftrightarrow> maybe \<or> gp_answer db key \<noteq> None"
  by (simp add: told_def)

lemma book_good:
  assumes good: "good db ps gp freed" and press: "ps key = Some (i, po, lines)"
    and run: "persist_create_receive now key (Some i) po who lines w receipt db = Inr (r, db')"
  shows "good db' ps gp freed"
proof -
  from run obtain remark db1 where held: "approval_still_held db i key"
    and booked: "create_receive now po who lines w receipt remark db = Inr (r, db1)"
    and db': "db' = upsert_ledger key (Some receipt) (Some (BOOKED_AS r)) (mark_approved now i (Some r) None db1)"
    unfolding persist_create_receive_def stamp_result_id_def by (auto simp: bindr_eq_Inr ensure_eq_Inr Let_def)
  from booked have same: "receive_drafts db1 = receive_drafts db \<and> gp_write_outbox db1 = gp_write_outbox db \<and>
      gp_write_idempotency db1 = gp_write_idempotency db \<and> next_id db \<le> next_id db1"
    by (rule create_receive_Inr) simp
  then have ties: "ties db1 ps gp freed" using ties_cong [OF _ _ _ _ good_parts(2) [OF good], of db1] by simp
  from held obtain d where d: "d \<in> set (receive_drafts db1)" "rd_id d = i" "waits d" 
    using still_held [OF good_parts(1) [OF good]] same by auto
  have "link_ok db1 d" using ties d(1) by (simp add: ties_def)
  then have "ties (set_draft i (approved_as now (Some r) None) db1) ps gp freed"
    using good_parts(3) [OF good] same d by (intro ties_set_draft [OF _ ties d(1,2)]) (simp_all add: link_ok_def in_flight_status_def)
  then have "ties db' ps gp freed" unfolding db' mark_approved_set by (rule ties_upsert)
  then show ?thesis using book_desk [OF good_parts(1) [OF good] press run] by (simp add: good_def)
qed

text \<open>A claim that is held, with no row under its key yet.\<close>

definition claimed :: "db \<Rightarrow> presses \<Rightarrow> string \<Rightarrow> approval_context \<Rightarrow> bool" where
  "claimed db ps key ctx \<longleftrightarrow> ps key = Some (context_press ctx) \<and>
     (\<exists>d \<in> set (receive_drafts db). rd_id d = ac_draft_id ctx \<and> waits d \<and> rd_status d = APPROVING \<and> rd_approval_idempotency_key d = Some key)"

lemma claimed_facts:
  assumes good: "good db ps gp freed" and claimed: "claimed db ps key ctx"
  shows "approval_still_held db (ac_draft_id ctx) key" and "entry_for_key db key = None" and "under db (ac_draft_id ctx) key"
    and "bound ps freed key j \<Longrightarrow> j = ac_draft_id ctx \<and> ac_draft_id ctx \<notin> freed"
proof -
  from claimed obtain d where d: "d \<in> set (receive_drafts db)" "rd_id d = ac_draft_id ctx" "waits d" "rd_status d = APPROVING"
    "rd_approval_idempotency_key d = Some key" and press: "ps key = Some (context_press ctx)" by (auto simp: claimed_def)
  show "approval_still_held db (ac_draft_id ctx) key" using d still_held [OF good_parts(1) [OF good]] by blast
  show "entry_for_key db key = None" using good_draft [OF good d(1)] d by (simp add: entry_for_key_None hold_ok_key)
  show "under db (ac_draft_id ctx) key" using d by (auto simp: under_def waits_def)
  show "bound ps freed key j \<Longrightarrow> j = ac_draft_id ctx \<and> ac_draft_id ctx \<notin> freed"
    using press by (auto simp: bound_def context_press_def)
qed

lemma claimed_upsert: "claimed (upsert_ledger k a r db) ps key ctx = claimed db ps key ctx"
  by (simp add: claimed_def)

lemma post_good:
  assumes good: "good db ps gp freed" and claimed: "claimed db ps key ctx"
  shows "good db ps (insert key gp) freed"
proof -
  note facts = claimed_facts [OF good claimed]
  have "ps key \<noteq> None" using claimed by (simp add: claimed_def)
  then have "ties db ps (insert key gp) freed"
    using facts by (intro ties_insert [OF good_parts(2) [OF good]]) (auto simp: entry_for_key_None)
  then show ?thesis using good by (simp add: good_def)
qed

lemma queue_good:
  assumes good: "good db ps gp freed" and claimed: "claimed db ps key ctx"
    and said: "ac_draft_id ctx \<notin> freed \<Longrightarrow> key \<in> gp \<Longrightarrow> maybe"
    and run: "queue_receipt_for_draft now key company ctx w maybe db = (a, db')"
  shows "good db' ps gp freed"
proof -
  note facts = claimed_facts [OF good claimed]
  from claimed obtain d where d: "d \<in> set (receive_drafts db)" "rd_id d = ac_draft_id ctx"
    "rd_approval_idempotency_key d = Some key" and press: "ps key = Some (context_press ctx)" by (auto simp: claimed_def)
  let ?e = "receipt_entry (next_id db) now key company ctx w (Option.bind (po_of db (ac_po_id ctx)) po_project_id) maybe"
  let ?db = "db\<lparr>next_id := Suc (next_id db), gp_write_outbox := gp_write_outbox db @ [?e]\<rparr>"
  have db': "db' = mark_approved now (ac_draft_id ctx) None (Some (next_id db)) ?db"
    using run facts(1) by (simp add: queue_receipt_for_draft_def enqueue_new [OF facts(2)] Let_def)
  have ties: "ties ?db ps gp freed"
    using facts(3,4) said by (intro ties_add_entry [OF good_parts(2) [OF good]]) (auto simp: receipt_told)
  have "gw_id e < next_id db" if "e \<in> set (gp_write_outbox db)" for e
    using good that by (simp add: good_def desk_ok_def keys_ok_def ids_below_def)
  then have "link_ok ?db (approved_as now None (Some (next_id db)) d)" using d(3) by (force simp: link_ok_def)
  then have "ties db' ps gp freed" unfolding db' mark_approved_set
    using good_parts(3) [OF good] d by (intro ties_set_draft [OF _ ties, of d]) (simp_all add: in_flight_status_def)
  moreover have "desk_ok db' ps" unfolding db'
    using queue_desk [OF good_parts(1) [OF good] press facts(1) enqueue_new [OF facts(2)]] .
  ultimately show ?thesis by (simp add: good_def)
qed

lemma book_approval_good:
  assumes good: "good db ps gp freed" and claimed: "claimed db ps key ctx"
    and run: "book_approval now key company ctx w receipt db = (a, db')"
  shows "good db' ps gp freed"
proof (cases "persist_create_receive now key (Some (ac_draft_id ctx)) (ac_po_id ctx) (ac_author_name ctx) (ac_line_items ctx)
    (ac_warehouse_id ctx) receipt db")
  case (Inl e)
  then show ?thesis using run claimed_facts(1) [OF good claimed] good by (simp add: book_approval_def)
next
  case (Inr x)
  obtain r db1 where x: "x = (r, db1)" by fastforce
  have "ps key = Some (ac_draft_id ctx, ac_po_id ctx, ac_line_items ctx)" using claimed by (simp add: claimed_def context_press_def)
  then have "good db1 ps gp freed" using book_good [OF good] Inr x by blast
  then show ?thesis using run Inr x by (simp add: book_approval_def)
qed

lemma send_good:
  assumes good: "good db ps gp freed" and claimed: "claimed db ps key ctx"
    and fresh: "\<not> ac_resumed ctx \<Longrightarrow> ac_draft_id ctx \<notin> freed \<Longrightarrow> key \<notin> gp"
    and honest: "feature \<Longrightarrow> \<not> wrong_no outcome key gp'"
    and relay: "if feature then relay_answers outcome key gp gp' else gp' = gp"
    and run: "send_receipt now key company ctx w feature outcome db = (a, db')"
  shows "good db' ps gp' freed"
proof (cases feature)
  case False
  then have "queue_receipt_for_draft now key company ctx (Some w) (ac_resumed ctx) db = (a, db')" "gp' = gp"
    using run relay by (simp_all add: send_receipt_def Let_def)
  then show ?thesis using queue_good [OF good claimed] fresh by blast
next
  case True
  then have relay: "relay_answers outcome key gp gp'" using relay by simp
  have good': "gp' = insert key gp \<Longrightarrow> good db ps gp' freed" using post_good [OF good claimed] by simp
  show ?thesis
  proof (cases outcome)
    case (POSTED receipt)
    then have gp': "gp' = insert key gp" using relay by simp
    have "good (record_relay_result key receipt db) ps gp' freed" unfolding record_relay_result_def by (rule good_upsert [OF good' [OF gp']])
    moreover have "claimed (record_relay_result key receipt db) ps key ctx" using claimed by (simp add: record_relay_result_def claimed_upsert)
    ultimately show ?thesis using run True POSTED book_approval_good by (simp add: send_receipt_def Let_def)
  next
    case (RELAY_REFUSED code message)
    show ?thesis
    proof (cases "may_have_committed code")
      case True
      then show ?thesis using run \<open>feature\<close> RELAY_REFUSED relay good good' by (auto simp: send_receipt_def Let_def)
    next
      case False
      then have same: "gp' = gp" "key \<notin> gp" using relay honest [OF \<open>feature\<close>] RELAY_REFUSED by auto
      then have "good (release_approval_claim (ac_draft_id ctx) key db) ps gp freed" by (intro release_claim_good [OF good])
      then show ?thesis using run \<open>feature\<close> RELAY_REFUSED False same(1) by (simp add: send_receipt_def Let_def)
    qed
  next
    case (RELAY_TOO_OLD message)
    then have same: "gp' = gp" using relay by simp
    show ?thesis
    proof (cases "ac_resumed ctx")
      case True
      then show ?thesis using run \<open>feature\<close> RELAY_TOO_OLD same good by (simp add: send_receipt_def Let_def)
    next
      case False
      then have "good (release_approval_claim (ac_draft_id ctx) key db) ps gp freed" using fresh by (intro release_claim_good [OF good])
      then show ?thesis using run \<open>feature\<close> RELAY_TOO_OLD False same by (simp add: send_receipt_def Let_def)
    qed
  next
    case (RELAY_TIMED_OUT message)
    then have "good db ps gp' freed" using relay good good' by auto
    moreover have "queue_receipt_for_draft now key company ctx (Some w) True db = (a, db')"
      using run True RELAY_TIMED_OUT by (simp add: send_receipt_def Let_def)
    ultimately show ?thesis using queue_good [OF _ claimed] by blast
  next
    case (RELAY_UNAVAILABLE dispatched message)
    then have now_good: "good db ps gp' freed" using relay good good' by auto
    have said: "dispatched \<or> ac_resumed ctx" if "ac_draft_id ctx \<notin> freed" "key \<in> gp'"
      using relay fresh that RELAY_UNAVAILABLE by auto
    have "queue_receipt_for_draft now key company ctx (Some w) (dispatched \<or> ac_resumed ctx) db = (a, db')"
      using run True RELAY_UNAVAILABLE by (simp add: send_receipt_def Let_def)
    from queue_good [OF now_good claimed said this] show ?thesis .
  qed
qed

lemma approve_good:
  assumes good: "good db ps gp freed" and claimed: "claimed db ps key ctx"
    and fresh: "\<not> ac_resumed ctx \<Longrightarrow> ac_draft_id ctx \<notin> freed \<Longrightarrow> key \<notin> gp"
    and honest: "approval_sends key ctx feature db \<Longrightarrow> \<not> wrong_no outcome key gp'"
    and relay: "if approval_sends key ctx feature db then relay_answers outcome key gp gp' else gp' = gp"
    and run: "approve_claimed now key ctx feature outcome db = (a, db')"
  shows "good db' ps gp' freed"
proof (cases "if ac_resumed ctx then gp_answer db key else None")
  case (Some receipt)
  then have "gp' = gp" using relay by (auto simp: approval_sends_def split: if_splits)
  then show ?thesis using run Some book_approval_good [OF good claimed] by (simp add: approve_claimed_def)
next
  case None
  then have unanswered: "ac_resumed ctx \<longrightarrow> gp_answer db key = None" by (simp split: if_splits)
  show ?thesis
  proof (cases "prepare_create_receive db (ac_po_id ctx) (ac_author_name ctx) (ac_line_items ctx) (ac_warehouse_id ctx)")
    case (Inl e)
    then have "gp' = gp" using relay by (simp add: approval_sends_def raised_def)
    then show ?thesis using run None Inl good fresh release_claim_good [OF good]
      by (auto simp: approve_claimed_def split: if_splits)
  next
    case (Inr x)
    obtain gpc w where x: "x = (gpc, w)" by fastforce
    have "if feature then relay_answers outcome key gp gp' else gp' = gp"
      using relay unanswered Inr by (auto simp: approval_sends_def raised_def)
    moreover have "send_receipt now key gpc ctx w feature outcome db = (a, db')"
      using run None Inr x by (simp add: approve_claimed_def)
    moreover have "feature \<Longrightarrow> \<not> wrong_no outcome key gp'" using honest unanswered Inr by (simp add: approval_sends_def raised_def)
    ultimately show ?thesis by (intro send_good [OF good claimed fresh])
  qed
qed

text \<open>After a wrong no the draft counts as let go, and GP as if it did not hold the key.\<close>

lemma good_fewer:
  assumes good: "good db ps gp freed" and gp: "gp0 \<subseteq> gp" and freed: "freed \<subseteq> freed'"
  shows "good db ps gp0 freed'"
proof -
  have ties: "ties db ps gp freed'" using ties_freed [OF good_parts(2) [OF good] freed] .
  then have "posted_ok db ps gp0 freed'" "rows_told db ps gp0 freed'" using gp by (auto simp: ties_def posted_ok_def rows_told_def)
  then show ?thesis using good ties by (simp add: good_def ties_def)
qed

lemma good_let_go:
  assumes "good db ps gp freed" and "ps key = Some (i, po, lines)" and "i \<in> freed"
  shows "good db ps (insert key gp) freed"
  using assms by (auto simp: good_def bound_def intro!: ties_insert)

lemma wrong_no_answers: "wrong_no outcome key gp' \<Longrightarrow> relay_answers outcome key gp gp \<and> (key \<notin> gp \<longrightarrow> \<not> wrong_no outcome key gp)"
  by (cases outcome) simp_all

lemma misled_good:
  assumes good: "good db ps gp freed" and claimed: "claimed db ps key ctx"
    and sends: "approval_sends key ctx feature db" and wrong: "wrong_no outcome key gp'" and relay: "relay_answers outcome key gp gp'"
    and run: "approve_claimed now key ctx feature outcome db = (a, db')"
  shows "good db' ps gp' (insert (ac_draft_id ctx) freed)"
proof -
  let ?gp = "gp' - {key}" and ?freed = "insert (ac_draft_id ctx) freed"
  have key: "gp' = insert key ?gp" and sub: "?gp \<subseteq> gp" using wrong relay by (cases outcome; auto)+
  have "good db ps ?gp ?freed" using good_fewer [OF good sub] by blast
  then have "good db' ps ?gp ?freed"
    using approve_good [OF _ claimed _ _ _ run, of ?gp ?freed ?gp] wrong_no_answers [OF wrong, of ?gp] sends by simp
  moreover obtain po lines where "ps key = Some (ac_draft_id ctx, po, lines)" using claimed by (auto simp: claimed_def context_press_def)
  ultimately have "good db' ps (insert key ?gp) ?freed" using good_let_go by blast
  then show ?thesis using key by simp
qed

lemma claim_claimed:
  assumes ok: "desk_ok db ps" and run: "claim_for_approval now i user name key exp db = Inr (ctx, db')"
  shows "claimed db' (ps(key \<mapsto> context_press ctx)) key ctx"
proof -
  from claim_waits [OF ok run] obtain d where "d \<in> set (receive_drafts db')" "press_of d = context_press ctx" "waits d"
    "rd_approval_idempotency_key d = Some key" "rd_status d = APPROVING" by metis
  then show ?thesis by (auto simp: claimed_def press_of_def context_press_def)
qed

end
