(* ===== verification/OneReceipt.thy ===== *)
theory OneReceipt
  imports GpTies
begin

text \<open>
  The queue and its worker keep those ties: GP takes one receipt for a count.
\<close>

section \<open>The queue\<close>

lemma stamped_row [simp]: "told db (e\<lparr>gw_updated_at := t\<rparr>) = told db e" "unfinished (e\<lparr>gw_updated_at := t\<rparr>) = unfinished e"
  by (simp_all add: told_def unfinished_def)

definition row_unposted :: "presses \<Rightarrow> string set \<Rightarrow> uuid set \<Rightarrow> gp_write \<Rightarrow> bool" where
  "row_unposted ps gp freed e \<longleftrightarrow> (\<forall>i. gw_idempotency_key e \<in> gp \<longrightarrow> \<not> bound ps freed (gw_idempotency_key e) i)"

lemma good_row:
  assumes good: "good db ps gp freed" and e: "entry_of db j = Some e"
  shows "e \<in> set (gp_write_outbox db)" and "gw_id e = j" and "told db e \<or> row_unposted ps gp freed e"
    and "x \<in> set (gp_write_outbox db) \<Longrightarrow> gw_id x = j \<Longrightarrow> x = e"
    and "x \<in> set (gp_write_outbox db) \<Longrightarrow> gw_idempotency_key x = gw_idempotency_key e \<Longrightarrow> x = e"
proof -
  show mem: "e \<in> set (gp_write_outbox db)" and id: "gw_id e = j" using desk_entry [OF good_parts(1) [OF good]] e by auto
  show "told db e \<or> row_unposted ps gp freed e" using good mem by (auto simp: good_def ties_def rows_told_def row_unposted_def)
  have "distinct (map gw_id (gp_write_outbox db))" "distinct (map gw_idempotency_key (gp_write_outbox db))"
    using good by (simp_all add: good_def desk_ok_def keys_ok_def)
  then show "x \<in> set (gp_write_outbox db) \<Longrightarrow> gw_id x = j \<Longrightarrow> x = e"
    "x \<in> set (gp_write_outbox db) \<Longrightarrow> gw_idempotency_key x = gw_idempotency_key e \<Longrightarrow> x = e"
    using mem id by (metis distinct_map inj_on_def)+
qed

lemma set_entry_ties:
  assumes good: "good db ps gp freed" and e: "entry_of db j = Some e" and same: "\<And>x. same_receipt (f x) x"
    and said: "told db (f e) \<or> row_unposted ps gp freed e"
    and wanted: "\<And>i. unfinished (f e) \<Longrightarrow> bound ps freed (gw_idempotency_key e) i \<Longrightarrow> unfinished e \<or> under db i (gw_idempotency_key e)"
  shows "ties (set_entry now j f db) ps gp freed"
  unfolding set_entry_def update_row_def
  using same said wanted good_row(4) [OF good e]
  by (intro ties_map_entry [OF good_parts(2) [OF good]]) (auto simp: row_unposted_def same_receipt_def split: if_splits)

text \<open>A row that ends and may hand its draft back has no receipt in GP.\<close>

lemma end_entry_good:
  assumes good: "good db ps gp freed" and e: "entry_of db j = Some e" and same: "\<And>x. same_receipt (f x) x"
    and ended: "\<not> unfinished (f e)" and said: "told db (f e) \<or> row_unposted ps gp freed e"
    and dead: "outbox_entry_never_reached_gp db (f e) \<Longrightarrow> row_unposted ps gp freed e"
    and run: "release_after now j (set_entry now j f db) = Inr db'"
  shows "good db' ps gp freed"
proof -
  let ?db1 = "set_entry now j f db" and ?key = "gw_idempotency_key e"
  have ties: "ties ?db1 ps gp freed" using ended by (intro set_entry_ties [OF good e same said]) simp
  let ?e1 = "if f e = e then e else (f e)\<lparr>gw_updated_at := now\<rparr>"
  have e1: "entry_of ?db1 j = Some ?e1" using entry_of_set [OF same, of now j db j] e by simp
  have key: "gw_idempotency_key ?e1 = ?key" "gw_id ?e1 = j" using same [of e] good_row(2) [OF good e] by (auto simp: same_receipt_def)
  have mem1: "?e1 \<in> set (gp_write_outbox ?db1)" using find_row_Some e1 by (fastforce simp: entry_of_def)
  have never: "outbox_entry_never_reached_gp ?db1 ?e1 = outbox_entry_never_reached_gp db (f e)"
    using never_reached_cong [of ?db1 db] by (auto simp: stamped_entry set_entry_def)
  have rows: "\<not> unfinished x" if x: "x \<in> set (gp_write_outbox ?db1)" "gw_idempotency_key x = ?key" for x
  proof -
    from x(1) obtain y where y: "y \<in> set (gp_write_outbox db)" "x = (if gw_id y = j then (if f y = y then y else (f y)\<lparr>gw_updated_at := now\<rparr>) else y)"
      by (auto simp: set_entry_def update_row_def)
    then have "gw_idempotency_key y = ?key" using x(2) same [of y] by (auto simp: same_receipt_def split: if_splits)
    then have "y = e" using good_row(5) [OF good e y(1)] by simp
    then show ?thesis using y(2) ended good_row(2) [OF good e] by (auto split: if_splits)
  qed
  have drafts: "receive_drafts ?db1 = receive_drafts db" by (simp add: set_entry_def)
  have "ties db' ps gp freed"
  proof (cases "outbox_entry_never_reached_gp ?db1 ?e1")
    case False
    then show ?thesis using release_draft_books [of now ?e1 ?db1 db'] run e1 ties by (simp add: release_after_def)
  next
    case True
    note free = dead [OF True [unfolded never]]
    have run1: "release_draft_for_outbox_entry now ?e1 ?db1 = Inr db'" using run e1 by (simp add: release_after_def)
    show ?thesis
    proof (cases "List.find (\<lambda>d. rd_approved_outbox_entry_id d = Some (gw_id ?e1) \<and> rd_status d = DRAFT_APPROVED \<and>
          rd_receive_record_id d = None) (receive_drafts ?db1)")
      case None
      then show ?thesis using release_draft_books [OF run1] True ties by simp
    next
      case (Some d)
      then have d: "d \<in> set (receive_drafts ?db1)" "rd_approved_outbox_entry_id d = Some j" using key(2) by (auto simp: find_Some_iff)
      have books: "same_books (set_draft (rd_id d) (back_for_review now (why_back ?e1)) ?db1) db'"
        using release_draft_books [OF run1] True Some by simp
      have "rd_approval_idempotency_key d = Some ?key" using ties d mem1 key by (auto simp: ties_def link_ok_def)
      then have "ties (set_draft (rd_id d) (back_for_review now (why_back ?e1)) ?db1) ps gp freed"
        using rows free good_parts(3) [OF good] d(1) drafts
        by (intro ties_set_draft [OF _ ties d(1)]) (auto simp: row_unposted_def)
      then show ?thesis using ties_books [OF books] by simp
    qed
  qed
  then show ?thesis using end_entry_desk [OF good_parts(1) [OF good] same run] by (simp add: good_def)
qed

lemma mark_failed_good:
  assumes good: "good db ps gp freed" and e: "entry_of db j = Some e"
    and said: "gw_maybe_in_gp e \<or> maybe \<or> gp_answer db (gw_idempotency_key e) \<noteq> None \<or> row_unposted ps gp freed e"
    and refused: "kind = ''gp_rejected'' \<Longrightarrow> row_unposted ps gp freed e"
    and run: "mark_failed now j kind error maybe db = Inr db'"
  shows "good db' ps gp freed"
  using run unfolding mark_failed_def
  by (rule end_entry_good [OF good e, rotated -1])
    (use said refused in \<open>auto simp: same_receipt_def failed_entry_def unfinished_def told_def outbox_entry_never_reached_gp_def
      refused_after_its_key_was_looked_up_def\<close>)

lemma finished_good:
  assumes "good db ps gp freed"
    and "\<And>e db'. entry_of db j = Some e \<Longrightarrow> gw_status e = from \<Longrightarrow> action db = Inr db' \<Longrightarrow> good db' ps gp freed"
  shows "good (snd (finished j from action db)) ps gp freed"
  using assms by (auto simp: finished_def finish_def bindr_def split: option.split sum.split)

lemma notify_failure_good: "good db ps gp freed \<Longrightarrow> good (notify_failure now j db) ps gp freed"
  by (rule good_books [OF notify_failure_books])

lemma mark_retry_good:
  assumes good: "good db ps gp freed" and e: "entry_of db j = Some e" "gw_status e = IN_FLIGHT"
    and said: "gw_maybe_in_gp e \<or> maybe \<or> gp_answer db (gw_idempotency_key e) \<noteq> None \<or> row_unposted ps gp freed e"
  shows "good (mark_retry now jitter j error bump r maybe db) ps gp freed"
proof -
  have "ties (mark_retry now jitter j error bump r maybe db) ps gp freed" unfolding mark_retry_def Let_def
    by (rule set_entry_ties [OF good e(1)]) (use said e(2) in \<open>auto simp: same_receipt_def told_def unfinished_def\<close>)
  then show ?thesis using mark_retry_desk [OF good_parts(1) [OF good]] by (simp add: good_def)
qed

lemma exhausted_good:
  assumes good: "good db ps gp freed"
  shows "good (fail_if_exhausted now j db) ps gp freed"
proof (cases "entry_of db j")
  case (Some e)
  let ?act = "mark_failed now j ''exhausted''
    (if blank (gw_last_error e) then ''retry budget exhausted'' else sent_text (gw_last_error e)) False"
  have "good (snd (finished j QUEUED ?act db)) ps gp freed"
  proof (rule finished_good [OF good])
    fix x db'
    assume x: "entry_of db j = Some x" "gw_status x = QUEUED" and run: "?act db = Inr db'"
    show "good db' ps gp freed"
      by (rule mark_failed_good [OF good x(1) _ _ run]) (use good_row(3) [OF good x(1)] x(2) in \<open>auto simp: told_def\<close>)
  qed
  then show ?thesis using Some good notify_failure_good by (auto simp: fail_if_exhausted_def Let_def split: prod.split)
qed (use good in \<open>simp add: fail_if_exhausted_def\<close>)

lemma retry_counted_good:
  assumes good: "good db ps gp freed" and e: "entry_of db j = Some e"
    and said: "gw_maybe_in_gp e \<or> maybe \<or> gp_answer db (gw_idempotency_key e) \<noteq> None \<or> row_unposted ps gp freed e"
  shows "good (retry_counted now jitter j error r maybe db) ps gp freed"
  unfolding retry_counted_def
proof (rule exhausted_good, rule finished_good [OF good])
  fix x db'
  assume "entry_of db j = Some x" "gw_status x = IN_FLIGHT" "Inr (mark_retry now jitter j error True r maybe db) = Inr db'"
  then show "good db' ps gp freed" using mark_retry_good [OF good] e said by auto
qed

lemma fail_and_tell_good:
  assumes good: "good db ps gp freed" and e: "entry_of db j = Some e"
    and said: "gw_maybe_in_gp e \<or> maybe \<or> gp_answer db (gw_idempotency_key e) \<noteq> None \<or> row_unposted ps gp freed e"
    and refused: "kind = ''gp_rejected'' \<Longrightarrow> row_unposted ps gp freed e"
  shows "good (fail_and_tell now j kind error maybe db) ps gp freed"
  unfolding fail_and_tell_def
  by (rule notify_failure_good, rule finished_good [OF good]) (use mark_failed_good [OF good e said refused] in blast)

lemma told_good:
  assumes "good db ps gp freed" and "entry_of db j = Some e"
  shows "good (retry_counted now jitter j error r True db) ps gp freed"
    and "kind \<noteq> ''gp_rejected'' \<Longrightarrow> good (fail_and_tell now j kind error True db) ps gp freed"
  using retry_counted_good [OF assms] fail_and_tell_good [OF assms] by blast+

lemma unposted_good:
  assumes "good db ps gp freed" and "entry_of db j = Some e" and "row_unposted ps gp freed e"
  shows "good (retry_counted now jitter j error r maybe db) ps gp freed" and "good (fail_and_tell now j kind error maybe db) ps gp freed"
  using retry_counted_good [OF assms(1,2)] fail_and_tell_good [OF assms(1,2)] assms(3) by blast+

lemma finish_succeeded_good:
  assumes good: "good db ps gp freed"
  shows "good (finish_succeeded now j db) ps gp freed"
proof (cases "entry_of db j")
  case (Some e)
  have "ties (mark_succeeded now j db) ps gp freed" unfolding mark_succeeded_def
    by (rule set_entry_ties [OF good Some]) (simp_all add: same_receipt_def told_def unfinished_def)
  then show ?thesis using good mark_succeeded_desk [OF good_parts(1) [OF good]] Some by (simp add: finish_succeeded_def good_def)
qed (use good in \<open>simp add: finish_succeeded_def\<close>)

section \<open>The worker\<close>

lemma claim_next_row:
  assumes good: "good db ps gp freed" and take: "claim_next now company db = (Some j, db1)" and e: "entry_of db1 j = Some e"
  shows "good db1 ps gp freed" and "gw_status e = IN_FLIGHT"
    and "gw_maybe_in_gp e \<or> gp_answer db1 (gw_idempotency_key e) \<noteq> None \<or> row_unposted ps gp freed e"
proof -
  let ?f = "\<lambda>e. e\<lparr>gw_status := IN_FLIGHT\<rparr>"
  from take obtain x where x: "x \<in> set (gp_write_outbox db)" "gw_id x = j" "gw_status x = QUEUED" and db1: "db1 = set_entry now j ?f db"
    by (auto simp: claim_next_def Let_def claimable_def find_Some_iff split: option.splits dest!: nth_mem)
  have row: "entry_of db j = Some x" using x desk_entry [OF good_parts(1) [OF good]] by blast
  have "entry_of db1 j = Some ((?f x)\<lparr>gw_updated_at := now\<rparr>)"
    using row entry_of_set [of ?f now j db j] x(3) by (auto simp: db1 same_receipt_def dest!: arg_cong [where f = gw_status])
  then have e': "e = (?f x)\<lparr>gw_updated_at := now\<rparr>" using e by simp
  show "gw_status e = IN_FLIGHT" by (simp add: e')
  have "gp_answer db1 = gp_answer db" by (auto simp: db1 gp_answer_def ledger_of_def set_entry_def)
  then show "gw_maybe_in_gp e \<or> gp_answer db1 (gw_idempotency_key e) \<noteq> None \<or> row_unposted ps gp freed e"
    using good_row(3) [OF good row] x(3) by (auto simp: e' told_def row_unposted_def)
  have "ties db1 ps gp freed" unfolding db1
    by (rule set_entry_ties [OF good row]) (simp_all add: same_receipt_def told_def unfinished_def x(3))
  then show "good db1 ps gp freed" using claim_next_desk [OF good_parts(1) [OF good] take] by (simp add: good_def)
qed

lemma sent_good:
  assumes good: "good db ps gp freed" and e: "entry_of db j = Some e" "gw_status e = IN_FLIGHT"
  shows "good db ps (insert (gw_idempotency_key e) gp) freed"
proof -
  note mem = good_row [OF good e(1)]
  have "row_ok ps e" using good mem(1) by (simp add: good_def desk_ok_def)
  moreover have "\<forall>i. bound ps freed (gw_idempotency_key e) i \<longrightarrow> under db i (gw_idempotency_key e)"
    using good mem(1) e(2) by (simp add: good_def ties_def rows_wanted_def unfinished_def)
  ultimately have "ties db ps (insert (gw_idempotency_key e) gp) freed"
    using mem(5) e(2) by (intro ties_insert [OF good_parts(2) [OF good]]) (auto simp: row_ok_def told_def)
  then show ?thesis using good by (simp add: good_def)
qed

lemma drain_book_good:
  assumes good: "good db ps gp freed" and e: "entry_of db j = Some e"
  shows "good (drain_book words now jitter e receipt db) ps gp freed"
proof -
  note mem = good_row [OF good e]
  have "row_ok ps e" using good mem(1) by (simp add: good_def desk_ok_def)
  then obtain i where i: "gw_receive_draft_id e = Some i" "ps (gw_idempotency_key e) = Some (i, gw_po_id e, gw_line_items e)"
    by (auto simp: row_ok_def)
  have "good db' ps gp freed" if "persist_create_receive now (gw_idempotency_key e) (Some i) (gw_po_id e) (gw_received_by e)
      (gw_line_items e) (gw_warehouse_id e) receipt db = Inr (r, db')" for r db'
    using book_good [OF good i(2) that] .
  then show ?thesis using mem(2) i(1) finish_succeeded_good told_good [OF good e]
    by (auto simp: drain_book_def split: sum.split)
qed

lemma asked_again_good:
  assumes good: "good db ps gp freed" and e: "entry_of db j = Some e"
  shows "good (asked_again now jitter e error r db) ps gp freed"
  using good_row(2) [OF good e] told_good [OF good e] by (simp add: asked_again_def)

lemma drain_send_good:
  assumes good: "good db ps gp freed" and e: "entry_of db j = Some e" "gw_status e = IN_FLIGHT"
    and said: "gw_maybe_in_gp e \<or> gp_answer db (gw_idempotency_key e) \<noteq> None \<or> row_unposted ps gp freed e"
    and honest: "gp_answer db (gw_idempotency_key e) = None \<Longrightarrow> \<not> misleads_worker outcome (gw_idempotency_key e) gp gp'"
    and relay: "if gp_answer db (gw_idempotency_key e) = None then relay_answers outcome (gw_idempotency_key e) gp gp' else gp' = gp"
  shows "good (drain_send words now jitter e outcome db) ps gp' freed"
proof (cases "gp_answer db (gw_idempotency_key e)")
  case (Some receipt)
  then show ?thesis using relay drain_book_good [OF good e(1)] by (simp add: drain_send_def)
next
  case None
  let ?key = "gw_idempotency_key e"
  have relay: "relay_answers outcome ?key gp gp'" using relay None by simp
  note id = good_row(2) [OF good e(1)]
  have good': "good db ps gp' freed" if "gp' = gp \<or> gp' = insert ?key gp" using that good sent_good [OF good e] by blast
  show ?thesis
  proof (cases outcome)
    case (POSTED receipt)
    then have "good (record_relay_result ?key receipt db) ps gp' freed"
      using relay good' good_upsert by (simp add: record_relay_result_def)
    moreover have "entry_of (record_relay_result ?key receipt db) j = Some e" using e(1) by (simp add: entry_of_def record_relay_result_def)
    ultimately show ?thesis using None POSTED drain_book_good by (simp add: drain_send_def)
  next
    case (RELAY_REFUSED code error)
    show ?thesis
    proof (cases "transient_relay_error code")
      case True
      show ?thesis
      proof (cases "may_have_committed code")
        case True
        then have "good db ps gp' freed" using relay RELAY_REFUSED good' by simp
        then show ?thesis using None RELAY_REFUSED \<open>transient_relay_error code\<close> True id told_good [OF _ e(1)]
          by (simp add: drain_send_def Let_def)
      next
        case False
        then have "gp' = gp" using relay RELAY_REFUSED honest [OF None] True by (auto simp: misleads_worker_def)
        moreover have "good (retry_counted now jitter j error None maybe db) ps gp freed" for maybe
          using retry_counted_good [OF good e(1)] said by blast
        ultimately show ?thesis using None RELAY_REFUSED True False id told_good [OF good e(1)]
          by (simp add: drain_send_def Let_def)
      qed
    next
      case False
      then have "\<not> may_have_committed code" by (auto simp: transient_relay_error_def may_have_committed_def)
      then have "gp' = gp" "row_unposted ps gp freed e"
        using relay RELAY_REFUSED False honest [OF None] by (auto simp: row_unposted_def misleads_worker_def)
      then show ?thesis using None RELAY_REFUSED False id unposted_good [OF good e(1)] by (simp add: drain_send_def)
    qed
  next
    case (RELAY_TOO_OLD error)
    moreover have "good (retry_counted now jitter j error None False db) ps gp freed"
      using retry_counted_good [OF good e(1)] said by blast
    ultimately show ?thesis using relay None id by (simp add: drain_send_def)
  next
    case (RELAY_TIMED_OUT error)
    then show ?thesis using relay None good' asked_again_good [OF _ e(1)] by (simp add: drain_send_def)
  next
    case (RELAY_UNAVAILABLE dispatched error)
    show ?thesis
    proof (cases dispatched)
      case True
      then show ?thesis using RELAY_UNAVAILABLE relay None good' asked_again_good [OF _ e(1)] by (simp add: drain_send_def)
    next
      case False
      then have same: "gp' = gp" using RELAY_UNAVAILABLE relay by simp
      have "good (snd (finished j IN_FLIGHT (\<lambda>db. Inr (mark_retry now jitter j error False (Some POLL_DELAY) False db)) db)) ps gp freed"
        by (rule finished_good [OF good]) (use mark_retry_good [OF good e] said in auto)
      then show ?thesis using RELAY_UNAVAILABLE None False same id by (simp add: drain_send_def)
    qed
  qed
qed

lemma drain_good:
  assumes good: "good db ps gp freed" and e: "entry_of db j = Some e" "gw_status e = IN_FLIGHT"
    and said: "gw_maybe_in_gp e \<or> gp_answer db (gw_idempotency_key e) \<noteq> None \<or> row_unposted ps gp freed e"
    and honest: "drain_sends e db \<Longrightarrow> \<not> misleads_worker outcome (gw_idempotency_key e) gp gp'"
    and relay: "if drain_sends e db then relay_answers outcome (gw_idempotency_key e) gp gp' else gp' = gp"
  shows "good (drain_one words now jitter j outcome db) ps gp' freed"
proof (cases "ledger_settled db (gw_idempotency_key e)")
  case (Some s)
  then show ?thesis using relay e(1) finish_succeeded_good [OF good] by (simp add: drain_one_def drain_sends_def)
next
  case None
  let ?new = "gw_attempts e = 0 \<and> \<not> gw_maybe_in_gp e \<and> gp_answer db (gw_idempotency_key e) = None"
  let ?check = "prepare_create_receive db (gw_po_id e) (gw_received_by e) (gw_line_items e) (gw_warehouse_id e)"
  show ?thesis
  proof (cases "?new \<and> raised ?check")
    case True
    then obtain err where err: "?check = Inl err" by (auto simp: raised_def split: sum.splits)
    have "gp' = gp" "row_unposted ps gp freed e" using True relay said by (auto simp: drain_sends_def)
    then show ?thesis using None True err e(1) unposted_good [OF good e(1)] by (simp add: drain_one_def)
  next
    case False
    have answers: "if gp_answer db (gw_idempotency_key e) = None then relay_answers outcome (gw_idempotency_key e) gp gp' else gp' = gp"
      using relay None False by (auto simp: drain_sends_def split: if_splits)
    have "gp_answer db (gw_idempotency_key e) = None \<Longrightarrow> \<not> misleads_worker outcome (gw_idempotency_key e) gp gp'"
      using honest None False by (auto simp: drain_sends_def)
    from drain_send_good [OF good e said this answers] have "good (drain_send words now jitter e outcome db) ps gp' freed" .
    then show ?thesis using None False e(1)
      by (auto simp: drain_one_def raised_def split: sum.split)
  qed
qed

lemma drain_misled_good:
  assumes good: "good db ps gp freed" and e: "entry_of db j = Some e" "gw_status e = IN_FLIGHT" and sends: "drain_sends e db"
    and wrong: "wrong_no outcome (gw_idempotency_key e) gp'" and relay: "relay_answers outcome (gw_idempotency_key e) gp gp'"
  shows "good (drain_one words now jitter j outcome db) ps gp' (pressed_for ps (gw_idempotency_key e) \<union> freed)"
proof -
  let ?key = "gw_idempotency_key e"
  let ?gp = "gp' - {?key}" and ?freed = "pressed_for ps ?key \<union> freed"
  have key: "gp' = insert ?key ?gp" and sub: "?gp \<subseteq> gp" using wrong relay by (cases outcome; auto)+
  have few: "good db ps ?gp ?freed" using good_fewer [OF good sub] by blast
  have sent: "good (drain_one words now jitter j outcome db) ps ?gp ?freed"
    by (rule drain_good [OF few e]) (use wrong_no_answers [OF wrong, of ?gp] sends in \<open>auto simp: row_unposted_def misleads_worker_def\<close>)
  have "row_ok ps e" using good good_row(1) [OF good e(1)] by (simp add: good_def desk_ok_def)
  then obtain i po lines where "ps ?key = Some (i, po, lines)" by (auto simp: row_ok_def)
  then have "good (drain_one words now jitter j outcome db) ps (insert ?key ?gp) ?freed"
    by (intro good_let_go [OF sent]) (auto simp: pressed_for_def)
  then show ?thesis using key by simp
qed

section \<open>The rest of the queue\<close>

lemma recover_good:
  assumes good: "good db ps gp freed" and run: "recover_in_flight now db = (js, db')"
  shows "good db' ps gp freed"
proof -
  have db': "db' = db\<lparr>gp_write_outbox := map (recovered now) (gp_write_outbox db)\<rparr>" using run by (simp add: recover_in_flight_def)
  have "ties db' ps gp freed" unfolding db'
    by (rule ties_map_entry [OF good_parts(2) [OF good]]) (auto simp: recovered_def same_receipt_def told_def unfinished_def split: if_splits)
  then show ?thesis using recover_desk [OF good_parts(1) [OF good] run] by (simp add: good_def)
qed

lemma retry_good:
  assumes good: "good db ps gp freed" and run: "retry_entry now j db = Inr (r, db')"
  shows "good db' ps gp freed"
proof (cases "db' = db")
  case False
  let ?f = "\<lambda>e. e\<lparr>gw_status := QUEUED, gw_attempts := 0, gw_next_attempt_at := now, gw_failure_kind := None\<rparr>"
  from run False obtain e where e: "entry_of db j = Some e" and st: "gw_status e = WRITE_FAILED \<or> gw_status e = WRITE_CANCELLED"
    and here: "\<not> receipt_moved_on db e" and db': "db' = set_entry now j ?f db"
    by (auto simp: retry_entry_def ensure_eq_Inr retry_refused_def split: option.splits if_splits)
  note mem = good_row [OF good e]
  have "row_ok ps e" using good mem(1) by (simp add: good_def desk_ok_def)
  then obtain i where i: "gw_receive_draft_id e = Some i" "ps (gw_idempotency_key e) = Some (i, gw_po_id e, gw_line_items e)"
    by (auto simp: row_ok_def)
  then obtain d where d: "find_row rd_id i (receive_drafts db) = Some d"
    and waits: "rd_approved_outbox_entry_id d = Some j \<or> in_flight_status (rd_status d) \<and> rd_approval_idempotency_key d = Some (gw_idempotency_key e)"
    using here mem(2) by (auto simp: receipt_moved_on_def draft_moved_on_def split: option.splits)
  have dm: "d \<in> set (receive_drafts db)" "rd_id d = i" using find_row_Some [OF d] by auto
  note fine = good_draft [OF good dm(1)]
  have "in_flight_status (rd_status d) \<and> rd_approval_idempotency_key d = Some (gw_idempotency_key e)"
    using waits fine mem(1,2) by (cases "rd_status d") (auto simp: link_ok_def draft_ok_def in_flight_status_def)
  then have "under db i (gw_idempotency_key e)" using dm by (auto simp: under_def)
  then have under: "bound ps freed (gw_idempotency_key e) k \<Longrightarrow> under db k (gw_idempotency_key e)" for k using i(2) by (auto simp: bound_def)
  have "ties db' ps gp freed" unfolding db'
    by (rule set_entry_ties [OF good e]) (use under mem(3) st in \<open>auto simp: same_receipt_def told_def\<close>)
  then show ?thesis using retry_entry_desk [OF good_parts(1) [OF good] run] by (simp add: good_def)
qed (use good in simp)

lemma cancel_good:
  assumes good: "good db ps gp freed" and run: "cancel_entry now j db = Inr (r, db')"
  shows "good db' ps gp freed"
  using run
proof (cases rule: cancel_Inr)
  case 1
  then show ?thesis using good by simp
next
  case (2 e took)
  let ?db = "if took then stamp_result_id (gw_idempotency_key e) None LET_GO db else db"
  have good': "good ?db ps gp freed" using good good_upsert [OF good] by (simp add: stamp_result_id_def)
  have e: "entry_of ?db j = Some e" using 2(1) by (simp add: entry_of_def stamp_result_id_def)
  have said: "gw_maybe_in_gp e \<or> gp_answer ?db (gw_idempotency_key e) \<noteq> None \<or> row_unposted ps gp freed e"
    using good_row(3) [OF good' e] 2(2) by (auto simp: told_def)
  show ?thesis
    by (rule end_entry_good [OF good' e _ _ _ _ 2(5)])
      (use said in \<open>auto simp: same_receipt_def unfinished_def told_def outbox_entry_never_reached_gp_def
        refused_after_its_key_was_looked_up_def\<close>)
qed

section \<open>One receipt for a count\<close>

lemma gp_step_ok:
  assumes "gp_step s t" and "gp_ok s"
  shows "gp_ok t"
  using assms
proof (induction rule: gp_step.induct)
  case (approve now i user name key exp s ctx db1 feature outcome gp' a db')
  have good: "good (desk_db s) (desk_presses s) (desk_gp s) (desk_freed s \<union> desk_misled s)" using approve.prems by (simp add: gp_ok_def)
  note facts = claim_good [OF good approve.hyps(1,2)]
  note claimed = claim_claimed [OF good_parts(1) [OF good] approve.hyps(1)]
  show ?case
  proof (cases "approval_sends key ctx feature db1 \<and> wrong_no outcome key gp'")
    case True
    then show ?thesis using misled_good [OF facts(1) claimed _ _ _ approve.hyps(4)] approve.hyps(3) by (simp add: gp_ok_def)
  next
    case False
    then show ?thesis using approve_good [OF facts(1) claimed facts(2) _ approve.hyps(3,4)] by (auto simp: gp_ok_def)
  qed
next
  case (approval_dies now i user name key exp s ctx db1 gp' db' receipt)
  have good: "good (desk_db s) (desk_presses s) (desk_gp s) (desk_freed s \<union> desk_misled s)" using approval_dies.prems by (simp add: gp_ok_def)
  note facts = claim_good [OF good approval_dies.hyps(1,2)]
  note posted = post_good [OF facts(1) claim_claimed [OF good_parts(1) [OF good] approval_dies.hyps(1)]]
  show ?case using approval_dies.hyps(3) facts(1) posted good_upsert [OF posted] by (auto simp: gp_ok_def record_relay_result_def)
next
  case (drain now company s j db1 e outcome gp' words jitter)
  have good: "good (desk_db s) (desk_presses s) (desk_gp s) (desk_freed s \<union> desk_misled s)" using drain.prems by (simp add: gp_ok_def)
  note row = claim_next_row [OF good drain.hyps(1,2)]
  show ?case
  proof (cases "drain_sends e db1 \<and> misleads_worker outcome (gw_idempotency_key e) (desk_gp s) gp'")
    case True
    then show ?thesis using drain_misled_good [OF row(1) drain.hyps(2) row(2)] drain.hyps(3)
      by (simp add: gp_ok_def misleads_worker_def Un_left_commute)
  next
    case False
    then show ?thesis using drain_good [OF row(1) drain.hyps(2) row(2,3) _ drain.hyps(3)] by (auto simp: gp_ok_def)
  qed
next
  case (drain_dies now company s j db1 e gp' db' receipt)
  have good: "good (desk_db s) (desk_presses s) (desk_gp s) (desk_freed s \<union> desk_misled s)" using drain_dies.prems by (simp add: gp_ok_def)
  note row = claim_next_row [OF good drain_dies.hyps(1,2)]
  note sent = sent_good [OF row(1) drain_dies.hyps(2) row(2)]
  show ?case using drain_dies.hyps(3) row(1) sent good_upsert [OF sent] by (auto simp: gp_ok_def record_relay_result_def)
qed (auto simp: gp_ok_def intro: create_draft_good reworked_good update_draft_reworked resubmit_draft_reworked reject_draft_reworked
  good_parts delete_draft_good release_held_good recover_good retry_good cancel_good)

lemma gp_reach_ok: "gp_step\<^sup>*\<^sup>* s t \<Longrightarrow> gp_ok s \<Longrightarrow> gp_ok t"
  by (induction rule: rtranclp_induct) (auto intro: gp_step_ok)

lemma opens_gp_ok: "opens db \<Longrightarrow> gp_ok \<lparr>desk_db = db, desk_presses = Map.empty, desk_gp = {}, desk_freed = {}, desk_misled = {}\<rparr>"
  using opens_ok [of db] by (simp add: gp_ok_def good_def ties_def posted_ok_def rows_told_def rows_wanted_def opens_def)

abbreviation gp_start :: "db \<Rightarrow> desk" where
  "gp_start db \<equiv> \<lparr>desk_db = db, desk_presses = Map.empty, desk_gp = {}, desk_freed = {}, desk_misled = {}\<rparr>"

text \<open>
  C4. GP never takes two receipts for one count. Whatever the attempts of approvals and of the worker meet - a refusal of
  any code, a timeout, a link lost on the way out or back, a process that dies at any point, a key approved again, a
  queued receipt retried, cancelled or recovered - two keys that both have a receipt in GP and were pressed for the same
  draft are the same key, and the draft is still held under it. Two things alone can break that, and both are named: a
  manager who let the draft go by hand, and a relay that said no, with any code but an internal error, of a key GP already
  held a receipt under (C20 is such a case). Attempts run to their end, or die, one at a time.
\<close>

theorem one_receipt_per_count:
  assumes "opens db" and "gp_step\<^sup>*\<^sup>* (gp_start db) s"
    and "k1 \<in> desk_gp s" "desk_presses s k1 = Some (i, po1, lines1)"
    and "k2 \<in> desk_gp s" "desk_presses s k2 = Some (i, po2, lines2)"
    and "i \<notin> desk_freed s" and "i \<notin> desk_misled s"
  shows "k1 = k2 \<and> (\<exists>d \<in> set (receive_drafts (desk_db s)). rd_id d = i \<and> in_flight_status (rd_status d) \<and>
    rd_approval_idempotency_key d = Some k1)"
proof -
  have ok: "gp_ok s" using gp_reach_ok [OF assms(2) opens_gp_ok [OF assms(1)]] .
  then have good: "good (desk_db s) (desk_presses s) (desk_gp s) (desk_freed s \<union> desk_misled s)" by (simp add: gp_ok_def)
  have "under (desk_db s) i k" if "k \<in> desk_gp s" "desk_presses s k = Some (i, po, lines)" for k po lines
    using good that assms(7,8) by (auto simp: good_def ties_def posted_ok_def bound_def)
  then have "under (desk_db s) i k1" "under (desk_db s) i k2" using assms(3-6) by blast+
  moreover have "x = y" if "x \<in> set (receive_drafts (desk_db s))" "y \<in> set (receive_drafts (desk_db s))" "rd_id x = rd_id y" for x y
    using that good_parts(3) [OF good] by (metis distinct_map inj_on_def)
  ultimately show ?thesis unfolding under_def by (metis option.inject)
qed

text \<open>The receipt of a press reached GP and the process died before it knew: the count stays held under that press.\<close>

theorem one_receipt_per_count_witness:
  "\<exists>s. gp_step\<^sup>*\<^sup>* (gp_start desk_start) s \<and> desk_gp s = {''k1''} \<and>
    (\<exists>d \<in> set (receive_drafts (desk_db s)). rd_id d = 100 \<and> in_flight_status (rd_status d) \<and> rd_approval_idempotency_key d = Some ''k1'')"
proof -
  let ?s = "(gp_start desk_start)\<lparr>desk_db := snd desk_counted\<rparr>"
  let ?t = "?s\<lparr>desk_db := snd desk_claimed, desk_presses := Map.empty(''k1'' \<mapsto> context_press (fst desk_claimed)), desk_gp := {''k1''}\<rparr>"
  have "gp_step (gp_start desk_start) ?s" by (rule gp_step.submit) (simp, rule desk_runs(1))
  moreover have "gp_step ?s ?t"
    using gp_step.approval_dies [of 6 100 "''u2''" "''mia''" "''k1''" None ?s "fst desk_claimed" "snd desk_claimed" "{''k1''}" "snd desk_claimed"]
      desk_runs(2) by simp
  ultimately have path: "gp_step\<^sup>*\<^sup>* (gp_start desk_start) ?t" by (meson converse_rtranclp_into_rtranclp rtranclp.rtrancl_refl)
  from one_receipt_per_count [OF desk_opens path, of "''k1''" 100 10 "desk_count 3" "''k1''" 10 "desk_count 3"]
  have "\<exists>d \<in> set (receive_drafts (desk_db ?t)). rd_id d = 100 \<and> in_flight_status (rd_status d) \<and> rd_approval_idempotency_key d = Some ''k1''"
    by (simp add: desk_press)
  then show ?thesis using path by (intro exI [of _ ?t]) simp
qed

end
