(* ===== verification/Spec2Isabelle.thy ===== *)
theory Spec2Isabelle
  imports CancellingFacts ShipmentLife StockFacts OneReceipt
begin

text \<open>
UC Nexus: the warehouse and shipping operations, and the theorems that make them correct.

  WHAT IS MODELLED. The backend (\<open>backend/app\<close>) is a GraphQL service over a relational database. Its
  rules live in \<open>app/repositories\<close>: every mutation is one repository function run in one
  transaction, which either commits what it wrote or raises and leaves the database alone. The
  development translates those functions for the path a piece of hardware takes: it lies on a shelf, is
  claimed by a request, pulled and picked, staged on the shipping floor, loaded into containers, shipped on a
  packing slip that rides a truck load, and may come back to the shelf or to the shared stock pool.

  THE PARTS AND HOW THEY MEET. The parts share the database and talk through it. A request
  (\<open>shipping_requests.py\<close>, \<open>shop_assembly_repository.py\<close>) claims stock through
  \<open>warehouse/reservations.py\<close> after asking the sufficiency gate of \<open>warehouse/pull_requests.py\<close>, and
  mints a pull. The pick flow spends the claim; a cancel restocks what was picked and hands the claim back to the
  request. A completed shipping-out pull feeds the staged pool of \<open>shipping_repository.py\<close>, which the
  containers and the packing slips draw on; a slip rides a load of \<open>shipment_loads.py\<close>; a return adds to
  the shelf or to the pool of \<open>stock/common.py\<close>. The floor's own operations (\<open>stock/\<close>,
  \<open>warehouse/locations.py\<close>, \<open>warehouse/inventory.py\<close>) move, count and condemn the units of
  both tables, under the same claims.

  THEORIES, with the code each follows (under \<open>src/backend/app\<close>; names are the code's own):
    Prelude: results that may raise, dictionaries, grouped sums, keyed tables, list surgery.
    Contracts: the interfaces as locales (a run that keeps an invariant, a fact no step undoes, a source of
      free numbers), proved once and instantiated by the components below.
    Tables: \<open>models/*.py\<close> and \<open>errors.py\<close>; enums, rows, the database, the CHECK constraints.
    Notices: \<open>services/notification_service.py\<close> and \<open>warehouse/audit.py\<close>.
    Reservations: \<open>warehouse/reservations.py\<close>, with its laws and the locale of a project's book of claims.
    Sufficiency: the availability arithmetic and creation gate of \<open>warehouse/pull_requests.py\<close>.
    Pulls: \<open>request_numbers.py\<close>, \<open>create_pull_for_request\<close>, the demo-company rules.
    Picking, PickingFacts: start, sheet, draft, confirm and complete of a pull.
    Cancelling, CancellingFacts: \<open>cancel_pull_request\<close> with the restock and the hand-back.
    ShopAssembly, ShopAssemblyFacts: requests, batches, dismissals.
    ShippingRequests: \<open>shipping_requests.py\<close> and the accept gate.
    StockPool: shelf labels, currencies, prices and the stock row of a key.
    Loads: \<open>shipment_loads.py\<close>. Shipments, ShipmentFacts: confirming, the truck's journey, returns.
    ShipmentLife: the life of a slip as an abstract ledger, which the shipment operations refine.
    Containers, ContainerFacts: \<open>shipment_containers.py\<close> and the photo rows.
    Shelves: \<open>warehouse/locations.py\<close>, the registry and a project row's place.
    Counts: the count corrections of \<open>warehouse/inventory.py\<close>.
    PoolRows: \<open>stock/common.py\<close>, \<open>stock/items.py\<close> and the merge of two shelf names.
    PoolMoves: \<open>stock/movements.py\<close>. Deficiency: \<open>stock/deficiency.py\<close>.
    Weights, FloorMoves, StockFacts: what those five guarantee together.
    Receiving, ReceivingFacts: \<open>warehouse/receiving.py\<close>, the pre-flight and the booking of a receipt.
    ReceiveDrafts: \<open>warehouse/receive_drafts.py\<close>, counts before their approval.
    GpQueue: the claims of that file and the ledger of \<open>services/gp_idempotency.py\<close>.
    GpOutbox: \<open>gp_outbox_repository.py\<close>, the queue of receipts on their way to the accounting system (GP).
    GpDrain: the approval in \<open>schemas/warehouse.py\<close> and the worker \<open>services/gp_outbox_worker.py\<close>.
    Desk, DeskClaims, DeskRows, DeskFacts: what the receiving desk keeps true, operation by operation, and the desk as
      a transition system (\<open>desk_step\<close>) whose steps are the transactions of those four theories.
    BookedCounts, Receipts: booked counts and received units over any run of the desk, and the promises made of them.
    GpTies, OneReceipt: GP's side of it, with attempts that may die at any point (\<open>gp_step\<close>), and what ties the keys GP
      holds a receipt under to the drafts and the queue.

  HOW THE CODE IS RENDERED. An ORM class is a record and a table a list of rows in insertion order; an
  unordered query is read in that order. A raise is \<open>Inl\<close> of an \<open>app_error\<close>, a commit \<open>Inr\<close> of the
  new database; row locks and the transaction are the atomicity of a call. The clock is the argument
  \<open>now\<close>, Toronto's date the argument \<open>today\<close>, a UUID the next value of a counter. A Python dict is an
  association list in insertion order and \<open>sorted\<close> is the stable \<open>sort_key\<close>. Python integers are
  unbounded, so quantities are \<open>int\<close>; the widths that do matter are those of database columns, which
  refuse a value with \<open>DataError\<close>. Costs are integers in units of the fifth decimal and exact prices
  are fractions; weights are exact hundredths of a pound. The SHA-1 of a schedule fingerprint is a parameter.
  Message texts are left out; the field and the shortfalls an error carries are kept.

  BOUNDS. No operation uses fuel. The one loop that is not structural, the walk past hand-typed
  packing-slip numbers, ends because each taken number stands for one value of the counter
  (\<open>walk_past_taken\<close>); every other recursion is on a list.

  WHAT THE LEMMAS SHOW. Claims stay covered by the shelf through batches, picks and cancels; a confirmed
  pick takes off each row what was entered and spends the pull's own claim only; a cancel puts back on every row
  what the pull took off it, in however many rounds, and leaves one claim; discarding undoes a batch; numbers handed out are free; a shipment takes
  from the staged pool what its cart lists and is accepted whenever it fits; nothing comes back more often
  than it left; and however the staging floor works, no more is placed than is staged and what is
  placed can ship. The shipment operations refine a ledger in which a slip is issued once and only
  moves forward. On the floor every count of units is a weighted sum over the two tables (\<open>weigh\<close>), and one
  lemma per operation says which weights it changes (\<open>moves\<close>): relocations change none, only a manager's
  override or a condemnation may uncover a claim, and the rows' constraints are never tripped. At the
  receiving desk one invariant (\<open>desk_ok\<close>) ties drafts, queue rows, claims and PO lines together; from a desk with no
  counts on it, any interleaving of its steps keeps received and claimed units within what was ordered, so whatever GP
  takes for a checked claim is booked, once, and stays booked. A press of Approve is fresh: two counts are never
  claimed under one key, which the screen's random keys are taken to give. With GP's set of keys beside it, and attempts
  run one at a time, GP ends with one receipt for a count unless a manager let it go by hand
  or the relay said no of a key GP held a receipt under (\<open>wrong_no\<close>); what an answer of the relay may mean for GP is
  \<open>relay_answers\<close>, in which a refusal of any code leaves both possible. The pool's keys stay unique as long as no
  receipt comes at a price its two roundings take different ways, and that is exactly when it splits a key. These runs
  hold the desk, the worker and the floor; what the mirror of GP's orders writes to a PO line meanwhile is not in them. The text
  above each numbered theorem states the property.

  NOT MODELLED. The GraphQL layer (types, converters, resolvers) and the dashboards only reshape what the
  repositories return. Purchase orders and their synchronisation with the accounting system, schedule import,
  and the relay that speaks to that system are other subsystems: an order is read here as the rows receiving
  looks at, and the relay's answer to a receipt is an argument. The write queue also carries registrations and
  job-site writes; only its receipts are modelled. The read-only screens of the stock (browse, usage, history, allocation targets) are left out, as is
  the overflow of an integer column by a quantity. Full-text search, photo upload, PDF
  rendering, authentication and concurrency beyond the transaction are outside the model.
\<close>

end
